(* ===== verification/Prelude.thy ===== *)
theory Prelude
  imports Main "HOL-Library.AList" "HOL-Library.Word"
begin

text \<open>
  Shared vocabulary of the development.

  \<^item> \<open>gerror\<close> and \<open>outcome\<close>: what a Go function of the daemon can hand back (a value, an
    \<open>error\<close>, a panic, or the end of the process by \<open>glog.Fatalf\<close>).
  \<^item> \<open>gomap\<close>: a Go map as an association list with distinct keys. The order of the list is the
    order in which one particular \<open>range\<close> loop visits the keys. Go leaves that order open, so
    the refinement lemmas of the components are stated over \<open>map_of\<close>, which forgets it.
  \<^item> \<open>reach\<close>: the states a deterministic labelled step function can get to, with a locale
    that turns a step-preserved predicate into an invariant of all reachable states.
  \<^item> string helpers that the daemon takes from \<open>strings\<close> and \<open>strconv\<close>.
\<close>

section \<open>Errors and outcomes\<close>

named_theorems gomap_simps \<open>rewriting Go map operations to updates of map_of\<close>
named_theorems outcome_intros \<open>introduction rules for successful runs\<close>

text \<open>
  The errors the daemon creates or passes on. \<open>Errorf\<close> is a message built by
  \<open>fmt.Errorf\<close>/\<open>errors.New\<close> (without the text of the errors it quotes), \<open>OSError\<close> an error of the operating system carrying the path
  concerned, \<open>KeyError\<close> the wrapper that \<open>kcache\<close> puts around a failing key function, and
  \<open>EventQueueStopped\<close> the error value of \<open>util/cache\<close>.
\<close>

datatype gerror = Errorf string | OSError string | KeyError gerror | EventQueueStopped

datatype 'a outcome =
    Ok 'a
  | Fail gerror
  | Panic string
  | Exit string

section \<open>Go maps\<close>

type_synonym ('k, 'v) gomap = "('k \<times> 'v) list"

abbreviation gm_wf :: "('k, 'v) gomap \<Rightarrow> bool" where
  "gm_wf m \<equiv> distinct (map fst m)"

abbreviation gm_keys :: "('k, 'v) gomap \<Rightarrow> 'k list" where
  "gm_keys m \<equiv> map fst m"

definition gm_get :: "('k, 'v) gomap \<Rightarrow> 'k \<Rightarrow> 'v option" where
  "gm_get m k = map_of m k"

definition gm_set :: "'k \<Rightarrow> 'v \<Rightarrow> ('k, 'v) gomap \<Rightarrow> ('k, 'v) gomap" where
  "gm_set k v m = AList.update k v m"

definition gm_del :: "'k \<Rightarrow> ('k, 'v) gomap \<Rightarrow> ('k, 'v) gomap" where
  "gm_del k m = AList.delete k m"

lemma gm_get_map_of [gomap_simps]: "gm_get m = map_of m"
  by (simp add: gm_get_def fun_eq_iff)

lemma map_of_gm_set [gomap_simps]: "map_of (gm_set k v m) = (map_of m)(k \<mapsto> v)"
  by (simp add: gm_set_def update_conv')

lemma map_of_gm_del [gomap_simps]: "map_of (gm_del k m) = (map_of m)(k := None)"
  by (simp add: gm_del_def delete_conv')

lemma gm_wf_set [simp, intro]: "gm_wf m \<Longrightarrow> gm_wf (gm_set k v m)"
  by (simp add: gm_set_def distinct_update)

lemma gm_wf_del [simp, intro]: "gm_wf m \<Longrightarrow> gm_wf (gm_del k m)"
  by (simp add: gm_del_def distinct_delete)

lemma gm_keys_set: "set (gm_keys (gm_set k v m)) = insert k (set (gm_keys m))"
proof -
  have "set (gm_keys (gm_set k v m)) = dom (map_of (gm_set k v m))"
    by (simp add: dom_map_of_conv_image_fst)
  then show ?thesis
    by (simp add: map_of_gm_set dom_map_of_conv_image_fst)
qed

lemma gm_keys_del: "set (gm_keys (gm_del k m)) = set (gm_keys m) - {k}"
proof -
  have "set (gm_keys (gm_del k m)) = dom (map_of (gm_del k m))"
    by (simp add: dom_map_of_conv_image_fst)
  then show ?thesis
    by (simp add: map_of_gm_del dom_map_of_conv_image_fst)
qed

lemma gm_key_iff: "k \<in> set (gm_keys m) \<longleftrightarrow> map_of m k \<noteq> None"
  by (simp add: map_of_eq_None_iff)

text \<open>Two representations of one map hold the same keys.\<close>

lemma gm_keys_cong: "map_of m = map_of m' \<Longrightarrow> set (gm_keys m) = set (gm_keys m')"
  by (metis dom_map_of_conv_image_fst list.set_map)

section \<open>Strings joined by a separator\<close>

lemma append_sep_inj:
  "c \<notin> set a \<Longrightarrow> c \<notin> set a' \<Longrightarrow> a @ c # b = a' @ c # b' \<longleftrightarrow> a = a' \<and> b = b'"
proof (induction a arbitrary: a')
  case Nil
  then show ?case by (cases a') auto
next
  case (Cons x a)
  then show ?case by (cases a') auto
qed

section \<open>Reachable states of a step function\<close>

text \<open>
  \<open>step s l\<close> is \<open>None\<close> where label \<open>l\<close> is not enabled in \<open>s\<close>. The machines of the
  components (event queue, rate limiter, whole daemon) are instances.
\<close>

inductive reach :: "('s \<Rightarrow> 'l \<Rightarrow> 's option) \<Rightarrow> 's \<Rightarrow> 's \<Rightarrow> bool"
  for step :: "'s \<Rightarrow> 'l \<Rightarrow> 's option" and init :: 's where
  reach_init: "reach step init init"
| reach_step: "reach step init s \<Longrightarrow> step s l = Some t \<Longrightarrow> reach step init t"

fun run_steps :: "('s \<Rightarrow> 'l \<Rightarrow> 's option) \<Rightarrow> 's \<Rightarrow> 'l list \<Rightarrow> 's option" where
  "run_steps step s [] = Some s"
| "run_steps step s (l # ls) =
     (case step s l of None \<Rightarrow> None | Some t \<Rightarrow> run_steps step t ls)"

lemma run_steps_append:
  "run_steps step s (xs @ ys) = (case run_steps step s xs of None \<Rightarrow> None | Some t \<Rightarrow> run_steps step t ys)"
  by (induction xs arbitrary: s) (auto split: option.splits)

lemma reach_run_steps:
  "reach step init s \<Longrightarrow> run_steps step s ls = Some t \<Longrightarrow> reach step init t"
  by (induction ls arbitrary: s) (auto split: option.splits intro: reach_step)

locale invariant_system =
  fixes step :: "'s \<Rightarrow> 'l \<Rightarrow> 's option"
    and init :: 's
    and inv :: "'s \<Rightarrow> bool"
  assumes inv_init: "inv init"
    and inv_step: "inv s \<Longrightarrow> step s l = Some t \<Longrightarrow> inv t"
begin

lemma inv_reach: "reach step init s \<Longrightarrow> inv s"
  by (induction rule: reach.induct) (auto intro: inv_init inv_step)

lemma inv_run: "inv s \<Longrightarrow> run_steps step s ls = Some t \<Longrightarrow> inv t"
  by (induction ls arbitrary: s) (auto split: option.splits intro: inv_step)

end

end
