(* ===== verification/Store.thy ===== *)
theory Store
  imports Prelude
begin

text \<open>
  The object store behind an event queue: \<open>pkg/client/cache\<close> of the vendored Kubernetes client
  (files \<open>store.go\<close> and \<open>thread_safe_store.go\<close> under \<open>Godeps\<close>).

  A Go interface value is a record of its methods (\<open>kstore\<close>); the contract that clients of a
  \<open>Store\<close> rely on is the locale \<open>kstore_laws\<close>; the daemon's only implementation is \<open>cache\<close>
  over a \<open>threadSafeMap\<close>, and \<open>cache_store\<close> packages its methods. \<open>NewStore\<close> passes the empty
  \<open>Indexers\<close> map, so \<open>updateIndices\<close> and \<open>deleteFromIndices\<close> loop over nothing and the index
  part of \<open>threadSafeMap\<close> stays empty: it is left out of the record. Every method holds the
  store's lock from entry to exit, so each is one atomic step.
\<close>

section \<open>The Store interface\<close>

type_synonym 'o KeyFunc = "'o \<Rightarrow> gerror + string"

record ('s, 'o) kstore =
  st_Add :: "'s \<Rightarrow> 'o \<Rightarrow> 's \<times> gerror option"
  st_Update :: "'s \<Rightarrow> 'o \<Rightarrow> 's \<times> gerror option"
  st_Delete :: "'s \<Rightarrow> 'o \<Rightarrow> 's \<times> gerror option"
  st_List :: "'s \<Rightarrow> 'o list"
  st_ListKeys :: "'s \<Rightarrow> string list"
  st_Get :: "'s \<Rightarrow> 'o \<Rightarrow> gerror + 'o option"
  st_GetByKey :: "'s \<Rightarrow> string \<Rightarrow> gerror + 'o option"
  st_Replace :: "'s \<Rightarrow> 'o list \<Rightarrow> string \<Rightarrow> 's \<times> gerror option"

text \<open>
  What a client may assume: \<open>abs\<close> reads the store as a partial map from keys to objects. On a
  failing key function a mutator reports the error and leaves the contents alone.
\<close>

fun keyed_map :: "'o KeyFunc \<Rightarrow> (string \<rightharpoonup> 'o) \<Rightarrow> 'o list \<Rightarrow> gerror + (string \<rightharpoonup> 'o)" where
  "keyed_map keyFn m [] = Inr m"
| "keyed_map keyFn m (obj # objs) =
     (case keyFn obj of
        Inl e \<Rightarrow> Inl e
      | Inr k \<Rightarrow> keyed_map keyFn (m(k \<mapsto> obj)) objs)"

locale kstore_laws =
  fixes S :: "('s, 'o) kstore"
    and keyFn :: "'o KeyFunc"
    and abs :: "'s \<Rightarrow> (string \<rightharpoonup> 'o)"
    and invar :: "'s \<Rightarrow> bool"
  assumes add_ok: "invar s \<Longrightarrow> keyFn obj = Inr k \<Longrightarrow>
        snd (st_Add S s obj) = None \<and> invar (fst (st_Add S s obj)) \<and>
        abs (fst (st_Add S s obj)) = (abs s)(k \<mapsto> obj)"
    and update_ok: "invar s \<Longrightarrow> keyFn obj = Inr k \<Longrightarrow>
        snd (st_Update S s obj) = None \<and> invar (fst (st_Update S s obj)) \<and>
        abs (fst (st_Update S s obj)) = (abs s)(k \<mapsto> obj)"
    and delete_ok: "invar s \<Longrightarrow> keyFn obj = Inr k \<Longrightarrow>
        snd (st_Delete S s obj) = None \<and> invar (fst (st_Delete S s obj)) \<and>
        abs (fst (st_Delete S s obj)) = (abs s)(k := None)"
    and get_ok: "invar s \<Longrightarrow> st_GetByKey S s k = Inr (abs s k)"
    and replace_ok: "invar s \<Longrightarrow> keyed_map keyFn Map.empty objs = Inr m \<Longrightarrow>
        snd (st_Replace S s objs rv) = None \<and> invar (fst (st_Replace S s objs rv)) \<and>
        abs (fst (st_Replace S s objs rv)) = m"
    and replace_err: "invar s \<Longrightarrow> keyed_map keyFn Map.empty objs = Inl e \<Longrightarrow>
        snd (st_Replace S s objs rv) \<noteq> None \<and> fst (st_Replace S s objs rv) = s"

section \<open>threadSafeMap\<close>

record 'o threadSafeMap =
  tsm_items :: "(string, 'o) gomap"

definition NewThreadSafeStore :: "'o threadSafeMap" where
  "NewThreadSafeStore = \<lparr>tsm_items = []\<rparr>"

definition tsm_Add :: "'o threadSafeMap \<Rightarrow> string \<Rightarrow> 'o \<Rightarrow> 'o threadSafeMap" where
  "tsm_Add c key obj = c\<lparr>tsm_items := gm_set key obj (tsm_items c)\<rparr>"

definition tsm_Update :: "'o threadSafeMap \<Rightarrow> string \<Rightarrow> 'o \<Rightarrow> 'o threadSafeMap" where
  "tsm_Update c key obj = c\<lparr>tsm_items := gm_set key obj (tsm_items c)\<rparr>"

definition tsm_Delete :: "'o threadSafeMap \<Rightarrow> string \<Rightarrow> 'o threadSafeMap" where
  "tsm_Delete c key =
     (case gm_get (tsm_items c) key of
        Some _ \<Rightarrow> c\<lparr>tsm_items := gm_del key (tsm_items c)\<rparr>
      | None \<Rightarrow> c)"

definition tsm_Get :: "'o threadSafeMap \<Rightarrow> string \<Rightarrow> 'o option" where
  "tsm_Get c key = gm_get (tsm_items c) key"

definition tsm_List :: "'o threadSafeMap \<Rightarrow> 'o list" where
  "tsm_List c = map snd (tsm_items c)"

definition tsm_ListKeys :: "'o threadSafeMap \<Rightarrow> string list" where
  "tsm_ListKeys c = map fst (tsm_items c)"

definition tsm_Replace ::
  "'o threadSafeMap \<Rightarrow> (string, 'o) gomap \<Rightarrow> string \<Rightarrow> 'o threadSafeMap" where
  "tsm_Replace c itms resourceVersion = c\<lparr>tsm_items := itms\<rparr>"

section \<open>cache: a Store that computes the keys\<close>

type_synonym 'o cache = "'o threadSafeMap"

definition cache_Add :: "'o KeyFunc \<Rightarrow> 'o cache \<Rightarrow> 'o \<Rightarrow> 'o cache \<times> gerror option" where
  "cache_Add keyFunc c obj =
     (case keyFunc obj of
        Inl err \<Rightarrow> (c, Some (KeyError err))
      | Inr key \<Rightarrow> (tsm_Add c key obj, None))"

definition cache_Update :: "'o KeyFunc \<Rightarrow> 'o cache \<Rightarrow> 'o \<Rightarrow> 'o cache \<times> gerror option" where
  "cache_Update keyFunc c obj =
     (case keyFunc obj of
        Inl err \<Rightarrow> (c, Some (KeyError err))
      | Inr key \<Rightarrow> (tsm_Update c key obj, None))"

definition cache_Delete :: "'o KeyFunc \<Rightarrow> 'o cache \<Rightarrow> 'o \<Rightarrow> 'o cache \<times> gerror option" where
  "cache_Delete keyFunc c obj =
     (case keyFunc obj of
        Inl err \<Rightarrow> (c, Some (KeyError err))
      | Inr key \<Rightarrow> (tsm_Delete c key, None))"

definition cache_GetByKey :: "'o cache \<Rightarrow> string \<Rightarrow> gerror + 'o option" where
  "cache_GetByKey c key = Inr (tsm_Get c key)"

definition cache_Get :: "'o KeyFunc \<Rightarrow> 'o cache \<Rightarrow> 'o \<Rightarrow> gerror + 'o option" where
  "cache_Get keyFunc c obj =
     (case keyFunc obj of
        Inl err \<Rightarrow> Inl (KeyError err)
      | Inr key \<Rightarrow> cache_GetByKey c key)"

fun collect_items ::
  "'o KeyFunc \<Rightarrow> (string, 'o) gomap \<Rightarrow> 'o list \<Rightarrow> gerror + (string, 'o) gomap" where
  "collect_items keyFunc acc [] = Inr acc"
| "collect_items keyFunc acc (item # list) =
     (case keyFunc item of
        Inl err \<Rightarrow> Inl (KeyError err)
      | Inr key \<Rightarrow> collect_items keyFunc (gm_set key item acc) list)"

definition cache_Replace ::
  "'o KeyFunc \<Rightarrow> 'o cache \<Rightarrow> 'o list \<Rightarrow> string \<Rightarrow> 'o cache \<times> gerror option" where
  "cache_Replace keyFunc c list resourceVersion =
     (case collect_items keyFunc [] list of
        Inl err \<Rightarrow> (c, Some err)
      | Inr itms \<Rightarrow> (tsm_Replace c itms resourceVersion, None))"

definition NewStore :: "'o cache" where
  "NewStore = NewThreadSafeStore"

definition cache_store :: "'o KeyFunc \<Rightarrow> ('o cache, 'o) kstore" where
  "cache_store keyFunc =
     \<lparr>st_Add = cache_Add keyFunc, st_Update = cache_Update keyFunc,
      st_Delete = cache_Delete keyFunc, st_List = tsm_List, st_ListKeys = tsm_ListKeys,
      st_Get = cache_Get keyFunc, st_GetByKey = cache_GetByKey,
      st_Replace = cache_Replace keyFunc\<rparr>"

section \<open>Keys of API objects\<close>

text \<open>
  What \<open>MetaNamespaceKeyFunc\<close> can find in its argument: a ready-made key, an object with
  metadata (namespace and name), or neither.
\<close>

datatype metaObject = ExplicitKey string | ObjectMeta string string | NoMeta

definition MetaNamespaceKeyFunc :: "metaObject \<Rightarrow> gerror + string" where
  "MetaNamespaceKeyFunc obj =
     (case obj of
        ExplicitKey key \<Rightarrow> Inr key
      | NoMeta \<Rightarrow> Inl (Errorf ''object has no meta'')
      | ObjectMeta namespace name \<Rightarrow>
          if length namespace > 0 then Inr (namespace @ ''/'' @ name) else Inr name)"

fun strings_Split :: "char \<Rightarrow> string \<Rightarrow> string list" where
  "strings_Split sep [] = [[]]"
| "strings_Split sep (c # cs) =
     (if c = sep then [] # strings_Split sep cs
      else (case strings_Split sep cs of
              [] \<Rightarrow> [[c]]
            | part # parts \<Rightarrow> (c # part) # parts))"

definition SplitMetaNamespaceKey :: "string \<Rightarrow> gerror + string \<times> string" where
  "SplitMetaNamespaceKey key =
     (case strings_Split (CHR ''/'') key of
        [name] \<Rightarrow> Inr ('''', name)
      | [namespace, name] \<Rightarrow> Inr (namespace, name)
      | _ \<Rightarrow> Inl (Errorf ''unexpected key format''))"

section \<open>The cache keeps the Store contract\<close>

definition cache_invar :: "'o cache \<Rightarrow> bool" where
  "cache_invar c \<longleftrightarrow> gm_wf (tsm_items c)"

definition cache_abs :: "'o cache \<Rightarrow> (string \<rightharpoonup> 'o)" where
  "cache_abs c = map_of (tsm_items c)"

lemmas cache_defs =
  cache_Add_def cache_Update_def cache_Delete_def cache_GetByKey_def cache_Replace_def
  tsm_Add_def tsm_Update_def tsm_Delete_def tsm_Get_def tsm_Replace_def

lemma collect_items_wf: "gm_wf acc \<Longrightarrow> collect_items keyFunc acc objs = Inr m \<Longrightarrow> gm_wf m"
  by (induction objs arbitrary: acc) (auto split: sum.splits)

lemma collect_items_Inr:
  "collect_items keyFunc acc objs = Inr m \<Longrightarrow> keyed_map keyFunc (map_of acc) objs = Inr (map_of m)"
  by (induction objs arbitrary: acc) (fastforce simp: map_of_gm_set split: sum.splits)+

lemma collect_items_Inl:
  "collect_items keyFunc acc objs = Inl e \<Longrightarrow> \<exists>e'. keyed_map keyFunc (map_of acc) objs = Inl e'"
  by (induction objs arbitrary: acc) (fastforce simp: map_of_gm_set split: sum.splits)+

lemma tsm_Delete_items: "map_of (tsm_items (tsm_Delete c key)) = (map_of (tsm_items c))(key := None)"
  by (auto simp: tsm_Delete_def gomap_simps fun_eq_iff split: option.splits)

lemma tsm_Delete_wf: "gm_wf (tsm_items c) \<Longrightarrow> gm_wf (tsm_items (tsm_Delete c key))"
  by (auto simp: tsm_Delete_def split: option.splits)

interpretation cs: kstore_laws "cache_store keyFunc" keyFunc cache_abs cache_invar
  for keyFunc :: "'o KeyFunc"
proof (unfold_locales, goal_cases)
  case (1 s obj k)
  then show ?case
    by (simp add: cache_store_def cache_abs_def cache_invar_def cache_Add_def tsm_Add_def gomap_simps)
next
  case (2 s obj k)
  then show ?case
    by (simp add: cache_store_def cache_abs_def cache_invar_def cache_Update_def tsm_Update_def
        gomap_simps)
next
  case (3 s obj k)
  then show ?case
    by (simp add: cache_store_def cache_abs_def cache_invar_def cache_Delete_def tsm_Delete_items
        tsm_Delete_wf)
next
  case (4 s k)
  then show ?case
    by (simp add: cache_store_def cache_abs_def cache_GetByKey_def tsm_Get_def gomap_simps)
next
  case (5 s objs m rv)
  then show ?case
    using collect_items_Inr [of keyFunc "[]" objs] collect_items_Inl [of keyFunc "[]" objs]
      collect_items_wf [of "[]" keyFunc objs]
    by (auto simp: cache_store_def cache_abs_def cache_invar_def cache_Replace_def tsm_Replace_def
        split: sum.splits)
next
  case (6 s objs e rv)
  then show ?case
    using collect_items_Inr [of keyFunc "[]" objs]
    by (auto simp: cache_store_def cache_Replace_def split: sum.splits)
qed

lemma NewStore_abs: "cache_abs NewStore = Map.empty"
  by (simp add: cache_abs_def NewStore_def NewThreadSafeStore_def)

lemma NewStore_invar: "cache_invar NewStore"
  by (simp add: cache_invar_def NewStore_def NewThreadSafeStore_def)

section \<open>Splitting a key undoes building it\<close>

lemma strings_Split_no_sep: "sep \<notin> set xs \<Longrightarrow> strings_Split sep xs = [xs]"
  by (induction xs) auto

lemma strings_Split_append:
  "sep \<notin> set xs \<Longrightarrow> strings_Split sep (xs @ sep # ys) = xs # strings_Split sep ys"
  by (induction xs) auto

lemma SplitMetaNamespaceKey_roundtrip:
  assumes "CHR ''/'' \<notin> set namespace" and "CHR ''/'' \<notin> set name"
    and "MetaNamespaceKeyFunc (ObjectMeta namespace name) = Inr key"
  shows "SplitMetaNamespaceKey key = Inr (namespace, name)"
  using assms
  by (cases "namespace = []")
    (auto simp: MetaNamespaceKeyFunc_def SplitMetaNamespaceKey_def strings_Split_no_sep
      strings_Split_append)

lemma SplitMetaNamespaceKey_roundtrip_witness:
  "SplitMetaNamespaceKey ''default/web'' = Inr (''default'', ''web'')"
proof -
  have "MetaNamespaceKeyFunc (ObjectMeta ''default'' ''web'') = Inr ''default/web''"
    by (simp add: MetaNamespaceKeyFunc_def)
  then show ?thesis
    by (rule SplitMetaNamespaceKey_roundtrip [rotated 2]) auto
qed

end
