(* ===== verification/EventQueue.thy ===== *)
theory EventQueue
  imports Store
begin

text \<open>
  \<open>util/cache/eventqueue.go\<close>: the compressing event queue between a Kubernetes reflector and
  the proxy controller.

  The first part translates the file: the two matrices, \<open>handleEvent\<close> with all its branches
  (key error, invalid transition, store error, add / compress / delete effect), \<open>Pop\<close> with its
  wait loop, \<open>Replace\<close> and the readers. The queue's store is an interface value, so every
  operation takes the method record \<open>S\<close>. Methods run under the queue's lock and are atomic.

  The last section holds the facts that need no ghost state: which branch each operation takes
  and what it returns there. The queue's promise to its consumer is the theory after this one.
\<close>

section \<open>Events and the two matrices\<close>

text \<open>\<open>NoEvent\<close> is the zero value of the string type \<open>watch.EventType\<close>.\<close>

datatype EventType = Added | Modified | Deleted | Error | NoEvent

datatype watchEventEffect =
  watchEventEffectAdd | watchEventEffectCompress | watchEventEffectDelete

fun watchEventEffectMatrix :: "EventType \<Rightarrow> EventType \<Rightarrow> watchEventEffect option" where
  "watchEventEffectMatrix Added Modified = Some watchEventEffectCompress"
| "watchEventEffectMatrix Added Deleted = Some watchEventEffectDelete"
| "watchEventEffectMatrix Modified Modified = Some watchEventEffectCompress"
| "watchEventEffectMatrix Modified Deleted = Some watchEventEffectCompress"
| "watchEventEffectMatrix _ _ = None"

fun watchEventCompressionMatrix :: "EventType \<Rightarrow> EventType \<Rightarrow> EventType option" where
  "watchEventCompressionMatrix Added Modified = Some Added"
| "watchEventCompressionMatrix Modified Modified = Some Modified"
| "watchEventCompressionMatrix Modified Deleted = Some Deleted"
| "watchEventCompressionMatrix _ _ = None"

fun event_str :: "EventType \<Rightarrow> string" where
  "event_str Added = ''ADDED''"
| "event_str Modified = ''MODIFIED''"
| "event_str Deleted = ''DELETED''"
| "event_str Error = ''ERROR''"
| "event_str NoEvent = ''''"

definition invalid_transition :: "EventType \<Rightarrow> EventType \<Rightarrow> string" where
  "invalid_transition a b =
     ''Invalid state transition: '' @ event_str a @ '' -> '' @ event_str b"

section \<open>The queue and its operations\<close>

record ('s, 'o) EventQueue =
  eq_store :: 's
  eq_keyFn :: "'o KeyFunc"
  eq_events :: "string \<rightharpoonup> EventType"
  eq_queue :: "string list"
  eq_lastReplaceKey :: string

definition NewEventQueueForStore :: "'o KeyFunc \<Rightarrow> 's \<Rightarrow> ('s, 'o) EventQueue" where
  "NewEventQueueForStore keyFn store =
     \<lparr>eq_store = store, eq_keyFn = keyFn, eq_events = Map.empty, eq_queue = [],
      eq_lastReplaceKey = ''''\<rparr>"

definition NewEventQueue :: "'o KeyFunc \<Rightarrow> ('o cache, 'o) EventQueue" where
  "NewEventQueue keyFn =
     \<lparr>eq_store = NewStore, eq_keyFn = keyFn, eq_events = Map.empty, eq_queue = [],
      eq_lastReplaceKey = ''''\<rparr>"

definition updateStore ::
  "('s, 'o) kstore \<Rightarrow> ('s, 'o) EventQueue \<Rightarrow> string \<Rightarrow> 'o \<Rightarrow> EventType
     \<Rightarrow> ('s, 'o) EventQueue \<times> gerror option" where
  "updateStore S eq key obj eventType =
     (if eventType = Deleted then (eq, None)
      else let (st, err) = (if eventType = Added then st_Add S (eq_store eq) obj
                            else st_Update S (eq_store eq) obj)
           in (eq\<lparr>eq_store := st\<rparr>, err))"

fun queueWithout :: "string list \<Rightarrow> string \<Rightarrow> string list" where
  "queueWithout [] key = []"
| "queueWithout (qkey # q) key =
     (if qkey = key then queueWithout q key else qkey # queueWithout q key)"

definition handleEvent ::
  "('s, 'o) kstore \<Rightarrow> ('s, 'o) EventQueue \<Rightarrow> 'o \<Rightarrow> EventType
     \<Rightarrow> ('s, 'o) EventQueue \<times> unit outcome" where
  "handleEvent S eq obj newEventType =
     (case eq_keyFn eq obj of
        Inl err \<Rightarrow> (eq, Fail err)
      | Inr key \<Rightarrow>
         (let queuedEventType = (case eq_events eq key of Some e \<Rightarrow> e | None \<Rightarrow> NoEvent) in
          case (case eq_events eq key of
                  None \<Rightarrow> Some watchEventEffectAdd
                | Some queued \<Rightarrow> watchEventEffectMatrix queued newEventType) of
            None \<Rightarrow> (eq, Panic (invalid_transition queuedEventType newEventType))
          | Some effect \<Rightarrow>
             (case updateStore S eq key obj newEventType of
                (eq1, Some err) \<Rightarrow> (eq1, Fail err)
              | (eq1, None) \<Rightarrow>
                 (case effect of
                    watchEventEffectAdd \<Rightarrow>
                      (eq1\<lparr>eq_events := (eq_events eq1)(key \<mapsto> newEventType),
                           eq_queue := eq_queue eq1 @ [key]\<rparr>, Ok ())
                  | watchEventEffectCompress \<Rightarrow>
                      (case watchEventCompressionMatrix queuedEventType newEventType of
                         None \<Rightarrow> (eq1, Panic (invalid_transition queuedEventType newEventType))
                       | Some e \<Rightarrow> (eq1\<lparr>eq_events := (eq_events eq1)(key \<mapsto> e)\<rparr>, Ok ()))
                  | watchEventEffectDelete \<Rightarrow>
                      (eq1\<lparr>eq_events := (eq_events eq1)(key := None),
                           eq_queue := queueWithout (eq_queue eq1) key\<rparr>, Ok ())))))"

definition eq_Add ::
  "('s, 'o) kstore \<Rightarrow> ('s, 'o) EventQueue \<Rightarrow> 'o \<Rightarrow> ('s, 'o) EventQueue \<times> unit outcome" where
  "eq_Add S eq obj = handleEvent S eq obj Added"

definition eq_Update ::
  "('s, 'o) kstore \<Rightarrow> ('s, 'o) EventQueue \<Rightarrow> 'o \<Rightarrow> ('s, 'o) EventQueue \<times> unit outcome" where
  "eq_Update S eq obj = handleEvent S eq obj Modified"

definition eq_Delete ::
  "('s, 'o) kstore \<Rightarrow> ('s, 'o) EventQueue \<Rightarrow> 'o \<Rightarrow> ('s, 'o) EventQueue \<times> unit outcome" where
  "eq_Delete S eq obj = handleEvent S eq obj Deleted"

text \<open>\<open>Cancel\<close> only wakes the waiters: it changes no field of the queue.\<close>

definition eq_Cancel :: "('s, 'o) EventQueue \<Rightarrow> ('s, 'o) EventQueue" where
  "eq_Cancel eq = eq"

fun list_loop ::
  "('s, 'o) kstore \<Rightarrow> 's \<Rightarrow> string list \<Rightarrow> 'o list outcome" where
  "list_loop S st [] = Ok []"
| "list_loop S st (key # keys) =
     (case st_GetByKey S st key of
        Inl err \<Rightarrow> Panic (''Failure to get by key '' @ key)
      | Inr None \<Rightarrow> Panic (''Tried to list an ID not in backing store: '' @ key)
      | Inr (Some item) \<Rightarrow>
          (case list_loop S st keys of
             Ok list \<Rightarrow> Ok (item # list)
           | other \<Rightarrow> other))"

definition eq_List :: "('s, 'o) kstore \<Rightarrow> ('s, 'o) EventQueue \<Rightarrow> 'o list outcome" where
  "eq_List S eq = list_loop S (eq_store eq) (eq_queue eq)"

text \<open>
  Go's \<open>copy(dst, src)\<close> overwrites the first \<open>min (len dst) (len src)\<close> elements of \<open>dst\<close>, and
  \<open>make([]string, 0, n)\<close> has length 0 (only its capacity is \<open>n\<close>).
\<close>

definition go_copy :: "'a list \<Rightarrow> 'a list \<Rightarrow> 'a list" where
  "go_copy dst src = take (min (length dst) (length src)) src @ drop (length src) dst"

definition eq_ListKeys :: "('s, 'o) EventQueue \<Rightarrow> string list" where
  "eq_ListKeys eq = go_copy [] (eq_queue eq)"

definition eq_ContainedIDs :: "('s, 'o) EventQueue \<Rightarrow> string set" where
  "eq_ContainedIDs eq = set (eq_queue eq)"

definition eq_GetByKey ::
  "('s, 'o) kstore \<Rightarrow> ('s, 'o) EventQueue \<Rightarrow> string \<Rightarrow> gerror + 'o option" where
  "eq_GetByKey S eq key =
     (case eq_events eq key of
        None \<Rightarrow> Inr None
      | Some _ \<Rightarrow> st_GetByKey S (eq_store eq) key)"

definition eq_Get :: "('s, 'o) kstore \<Rightarrow> ('s, 'o) EventQueue \<Rightarrow> 'o \<Rightarrow> gerror + 'o option" where
  "eq_Get S eq obj = (case eq_keyFn eq obj of Inl err \<Rightarrow> Inl err | Inr key \<Rightarrow> eq_GetByKey S eq key)"

text \<open>
  \<open>Pop\<close> after the wait loop, written as in the source: the test for an empty queue comes first
  although the wait loop has just established the contrary.
\<close>

definition pop_body ::
  "('s, 'o) kstore \<Rightarrow> ('s, 'o) EventQueue
     \<Rightarrow> ('s, 'o) EventQueue \<times> (EventType \<times> 'o) outcome" where
  "pop_body S eq =
     (case eq_queue eq of
        [] \<Rightarrow> (eq, Fail EventQueueStopped)
      | key # rest \<Rightarrow>
         (let eventType = (case eq_events eq key of Some e \<Rightarrow> e | None \<Rightarrow> NoEvent);
              eq1 = eq\<lparr>eq_queue := rest, eq_events := (eq_events eq)(key := None)\<rparr>;
              eq2 = (if eq_lastReplaceKey eq1 \<noteq> '''' \<and> eq_lastReplaceKey eq1 = key
                     then eq1\<lparr>eq_lastReplaceKey := ''''\<rparr> else eq1)
          in case st_GetByKey S (eq_store eq2) key of
               Inl err \<Rightarrow> (eq2, Fail err)
             | Inr None \<Rightarrow> (eq2, Panic (''Pop() of key not in store: '' @ key))
             | Inr (Some obj) \<Rightarrow>
                 if eventType = Deleted then
                   (case st_Delete S (eq_store eq2) obj of
                      (st, Some err) \<Rightarrow> (eq2\<lparr>eq_store := st\<rparr>, Fail err)
                    | (st, None) \<Rightarrow> (eq2\<lparr>eq_store := st\<rparr>, Ok (eventType, obj)))
                 else (eq2, Ok (eventType, obj))))"

text \<open>
  \<open>Pop\<close> with its \<open>for len(eq.queue) == 0 { eq.cond.Wait() }\<close>: the list holds the queue as the
  goroutine finds it at its first test and after each wake-up; \<open>None\<close> is "still waiting".
\<close>

fun eq_Pop ::
  "('s, 'o) kstore \<Rightarrow> ('s, 'o) EventQueue list
     \<Rightarrow> (('s, 'o) EventQueue \<times> (EventType \<times> 'o) outcome) option" where
  "eq_Pop S [] = None"
| "eq_Pop S (eq # wakeups) = (if eq_queue eq = [] then eq_Pop S wakeups else Some (pop_body S eq))"

fun replace_loop ::
  "'o KeyFunc \<Rightarrow> (string \<rightharpoonup> EventType) \<Rightarrow> string list \<Rightarrow> 'o list
     \<Rightarrow> (string \<rightharpoonup> EventType) \<times> string list \<times> gerror option" where
  "replace_loop keyFn evs q [] = (evs, q, None)"
| "replace_loop keyFn evs q (obj # objs) =
     (case keyFn obj of
        Inl err \<Rightarrow> (evs, q, Some err)
      | Inr key \<Rightarrow> replace_loop keyFn (evs(key \<mapsto> Modified)) (q @ [key]) objs)"

definition eq_Replace ::
  "('s, 'o) kstore \<Rightarrow> ('s, 'o) EventQueue \<Rightarrow> 'o list \<Rightarrow> string
     \<Rightarrow> ('s, 'o) EventQueue \<times> unit outcome" where
  "eq_Replace S eq objects resourceVersion =
     (case replace_loop (eq_keyFn eq) Map.empty [] objects of
        (evs, q, Some err) \<Rightarrow> (eq\<lparr>eq_events := evs, eq_queue := q\<rparr>, Fail err)
      | (evs, q, None) \<Rightarrow>
         (let eq1 = eq\<lparr>eq_events := evs, eq_queue := q\<rparr> in
          case st_Replace S (eq_store eq1) objects resourceVersion of
            (st, Some err) \<Rightarrow> (eq1\<lparr>eq_store := st\<rparr>, Fail err)
          | (st, None) \<Rightarrow>
              (eq1\<lparr>eq_store := st,
                   eq_lastReplaceKey := (if q \<noteq> [] then last q else '''')\<rparr>, Ok ())))"

definition eq_ListConsumed :: "('s, 'o) EventQueue \<Rightarrow> bool" where
  "eq_ListConsumed eq \<longleftrightarrow> eq_lastReplaceKey eq = ''''"

section \<open>What each branch does\<close>

lemma queueWithout_filter: "queueWithout q key = filter (\<lambda>x. x \<noteq> key) q"
  by (induction q) auto

lemma set_queueWithout [simp]: "set (queueWithout q key) = set q - {key}"
  by (auto simp: queueWithout_filter)

lemma distinct_queueWithout [simp]: "distinct q \<Longrightarrow> distinct (queueWithout q key)"
  by (simp add: queueWithout_filter)

lemma queueWithout_append: "queueWithout (p @ q) key = queueWithout p key @ queueWithout q key"
  by (simp add: queueWithout_filter)

lemma queueWithout_id: "key \<notin> set q \<Longrightarrow> queueWithout q key = q"
  by (induction q) auto

text \<open>The second matrix is defined wherever the first one asks for compression.\<close>

lemma compression_total:
  "watchEventEffectMatrix a b = Some watchEventEffectCompress \<Longrightarrow>
     \<exists>e. watchEventCompressionMatrix a b = Some e"
  by (cases a; cases b) auto

lemma effect_never_add: "watchEventEffectMatrix a b \<noteq> Some watchEventEffectAdd"
  by (cases a; cases b) auto

lemma effect_delete_iff:
  "watchEventEffectMatrix a b = Some watchEventEffectDelete \<longleftrightarrow> a = Added \<and> b = Deleted"
  by (cases a; cases b) auto

lemma compression_iff:
  "watchEventCompressionMatrix a b = Some e \<longleftrightarrow>
     a = Added \<and> b = Modified \<and> e = Added \<or> a = Modified \<and> b \<in> {Modified, Deleted} \<and> e = b"
  by (cases a; cases b) auto

lemma eq_Pop_waits: "\<forall>eq \<in> set eqs. eq_queue eq = [] \<Longrightarrow> eq_Pop S eqs = None"
  by (induction eqs) auto

lemma eq_Pop_wakes:
  "\<forall>eq \<in> set eqs. eq_queue eq = [] \<Longrightarrow> eq_queue eq \<noteq> [] \<Longrightarrow>
     eq_Pop S (eqs @ eq # rest) = Some (pop_body S eq)"
  by (induction eqs) auto

lemma eq_Pop_SomeD: "eq_Pop S eqs = Some r \<Longrightarrow> \<exists>eq \<in> set eqs. eq_queue eq \<noteq> [] \<and> r = pop_body S eq"
  by (induction eqs) (auto split: if_splits)

text \<open>The keys of a list of objects, when every object has one.\<close>

fun obj_keys :: "'o KeyFunc \<Rightarrow> 'o list \<Rightarrow> string list option" where
  "obj_keys keyFn [] = Some []"
| "obj_keys keyFn (obj # objs) =
     (case (keyFn obj, obj_keys keyFn objs) of
        (Inr k, Some ks) \<Rightarrow> Some (k # ks)
      | _ \<Rightarrow> None)"

lemma replace_loop_ok:
  "obj_keys keyFn objs = Some ks \<Longrightarrow>
     replace_loop keyFn evs q objs = (\<lambda>k. if k \<in> set ks then Some Modified else evs k, q @ ks, None)"
  by (induction objs arbitrary: evs q ks) (auto split: sum.splits option.splits simp: fun_eq_iff)

lemma replace_loop_err:
  "obj_keys keyFn objs = None \<Longrightarrow> \<exists>e. snd (snd (replace_loop keyFn evs q objs)) = Some e"
  by (induction objs arbitrary: evs q) (auto split: sum.splits option.splits)

lemma keyed_map_ok: "obj_keys keyFn objs = Some ks \<Longrightarrow> \<exists>m'. keyed_map keyFn m objs = Inr m'"
  by (induction objs arbitrary: m ks) (auto split: sum.splits option.splits)

lemma keyed_map_dom:
  "obj_keys keyFn objs = Some ks \<Longrightarrow> keyed_map keyFn m objs = Inr m' \<Longrightarrow> dom m' = dom m \<union> set ks"
proof (induction objs arbitrary: m ks)
  case Nil
  then show ?case by simp
next
  case (Cons obj objs)
  then obtain k ks' where k: "keyFn obj = Inr k" "obj_keys keyFn objs = Some ks'" "ks = k # ks'"
    by (auto split: sum.splits option.splits)
  from Cons.prems(2) k(1) have "keyed_map keyFn (m(k \<mapsto> obj)) objs = Inr m'" by simp
  with k(2) have "dom m' = dom (m(k \<mapsto> obj)) \<union> set ks'" by (rule Cons.IH)
  with k(3) show ?case by simp
qed

lemma keyed_map_keyed:
  assumes "\<And>k obj. m k = Some obj \<Longrightarrow> keyFn obj = Inr k" and "keyed_map keyFn m objs = Inr m'"
    and "m' k = Some obj"
  shows "keyFn obj = Inr k"
  using assms
proof (induction objs arbitrary: m)
  case Nil
  then show ?case by simp
next
  case (Cons x xs)
  then obtain k' where "keyFn x = Inr k'" "keyed_map keyFn (m(k' \<mapsto> x)) xs = Inr m'"
    by (auto split: sum.splits)
  note k' = this
  have "(m(k' \<mapsto> x)) j = Some y \<Longrightarrow> keyFn y = Inr j" for j y
    using Cons.prems(1) k'(1) by (auto split: if_splits)
  from Cons.IH [OF this k'(2) Cons.prems(3)] show ?case .
qed

end
