(* ===== verification/EventQueueSync.thy ===== *)
theory EventQueueSync
  imports EventQueue
begin

text \<open>
  What the event queue promises its consumer.

  A ghost system \<open>eq_sys\<close> pairs the queue with \<open>server\<close> (what the API server holds, as far as it has reported it),
  \<open>world\<close> (the part of it that the queue has accepted), \<open>view\<close> (what a consumer that applies the popped
  events knows) and \<open>pending\<close> (the keys of the last \<open>Replace\<close> still to be delivered). The step function
  takes one producer or consumer operation at a time; its guards are the watch protocol alone (an object is
  added when it is absent, and modified or deleted when it is there).

  An add of a key whose deletion is still queued panics. The queue is then as before, the panic ends the
  reflector's session, and until the next list no event reaches the queue: that is the state \<open>crashed\<close>, in which
  \<open>world\<close> stays behind \<open>server\<close>. All lemmas are proved for any store that obeys \<open>kstore_laws\<close>, in the
  locale \<open>fresh_kstore\<close>, and hold for the daemon's queue through the interpretation \<open>sync\<close>.
\<close>

section \<open>The ghost system\<close>

record ('s, 'o) eq_sys =
  sq :: "('s, 'o) EventQueue"
  server :: "string \<rightharpoonup> 'o"
  crashed :: bool
  world :: "string \<rightharpoonup> 'o"
  view :: "string \<rightharpoonup> 'o"
  pending :: "string list"

datatype 'o eq_label = LAdd 'o | LUpdate 'o | LDelete 'o | LReplace "'o list" string | LPop

fun deliver :: "EventType \<Rightarrow> string \<Rightarrow> 'o \<Rightarrow> (string \<rightharpoonup> 'o) \<Rightarrow> (string \<rightharpoonup> 'o)" where
  "deliver Added k obj v = v(k \<mapsto> obj)"
| "deliver Modified k obj v = v(k \<mapsto> obj)"
| "deliver Deleted k obj v = v(k := None)"
| "deliver _ k obj v = v"

text \<open>The server reports the object at a key, and the reflector passes the event on unless it has crashed.\<close>

definition emit ::
  "('s, 'o) eq_sys \<Rightarrow> string \<Rightarrow> 'o option \<Rightarrow> ('s, 'o) EventQueue \<times> unit outcome \<Rightarrow> ('s, 'o) eq_sys" where
  "emit s k v r =
     (if crashed s then s\<lparr>server := (server s)(k := v)\<rparr>
      else case r of
             (q, Panic _) \<Rightarrow> s\<lparr>sq := q, server := (server s)(k := v), crashed := True\<rparr>
           | (q, _) \<Rightarrow> s\<lparr>sq := q, server := (server s)(k := v), world := (world s)(k := v)\<rparr>)"

fun eq_sys_step ::
  "('s, 'o) kstore \<Rightarrow> ('s, 'o) eq_sys \<Rightarrow> 'o eq_label \<Rightarrow> ('s, 'o) eq_sys option" where
  "eq_sys_step S s (LAdd obj) =
     (case eq_keyFn (sq s) obj of
        Inr k \<Rightarrow> if server s k = None then Some (emit s k (Some obj) (eq_Add S (sq s) obj)) else None
      | Inl _ \<Rightarrow> None)"
| "eq_sys_step S s (LUpdate obj) =
     (case eq_keyFn (sq s) obj of
        Inr k \<Rightarrow> if server s k \<noteq> None then Some (emit s k (Some obj) (eq_Update S (sq s) obj)) else None
      | Inl _ \<Rightarrow> None)"
| "eq_sys_step S s (LDelete obj) =
     (case eq_keyFn (sq s) obj of
        Inr k \<Rightarrow> if server s k \<noteq> None then Some (emit s k None (eq_Delete S (sq s) obj)) else None
      | Inl _ \<Rightarrow> None)"
| "eq_sys_step S s (LReplace objs rv) =
     (case (obj_keys (eq_keyFn (sq s)) objs, keyed_map (eq_keyFn (sq s)) Map.empty objs) of
        (Some ks, Inr m) \<Rightarrow>
          if distinct ks \<and> '''' \<notin> set ks
          then Some (s\<lparr>sq := fst (eq_Replace S (sq s) objs rv), server := m, crashed := False, world := m, pending := ks\<rparr>)
          else None
      | _ \<Rightarrow> None)"
| "eq_sys_step S s LPop =
     (case eq_queue (sq s) of
        [] \<Rightarrow> None
      | k # _ \<Rightarrow>
         (case pop_body S (sq s) of
            (q', Ok (e, obj)) \<Rightarrow>
              Some (s\<lparr>sq := q', view := deliver e k obj (view s), pending := tl (pending s)\<rparr>)
          | (q', _) \<Rightarrow> Some (s\<lparr>sq := q', pending := tl (pending s)\<rparr>)))"

definition eq_sys_init :: "('s, 'o) EventQueue \<Rightarrow> ('s, 'o) eq_sys" where
  "eq_sys_init q = \<lparr>sq = q, server = Map.empty, crashed = False, world = Map.empty, view = Map.empty, pending = []\<rparr>"

text \<open>
  Per key: what a queued event says about the world, the consumer's view and the queue's store at
  that key. With the flag set the relation also covers objects that are gone: the consumer knows
  nothing about a key that is absent or newly added.
\<close>

fun key_rel :: "bool \<Rightarrow> EventType option \<Rightarrow> 'o option \<Rightarrow> 'o option \<Rightarrow> 'o option \<Rightarrow> bool" where
  "key_rel f None w v c \<longleftrightarrow> (w \<noteq> None \<longrightarrow> v = w \<and> c = w) \<and> (f \<longrightarrow> v = w)"
| "key_rel f (Some Added) w v c \<longleftrightarrow> w \<noteq> None \<and> c = w \<and> (f \<longrightarrow> v = None)"
| "key_rel f (Some Modified) w v c \<longleftrightarrow> w \<noteq> None \<and> c = w"
| "key_rel f (Some Deleted) w v c \<longleftrightarrow> w = None \<and> c \<noteq> None"
| "key_rel f (Some _) w v c \<longleftrightarrow> False"

lemma key_rel_event:
  "key_rel f (Some e) w v c \<Longrightarrow>
     (e = Added \<and> (f \<longrightarrow> v = None) \<or> e = Modified) \<and> w \<noteq> None \<and> c = w \<or>
     e = Deleted \<and> w = None \<and> c \<noteq> None"
  by (cases e) auto

section \<open>The queue over a lawful store\<close>

context kstore_laws
begin

definition put :: "'s \<Rightarrow> 'o \<Rightarrow> EventType \<Rightarrow> 's" where
  "put st obj t = (if t = Deleted then st
     else if t = Added then fst (st_Add S st obj) else fst (st_Update S st obj))"

lemma put_laws:
  assumes "invar st" and "keyFn obj = Inr k"
  shows "invar (put st obj t)"
    and "abs (put st obj t) = (if t = Deleted then abs st else (abs st)(k \<mapsto> obj))"
  using add_ok [OF assms] update_ok [OF assms] assms by (auto simp: put_def)

lemma updateStore_put:
  assumes "invar (eq_store eq)" and "keyFn obj = Inr k"
  shows "updateStore S eq k obj t = (eq\<lparr>eq_store := put (eq_store eq) obj t\<rparr>, None)"
  using add_ok [OF assms] update_ok [OF assms]
  by (auto simp: updateStore_def put_def prod_eq_iff split: prod.splits)

lemma handleEvent_new:
  assumes "invar (eq_store eq)" "eq_keyFn eq = keyFn" "keyFn obj = Inr k" "eq_events eq k = None"
  shows "handleEvent S eq obj t =
    (eq\<lparr>eq_store := put (eq_store eq) obj t, eq_events := (eq_events eq)(k \<mapsto> t),
        eq_queue := eq_queue eq @ [k]\<rparr>, Ok ())"
  using assms by (simp add: handleEvent_def updateStore_put)

lemma handleEvent_compress:
  assumes "invar (eq_store eq)" "eq_keyFn eq = keyFn" "keyFn obj = Inr k" "eq_events eq k = Some e"
    and "watchEventCompressionMatrix e t = Some e'"
  shows "handleEvent S eq obj t =
    (eq\<lparr>eq_store := put (eq_store eq) obj t, eq_events := (eq_events eq)(k \<mapsto> e')\<rparr>, Ok ())"
proof -
  from assms(5) have "watchEventEffectMatrix e t = Some watchEventEffectCompress"
    by (cases e; cases t) auto
  with assms show ?thesis by (simp add: handleEvent_def updateStore_put)
qed

lemma handleEvent_drop:
  assumes "invar (eq_store eq)" "eq_keyFn eq = keyFn" "keyFn obj = Inr k"
    and "eq_events eq k = Some Added"
  shows "handleEvent S eq obj Deleted =
    (eq\<lparr>eq_events := (eq_events eq)(k := None), eq_queue := queueWithout (eq_queue eq) k\<rparr>, Ok ())"
  using assms by (simp add: handleEvent_def updateStore_put put_def)

lemma handleEvent_panic:
  assumes "eq_keyFn eq = keyFn" "keyFn obj = Inr k" "eq_events eq k = Some e"
    and "watchEventEffectMatrix e t = None"
  shows "handleEvent S eq obj t = (eq, Panic (invalid_transition e t))"
  using assms by (simp add: handleEvent_def)

lemma Replace_ok:
  assumes "invar (eq_store eq)" "eq_keyFn eq = keyFn" "obj_keys keyFn objs = Some ks"
    and "keyed_map keyFn Map.empty objs = Inr m"
  obtains st where "invar st" "abs st = m"
    "eq_Replace S eq objs rv =
      (eq\<lparr>eq_store := st, eq_events := (\<lambda>k. if k \<in> set ks then Some Modified else None),
          eq_queue := ks, eq_lastReplaceKey := (if ks \<noteq> [] then last ks else '''')\<rparr>, Ok ())"
proof -
  obtain st where st: "st_Replace S (eq_store eq) objs rv = (st, None)"
    using replace_ok [OF assms(1,4)] by (metis prod.collapse)
  from replace_ok [OF assms(1,4), of rv] have "invar st" "abs st = m"
    by (simp_all add: st)
  moreover from st assms(2) have "eq_Replace S eq objs rv =
      (eq\<lparr>eq_store := st, eq_events := (\<lambda>k. if k \<in> set ks then Some Modified else None),
          eq_queue := ks, eq_lastReplaceKey := (if ks \<noteq> [] then last ks else '''')\<rparr>, Ok ())"
    by (simp add: eq_Replace_def replace_loop_ok [OF assms(3)] Let_def)
  ultimately show ?thesis by (rule that)
qed

abbreviation key_ok :: "bool \<Rightarrow> ('s, 'o) eq_sys \<Rightarrow> string \<Rightarrow> bool" where
  "key_ok f s k \<equiv> key_rel f (eq_events (sq s) k) (world s k) (view s k) (abs (eq_store (sq s)) k)"

text \<open>The queue itself: every queued key has an event, and the unread list is its prefix.\<close>

definition queue_ok :: "('s, 'o) eq_sys \<Rightarrow> bool" where
  "queue_ok s \<longleftrightarrow>
     eq_keyFn (sq s) = keyFn \<and> invar (eq_store (sq s)) \<and>
     (\<forall>k obj. abs (eq_store (sq s)) k = Some obj \<longrightarrow> keyFn obj = Inr k) \<and>
     distinct (eq_queue (sq s)) \<and> set (eq_queue (sq s)) = dom (eq_events (sq s)) \<and>
     (\<exists>rest. eq_queue (sq s) = pending s @ rest) \<and>
     (\<forall>k \<in> set (pending s). k \<noteq> '''' \<and> eq_events (sq s) k \<noteq> Some Added) \<and>
     eq_lastReplaceKey (sq s) = (if pending s = [] then '''' else last (pending s))"

definition sync_inv :: "bool \<Rightarrow> ('s, 'o) eq_sys \<Rightarrow> bool" where
  "sync_inv f s \<longleftrightarrow> queue_ok s \<and> (\<forall>k. key_ok f s k)"

text \<open>The whole system: unless the reflector has crashed, the queue has accepted all that the server reported.\<close>

definition sys_inv :: "bool \<Rightarrow> ('s, 'o) eq_sys \<Rightarrow> bool" where
  "sys_inv f s \<longleftrightarrow> sync_inv f s \<and> (\<not> crashed s \<longrightarrow> world s = server s)"

lemma sync_inv_cong:
  "sync_inv f s \<Longrightarrow> sq t = sq s \<Longrightarrow> world t = world s \<Longrightarrow> view t = view s \<Longrightarrow> pending t = pending s \<Longrightarrow>
     sync_inv f t"
  by (simp add: sync_inv_def queue_ok_def)

lemma queue_okD:
  assumes "queue_ok s"
  shows "eq_keyFn (sq s) = keyFn" "invar (eq_store (sq s))" "distinct (eq_queue (sq s))"
    and "set (eq_queue (sq s)) = dom (eq_events (sq s))"
    and "k \<in> set (pending s) \<Longrightarrow> eq_events (sq s) k \<notin> {None, Some Added}"
    and "k \<in> set (pending s) \<Longrightarrow> k \<noteq> ''''"
    and "abs (eq_store (sq s)) k = Some obj \<Longrightarrow> keyFn obj = Inr k"
  using assms by (auto simp: queue_ok_def)

lemma sync_new:
  assumes s: "sync_inv f s" and k: "keyFn obj = Inr k" "eq_events (sq s) k = None"
    and rel: "key_rel f (Some e) w (view s k) (abs (put (eq_store (sq s)) obj e) k)"
  shows "sync_inv f (s\<lparr>sq := fst (handleEvent S (sq s) obj e), world := (world s)(k := w)\<rparr>)"
proof -
  from s have q: "queue_ok s" and ks: "\<And>k. key_ok f s k" by (auto simp: sync_inv_def)
  note h = handleEvent_new [OF queue_okD(2,1) [OF q] k]
  note put = put_laws [OF queue_okD(2) [OF q] k(1), of e]
  have "k \<notin> set (pending s)" using queue_okD(5) [OF q, of k] k(2) by auto
  with q k put(1) show ?thesis
    unfolding sync_inv_def h using rel ks put(2) by (auto simp: queue_ok_def)
qed

lemma sync_compress:
  assumes s: "sync_inv f s" and k: "keyFn obj = Inr k" "eq_events (sq s) k = Some e"
    and c: "watchEventCompressionMatrix e t = Some e'"
    and rel: "key_rel f (Some e') w (view s k) (abs (put (eq_store (sq s)) obj t) k)"
  shows "sync_inv f (s\<lparr>sq := fst (handleEvent S (sq s) obj t), world := (world s)(k := w)\<rparr>)"
proof -
  from s have q: "queue_ok s" and ks: "\<And>k. key_ok f s k" by (auto simp: sync_inv_def)
  note h = handleEvent_compress [OF queue_okD(2,1) [OF q] k c]
  note put = put_laws [OF queue_okD(2) [OF q] k(1), of t]
  have "e' = Added \<longrightarrow> e = Added" using c by (auto simp: compression_iff)
  with q k put(1) show ?thesis
    unfolding sync_inv_def h using rel ks put(2) by (auto simp: queue_ok_def)
qed

lemma sync_drop:
  assumes s: "sync_inv f s" and k: "keyFn obj = Inr k" "eq_events (sq s) k = Some Added"
  shows "sync_inv f (s\<lparr>sq := fst (handleEvent S (sq s) obj Deleted), world := (world s)(k := None)\<rparr>)"
proof -
  from s have q: "queue_ok s" and ks: "\<And>k. key_ok f s k" by (auto simp: sync_inv_def)
  note h = handleEvent_drop [OF queue_okD(2,1) [OF q] k]
  have "k \<notin> set (pending s)" using queue_okD(5) [OF q, of k] k(2) by auto
  with q k(2) show ?thesis
    unfolding sync_inv_def h using ks ks [of k]
    by (auto simp: queue_ok_def queueWithout_append queueWithout_id)
qed

lemma step_producer:
  assumes s: "sync_inv f s" and k: "keyFn obj = Inr k"
    and e: "e = Added \<and> world s k = None \<and> eq_events (sq s) k \<noteq> Some Deleted \<and> w = Some obj \<or>
      e = Modified \<and> world s k \<noteq> None \<and> w = Some obj \<or>
      e = Deleted \<and> world s k \<noteq> None \<and> w = None"
  shows "sync_inv f (s\<lparr>sq := fst (handleEvent S (sq s) obj e), world := (world s)(k := w)\<rparr>)"
    and "snd (handleEvent S (sq s) obj e) = Ok ()"
proof -
  from s have q: "queue_ok s" and rel: "key_ok f s k" by (auto simp: sync_inv_def)
  note put = put_laws(2) [OF queue_okD(2) [OF q] k, of e]
  note q12 = queue_okD(2,1) [OF q]
  consider (new) "eq_events (sq s) k = None"
    | (compress) a e' where "eq_events (sq s) k = Some a" "watchEventCompressionMatrix a e = Some e'"
    | (drop) "eq_events (sq s) k = Some Added" "e = Deleted"
    using rel e by (cases "eq_events (sq s) k") (auto dest!: key_rel_event simp: compression_iff)
  then have "sync_inv f (s\<lparr>sq := fst (handleEvent S (sq s) obj e), world := (world s)(k := w)\<rparr>) \<and>
      snd (handleEvent S (sq s) obj e) = Ok ()"
  proof cases
    case new
    have "key_rel f (Some e) w (view s k) (abs (put (eq_store (sq s)) obj e) k)"
      using rel new e put by auto
    with new show ?thesis using sync_new [OF s k] by (simp add: handleEvent_new [OF q12 k])
  next
    case compress
    have "key_rel f (Some e') w (view s k) (abs (put (eq_store (sq s)) obj e) k)"
      using rel compress e put by (auto simp: compression_iff)
    with compress show ?thesis
      using sync_compress [OF s k] by (simp add: handleEvent_compress [OF q12 k])
  next
    case drop
    moreover have "w = None" using e drop by auto
    ultimately show ?thesis using sync_drop [OF s k] by (simp add: handleEvent_drop [OF q12 k])
  qed
  then show "sync_inv f (s\<lparr>sq := fst (handleEvent S (sq s) obj e), world := (world s)(k := w)\<rparr>)"
    and "snd (handleEvent S (sq s) obj e) = Ok ()" by simp_all
qed

text \<open>\<open>Replace\<close> from any state with a lawful store re-establishes the invariant.\<close>

lemma step_replace:
  assumes q: "queue_ok s" and ks: "obj_keys keyFn objs = Some ks" "distinct ks" "'''' \<notin> set ks"
    and m: "keyed_map keyFn Map.empty objs = Inr m"
    and f: "f \<Longrightarrow> \<forall>k. k \<notin> set ks \<longrightarrow> view s k = None"
  shows "sync_inv f (s\<lparr>sq := fst (eq_Replace S (sq s) objs rv), world := m, pending := ks\<rparr>)"
    and "snd (eq_Replace S (sq s) objs rv) = Ok ()"
proof -
  obtain st where st: "invar st" "abs st = m" and r: "eq_Replace S (sq s) objs rv =
      ((sq s)\<lparr>eq_store := st, eq_events := (\<lambda>k. if k \<in> set ks then Some Modified else None),
        eq_queue := ks, eq_lastReplaceKey := (if ks \<noteq> [] then last ks else '''')\<rparr>, Ok ())"
    using Replace_ok [OF queue_okD(2,1) [OF q] ks(1) m] by blast
  have "dom m = set ks" using keyed_map_dom [OF ks(1) m] by simp
  then have "m k \<noteq> None \<longleftrightarrow> k \<in> set ks" and "k \<notin> set ks \<Longrightarrow> m k = None" for k
    by (auto simp: domIff)
  moreover have "m k = Some obj \<Longrightarrow> keyFn obj = Inr k" for k obj
    using keyed_map_keyed [OF _ m] by simp
  ultimately show
    "sync_inv f (s\<lparr>sq := fst (eq_Replace S (sq s) objs rv), world := m, pending := ks\<rparr>)"
    using r st q ks(2,3) f
    by (auto simp: sync_inv_def queue_ok_def split: if_splits)
  from r show "snd (eq_Replace S (sq s) objs rv) = Ok ()" by simp
qed

lemma pop_head:
  assumes inv: "invar (eq_store eq)" and k: "eq_queue eq = k # rest" "eq_events eq k = Some e"
    and obj: "abs (eq_store eq) k = Some obj" "keyFn obj = Inr k"
  obtains st where "invar st" "abs st = (if e = Deleted then (abs (eq_store eq))(k := None) else abs (eq_store eq))"
    "pop_body S eq =
      (eq\<lparr>eq_queue := rest, eq_events := (eq_events eq)(k := None), eq_store := st,
        eq_lastReplaceKey := (if eq_lastReplaceKey eq = k then '''' else eq_lastReplaceKey eq)\<rparr>, Ok (e, obj))"
proof -
  obtain st err where st: "st_Delete S (eq_store eq) obj = (st, err)" by fastforce
  with delete_ok [OF inv obj(2)] have d: "err = None" "invar st" "abs st = (abs (eq_store eq))(k := None)"
    by auto
  let ?st = "if e = Deleted then st else eq_store eq"
  have "pop_body S eq =
      (eq\<lparr>eq_queue := rest, eq_events := (eq_events eq)(k := None), eq_store := ?st,
        eq_lastReplaceKey := (if eq_lastReplaceKey eq = k then '''' else eq_lastReplaceKey eq)\<rparr>, Ok (e, obj))"
    using k get_ok [OF inv, of k] obj st d(1)
    by (cases "e = Deleted"; cases "eq_lastReplaceKey eq = k"; cases "k = ''''")
      (simp_all add: pop_body_def Let_def)
  then show ?thesis using d inv by (intro that [of ?st]) auto
qed

lemma pop_head_outcome:
  assumes "invar (eq_store eq)" "eq_queue eq = k # rest" "eq_events eq k = Some e"
    and "abs (eq_store eq) k = Some obj" "keyFn obj = Inr k"
  shows "snd (pop_body S eq) = Ok (e, obj)"
  using pop_head [OF assms] by (metis snd_conv)

lemma pop_body_ok:
  assumes s: "sync_inv f s" and k: "eq_queue (sq s) = k # rest"
  obtains e obj st where "eq_events (sq s) k = Some e" "abs (eq_store (sq s)) k = Some obj"
    "invar st" "abs st = (if e = Deleted then (abs (eq_store (sq s)))(k := None) else abs (eq_store (sq s)))"
    "pop_body S (sq s) =
      ((sq s)\<lparr>eq_queue := rest, eq_events := (eq_events (sq s))(k := None), eq_store := st,
        eq_lastReplaceKey := (if eq_lastReplaceKey (sq s) = k then '''' else eq_lastReplaceKey (sq s))\<rparr>,
       Ok (e, obj))"
proof -
  from s have q: "queue_ok s" and rel: "key_ok f s k" by (auto simp: sync_inv_def)
  have "k \<in> dom (eq_events (sq s))" using queue_okD(4) [OF q] k by auto
  then obtain e where e: "eq_events (sq s) k = Some e" by blast
  with rel obtain obj where obj: "abs (eq_store (sq s)) k = Some obj"
    by (auto dest!: key_rel_event)
  from pop_head [OF queue_okD(2) [OF q] k e obj queue_okD(7) [OF q obj]] that [OF e obj] show ?thesis
    by blast
qed

lemma step_pop:
  assumes s: "sync_inv f s" and t: "eq_sys_step S s LPop = Some t"
  shows "sync_inv f t" and "\<exists>k. eq_queue (sq s) = k # eq_queue (sq t)"
    and "world t = world s" "server t = server s" "crashed t = crashed s"
    and "eq_events (sq s) k' = None \<Longrightarrow> eq_events (sq t) k' = None \<and> view t k' = view s k'"
proof -
  from t obtain k rest where k: "eq_queue (sq s) = k # rest" by (auto split: list.splits)
  from s have q: "queue_ok s" and rel: "\<And>k. key_ok f s k" by (auto simp: sync_inv_def)
  obtain e obj st where p: "eq_events (sq s) k = Some e" "abs (eq_store (sq s)) k = Some obj"
    "invar st" "abs st = (if e = Deleted then (abs (eq_store (sq s)))(k := None) else abs (eq_store (sq s)))"
    "pop_body S (sq s) =
      ((sq s)\<lparr>eq_queue := rest, eq_events := (eq_events (sq s))(k := None), eq_store := st,
        eq_lastReplaceKey := (if eq_lastReplaceKey (sq s) = k then '''' else eq_lastReplaceKey (sq s))\<rparr>,
       Ok (e, obj))"
    using pop_body_ok [OF s k] by blast
  from t k p(5) have t: "t = s\<lparr>sq := fst (pop_body S (sq s)), view := deliver e k obj (view s),
      pending := tl (pending s)\<rparr>" by simp
  have "queue_ok t"
    using q k p queue_okD(6) [OF q] unfolding t
    by (cases "pending s") (auto simp: queue_ok_def last_ConsL last_ConsR)
  moreover have "key_ok f t k'" for k'
    using rel [of k'] p key_rel_event [of f e] unfolding t by (cases e) auto
  ultimately show "sync_inv f t" by (simp add: sync_inv_def)
  show "\<exists>k. eq_queue (sq s) = k # eq_queue (sq t)" "world t = world s" "server t = server s" "crashed t = crashed s"
    using k p(5) unfolding t by simp_all
  show "eq_events (sq s) k' = None \<Longrightarrow> eq_events (sq t) k' = None \<and> view t k' = view s k'"
    using p(1,5) unfolding t by (cases e) auto
qed

lemma readd_panics:
  assumes "sync_inv f s" "keyFn obj = Inr k" "eq_events (sq s) k = Some Deleted"
  shows "handleEvent S (sq s) obj Added = (sq s, Panic (invalid_transition Deleted Added))"
  using assms queue_okD(1) by (intro handleEvent_panic) (auto simp: sync_inv_def)

text \<open>A report of the server: either the queue accepts it, or it is an add over a queued deletion.\<close>

lemma emit_inv:
  assumes s: "sys_inv f s" and k: "keyFn obj = Inr k"
    and e: "e = Added \<and> server s k = None \<and> w = Some obj \<or> e \<in> {Modified, Deleted} \<and> server s k \<noteq> None \<and>
      w = (if e = Modified then Some obj else None)"
  shows "sys_inv f (emit s k w (handleEvent S (sq s) obj e))"
proof (cases "crashed s")
  case True
  with s show ?thesis by (auto simp: emit_def sys_inv_def intro: sync_inv_cong)
next
  case False
  then have inv: "sync_inv f s" and w: "world s = server s" using s by (simp_all add: sys_inv_def)
  show ?thesis
  proof (cases "e = Added \<and> eq_events (sq s) k = Some Deleted")
    case True
    with inv False readd_panics [OF inv k] show ?thesis by (auto simp: emit_def sys_inv_def intro: sync_inv_cong)
  next
    case ok: False
    have e': "e = Added \<and> world s k = None \<and> eq_events (sq s) k \<noteq> Some Deleted \<and> w = Some obj \<or>
        e = Modified \<and> world s k \<noteq> None \<and> w = Some obj \<or> e = Deleted \<and> world s k \<noteq> None \<and> w = None"
      using e ok by (auto simp: w)
    from step_producer [OF inv k e'] False show ?thesis
      by (cases "handleEvent S (sq s) obj e") (auto simp: emit_def sys_inv_def w intro: sync_inv_cong)
  qed
qed

lemma sync_step:
  assumes s: "sys_inv f s" and t: "eq_sys_step S s l = Some t"
    and f: "\<And>objs rv. f \<Longrightarrow> l = LReplace objs rv \<Longrightarrow> view s = Map.empty"
  shows "sys_inv f t"
proof -
  have inv: "sync_inv f s" and q: "queue_ok s" and kf: "eq_keyFn (sq s) = keyFn"
    using s queue_okD(1) by (auto simp: sys_inv_def sync_inv_def)
  show ?thesis
  proof (cases l)
    case (LAdd obj)
    with t kf emit_inv [OF s, of obj _ Added] show ?thesis
      by (auto simp: eq_Add_def split: sum.splits if_splits)
  next
    case (LUpdate obj)
    with t kf emit_inv [OF s, of obj _ Modified] show ?thesis
      by (auto simp: eq_Update_def split: sum.splits if_splits)
  next
    case (LDelete obj)
    with t kf emit_inv [OF s, of obj _ Deleted] show ?thesis
      by (auto simp: eq_Delete_def split: sum.splits if_splits)
  next
    case (LReplace objs rv)
    with t kf obtain ks m where r: "obj_keys keyFn objs = Some ks" "distinct ks" "'''' \<notin> set ks"
      "keyed_map keyFn Map.empty objs = Inr m"
      and t: "t = s\<lparr>sq := fst (eq_Replace S (sq s) objs rv), server := m, crashed := False, world := m, pending := ks\<rparr>"
      by (auto split: sum.splits option.splits if_splits)
    have "sync_inv f (s\<lparr>sq := fst (eq_Replace S (sq s) objs rv), world := m, pending := ks\<rparr>)"
      using f LReplace by (intro step_replace(1) [OF q r]) simp
    then show ?thesis unfolding t sys_inv_def by (auto intro: sync_inv_cong)
  next
    case LPop
    with step_pop [OF inv] s t show ?thesis by (simp add: sys_inv_def)
  qed
qed

lemma sync_drain:
  "sync_inv f s \<Longrightarrow> \<exists>t. run_steps (eq_sys_step S) s (replicate (length (eq_queue (sq s))) LPop) = Some t \<and>
     eq_queue (sq t) = [] \<and> world t = world s \<and> server t = server s \<and> crashed t = crashed s \<and> sync_inv f t \<and>
     (\<forall>k. eq_events (sq s) k = None \<longrightarrow> view t k = view s k)"
proof (induction "eq_queue (sq s)" arbitrary: s)
  case Nil
  then show ?case by (intro exI [of _ s]) simp
next
  case (Cons k rest)
  obtain t where t: "eq_sys_step S s LPop = Some t"
    using pop_body_ok [OF Cons.prems Cons.hyps(2) [symmetric]] Cons.hyps(2) [symmetric] by fastforce
  note p = step_pop [OF Cons.prems t]
  from p(2) Cons.hyps(2) have rest: "rest = eq_queue (sq t)" by auto
  obtain u where u: "run_steps (eq_sys_step S) t (replicate (length (eq_queue (sq t))) LPop) = Some u"
    "eq_queue (sq u) = []" "world u = world t" "server u = server t" "crashed u = crashed t" "sync_inv f u"
    "\<forall>k. eq_events (sq t) k = None \<longrightarrow> view u k = view t k"
    using Cons.hyps(1) [OF rest p(1)] by blast
  have "run_steps (eq_sys_step S) s (replicate (length (eq_queue (sq s))) LPop) = Some u"
    using u(1) t by (simp add: Cons.hyps(2) [symmetric] rest)
  with u p(3-6) show ?case by (intro exI [of _ u]) simp
qed

lemma sync_empty_queue:
  assumes "sync_inv f s" and "eq_queue (sq s) = []"
  shows "world s k = Some obj \<Longrightarrow> view s k = Some obj" and "f \<Longrightarrow> view s = world s"
proof -
  have "eq_events (sq s) = Map.empty" and rel: "\<And>k. key_ok f s k"
    using assms queue_okD(4) [of s] by (auto simp: sync_inv_def)
  then show "world s k = Some obj \<Longrightarrow> view s k = Some obj" and "f \<Longrightarrow> view s = world s"
    using rel [of k] by (auto simp: fun_eq_iff)
qed

lemma sync_list_consumed: "sync_inv f s \<Longrightarrow> eq_ListConsumed (sq s) \<longleftrightarrow> pending s = []"
  by (auto simp: sync_inv_def queue_ok_def eq_ListConsumed_def)

end

section \<open>A fresh queue\<close>

locale fresh_kstore = kstore_laws S keyFn abs invar
  for S :: "('s, 'o) kstore" and keyFn :: "'o KeyFunc"
    and abs :: "'s \<Rightarrow> (string \<rightharpoonup> 'o)" and invar :: "'s \<Rightarrow> bool" +
  fixes st0 :: 's
  assumes fresh_invar: "invar st0"
    and fresh_abs: "abs st0 = Map.empty"
begin

abbreviation start :: "('s, 'o) eq_sys" where
  "start \<equiv> eq_sys_init (NewEventQueueForStore keyFn st0)"

lemma start_inv: "sys_inv f start"
  by (simp add: sys_inv_def sync_inv_def queue_ok_def eq_sys_init_def NewEventQueueForStore_def fresh_invar
      fresh_abs)

end

sublocale fresh_kstore \<subseteq> qs: invariant_system "eq_sys_step S" start "sys_inv False"
  by unfold_locales (auto intro: start_inv sync_step)

interpretation sync: fresh_kstore "cache_store keyFunc" keyFunc cache_abs cache_invar NewStore
  for keyFunc :: "'o KeyFunc"
  by unfold_locales (simp_all add: NewStore_abs NewStore_invar)

abbreviation queue_system ::
  "'o KeyFunc \<Rightarrow> ('o cache, 'o) eq_sys \<Rightarrow> 'o eq_label \<Rightarrow> ('o cache, 'o) eq_sys option" where
  "queue_system keyFn \<equiv> eq_sys_step (cache_store keyFn)"

lemma NewEventQueue_ForStore: "NewEventQueue keyFn = NewEventQueueForStore keyFn NewStore"
  by (simp add: NewEventQueue_def NewEventQueueForStore_def)

lemma queue_system_inv:
  assumes "reach (queue_system keyFn) (eq_sys_init (NewEventQueue keyFn)) s"
  shows "cs.sys_inv keyFn False s" "cs.sync_inv keyFn False s" "\<not> crashed s \<Longrightarrow> world s = server s"
  using sync.qs.inv_reach [OF assms [unfolded NewEventQueue_ForStore]] by (auto simp: cs.sys_inv_def)

lemma drain_current:
  assumes "reach (queue_system keyFn) (eq_sys_init (NewEventQueue keyFn)) s"
  shows "\<exists>t. run_steps (queue_system keyFn) s (replicate (length (eq_queue (sq s))) LPop) = Some t \<and>
    eq_queue (sq t) = [] \<and> server t = server s \<and>
    (\<not> crashed s \<longrightarrow> (\<forall>k obj. server s k = Some obj \<longrightarrow> view t k = Some obj))"
proof -
  note inv = queue_system_inv [OF assms]
  obtain t where t: "run_steps (queue_system keyFn) s (replicate (length (eq_queue (sq s))) LPop) = Some t"
    "eq_queue (sq t) = []" "world t = world s" "server t = server s" "cs.sync_inv keyFn False t"
    using cs.sync_drain [OF inv(2)] by blast
  with cs.sync_empty_queue(1) [OF t(5,2)] inv(3) show ?thesis by (intro exI [of _ t]) simp
qed

lemma relist_reach:
  assumes "reach (queue_system keyFn) (eq_sys_init (NewEventQueue keyFn)) s"
    and "obj_keys keyFn objs = Some ks" "distinct ks" "'''' \<notin> set ks" "keyed_map keyFn Map.empty objs = Inr m"
  shows "\<exists>u. reach (queue_system keyFn) (eq_sys_init (NewEventQueue keyFn)) u \<and> queue_system keyFn s (LReplace objs rv) = Some u \<and>
    eq_Replace (cache_store keyFn) (sq s) objs rv = (sq u, Ok ()) \<and> view u = view s \<and> server u = m \<and> \<not> crashed u"
proof -
  have q: "cs.queue_ok keyFn s" using queue_system_inv(2) [OF assms(1)] by (simp add: cs.sync_inv_def)
  let ?u = "s\<lparr>sq := fst (eq_Replace (cache_store keyFn) (sq s) objs rv), server := m, crashed := False, world := m, pending := ks\<rparr>"
  have u: "queue_system keyFn s (LReplace objs rv) = Some ?u" using assms(2-5) cs.queue_okD(1) [OF q] by simp
  have "snd (eq_Replace (cache_store keyFn) (sq s) objs rv) = Ok ()" by (rule cs.step_replace(2) [OF q assms(2-5)]) simp
  with reach_step [OF assms(1) u] u show ?thesis by (intro exI [of _ ?u]) (simp add: prod_eq_iff)
qed

section \<open>Example objects\<close>

text \<open>Pairs of a key and a payload, as in the tests of the package.\<close>

abbreviation pair_key :: "(string \<times> int) KeyFunc" where
  "pair_key obj \<equiv> Inr (fst obj)"

lemmas queue_eval =
  eq_sys_init_def NewEventQueue_def NewStore_def NewThreadSafeStore_def eq_Add_def eq_Update_def
  eq_Delete_def eq_Replace_def handleEvent_def updateStore_def cache_store_def cache_defs
  gm_set_def gm_del_def gm_get_def pop_body_def invalid_transition_def eq_ListConsumed_def emit_def

section \<open>Properties of the daemon's event queue\<close>

text \<open>C9: popping every queued key leaves the consumer with the current state of every object of the API server
  (compression loses no live object), whatever the reflector did since, unless it has crashed on an add over a
  queued deletion and has not listed again. The next list ends a crash.\<close>

theorem drained_view_is_current:
  assumes "reach (queue_system keyFn) (eq_sys_init (NewEventQueue keyFn)) s"
  shows "(\<exists>t. run_steps (queue_system keyFn) s (replicate (length (eq_queue (sq s))) LPop) = Some t \<and>
      eq_queue (sq t) = [] \<and> server t = server s \<and>
      (\<not> crashed s \<longrightarrow> (\<forall>k obj. server s k = Some obj \<longrightarrow> view t k = Some obj))) \<and>
    (\<forall>objs rv u. queue_system keyFn s (LReplace objs rv) = Some u \<longrightarrow> \<not> crashed u)"
  using drain_current [OF assms] by (auto split: option.splits sum.splits if_splits)

theorem drained_view_is_current_witness:
  "\<exists>s t. run_steps (queue_system pair_key) (eq_sys_init (NewEventQueue pair_key))
      [LReplace [(''a'', 1), (''b'', 2)] ''7'', LDelete (''a'', 1), LUpdate (''b'', 3), LAdd (''c'', 4)] = Some s \<and>
    \<not> crashed s \<and> eq_queue (sq s) = [''a'', ''b'', ''c''] \<and>
    run_steps (queue_system pair_key) s (replicate 3 LPop) = Some t \<and>
    view t ''b'' = Some (''b'', 3) \<and> view t ''c'' = Some (''c'', 4)"
proof -
  let ?init = "eq_sys_init (NewEventQueue pair_key)"
  obtain s where s: "run_steps (queue_system pair_key) ?init
      [LReplace [(''a'', 1), (''b'', 2)] ''7'', LDelete (''a'', 1), LUpdate (''b'', 3), LAdd (''c'', 4)] = Some s"
    and q: "eq_queue (sq s) = [''a'', ''b'', ''c'']" "\<not> crashed s"
    and w: "server s ''b'' = Some (''b'', 3)" "server s ''c'' = Some (''c'', 4)"
    by (simp add: queue_eval)
  have "reach (queue_system pair_key) ?init s"
    using reach_run_steps [OF reach_init s] .
  from drained_view_is_current [OF this] q w s show ?thesis by (auto simp: numeral_3_eq_3)
qed

text \<open>C10: if the reflector lists only once, at the start, and does not crash (no object is added again while its
  deletion is still queued), a drained consumer knows exactly the objects the API server holds, deletions
  included.\<close>

theorem drained_view_is_exact:
  assumes "run_steps (queue_system keyFn) (eq_sys_init (NewEventQueue keyFn)) (LReplace objs rv # ls) = Some s"
    and "list_all (\<lambda>l. \<forall>objs rv. l \<noteq> LReplace objs rv) ls" "\<not> crashed s"
  shows "\<exists>t. run_steps (queue_system keyFn) s (replicate (length (eq_queue (sq s))) LPop) = Some t \<and>
    eq_queue (sq t) = [] \<and> view t = server s"
proof -
  let ?init = "eq_sys_init (NewEventQueue keyFn)"
  have run: "cs.sys_inv keyFn True t \<Longrightarrow> list_all (\<lambda>l. \<forall>objs rv. l \<noteq> LReplace objs rv) ls \<Longrightarrow>
      run_steps (queue_system keyFn) t ls = Some s \<Longrightarrow> cs.sys_inv keyFn True s" for t
  proof (induction ls arbitrary: t)
    case (Cons l ls)
    from Cons.prems(3) obtain u where u: "queue_system keyFn t l = Some u" "run_steps (queue_system keyFn) u ls = Some s"
      by (auto simp del: eq_sys_step.simps split: option.splits)
    have "cs.sys_inv keyFn True u" using Cons.prems(2) by (intro cs.sync_step [OF Cons.prems(1) u(1)]) auto
    with Cons.IH u(2) Cons.prems(2) show ?case by simp
  qed simp
  from assms(1) obtain t where t: "queue_system keyFn ?init (LReplace objs rv) = Some t"
    and ls: "run_steps (queue_system keyFn) t ls = Some s" by (auto simp del: eq_sys_step.simps split: option.splits)
  have "cs.sys_inv keyFn True ?init"
    unfolding NewEventQueue_ForStore by (rule sync.start_inv)
  from cs.sync_step [OF this t] have "cs.sys_inv keyFn True t" by (simp add: eq_sys_init_def)
  from run [OF this assms(2) ls] assms(3) have inv: "cs.sync_inv keyFn True s" "world s = server s"
    by (simp_all add: cs.sys_inv_def)
  from cs.sync_drain [OF inv(1)] show ?thesis
    using cs.sync_empty_queue(2) inv(2) by fastforce
qed

theorem drained_view_is_exact_witness:
  "\<exists>s t. run_steps (queue_system pair_key) (eq_sys_init (NewEventQueue pair_key))
      [LReplace [(''a'', 1), (''b'', 2)] ''7'', LPop, LDelete (''a'', 1), LAdd (''c'', 4), LDelete (''c'', 4)] = Some s \<and>
    run_steps (queue_system pair_key) s [LPop, LPop] = Some t \<and>
    view t = [''b'' \<mapsto> (''b'', 2)]"
proof -
  let ?ls = "[LPop, LDelete (''a'', 1), LAdd (''c'', 4), LDelete (''c'', 4)] :: (string \<times> int) eq_label list"
  obtain s where s: "run_steps (queue_system pair_key) (eq_sys_init (NewEventQueue pair_key))
      (LReplace [(''a'', 1), (''b'', 2)] ''7'' # ?ls) = Some s"
    and q: "eq_queue (sq s) = [''b'', ''a'']" and w: "server s = [''b'' \<mapsto> (''b'', 2)]" "\<not> crashed s"
    by (simp add: queue_eval fun_eq_iff)
  have "list_all (\<lambda>l. \<forall>objs rv. l \<noteq> LReplace objs rv) ?ls" by simp
  from drained_view_is_exact [OF s this w(2)] q w s show ?thesis by (auto simp: numeral_2_eq_2)
qed

text \<open>C11: where the queue panics under the watch protocol. An add of an absent object panics exactly if the deletion of its key
  is still queued, and leaves the queue as it was; every other add, every update and every delete is accepted. \<open>Pop\<close> on
  a non-empty queue returns an event with the stored object, also after a panic.\<close>

theorem queue_panics_only_on_readd:
  assumes "reach (queue_system keyFn) (eq_sys_init (NewEventQueue keyFn)) s"
  shows "(\<forall>obj k. keyFn obj = Inr k \<and> server s k = None \<and> \<not> crashed s \<longrightarrow>
        (if eq_events (sq s) k = Some Deleted
         then eq_Add (cache_store keyFn) (sq s) obj = (sq s, Panic (invalid_transition Deleted Added))
         else snd (eq_Add (cache_store keyFn) (sq s) obj) = Ok ())) \<and>
     (\<forall>obj k. keyFn obj = Inr k \<and> server s k \<noteq> None \<and> \<not> crashed s \<longrightarrow>
        snd (eq_Update (cache_store keyFn) (sq s) obj) = Ok () \<and>
        snd (eq_Delete (cache_store keyFn) (sq s) obj) = Ok ()) \<and>
     (eq_queue (sq s) \<noteq> [] \<longrightarrow>
        (\<exists>q' e obj. eq_Pop (cache_store keyFn) [sq s] = Some (q', Ok (e, obj)) \<and>
           e \<in> {Added, Modified, Deleted} \<and>
           cache_abs (eq_store (sq s)) (hd (eq_queue (sq s))) = Some obj))"
proof (intro conjI allI impI)
  note inv = queue_system_inv [OF assms]
  show "if eq_events (sq s) k = Some Deleted
      then eq_Add (cache_store keyFn) (sq s) obj = (sq s, Panic (invalid_transition Deleted Added))
      else snd (eq_Add (cache_store keyFn) (sq s) obj) = Ok ()"
    if "keyFn obj = Inr k \<and> server s k = None \<and> \<not> crashed s" for obj k
    using that inv(3) cs.step_producer(2) [OF inv(2), of obj k Added] cs.readd_panics [OF inv(2), of obj k]
    by (simp add: eq_Add_def)
  show "snd (eq_Update (cache_store keyFn) (sq s) obj) = Ok ()"
    if "keyFn obj = Inr k \<and> server s k \<noteq> None \<and> \<not> crashed s" for obj k
    using that inv(3) cs.step_producer(2) [OF inv(2), of obj k Modified] by (simp add: eq_Update_def)
  show "snd (eq_Delete (cache_store keyFn) (sq s) obj) = Ok ()"
    if "keyFn obj = Inr k \<and> server s k \<noteq> None \<and> \<not> crashed s" for obj k
    using that inv(3) cs.step_producer(2) [OF inv(2), of obj k Deleted] by (simp add: eq_Delete_def)
  assume "eq_queue (sq s) \<noteq> []"
  then obtain k rest where k: "eq_queue (sq s) = k # rest" by (cases "eq_queue (sq s)") auto
  from cs.pop_body_ok [OF inv(2) k] obtain q' e obj where
    p: "pop_body (cache_store keyFn) (sq s) = (q', Ok (e, obj))" "eq_events (sq s) k = Some e"
      "cache_abs (eq_store (sq s)) k = Some obj" by metis
  moreover from inv(2) p(2) have "e \<in> {Added, Modified, Deleted}"
    by (auto simp: cs.sync_inv_def dest!: spec [of _ k] key_rel_event)
  ultimately show "\<exists>q' e obj. eq_Pop (cache_store keyFn) [sq s] = Some (q', Ok (e, obj)) \<and>
      e \<in> {Added, Modified, Deleted} \<and> cache_abs (eq_store (sq s)) (hd (eq_queue (sq s))) = Some obj"
    using k by simp
qed

theorem queue_panics_only_on_readd_witness:
  "\<exists>s q' e obj. run_steps (queue_system pair_key) (eq_sys_init (NewEventQueue pair_key))
      [LReplace [(''a'', 1), (''c'', 1)] ''7'', LDelete (''a'', 1)] = Some s \<and>
    eq_Add (cache_store pair_key) (sq s) (''a'', 2) = (sq s, Panic (invalid_transition Deleted Added)) \<and>
    snd (eq_Add (cache_store pair_key) (sq s) (''b'', 1)) = Ok () \<and>
    snd (eq_Delete (cache_store pair_key) (sq s) (''c'', 2)) = Ok () \<and>
    eq_Pop (cache_store pair_key) [sq s] = Some (q', Ok (e, obj))"
proof -
  obtain s where s: "run_steps (queue_system pair_key) (eq_sys_init (NewEventQueue pair_key))
      [LReplace [(''a'', 1), (''c'', 1)] ''7'', LDelete (''a'', 1)] = Some s"
    and q: "eq_queue (sq s) \<noteq> []" "server s ''b'' = None" "server s ''a'' = None" "server s ''c'' \<noteq> None" "eq_events (sq s) ''b'' = None"
      "eq_events (sq s) ''a'' = Some Deleted" "\<not> crashed s"
    by (simp add: queue_eval)
  note p = queue_panics_only_on_readd [OF reach_run_steps [OF reach_init s]]
  have "eq_Add (cache_store pair_key) (sq s) (''a'', 2) = (sq s, Panic (invalid_transition Deleted Added))"
    "snd (eq_Add (cache_store pair_key) (sq s) (''b'', 1)) = Ok ()" "snd (eq_Delete (cache_store pair_key) (sq s) (''c'', 2)) = Ok ()"
    using q conjunct1 [OF p, rule_format, of "(''a'', 2)" "''a''"] conjunct1 [OF p, rule_format, of "(''b'', 1)" "''b''"]
      conjunct1 [OF conjunct2 [OF p], rule_format, of "(''c'', 2)" "''c''"] by simp_all
  moreover obtain q' e obj where "eq_Pop (cache_store pair_key) [sq s] = Some (q', Ok (e, obj))" using p q(1) by blast
  ultimately show ?thesis using s by blast
qed

text \<open>\<open>ListConsumed\<close> is true exactly when every object of the last list has been popped.\<close>

theorem list_consumed_iff_delivered:
  assumes "reach (queue_system keyFn) (eq_sys_init (NewEventQueue keyFn)) s"
  shows "eq_ListConsumed (sq s) \<longleftrightarrow> pending s = []"
  using cs.sync_list_consumed [OF queue_system_inv(2) [OF assms]] .

theorem list_consumed_iff_delivered_witness:
  "\<exists>s t. run_steps (queue_system pair_key) (eq_sys_init (NewEventQueue pair_key))
      [LReplace [(''a'', 1), (''b'', 2)] ''7'', LAdd (''c'', 3), LPop] = Some s \<and>
    \<not> eq_ListConsumed (sq s) \<and> pending s = [''b''] \<and>
    run_steps (queue_system pair_key) s [LPop] = Some t \<and> eq_ListConsumed (sq t)"
proof -
  obtain s t where s: "run_steps (queue_system pair_key) (eq_sys_init (NewEventQueue pair_key))
      [LReplace [(''a'', 1), (''b'', 2)] ''7'', LAdd (''c'', 3), LPop] = Some s" "pending s = [''b'']"
    and t: "run_steps (queue_system pair_key) s [LPop] = Some t" "pending t = []"
    by (simp add: queue_eval)
  note r = reach_run_steps [OF reach_init s(1)]
  show ?thesis
    using s t list_consumed_iff_delivered [OF r] list_consumed_iff_delivered [OF reach_run_steps [OF r t(1)]]
    by auto
qed

text \<open>\<open>handleEvent\<close> panics exactly on the event pairs that the effect matrix leaves out:
  a second add, an add over a queued update, and anything after a queued delete. The queue is
  then unchanged.\<close>

theorem handleEvent_panics_iff:
  "(\<exists>msg. snd (handleEvent (cache_store keyFn) eq obj t) = Panic msg) \<longleftrightarrow>
     (\<exists>k e. eq_keyFn eq obj = Inr k \<and> eq_events eq k = Some e \<and>
        (e, t) \<notin> {(Added, Modified), (Added, Deleted), (Modified, Modified), (Modified, Deleted)} \<and>
        handleEvent (cache_store keyFn) eq obj t = (eq, Panic (invalid_transition e t)))"
proof -
  have none: "watchEventEffectMatrix e t = None \<longleftrightarrow>
      (e, t) \<notin> {(Added, Modified), (Added, Deleted), (Modified, Modified), (Modified, Deleted)}" for e
    by (cases e; cases t) auto
  show ?thesis
  proof (cases "eq_keyFn eq obj")
    case (Inl err)
    then show ?thesis by (simp add: handleEvent_def)
  next
    case (Inr k)
    show ?thesis
    proof (cases "eq_events eq k")
      case None
      with Inr show ?thesis by (auto simp: handleEvent_def split: prod.splits option.splits)
    next
      case (Some e)
      show ?thesis
      proof (cases "watchEventEffectMatrix e t")
        case None
        with Inr Some show ?thesis unfolding none [symmetric] by (auto simp: handleEvent_def)
      next
        case (Some eff)
        with Inr \<open>eq_events eq k = Some e\<close> compression_total [of e t] show ?thesis
          unfolding none [symmetric]
          by (cases eff) (auto simp: handleEvent_def split: prod.splits option.splits)
      qed
    qed
  qed
qed

text \<open>\<open>Cancel\<close> cannot unblock \<open>Pop\<close>: a waiter that is woken any number of times on an empty
  queue keeps waiting, and no call ever returns \<open>EventQueueStopped\<close>.\<close>

theorem cancel_never_unblocks_pop:
  "eq_Pop (cache_store keyFn) wakeups \<noteq> Some (q, Fail EventQueueStopped) \<and>
   eq_Pop (cache_store keyFn) (replicate n (eq_Cancel (NewEventQueue keyFn'))) = None"
proof
  show "eq_Pop (cache_store keyFn) wakeups \<noteq> Some (q, Fail EventQueueStopped)"
    by (induction wakeups)
      (auto simp: pop_body_def Let_def cache_store_def cache_Delete_def cache_GetByKey_def
        split: list.splits option.splits prod.splits sum.splits if_splits)
  show "eq_Pop (cache_store keyFn) (replicate n (eq_Cancel (NewEventQueue keyFn'))) = None"
    by (rule eq_Pop_waits) (simp add: eq_Cancel_def NewEventQueue_def)
qed

text \<open>The four documented compression rules: an update over a queued add or update replaces
  the state and keeps the event, a delete removes a queued add and turns a queued update into a
  delete that carries the last state.\<close>

theorem compression_rules:
  assumes "cache_invar (eq_store eq)" and "eq_keyFn eq = keyFn" and "keyFn x = Inr k" and "keyFn y = Inr k"
    and "eq_queue eq = k # rest" and "cache_abs (eq_store eq) k = Some x" and "k \<notin> set rest"
  shows "(eq_events eq k = Some Added \<longrightarrow>
       snd (pop_body (cache_store keyFn) (fst (eq_Update (cache_store keyFn) eq y))) = Ok (Added, y) \<and>
       eq_queue (fst (eq_Delete (cache_store keyFn) eq x)) = rest) \<and>
     (eq_events eq k = Some Modified \<longrightarrow>
       snd (pop_body (cache_store keyFn) (fst (eq_Update (cache_store keyFn) eq y))) = Ok (Modified, y) \<and>
       snd (pop_body (cache_store keyFn) (fst (eq_Delete (cache_store keyFn) eq y))) = Ok (Deleted, x))"
proof -
  note inv = assms(1) and kf = assms(2) and ky = assms(4)
  note put = cs.put_laws [where keyFunc = keyFn, OF inv ky]
  note compress = cs.handleEvent_compress [where keyFunc = keyFn, OF inv kf ky]
  have upd: "snd (pop_body (cache_store keyFn) (fst (eq_Update (cache_store keyFn) eq y))) = Ok (e, y)"
    if "eq_events eq k = Some e" "watchEventCompressionMatrix e Modified = Some e" for e
    using that compress put ky assms(5)
    by (intro cs.pop_head_outcome [of _ k rest]) (auto simp: eq_Update_def)
  have "snd (pop_body (cache_store keyFn) (fst (eq_Delete (cache_store keyFn) eq y))) = Ok (Deleted, x)"
    if "eq_events eq k = Some Modified"
    using that compress put assms(3,5,6)
    by (intro cs.pop_head_outcome [of _ k rest]) (auto simp: eq_Delete_def)
  moreover have "eq_queue (fst (eq_Delete (cache_store keyFn) eq x)) = rest" if "eq_events eq k = Some Added"
    using cs.handleEvent_drop [where keyFunc = keyFn, OF inv kf assms(3) that] assms(5,7)
    by (simp add: eq_Delete_def queueWithout_id)
  ultimately show ?thesis using upd by simp
qed

theorem compression_rules_witness:
  "let eq = fst (eq_Replace (cache_store pair_key) (NewEventQueue pair_key) [(''a'', 1)] ''7'') in
     eq_events eq ''a'' = Some Modified \<and>
     snd (pop_body (cache_store pair_key) (fst (eq_Update (cache_store pair_key) eq (''a'', 2)))) =
       Ok (Modified, (''a'', 2)) \<and>
     snd (pop_body (cache_store pair_key) (fst (eq_Delete (cache_store pair_key) eq (''a'', 2)))) =
       Ok (Deleted, (''a'', 1))"
proof -
  let ?eq = "fst (eq_Replace (cache_store pair_key) (NewEventQueue pair_key) [(''a'', 1)] ''7'')"
  have "cache_invar (eq_store ?eq)" "eq_keyFn ?eq = pair_key" "eq_queue ?eq = [''a'']"
    "cache_abs (eq_store ?eq) ''a'' = Some (''a'', 1)" "eq_events ?eq ''a'' = Some Modified"
    by (simp_all add: queue_eval cache_invar_def cache_abs_def)
  then show ?thesis
    using compression_rules [of ?eq pair_key "(''a'', 1)" "''a''" "(''a'', 2)" "[]"] by (simp add: Let_def)
qed

text \<open>C37: a re-list loses deletions. Whatever object the consumer knows that is missing from a list, whether its deletion was
  queued or went by while no watch was open: the list drops the queued event and queues none, so after popping everything the consumer
  still has the object that the API server no longer has.\<close>

theorem relist_loses_deletion:
  assumes "reach (queue_system keyFn) (eq_sys_init (NewEventQueue keyFn)) s"
    and "queue_system keyFn s (LReplace objs rv) = Some u" "server u k = None" "view s k = Some obj"
  shows "eq_events (sq u) k = None \<and>
    (\<exists>t. run_steps (queue_system keyFn) u (replicate (length (eq_queue (sq u))) LPop) = Some t \<and>
      eq_queue (sq t) = [] \<and> server t k = None \<and> view t k = Some obj)"
proof -
  have inv: "cs.sync_inv keyFn False u"
    using cs.sync_step [OF queue_system_inv(1) [OF assms(1)] assms(2)] by (simp add: cs.sys_inv_def)
  have kf: "eq_keyFn (sq s) = keyFn" and q: "cs.queue_ok keyFn s"
    using queue_system_inv(2) [OF assms(1)] cs.queue_okD(1) by (auto simp: cs.sync_inv_def)
  obtain ks m where r: "obj_keys keyFn objs = Some ks" "keyed_map keyFn Map.empty objs = Inr m"
    and u: "u = s\<lparr>sq := fst (eq_Replace (cache_store keyFn) (sq s) objs rv), server := m, crashed := False,
      world := m, pending := ks\<rparr>"
    using assms(2) kf by (auto split: option.splits sum.splits if_splits)
  have "k \<notin> set ks" using keyed_map_dom [OF r] assms(3) by (auto simp: u domIff)
  then have none: "eq_events (sq u) k = None"
    using cs.Replace_ok [OF cs.queue_okD(2,1) [OF q] r, of rv] unfolding u by fastforce
  moreover have "view u k = Some obj" using assms(4) by (simp add: u)
  ultimately show ?thesis using cs.sync_drain [OF inv] assms(3) by fastforce
qed

theorem relist_loses_deletion_witness:
  "\<exists>s u t. run_steps (queue_system pair_key) (eq_sys_init (NewEventQueue pair_key))
      [LAdd (''a'', 1), LPop, LAdd (''b'', 2), LDelete (''a'', 1)] = Some s \<and>
    queue_system pair_key s (LReplace [(''b'', 2)] ''8'') = Some u \<and>
    run_steps (queue_system pair_key) u [LPop] = Some t \<and>
    eq_queue (sq t) = [] \<and> server t ''a'' = None \<and> view t ''a'' = Some (''a'', 1)"
proof -
  obtain s u where s: "run_steps (queue_system pair_key) (eq_sys_init (NewEventQueue pair_key))
      [LAdd (''a'', 1), LPop, LAdd (''b'', 2), LDelete (''a'', 1)] = Some s"
    and u: "queue_system pair_key s (LReplace [(''b'', 2)] ''8'') = Some u"
    and v: "server u ''a'' = None" "view s ''a'' = Some (''a'', 1)" "eq_queue (sq u) = [''b'']"
    by (simp add: queue_eval)
  from relist_loses_deletion [OF reach_run_steps [OF reach_init s] u v(1,2)] v(3) s u show ?thesis by auto
qed

text \<open>\<open>ListKeys\<close> returns no keys, whatever is queued (it copies into a slice of length 0).\<close>

lemma list_keys_is_empty: "eq_ListKeys eq = []"
  by (simp add: eq_ListKeys_def go_copy_def)

end
