(* ===== verification/Backoff.thy ===== *)
theory Backoff
  imports Prelude
begin

text \<open>
  \<open>util/flowcontrol/backoff.go\<close>: per-key backoff windows.

  \<open>time.Time\<close> is an integer number of nanoseconds (its zero value is 0); \<open>time.Duration\<close> is a
  signed 64-bit word. \<open>Time.Sub\<close> saturates at the ends of the 64-bit range and \<open>Duration\<close>
  multiplication wraps, as in Go. The clock is not part of the record: every reading of
  \<open>p.Clock.Now()\<close> is an argument. All methods hold the mutex, so each is one atomic step, and the
  entry pointers never leave it: a write through an entry pointer is a write to the map.
\<close>

section \<open>Time\<close>

type_synonym duration = "64 word"
type_synonym gotime = int

abbreviation max_int64 :: int where "max_int64 \<equiv> 2 ^ 63 - 1"
abbreviation min_int64 :: int where "min_int64 \<equiv> - (2 ^ 63)"

definition time_Sub :: "gotime \<Rightarrow> gotime \<Rightarrow> duration" where
  "time_Sub t u = word_of_int (max min_int64 (min max_int64 (t - u)))"

abbreviation dur_less :: "duration \<Rightarrow> duration \<Rightarrow> bool" where
  "dur_less a b \<equiv> sint a < sint b"

abbreviation nanosecond :: duration where "nanosecond \<equiv> 1"
abbreviation second :: duration where "second \<equiv> 1000000000"

lemma sint_time_Sub: "sint (time_Sub t u) = max min_int64 (min max_int64 (t - u))"
  unfolding time_Sub_def sint_sbintrunc' by (rule signed_take_bit_int_eq_self) auto

lemma sint_range: "min_int64 \<le> sint (d :: duration)" "sint (d :: duration) \<le> max_int64"
  using sint_ge [of d] sint_lt [of d] by simp_all

text \<open>Saturation does not disturb a comparison with a non-negative window.\<close>

lemma time_Sub_less: "0 \<le> sint d \<Longrightarrow> dur_less (time_Sub t u) d \<longleftrightarrow> t - u < sint d"
  using sint_range [of d] by (auto simp: sint_time_Sub)

lemma less_time_Sub:
  "0 \<le> sint d \<Longrightarrow> sint d < max_int64 \<Longrightarrow> dur_less d (time_Sub t u) \<longleftrightarrow> sint d < t - u"
  by (auto simp: sint_time_Sub)

section \<open>The backoff table\<close>

record backoffEntry =
  be_backoff :: duration
  be_lastUpdate :: gotime

record Backoff =
  bo_defaultDuration :: duration
  bo_maxDuration :: duration
  bo_perItemBackoff :: "(string, backoffEntry) gomap"

definition NewBackOff :: "duration \<Rightarrow> duration \<Rightarrow> Backoff" where
  "NewBackOff initial mx =
     \<lparr>bo_defaultDuration = initial, bo_maxDuration = mx, bo_perItemBackoff = []\<rparr>"

text \<open>The fake clock lives outside the record, so \<open>NewFakeBackOff\<close> builds the same table.\<close>

definition NewFakeBackOff :: "duration \<Rightarrow> duration \<Rightarrow> Backoff" where
  "NewFakeBackOff initial mx =
     \<lparr>bo_defaultDuration = initial, bo_maxDuration = mx, bo_perItemBackoff = []\<rparr>"

definition hasExpired :: "gotime \<Rightarrow> gotime \<Rightarrow> duration \<Rightarrow> bool" where
  "hasExpired eventTime lastUpdate maxDuration \<longleftrightarrow>
     dur_less (maxDuration * 2) (time_Sub eventTime lastUpdate)"

definition bo_Get :: "Backoff \<Rightarrow> string \<Rightarrow> duration" where
  "bo_Get p ident =
     (case gm_get (bo_perItemBackoff p) ident of Some entry \<Rightarrow> be_backoff entry | None \<Rightarrow> 0)"

definition initEntryUnsafe :: "Backoff \<Rightarrow> string \<Rightarrow> Backoff \<times> backoffEntry" where
  "initEntryUnsafe p ident =
     (let entry = \<lparr>be_backoff = bo_defaultDuration p, be_lastUpdate = 0\<rparr>
      in (p\<lparr>bo_perItemBackoff := gm_set ident entry (bo_perItemBackoff p)\<rparr>, entry))"

definition bo_Next :: "Backoff \<Rightarrow> string \<Rightarrow> gotime \<Rightarrow> gotime \<Rightarrow> Backoff" where
  "bo_Next p ident eventTime now =
     (let (p1, entry1) =
        (case gm_get (bo_perItemBackoff p) ident of
           None \<Rightarrow> initEntryUnsafe p ident
         | Some entry \<Rightarrow>
             if hasExpired eventTime (be_lastUpdate entry) (bo_maxDuration p)
             then initEntryUnsafe p ident else (p, entry))
      in p1\<lparr>bo_perItemBackoff := gm_set ident (entry1\<lparr>be_lastUpdate := now\<rparr>) (bo_perItemBackoff p1)\<rparr>)"

definition bo_Reset :: "Backoff \<Rightarrow> string \<Rightarrow> Backoff" where
  "bo_Reset p ident = p\<lparr>bo_perItemBackoff := gm_del ident (bo_perItemBackoff p)\<rparr>"

definition IsInBackOffSince :: "Backoff \<Rightarrow> string \<Rightarrow> gotime \<Rightarrow> gotime \<Rightarrow> bool" where
  "IsInBackOffSince p ident eventTime now \<longleftrightarrow>
     (case gm_get (bo_perItemBackoff p) ident of
        None \<Rightarrow> False
      | Some entry \<Rightarrow>
          if hasExpired eventTime (be_lastUpdate entry) (bo_maxDuration p) then False
          else dur_less (time_Sub now eventTime) (be_backoff entry))"

definition IsInBackOffSinceUpdate :: "Backoff \<Rightarrow> string \<Rightarrow> gotime \<Rightarrow> bool" where
  "IsInBackOffSinceUpdate p ident eventTime \<longleftrightarrow>
     (case gm_get (bo_perItemBackoff p) ident of
        None \<Rightarrow> False
      | Some entry \<Rightarrow>
          if hasExpired eventTime (be_lastUpdate entry) (bo_maxDuration p) then False
          else dur_less (time_Sub eventTime (be_lastUpdate entry)) (be_backoff entry))"

text \<open>Deleting while ranging over the map: every expired entry goes, in whatever order.\<close>

fun gc_loop :: "duration \<Rightarrow> gotime \<Rightarrow> (string, backoffEntry) gomap \<Rightarrow> (string, backoffEntry) gomap
    \<Rightarrow> (string, backoffEntry) gomap" where
  "gc_loop maxDuration now [] table = table"
| "gc_loop maxDuration now ((ident, entry) # rest) table =
     gc_loop maxDuration now rest
       (if dur_less (maxDuration * 2) (time_Sub now (be_lastUpdate entry)) then gm_del ident table else table)"

definition bo_GC :: "Backoff \<Rightarrow> gotime \<Rightarrow> Backoff" where
  "bo_GC p now =
     p\<lparr>bo_perItemBackoff :=
         gc_loop (bo_maxDuration p) now (bo_perItemBackoff p) (bo_perItemBackoff p)\<rparr>"

definition bo_DeleteEntry :: "Backoff \<Rightarrow> string \<Rightarrow> Backoff" where
  "bo_DeleteEntry p ident = p\<lparr>bo_perItemBackoff := gm_del ident (bo_perItemBackoff p)\<rparr>"

section \<open>What the operations do to the table\<close>

abbreviation bo_abs :: "Backoff \<Rightarrow> (string \<rightharpoonup> backoffEntry)" where
  "bo_abs p \<equiv> map_of (bo_perItemBackoff p)"

lemma bo_Next_default [simp]: "bo_defaultDuration (bo_Next p ident t now) = bo_defaultDuration p"
  and bo_Next_max [simp]: "bo_maxDuration (bo_Next p ident t now) = bo_maxDuration p"
  by (auto simp: bo_Next_def initEntryUnsafe_def Let_def split: option.splits)

lemma bo_Next_abs:
  "bo_abs (bo_Next p ident t now) =
     (bo_abs p)(ident \<mapsto> \<lparr>be_backoff =
        (case bo_abs p ident of
           None \<Rightarrow> bo_defaultDuration p
         | Some entry \<Rightarrow> if hasExpired t (be_lastUpdate entry) (bo_maxDuration p)
                         then bo_defaultDuration p else be_backoff entry),
        be_lastUpdate = now\<rparr>)"
  by (auto simp: bo_Next_def initEntryUnsafe_def Let_def gomap_simps split: option.splits)

lemma gc_loop_abs:
  "gm_wf seen \<Longrightarrow> map_of (gc_loop m now seen table) =
     (\<lambda>ident. case map_of seen ident of
        Some entry \<Rightarrow> if hasExpired now (be_lastUpdate entry) m then None else map_of table ident
      | None \<Rightarrow> map_of table ident)"
proof (induction m now seen table rule: gc_loop.induct)
  case (1 m now table)
  then show ?case by (simp add: fun_eq_iff)
next
  case (2 m now ident entry rest table)
  then have "map_of rest ident = None" by (simp add: map_of_eq_None_iff)
  with 2 show ?case
    by (auto simp: fun_eq_iff hasExpired_def gomap_simps split: option.splits)
qed

lemma bo_GC_abs:
  "gm_wf (bo_perItemBackoff p) \<Longrightarrow> bo_abs (bo_GC p now) =
     (\<lambda>ident. case bo_abs p ident of
        Some entry \<Rightarrow> if hasExpired now (be_lastUpdate entry) (bo_maxDuration p) then None else Some entry
      | None \<Rightarrow> None)"
  by (auto simp: bo_GC_def gc_loop_abs fun_eq_iff split: option.splits)

text \<open>Every window in the table is the default one: \<open>Next\<close> never lengthens a window.\<close>

definition constant_windows :: "Backoff \<Rightarrow> bool" where
  "constant_windows p \<longleftrightarrow> (\<forall>ident entry. bo_abs p ident = Some entry \<longrightarrow> be_backoff entry = bo_defaultDuration p)"

lemma constant_windows_new: "constant_windows (NewBackOff initial mx)"
  by (simp add: constant_windows_def NewBackOff_def)

lemma constant_windows_Next: "constant_windows p \<Longrightarrow> constant_windows (bo_Next p ident t now)"
  by (auto simp: constant_windows_def bo_Next_abs split: option.splits)

lemma constant_windows_weaken:
  "constant_windows p \<Longrightarrow> bo_defaultDuration q = bo_defaultDuration p \<Longrightarrow>
     (\<And>ident entry. bo_abs q ident = Some entry \<Longrightarrow> bo_abs p ident = Some entry) \<Longrightarrow> constant_windows q"
  by (auto simp: constant_windows_def)

lemma gc_loop_wf: "gm_wf table \<Longrightarrow> gm_wf (gc_loop m now seen table)"
  by (induction m now seen table rule: gc_loop.induct) auto

lemma bo_Next_wf: "gm_wf (bo_perItemBackoff p) \<Longrightarrow> gm_wf (bo_perItemBackoff (bo_Next p ident t now))"
  by (auto simp: bo_Next_def initEntryUnsafe_def Let_def split: option.splits)

text \<open>The mutators as one step function.\<close>

datatype bo_op = OpNext string gotime gotime | OpReset string | OpGC gotime | OpDeleteEntry string

fun bo_step :: "Backoff \<Rightarrow> bo_op \<Rightarrow> Backoff" where
  "bo_step p (OpNext ident t now) = bo_Next p ident t now"
| "bo_step p (OpReset ident) = bo_Reset p ident"
| "bo_step p (OpGC now) = bo_GC p now"
| "bo_step p (OpDeleteEntry ident) = bo_DeleteEntry p ident"

lemma bo_step_keeps:
  assumes "gm_wf (bo_perItemBackoff p)" and "constant_windows p"
  shows "gm_wf (bo_perItemBackoff (bo_step p c))" and "constant_windows (bo_step p c)"
    and "bo_defaultDuration (bo_step p c) = bo_defaultDuration p"
proof -
  have gc: "bo_abs (bo_GC p now) ident = Some entry \<Longrightarrow> bo_abs p ident = Some entry" for now ident entry
    by (auto simp: bo_GC_abs [OF assms(1)] split: option.splits if_splits)
  show "gm_wf (bo_perItemBackoff (bo_step p c))"
    using assms(1) by (cases c) (auto simp: bo_Next_wf bo_Reset_def bo_GC_def bo_DeleteEntry_def gc_loop_wf)
  show "bo_defaultDuration (bo_step p c) = bo_defaultDuration p"
    by (cases c) (auto simp: bo_Reset_def bo_GC_def bo_DeleteEntry_def)
  show "constant_windows (bo_step p c)"
  proof (cases c)
    case (OpNext ident t now)
    with assms(2) show ?thesis by (simp add: constant_windows_Next)
  next
    case (OpReset ident)
    then show ?thesis
      by (intro constant_windows_weaken [OF assms(2)]) (auto simp: bo_Reset_def gomap_simps split: if_splits)
  next
    case (OpGC now)
    then show ?thesis
      using gc by (intro constant_windows_weaken [OF assms(2)]) (auto simp: bo_GC_def)
  next
    case (OpDeleteEntry ident)
    then show ?thesis
      by (intro constant_windows_weaken [OF assms(2)]) (auto simp: bo_DeleteEntry_def gomap_simps split: if_splits)
  qed
qed

lemma bo_run_keeps:
  "gm_wf (bo_perItemBackoff p) \<Longrightarrow> constant_windows p \<Longrightarrow>
     constant_windows (foldl bo_step p ops) \<and>
     bo_defaultDuration (foldl bo_step p ops) = bo_defaultDuration p"
  by (induction ops arbitrary: p) (auto simp: bo_step_keeps)

text \<open>Doubling does not wrap below a quarter of the 64-bit range.\<close>

lemma sint_double: "0 \<le> sint d \<Longrightarrow> sint d < 2 ^ 62 \<Longrightarrow> sint (d * 2 :: duration) = 2 * sint d"
proof -
  assume d: "0 \<le> sint d" "sint d < 2 ^ 62"
  have "sint (d * 2) = signed_take_bit 63 (2 * sint d)" by (simp add: sint_word_mult mult.commute)
  also have "\<dots> = 2 * sint d" using d by (intro signed_take_bit_int_eq_self) auto
  finally show ?thesis .
qed

lemma hasExpired_iff:
  "0 \<le> sint m \<Longrightarrow> sint m < 2 ^ 62 - 1 \<Longrightarrow> hasExpired t u m \<longleftrightarrow> 2 * sint m < t - u"
  by (auto simp: hasExpired_def sint_double sint_time_Sub)

section \<open>Properties\<close>

text \<open>After any sequence of operations a key is either without a window or has exactly the
  default window: repeated \<open>Next\<close> calls do not grow it.\<close>

theorem backoff_window_constant:
  "bo_Get (foldl bo_step (NewBackOff initial mx) ops) ident \<in> {0, initial}"
proof -
  let ?p = "foldl bo_step (NewBackOff initial mx) ops"
  have "constant_windows ?p \<and> bo_defaultDuration ?p = initial"
    using bo_run_keeps [OF _ constant_windows_new] by (simp add: NewBackOff_def)
  then show ?thesis
    by (auto simp: bo_Get_def constant_windows_def gomap_simps split: option.splits)
qed

text \<open>After \<open>Next\<close> at clock time \<open>now\<close> the key is in backoff for exactly its window,
  cut off after twice the maximal duration.\<close>

theorem backoff_window_exact:
  assumes "0 \<le> sint (bo_maxDuration p)" and "sint (bo_maxDuration p) < 2 ^ 62 - 1"
    and "0 \<le> sint (bo_Get (bo_Next p ident t0 now) ident)"
  shows "IsInBackOffSinceUpdate (bo_Next p ident t0 now) ident t \<longleftrightarrow>
    t - now < sint (bo_Get (bo_Next p ident t0 now) ident) \<and> t - now \<le> 2 * sint (bo_maxDuration p)"
  using assms
  by (auto simp: IsInBackOffSinceUpdate_def bo_Get_def gomap_simps bo_Next_abs hasExpired_iff time_Sub_less
      not_less split: option.splits)

theorem backoff_window_exact_witness:
  "IsInBackOffSinceUpdate (bo_Next (NewBackOff (5 * second) (30 * second)) ''k'' 100 100) ''k'' 4000000000"
proof -
  let ?p = "NewBackOff (5 * second) (30 * second)"
  have "sint (bo_maxDuration ?p) = 30000000000" "sint (bo_Get (bo_Next ?p ''k'' 100 100) ''k'') = 5000000000"
    by (simp_all add: NewBackOff_def bo_Get_def gomap_simps bo_Next_abs)
  then show ?thesis using backoff_window_exact [of ?p "''k''" 100 100 4000000000] by simp
qed

text \<open>Garbage collection cannot be observed through the backoff test, now or later.\<close>

lemma gc_unobservable:
  assumes "gm_wf (bo_perItemBackoff p)" and "now \<le> t"
  shows "IsInBackOffSinceUpdate (bo_GC p now) ident t = IsInBackOffSinceUpdate p ident t"
proof -
  have "bo_maxDuration (bo_GC p now) = bo_maxDuration p" by (simp add: bo_GC_def)
  moreover have "hasExpired now u m \<Longrightarrow> hasExpired t u m" for u m
    using assms(2) by (auto simp: hasExpired_def sint_time_Sub)
  ultimately show ?thesis
    by (auto simp: IsInBackOffSinceUpdate_def gomap_simps bo_GC_abs [OF assms(1)] split: option.splits)
qed

lemma gc_unobservable_witness:
  "IsInBackOffSinceUpdate (bo_GC (bo_Next (NewBackOff 5 30) ''k'' 0 0) 61) ''k'' 62 =
   IsInBackOffSinceUpdate (bo_Next (NewBackOff 5 30) ''k'' 0 0) ''k'' 62"
  by (rule gc_unobservable) (simp_all add: bo_Next_wf NewBackOff_def)

end
