(* ===== verification/Fifo.thy ===== *)
theory Fifo
  imports Store
begin

text \<open>
  \<open>pkg/client/cache/fifo.go\<close> of the vendored Kubernetes client: the queue behind a rate limited
  function. The key function is an argument, as in \<open>cache\<close>. Methods hold the lock; \<open>Pop\<close>
  returns \<open>None\<close> when it goes (back) to sleep on the condition variable, together with the queue
  as it leaves it: ids of deleted items are thrown away while it searches.

  The rate limiter only ever calls \<open>AddIfNotPresent\<close> and \<open>Pop\<close>, with a key function that maps
  everything to one key: the locale \<open>single_slot\<close> is the contract of such a queue (one slot that
  is full or empty), and the last section interprets it on this FIFO.
\<close>

section \<open>The FIFO\<close>

record 'o FIFO =
  ff_items :: "(string, 'o) gomap"
  ff_queue :: "string list"
  ff_populated :: bool
  ff_initialPopulationCount :: int

definition NewFIFO :: "'o FIFO" where
  "NewFIFO = \<lparr>ff_items = [], ff_queue = [], ff_populated = False, ff_initialPopulationCount = 0\<rparr>"

definition ff_HasSynced :: "'o FIFO \<Rightarrow> bool" where
  "ff_HasSynced f \<longleftrightarrow> ff_populated f \<and> ff_initialPopulationCount f = 0"

definition ff_Add :: "'o KeyFunc \<Rightarrow> 'o FIFO \<Rightarrow> 'o \<Rightarrow> 'o FIFO \<times> gerror option" where
  "ff_Add keyFunc f obj =
     (case keyFunc obj of
        Inl err \<Rightarrow> (f, Some (KeyError err))
      | Inr ident \<Rightarrow>
          (f\<lparr>ff_populated := True,
             ff_queue := (if gm_get (ff_items f) ident = None then ff_queue f @ [ident] else ff_queue f),
             ff_items := gm_set ident obj (ff_items f)\<rparr>, None))"

definition ff_AddIfNotPresent :: "'o KeyFunc \<Rightarrow> 'o FIFO \<Rightarrow> 'o \<Rightarrow> 'o FIFO \<times> gerror option" where
  "ff_AddIfNotPresent keyFunc f obj =
     (case keyFunc obj of
        Inl err \<Rightarrow> (f, Some (KeyError err))
      | Inr ident \<Rightarrow>
          (let f1 = f\<lparr>ff_populated := True\<rparr> in
           if gm_get (ff_items f1) ident \<noteq> None then (f1, None)
           else (f1\<lparr>ff_queue := ff_queue f1 @ [ident], ff_items := gm_set ident obj (ff_items f1)\<rparr>, None)))"

definition ff_Update :: "'o KeyFunc \<Rightarrow> 'o FIFO \<Rightarrow> 'o \<Rightarrow> 'o FIFO \<times> gerror option" where
  "ff_Update keyFunc f obj = ff_Add keyFunc f obj"

definition ff_Delete :: "'o KeyFunc \<Rightarrow> 'o FIFO \<Rightarrow> 'o \<Rightarrow> 'o FIFO \<times> gerror option" where
  "ff_Delete keyFunc f obj =
     (case keyFunc obj of
        Inl err \<Rightarrow> (f, Some (KeyError err))
      | Inr ident \<Rightarrow> (f\<lparr>ff_populated := True, ff_items := gm_del ident (ff_items f)\<rparr>, None))"

definition ff_List :: "'o FIFO \<Rightarrow> 'o list" where
  "ff_List f = map snd (ff_items f)"

definition ff_ListKeys :: "'o FIFO \<Rightarrow> string list" where
  "ff_ListKeys f = map fst (ff_items f)"

definition ff_GetByKey :: "'o FIFO \<Rightarrow> string \<Rightarrow> gerror + 'o option" where
  "ff_GetByKey f key = Inr (gm_get (ff_items f) key)"

definition ff_Get :: "'o KeyFunc \<Rightarrow> 'o FIFO \<Rightarrow> 'o \<Rightarrow> gerror + 'o option" where
  "ff_Get keyFunc f obj =
     (case keyFunc obj of Inl err \<Rightarrow> Inl (KeyError err) | Inr key \<Rightarrow> ff_GetByKey f key)"

fun ff_pop_loop :: "'o FIFO \<Rightarrow> string list \<Rightarrow> 'o FIFO \<times> 'o option" where
  "ff_pop_loop f [] = (f\<lparr>ff_queue := []\<rparr>, None)"
| "ff_pop_loop f (ident # rest) =
     (let f1 = f\<lparr>ff_queue := rest,
                 ff_initialPopulationCount :=
                   (if ff_initialPopulationCount f > 0 then ff_initialPopulationCount f - 1
                    else ff_initialPopulationCount f)\<rparr>
      in case gm_get (ff_items f1) ident of
           None \<Rightarrow> ff_pop_loop f1 rest
         | Some item \<Rightarrow> (f1\<lparr>ff_items := gm_del ident (ff_items f1)\<rparr>, Some item))"

definition ff_Pop :: "'o FIFO \<Rightarrow> 'o FIFO \<times> 'o option" where
  "ff_Pop f = ff_pop_loop f (ff_queue f)"

text \<open>Ranging over the freshly built \<open>items\<close> gives the new queue, in the map's order.\<close>

definition ff_Replace ::
  "'o KeyFunc \<Rightarrow> 'o FIFO \<Rightarrow> 'o list \<Rightarrow> string \<Rightarrow> 'o FIFO \<times> gerror option" where
  "ff_Replace keyFunc f list resourceVersion =
     (case collect_items keyFunc [] list of
        Inl err \<Rightarrow> (f, Some err)
      | Inr itms \<Rightarrow>
          (let f1 = (if \<not> ff_populated f
                     then f\<lparr>ff_populated := True, ff_initialPopulationCount := int (length itms)\<rparr>
                     else f)
           in (f1\<lparr>ff_items := itms, ff_queue := map fst itms\<rparr>, None)))"

section \<open>Items are queued\<close>

text \<open>
  "We depend on the property that items in the set are in the queue and vice versa": the first
  half is an invariant. The second half is not (\<open>Delete\<close> leaves the id behind, which is why
  \<open>Pop\<close> skips ids without an item).
\<close>

definition ff_inv :: "'o FIFO \<Rightarrow> bool" where
  "ff_inv f \<longleftrightarrow> gm_wf (ff_items f) \<and> set (gm_keys (ff_items f)) \<subseteq> set (ff_queue f)"

lemma ff_inv_new: "ff_inv NewFIFO"
  by (simp add: ff_inv_def NewFIFO_def)

lemma ff_inv_Add: "ff_inv f \<Longrightarrow> ff_inv (fst (ff_Add keyFunc f obj))"
  by (auto simp: ff_inv_def ff_Add_def gm_keys_set [simplified] gomap_simps map_of_eq_None_iff
      split: sum.splits)

lemma ff_inv_AddIfNotPresent: "ff_inv f \<Longrightarrow> ff_inv (fst (ff_AddIfNotPresent keyFunc f obj))"
  by (auto simp: ff_inv_def ff_AddIfNotPresent_def Let_def gm_keys_set [simplified] split: sum.splits)

lemma ff_inv_Delete: "ff_inv f \<Longrightarrow> ff_inv (fst (ff_Delete keyFunc f obj))"
  by (auto simp: ff_inv_def ff_Delete_def gm_keys_del [simplified] split: sum.splits)

lemma ff_inv_Replace: "ff_inv f \<Longrightarrow> ff_inv (fst (ff_Replace keyFunc f list rv))"
  by (auto simp: ff_inv_def ff_Replace_def Let_def split: sum.splits dest: collect_items_wf [rotated])

lemma ff_pop_loop_inv:
  "gm_wf (ff_items f) \<Longrightarrow> set (gm_keys (ff_items f)) \<subseteq> set q \<Longrightarrow> ff_inv (fst (ff_pop_loop f q))"
proof (induction f q rule: ff_pop_loop.induct)
  case (1 f)
  then show ?case by (simp add: ff_inv_def)
next
  case (2 f ident rest)
  show ?case
  proof (cases "map_of (ff_items f) ident")
    case None
    then have "ident \<notin> set (gm_keys (ff_items f))" by (simp add: map_of_eq_None_iff)
    with "2.prems" have "set (gm_keys (ff_items f)) \<subseteq> set rest" by auto
    with 2 None show ?thesis by (simp add: Let_def gomap_simps)
  next
    case (Some item)
    with "2.prems" gm_keys_del [of ident "ff_items f"] show ?thesis
      by (auto simp: Let_def gomap_simps ff_inv_def)
  qed
qed

lemma ff_inv_Pop: "ff_inv f \<Longrightarrow> ff_inv (fst (ff_Pop f))"
  unfolding ff_Pop_def by (rule ff_pop_loop_inv) (auto simp: ff_inv_def)

text \<open>\<open>Pop\<close> takes the first queued id that still has an item, and blocks only without items.\<close>

lemma ff_pop_loop_split:
  "\<forall>i \<in> set pre. map_of (ff_items f) i = None \<Longrightarrow> map_of (ff_items f) ident = Some item \<Longrightarrow>
     snd (ff_pop_loop f (pre @ ident # post)) = Some item \<and>
     ff_queue (fst (ff_pop_loop f (pre @ ident # post))) = post \<and>
     ff_items (fst (ff_pop_loop f (pre @ ident # post))) = gm_del ident (ff_items f)"
  by (induction pre arbitrary: f) (simp_all add: Let_def gomap_simps)

lemma ff_pop_loop_blocks:
  "\<forall>i \<in> set q. map_of (ff_items f) i = None \<Longrightarrow>
     snd (ff_pop_loop f q) = None \<and> ff_queue (fst (ff_pop_loop f q)) = [] \<and>
     ff_items (fst (ff_pop_loop f q)) = ff_items f"
  by (induction q arbitrary: f) (simp_all add: Let_def gomap_simps)

section \<open>A queue with one key is a single slot\<close>

record ('q, 'o) kqueue =
  kq_AddIfNotPresent :: "'q \<Rightarrow> 'o \<Rightarrow> 'q \<times> gerror option"
  kq_Pop :: "'q \<Rightarrow> 'q \<times> 'o option"

locale single_slot =
  fixes Q :: "('q, 'o) kqueue"
    and slot :: "'q \<Rightarrow> 'o option"
    and qinv :: "'q \<Rightarrow> bool"
  assumes add_empty: "qinv q \<Longrightarrow> slot q = None \<Longrightarrow>
        qinv (fst (kq_AddIfNotPresent Q q x)) \<and> slot (fst (kq_AddIfNotPresent Q q x)) = Some x"
    and add_full: "qinv q \<Longrightarrow> slot q = Some y \<Longrightarrow>
        qinv (fst (kq_AddIfNotPresent Q q x)) \<and> slot (fst (kq_AddIfNotPresent Q q x)) = Some y"
    and add_no_err: "qinv q \<Longrightarrow> snd (kq_AddIfNotPresent Q q x) = None"
    and pop_slot: "qinv q \<Longrightarrow>
        qinv (fst (kq_Pop Q q)) \<and> snd (kq_Pop Q q) = slot q \<and> slot (fst (kq_Pop Q q)) = None"
begin

lemma add_slot: "qinv q \<Longrightarrow> slot (fst (kq_AddIfNotPresent Q q x)) = Some (case slot q of None \<Rightarrow> x | Some y \<Rightarrow> y)"
  using add_empty add_full by (cases "slot q") auto

lemma add_inv: "qinv q \<Longrightarrow> qinv (fst (kq_AddIfNotPresent Q q x))"
  using add_empty add_full by (cases "slot q") auto

lemma add_pop_roundtrip:
  "qinv q \<Longrightarrow> slot q = None \<Longrightarrow> snd (kq_Pop Q (fst (kq_AddIfNotPresent Q q x))) = Some x"
  using add_empty pop_slot by simp

end

definition fifo_queue :: "'o KeyFunc \<Rightarrow> ('o FIFO, 'o) kqueue" where
  "fifo_queue keyFunc = \<lparr>kq_AddIfNotPresent = ff_AddIfNotPresent keyFunc, kq_Pop = ff_Pop\<rparr>"

text \<open>The slot of a FIFO whose key function always answers \<open>key\<close>.\<close>

definition ff_slot :: "string \<Rightarrow> 'o FIFO \<Rightarrow> 'o option" where
  "ff_slot key f = map_of (ff_items f) key"

definition ff_one_key :: "string \<Rightarrow> 'o FIFO \<Rightarrow> bool" where
  "ff_one_key key f \<longleftrightarrow> ff_inv f \<and> set (gm_keys (ff_items f)) \<subseteq> {key} \<and> set (ff_queue f) \<subseteq> {key}"

lemma ff_one_key_add:
  assumes "ff_one_key key f"
  shows "ff_one_key key (fst (ff_AddIfNotPresent (\<lambda>_. Inr key) f x))"
    and "ff_slot key (fst (ff_AddIfNotPresent (\<lambda>_. Inr key) f x)) =
      Some (case ff_slot key f of None \<Rightarrow> x | Some y \<Rightarrow> y)"
    and "snd (ff_AddIfNotPresent (\<lambda>_. Inr key) f x) = None"
  using assms ff_inv_AddIfNotPresent [of f "\<lambda>_. Inr key" x] gm_keys_set [of key x "ff_items f"]
  by (auto simp: ff_one_key_def ff_slot_def ff_AddIfNotPresent_def Let_def gomap_simps
      split: option.splits)

lemma ff_one_key_pop:
  assumes "ff_one_key key f"
  shows "ff_one_key key (fst (ff_Pop f)) \<and> snd (ff_Pop f) = ff_slot key f \<and> ff_slot key (fst (ff_Pop f)) = None"
proof (cases "map_of (ff_items f) key")
  case None
  with assms have "\<forall>i \<in> set (ff_queue f). map_of (ff_items f) i = None"
    by (auto simp: ff_one_key_def)
  from ff_pop_loop_blocks [OF this] assms None ff_inv_Pop [of f] show ?thesis
    by (auto simp: ff_Pop_def ff_one_key_def ff_slot_def)
next
  case (Some item)
  then have "key \<in> fst ` set (ff_items f)" by (metis map_of_eq_None_iff option.distinct(1))
  with assms obtain post where q: "ff_queue f = key # post" and post: "set post \<subseteq> {key}"
    by (cases "ff_queue f") (auto simp: ff_one_key_def ff_inv_def)
  from ff_pop_loop_split [of "[]" f key item post] Some obtain g where
    g: "ff_Pop f = (g, Some item)" "ff_queue g = post" "ff_items g = gm_del key (ff_items f)"
    by (metis append_Nil empty_iff empty_set ff_Pop_def prod.collapse q)
  with assms Some post ff_inv_Pop [of f] gm_keys_del [of key "ff_items f"] show ?thesis
    by (auto simp: ff_one_key_def ff_slot_def gomap_simps)
qed

interpretation slot: single_slot "fifo_queue (\<lambda>_. Inr key)" "ff_slot key" "ff_one_key key"
  for key :: string
  by unfold_locales (auto simp: fifo_queue_def ff_one_key_add ff_one_key_pop)

lemma ff_one_key_new: "ff_one_key key NewFIFO" and ff_slot_new: "ff_slot key NewFIFO = None"
  by (simp_all add: ff_one_key_def ff_slot_def ff_inv_new) (simp_all add: NewFIFO_def)

end
