(* ===== verification/RateLimiter.thy ===== *)
theory RateLimiter
  imports Backoff Fifo
begin

text \<open>
  \<open>util/ratelimiter/ratelimiter.go\<close>: a function that is run by a background goroutine, at most
  once per period, however often it is requested.

  The queue is an interface value (\<open>kqueue\<close>, a record of the two methods that are called). The
  handler is an argument that transforms the rest of the world and returns, fails, panics or ends
  the process. One iteration of the \<open>RunUntil\<close> loop is \<open>rl_iteration\<close>; its three clock readings
  are arguments. The system \<open>rl_step\<close> interleaves \<open>Invoke\<close> calls with iterations and records the
  handler runs, also those that panic (\<open>wait.Until\<close> recovers and goes on with the next iteration); its lemmas live in the locale \<open>single_slot\<close> and hold for the
  daemon's FIFO through the interpretation \<open>slot\<close>.
\<close>

section \<open>The rate limited function\<close>

definition maxBackOffPeriod :: duration where
  "maxBackOffPeriod = 30 * second"

record 'q RateLimitedFunction =
  rl_queue :: 'q
  rl_backOffKey :: string
  rl_backOff :: Backoff

definition NewRateLimitedFunction :: "string \<Rightarrow> duration \<Rightarrow> 'o FIFO RateLimitedFunction" where
  "NewRateLimitedFunction backOffKey period =
     \<lparr>rl_queue = NewFIFO, rl_backOffKey = backOffKey, rl_backOff = NewBackOff period maxBackOffPeriod\<rparr>"

text \<open>The queue's key function ignores its argument.\<close>

definition rl_keyFunc :: "string \<Rightarrow> 'o KeyFunc" where
  "rl_keyFunc backOffKey _ = Inr backOffKey"

definition rl_Invoke ::
  "('q, 'o) kqueue \<Rightarrow> 'q RateLimitedFunction \<Rightarrow> 'o \<Rightarrow> 'q RateLimitedFunction" where
  "rl_Invoke Q rlf resource = rlf\<lparr>rl_queue := fst (kq_AddIfNotPresent Q (rl_queue rlf) resource)\<rparr>"

definition handleOne ::
  "('q, 'o) kqueue \<Rightarrow> ('w \<Rightarrow> 'w \<times> unit outcome) \<Rightarrow> 'q RateLimitedFunction \<Rightarrow> 'w \<Rightarrow> 'o
     \<Rightarrow> gotime \<Rightarrow> gotime \<Rightarrow> gotime \<Rightarrow> 'q RateLimitedFunction \<times> 'w \<times> unit outcome" where
  "handleOne Q Handler rlf w resource t1 t2 t3 =
     (if IsInBackOffSinceUpdate (rl_backOff rlf) (rl_backOffKey rlf) t1
      then (rlf\<lparr>rl_queue := fst (kq_AddIfNotPresent Q (rl_queue rlf) resource)\<rparr>, w, Ok ())
      else (let next = rlf\<lparr>rl_backOff := bo_Next (rl_backOff rlf) (rl_backOffKey rlf) t2 t3\<rparr> in
            case Handler w of
              (w', Ok _) \<Rightarrow> (next, w', Ok ())
            | (w', Fail err) \<Rightarrow> (next, w', Ok ())
            | (w', Panic msg) \<Rightarrow> (rlf, w', Panic msg)
            | (w', Exit msg) \<Rightarrow> (rlf, w', Exit msg)))"

definition rl_iteration ::
  "('q, 'o) kqueue \<Rightarrow> ('w \<Rightarrow> 'w \<times> unit outcome) \<Rightarrow> 'q RateLimitedFunction \<Rightarrow> 'w
     \<Rightarrow> gotime \<Rightarrow> gotime \<Rightarrow> gotime \<Rightarrow> 'q RateLimitedFunction \<times> 'w \<times> unit outcome" where
  "rl_iteration Q Handler rlf w t1 t2 t3 =
     (case kq_Pop Q (rl_queue rlf) of
        (q, None) \<Rightarrow> (rlf\<lparr>rl_queue := q\<rparr>, w, Ok ())
      | (q, Some resource) \<Rightarrow> handleOne Q Handler (rlf\<lparr>rl_queue := q\<rparr>) w resource t1 t2 t3)"

section \<open>Invocations and iterations interleaved\<close>

text \<open>A run of the handler: when it was started, when it was over, and whether it returned.\<close>

type_synonym run = "gotime \<times> gotime \<times> bool"

record ('q, 'w) rl_sys =
  fn :: "'q RateLimitedFunction"
  outside :: 'w
  clock :: gotime
  calls :: "run list"

datatype 'o rl_label = Invoke 'o | Iterate gotime gotime gotime

definition returns :: "'w \<times> unit outcome \<Rightarrow> bool" where
  "returns r \<longleftrightarrow> (case snd r of Ok _ \<Rightarrow> True | Fail _ \<Rightarrow> True | _ \<Rightarrow> False)"

text \<open>An iteration calls the handler when a request is queued and the key is not in backoff.\<close>

definition fires :: "('q, 'o) kqueue \<Rightarrow> ('q, 'w) rl_sys \<Rightarrow> gotime \<Rightarrow> bool" where
  "fires Q s t1 \<longleftrightarrow> snd (kq_Pop Q (rl_queue (fn s))) \<noteq> None \<and>
     \<not> IsInBackOffSinceUpdate (rl_backOff (fn s)) (rl_backOffKey (fn s)) t1"

fun rl_step ::
  "('q, 'o) kqueue \<Rightarrow> ('w \<Rightarrow> 'w \<times> unit outcome) \<Rightarrow> ('q, 'w) rl_sys \<Rightarrow> 'o rl_label
     \<Rightarrow> ('q, 'w) rl_sys option" where
  "rl_step Q Handler s (Invoke resource) = Some (s\<lparr>fn := rl_Invoke Q (fn s) resource\<rparr>)"
| "rl_step Q Handler s (Iterate t1 t2 t3) =
     (if clock s \<le> t1 \<and> t1 \<le> t2 \<and> t2 \<le> t3
      then let (f, w, out) = rl_iteration Q Handler (fn s) (outside s) t1 t2 t3 in
           Some \<lparr>fn = f, outside = w, clock = t3,
             calls = (if fires Q s t1 then (t1, t3, returns (Handler (outside s))) # calls s else calls s)\<rparr>
      else None)"

definition rl_init :: "'q RateLimitedFunction \<Rightarrow> 'w \<Rightarrow> gotime \<Rightarrow> ('q, 'w) rl_sys" where
  "rl_init f w t = \<lparr>fn = f, outside = w, clock = t, calls = []\<rparr>"

text \<open>The runs (latest first): each starts at least \<open>d\<close> after the end of every earlier run that returned.\<close>

fun spaced :: "int \<Rightarrow> run list \<Rightarrow> bool" where
  "spaced d [] \<longleftrightarrow> True"
| "spaced d ((s2, e2, r2) # rest) \<longleftrightarrow> (\<forall>(s1, e1, r1) \<in> set rest. r1 \<longrightarrow> e1 + d \<le> s2) \<and> spaced d rest"

definition last_returned :: "run list \<Rightarrow> gotime option" where
  "last_returned cs = (case filter (\<lambda>(_, _, r). r) cs of [] \<Rightarrow> None | (_, e, _) # _ \<Rightarrow> Some e)"

lemma last_returned_simps [simp]:
  "last_returned [] = None"
  "last_returned ((s1, e1, r1) # cs) = (if r1 then Some e1 else last_returned cs)"
  by (simp_all add: last_returned_def)

text \<open>The runs end in the order of the list, so the last run that returned bounds them all.\<close>

fun ends_before :: "gotime \<Rightarrow> run list \<Rightarrow> bool" where
  "ends_before t [] \<longleftrightarrow> True"
| "ends_before t ((s1, e1, r1) # cs) \<longleftrightarrow> e1 \<le> t \<and> ends_before e1 cs"

lemma ends_before_mono: "ends_before t cs \<Longrightarrow> t \<le> t' \<Longrightarrow> ends_before t' cs"
  by (cases cs) auto

lemma ends_before_all: "ends_before t cs \<Longrightarrow> (s1, e1, r1) \<in> set cs \<Longrightarrow> e1 \<le> t"
  by (induction t cs rule: ends_before.induct) fastforce+

lemma ends_before_last:
  "ends_before t cs \<Longrightarrow> (s1, e1, True) \<in> set cs \<Longrightarrow> \<exists>e. last_returned cs = Some e \<and> e1 \<le> e"
  by (induction t cs rule: ends_before.induct) (auto dest: ends_before_all)

lemma ends_before_Some: "last_returned cs = Some e \<Longrightarrow> ends_before t cs \<Longrightarrow> e \<le> t"
  by (induction t cs rule: ends_before.induct) (auto split: if_splits)

lemma spaced_Cons:
  assumes "spaced d cs" "ends_before t cs" "\<And>e. last_returned cs = Some e \<Longrightarrow> e + d \<le> s2"
  shows "spaced d ((s2, e2, r2) # cs)"
  using assms ends_before_last [OF assms(2)] by fastforce

lemma maxBackOffPeriod_value: "sint maxBackOffPeriod = 30000000000"
  by (simp add: maxBackOffPeriod_def)

context single_slot
begin

definition rl_inv :: "duration \<Rightarrow> ('q, 'w) rl_sys \<Rightarrow> bool" where
  "rl_inv d s \<longleftrightarrow> qinv (rl_queue (fn s)) \<and>
     bo_defaultDuration (rl_backOff (fn s)) = d \<and> bo_maxDuration (rl_backOff (fn s)) = maxBackOffPeriod \<and>
     bo_abs (rl_backOff (fn s)) (rl_backOffKey (fn s)) =
       map_option (\<lambda>e. \<lparr>be_backoff = d, be_lastUpdate = e\<rparr>) (last_returned (calls s)) \<and>
     ends_before (clock s) (calls s) \<and>
     spaced (min (sint d) 60000000000) (calls s)"

lemma backoff_iff:
  assumes "rl_inv d s" and "0 \<le> sint d"
  shows "IsInBackOffSinceUpdate (rl_backOff (fn s)) (rl_backOffKey (fn s)) t \<longleftrightarrow>
    (case last_returned (calls s) of None \<Rightarrow> False | Some e \<Rightarrow> t - e < sint d \<and> t - e \<le> 60000000000)"
  using assms
  by (auto simp: rl_inv_def IsInBackOffSinceUpdate_def gomap_simps hasExpired_iff maxBackOffPeriod_value
      time_Sub_less split: option.splits)

lemma fires_iff: "rl_inv d s \<Longrightarrow> fires Q s t \<longleftrightarrow> slot (rl_queue (fn s)) \<noteq> None \<and>
    \<not> IsInBackOffSinceUpdate (rl_backOff (fn s)) (rl_backOffKey (fn s)) t"
  using pop_slot by (simp add: fires_def rl_inv_def)

lemma fires_spaced:
  assumes "rl_inv d s" and "fires Q s t1" and "clock s \<le> t1" and "last_returned (calls s) = Some e1"
  shows "e1 + min (sint d) 60000000000 \<le> t1"
proof (cases "0 \<le> sint d")
  case True
  from assms(2) fires_iff [OF assms(1)] backoff_iff [OF assms(1) True] assms(4) show ?thesis by auto
next
  case False
  with assms ends_before_Some [of "calls s" e1 "clock s"] show ?thesis by (fastforce simp: rl_inv_def)
qed

lemma iteration_cases:
  assumes "rl_inv d s"
  shows "rl_iteration Q Handler (fn s) w t1 t2 t3 =
    (let f0 = (fn s)\<lparr>rl_queue := fst (kq_Pop Q (rl_queue (fn s)))\<rparr>;
         (w', out) = Handler w;
         next = f0\<lparr>rl_backOff := bo_Next (rl_backOff (fn s)) (rl_backOffKey (fn s)) t2 t3\<rparr>
     in case slot (rl_queue (fn s)) of
          None \<Rightarrow> (f0, w, Ok ())
        | Some r \<Rightarrow>
            if \<not> fires Q s t1 then (rl_Invoke Q f0 r, w, Ok ())
            else if returns (Handler w) then (next, w', Ok ()) else (f0, w', out))"
  using assms fires_iff [OF assms, of t1] pop_slot [of "rl_queue (fn s)"]
  by (cases "kq_Pop Q (rl_queue (fn s))"; cases "Handler w"; cases "snd (Handler w)")
    (auto simp: rl_iteration_def handleOne_def rl_Invoke_def returns_def rl_inv_def Let_def
      split: option.splits)

lemma rl_inv_iterate:
  assumes inv: "rl_inv d s" and t: "clock s \<le> t1" "t1 \<le> t2" "t2 \<le> t3"
    and it: "rl_iteration Q Handler (fn s) (outside s) t1 t2 t3 = (f, w, out)"
  shows "rl_inv d \<lparr>fn = f, outside = w, clock = t3,
      calls = (if fires Q s t1 then (t1, t3, returns (Handler (outside s))) # calls s else calls s)\<rparr>"
proof -
  let ?q = "rl_queue (fn s)"
  have q: "qinv ?q" "qinv (fst (kq_Pop Q ?q))" using inv pop_slot by (auto simp: rl_inv_def)
  have le: "ends_before t3 (calls s)" "ends_before (clock s) (calls s)"
    using inv t ends_before_mono [of "clock s"] by (auto simp: rl_inv_def)
  note it' = it [unfolded iteration_cases [OF inv]]
  have sp: "spaced (min (sint d) 60000000000) ((t1, t3, r) # calls s)" if "fires Q s t1" for r
    using inv fires_spaced [OF inv that t(1)] le(2) by (intro spaced_Cons) (auto simp: rl_inv_def)
  show ?thesis
  proof (cases "fires Q s t1 \<and> returns (Handler (outside s))")
    case True
    then have "slot ?q \<noteq> None" using fires_iff [OF inv] by simp
    with True it' have f: "f = (fn s)\<lparr>rl_queue := fst (kq_Pop Q ?q),
        rl_backOff := bo_Next (rl_backOff (fn s)) (rl_backOffKey (fn s)) t2 t3\<rparr>"
      by (auto simp: Let_def split: prod.splits)
    with True f inv q le sp show ?thesis
      by (auto simp: rl_inv_def bo_Next_abs split: option.splits)
  next
    case False
    with it' add_inv [OF q(2)] have "qinv (rl_queue f) \<and> rl_backOff f = rl_backOff (fn s) \<and>
        rl_backOffKey f = rl_backOffKey (fn s)"
      using q by (auto simp: Let_def rl_Invoke_def split: prod.splits option.splits if_splits)
    with False inv le sp show ?thesis by (auto simp: rl_inv_def)
  qed
qed

lemma rl_inv_step:
  assumes "rl_inv d s" and "rl_step Q Handler s l = Some t"
  shows "rl_inv d t"
proof (cases l)
  case (Invoke r)
  with assms add_inv show ?thesis by (auto simp: rl_inv_def rl_Invoke_def)
next
  case (Iterate t1 t2 t3)
  obtain f w out where it: "rl_iteration Q Handler (fn s) (outside s) t1 t2 t3 = (f, w, out)"
    by (metis prod_cases3)
  with Iterate assms(2) have g: "clock s \<le> t1" "t1 \<le> t2" "t2 \<le> t3"
    and t: "t = \<lparr>fn = f, outside = w, clock = t3,
      calls = (if fires Q s t1 then (t1, t3, returns (Handler (outside s))) # calls s else calls s)\<rparr>"
    by (auto split: if_split_asm)
  show ?thesis unfolding t by (rule rl_inv_iterate [OF assms(1) g it])
qed

end

section \<open>The daemon's rate limited functions\<close>

abbreviation rl_Q :: "string \<Rightarrow> ('o FIFO, 'o) kqueue" where
  "rl_Q key \<equiv> fifo_queue (rl_keyFunc key)"

lemma rl_Q_const: "rl_Q key = fifo_queue (\<lambda>_. Inr key)"
  by (simp add: rl_keyFunc_def [abs_def])

abbreviation rl_start :: "string \<Rightarrow> duration \<Rightarrow> 'w \<Rightarrow> gotime \<Rightarrow> ('o FIFO, 'w) rl_sys" where
  "rl_start key period w t \<equiv> rl_init (NewRateLimitedFunction key period) w t"

lemma rl_start_inv: "slot.rl_inv key period (rl_start key period w t)"
  by (simp add: slot.rl_inv_def rl_init_def NewRateLimitedFunction_def NewBackOff_def ff_one_key_new)

interpretation rls: invariant_system "rl_step (rl_Q key) Handler" "rl_start key period w t"
    "slot.rl_inv key period"
  for key :: string and Handler :: "'w \<Rightarrow> 'w \<times> unit outcome" and period :: duration
    and w :: 'w and t :: gotime
  by unfold_locales (auto simp: rl_start_inv rl_Q_const intro: slot.rl_inv_step)

lemmas rl_eval =
  rl_init_def NewRateLimitedFunction_def NewBackOff_def NewFIFO_def rl_Invoke_def fifo_queue_def
  ff_AddIfNotPresent_def rl_keyFunc_def rl_iteration_def handleOne_def ff_Pop_def fires_def
  returns_def IsInBackOffSinceUpdate_def hasExpired_def sint_time_Sub maxBackOffPeriod_def
  bo_Next_def initEntryUnsafe_def gm_get_def gm_set_def gm_del_def Let_def

section \<open>Properties\<close>

text \<open>C14: a run of the handler, also one that panics, never starts closer to the end of an earlier run that returned than
  the configured interval (or one minute, if the interval is longer than that).\<close>

theorem reloads_spaced:
  assumes "reach (rl_step (rl_Q key) Handler) (rl_start key period w t) s"
  shows "spaced (min (sint period) 60000000000) (calls s)"
  using rls.inv_reach [OF assms] by (simp add: slot.rl_inv_def)

theorem reloads_spaced_witness:
  "\<exists>s. run_steps (rl_step (rl_Q ''k'') (\<lambda>n. (n + 1 :: int, if n = 1 then Panic ''lost'' else Ok ()))) (rl_start ''k'' (5 * second) 0 0)
      [Invoke ''k'', Iterate 10 20 30, Invoke ''k'', Iterate 40 40 40, Iterate 5000000030 5000000030 5000000031] = Some s \<and>
    calls s = [(5000000030, 5000000031, False), (10, 30, True)] \<and> spaced 5000000000 (calls s)"
proof -
  obtain s where s: "run_steps (rl_step (rl_Q ''k'') (\<lambda>n. (n + 1 :: int, if n = 1 then Panic ''lost'' else Ok ()))) (rl_start ''k'' (5 * second) 0 0)
      [Invoke ''k'', Iterate 10 20 30, Invoke ''k'', Iterate 40 40 40, Iterate 5000000030 5000000030 5000000031] = Some s"
    and c: "calls s = [(5000000030, 5000000031, False), (10, 30, True)]"
    by (simp add: rl_eval)
  from reloads_spaced [OF reach_run_steps [OF reach_init s]] s c show ?thesis by simp
qed



text \<open>Requests coalesce: any number of invocations before the next iteration leave the
  function in the same state as the first one.\<close>

theorem invocations_coalesce:
  "foldl (rl_Invoke (rl_Q key)) rlf (r # rs) = rl_Invoke (rl_Q key) rlf r"
proof -
  have "rl_Invoke (rl_Q key) (rl_Invoke (rl_Q key) f r) r' = rl_Invoke (rl_Q key) f r" for f r'
    by (auto simp: rl_Invoke_def fifo_queue_def rl_keyFunc_def ff_AddIfNotPresent_def Let_def gomap_simps)
  then show ?thesis by (induction rs) simp_all
qed

text \<open>An interval above one minute is not honoured: with two minutes configured, a second
  reload runs 61 seconds after the first.\<close>

theorem long_interval_cut_off:
  "\<exists>s. run_steps (rl_step (rl_Q ''k'') (\<lambda>n. (n + 1 :: int, Ok ()))) (rl_start ''k'' (120 * second) 0 0)
      [Invoke ''k'', Iterate 0 0 0, Invoke ''k'', Iterate 61000000000 61000000000 61000000000] = Some s \<and>
    outside s = 2 \<and> calls s = [(61000000000, 61000000000, True), (0, 0, True)]"
  by (simp add: rl_eval)

end
