(* ===== verification/Abool.thy ===== *)
theory Abool
  imports Prelude
begin

text \<open>
  \<open>util/abool/bool.go\<close>: a boolean kept in a 32-bit integer and accessed with atomic loads, stores
  and compare-and-swap. Each method is one atomic access, so a method is one step. The locale
  \<open>flag\<close> is what users of an \<open>AtomicBool\<close> rely on: it behaves like a Boolean variable.
\<close>

type_synonym AtomicBool = "32 word"

definition ab_New :: AtomicBool where
  "ab_New = 0"

definition ab_Set :: "AtomicBool \<Rightarrow> AtomicBool" where
  "ab_Set ab = 1"

definition ab_UnSet :: "AtomicBool \<Rightarrow> AtomicBool" where
  "ab_UnSet ab = 0"

definition ab_IsSet :: "AtomicBool \<Rightarrow> bool" where
  "ab_IsSet ab \<longleftrightarrow> ab = 1"

definition ab_NewBool :: "bool \<Rightarrow> AtomicBool" where
  "ab_NewBool ok = (let ab = ab_New in if ok then ab_Set ab else ab)"

definition ab_SetTo :: "AtomicBool \<Rightarrow> bool \<Rightarrow> AtomicBool" where
  "ab_SetTo ab yes = (if yes then 1 else 0)"

definition CompareAndSwapInt32 :: "32 word \<Rightarrow> 32 word \<Rightarrow> 32 word \<Rightarrow> 32 word \<times> bool" where
  "CompareAndSwapInt32 addr old new = (if addr = old then (new, True) else (addr, False))"

definition ab_SetToIf :: "AtomicBool \<Rightarrow> bool \<Rightarrow> bool \<Rightarrow> AtomicBool \<times> bool" where
  "ab_SetToIf ab old new =
     (let o1 = (if old then 1 else 0); n1 = (if new then 1 else 0) in CompareAndSwapInt32 ab o1 n1)"

lemmas abool_defs =
  ab_New_def ab_Set_def ab_UnSet_def ab_IsSet_def ab_NewBool_def ab_SetTo_def ab_SetToIf_def
  CompareAndSwapInt32_def

text \<open>Only the two values 0 and 1 are ever stored.\<close>

definition ab_ok :: "AtomicBool \<Rightarrow> bool" where
  "ab_ok ab \<longleftrightarrow> ab = 0 \<or> ab = 1"

locale flag =
  fixes get :: "'f \<Rightarrow> bool"
    and set_to :: "'f \<Rightarrow> bool \<Rightarrow> 'f"
    and cas :: "'f \<Rightarrow> bool \<Rightarrow> bool \<Rightarrow> 'f \<times> bool"
    and valid :: "'f \<Rightarrow> bool"
  assumes valid_set: "valid f \<Longrightarrow> valid (set_to f b)"
    and get_set: "valid f \<Longrightarrow> get (set_to f b) = b"
    and cas_spec: "valid f \<Longrightarrow>
        cas f old new = (if get f = old then (set_to f new, True) else (f, False))"
begin

lemma get_cas: "valid f \<Longrightarrow> get (fst (cas f old new)) = (if get f = old then new else get f)"
  by (simp add: cas_spec get_set)

lemma valid_cas: "valid f \<Longrightarrow> valid (fst (cas f old new))"
  by (simp add: cas_spec valid_set)

text \<open>Of two racing swaps from the same old value to its negation only the first succeeds.\<close>

lemma cas_once: "valid f \<Longrightarrow> get f = old \<Longrightarrow> snd (cas f old (\<not> old)) \<and>
    \<not> snd (cas (fst (cas f old (\<not> old))) old (\<not> old))"
  using get_cas [of f old "\<not> old"] valid_cas [of f old "\<not> old"] by (simp add: cas_spec get_set valid_set)

end

interpretation ab: flag ab_IsSet ab_SetTo ab_SetToIf ab_ok
  by unfold_locales (auto simp: abool_defs ab_ok_def Let_def)

lemma ab_Set_SetTo: "ab_Set f = ab_SetTo f True" and ab_UnSet_SetTo: "ab_UnSet f = ab_SetTo f False"
  by (simp_all add: abool_defs)

lemma ab_simps [simp]:
  "ab_IsSet (ab_Set f)" "\<not> ab_IsSet (ab_UnSet f)" "\<not> ab_IsSet ab_New" "ab_IsSet (ab_NewBool b) = b"
  "ab_ok (ab_Set f)" "ab_ok (ab_UnSet f)" "ab_ok ab_New" "ab_ok (ab_NewBool b)" "ab_ok (ab_SetTo f b)"
  by (auto simp: abool_defs ab_ok_def Let_def)

text \<open>Among any number of goroutines that each try once to raise the flag with
  \<open>SetToIf(false, true)\<close>, exactly one succeeds if the flag was down, none if it was up.\<close>

fun ab_race :: "AtomicBool \<Rightarrow> nat \<Rightarrow> AtomicBool \<times> nat" where
  "ab_race f 0 = (f, 0)"
| "ab_race f (Suc n) =
     (let (f1, won) = ab_SetToIf f False True; (f2, wins) = ab_race f1 n
      in (f2, (if won then 1 else 0) + wins))"

lemma ab_race_set: "f = 1 \<Longrightarrow> ab_race f n = (1, 0)"
  by (induction n) (auto simp: abool_defs Let_def)

lemma one_racer_wins:
  "ab_race (ab_NewBool b) (Suc n) = (1, if b then 0 else 1)"
  by (auto simp: abool_defs ab_race_set Let_def)

end
