(* ===== verification/Types.thy ===== *)
theory Types
  imports Prelude
begin

text \<open>
  Data that passes between the components: the parts of the Kubernetes API objects
  (\<open>pkg/api/types.go\<close>, vendored) that the daemon reads, and the internal types of
  \<open>proxy/types.go\<close>. Port numbers are Go \<open>int\<close>s that are only copied and printed. Strings are byte
  strings.
\<close>

section \<open>API objects\<close>

record ServicePort =
  sp_Name :: string
  sp_Protocol :: string
  sp_Port :: int

record APIService =
  svc_Namespace :: string
  svc_Name :: string
  svc_ClusterIP :: string
  svc_Ports :: "ServicePort list"

record EndpointPort =
  ep_Name :: string
  ep_Port :: int

text \<open>Addresses are represented by their IP string.\<close>

record EndpointSubset =
  ss_Addresses :: "string list"
  ss_NotReadyAddresses :: "string list"
  ss_Ports :: "EndpointPort list"

record APIEndpoints =
  eps_Namespace :: string
  eps_Name :: string
  eps_Subsets :: "EndpointSubset list"

definition IsServiceIPSet :: "APIService \<Rightarrow> bool" where
  "IsServiceIPSet service \<longleftrightarrow> svc_ClusterIP service \<noteq> ''None'' \<and> svc_ClusterIP service \<noteq> ''''"

definition ProtocolUDP :: string where
  "ProtocolUDP = ''UDP''"

section \<open>Internal types\<close>

record NamespacedName =
  nn_Namespace :: string
  nn_Name :: string

definition NamespacedName_String :: "NamespacedName \<Rightarrow> string" where
  "NamespacedName_String n = nn_Namespace n @ ''/'' @ nn_Name n"

record ServicePortName =
  spn_NamespacedName :: NamespacedName
  spn_Port :: string

definition ServicePortName_String :: "ServicePortName \<Rightarrow> string" where
  "ServicePortName_String spn =
     nn_Namespace (spn_NamespacedName spn) @ '':'' @ nn_Name (spn_NamespacedName spn) @ '':'' @ spn_Port spn"

record Service =
  s_ClusterIP :: string
  s_Port :: int
  s_Protocol :: string

definition zero_Service :: Service where
  "zero_Service = \<lparr>s_ClusterIP = '''', s_Port = 0, s_Protocol = ''''\<rparr>"

record Endpoint =
  e_IP :: string
  e_Port :: int

record ServiceUnit =
  su_Name :: string
  su_ServiceInfo :: Service
  su_Endpoints :: "Endpoint list"

section \<open>Names\<close>

text \<open>\<open>strings.LastIndex(s, ":")\<close>, with \<open>None\<close> for Go's -1.\<close>

fun LastIndex :: "char \<Rightarrow> string \<Rightarrow> nat option" where
  "LastIndex c [] = None"
| "LastIndex c (x # xs) =
     (case LastIndex c xs of
        Some i \<Rightarrow> Some (Suc i)
      | None \<Rightarrow> if x = c then Some 0 else None)"

lemma LastIndex_None: "LastIndex c s = None \<longleftrightarrow> c \<notin> set s"
  by (induction s) (auto split: option.splits)

lemma LastIndex_append:
  "LastIndex c (a @ b) = (case LastIndex c b of Some i \<Rightarrow> Some (length a + i) | None \<Rightarrow> LastIndex c a)"
  by (induction a) (auto split: option.splits)

lemma LastIndex_sep: "c \<notin> set b \<Longrightarrow> LastIndex c (a @ c # b) = Some (length a)"
proof -
  assume "c \<notin> set b"
  then have "LastIndex c (c # b) = Some 0" using LastIndex_None [of c b] by simp
  then show ?thesis by (simp add: LastIndex_append)
qed

text \<open>Cutting a name at its last colon, as \<open>getServicePorts\<close> does.\<close>

definition service_prefix :: "string \<Rightarrow> string option" where
  "service_prefix name = map_option (\<lambda>i. take i name) (LastIndex (CHR '':'') name)"

lemma service_prefix_key:
  "CHR '':'' \<notin> set port \<Longrightarrow> service_prefix (a @ '':'' @ port) = Some a"
  by (simp add: service_prefix_def LastIndex_sep)

lemma service_prefix_defined: "CHR '':'' \<in> set name \<Longrightarrow> \<exists>p. service_prefix name = Some p"
  using LastIndex_None [of "CHR '':''" name] by (cases "LastIndex (CHR '':'') name") (auto simp: service_prefix_def)

abbreviation port_key :: "string \<Rightarrow> string \<Rightarrow> string \<Rightarrow> string" where
  "port_key ns name port \<equiv>
     ServicePortName_String \<lparr>spn_NamespacedName = \<lparr>nn_Namespace = ns, nn_Name = name\<rparr>, spn_Port = port\<rparr>"

lemma port_key_colon [simp]: "CHR '':'' \<in> set (ServicePortName_String spn)"
  by (simp add: ServicePortName_String_def)

lemma port_key_prefix:
  "CHR '':'' \<notin> set port \<Longrightarrow> service_prefix (port_key ns name port) = Some (ns @ '':'' @ name)"
  using service_prefix_key [of port "ns @ '':'' @ name"] by (simp add: ServicePortName_String_def)

text \<open>Without colons in namespace and name, distinct service ports have distinct names, so
  one entry of the route table belongs to one service port.\<close>

theorem ServicePortName_injective:
  assumes "CHR '':'' \<notin> set ns" "CHR '':'' \<notin> set name" "CHR '':'' \<notin> set ns'" "CHR '':'' \<notin> set name'"
  shows "port_key ns name port = port_key ns' name' port' \<longleftrightarrow> ns = ns' \<and> name = name' \<and> port = port'"
  using assms by (auto simp: ServicePortName_String_def append_sep_inj)

theorem ServicePortName_injective_witness:
  "port_key ''default'' ''web'' ''http'' \<noteq> port_key ''default'' ''web'' ''https''"
  using ServicePortName_injective [of "''default''" "''web''" "''default''" "''web''" "''http''" "''https''"]
  by simp

end
