(* ===== verification/Config.thy ===== *)
theory Config
  imports Prelude
begin

text \<open>
  \<open>util/config/configurer.go\<close>, \<open>util/haproxy/haproxy.go\<close> and \<open>util/keepalived/keepalived.go\<close>:
  replacing a configuration file and running the reload script.

  The machine is a record with the files (path to contents) and the scripts run so far (latest
  first). What the operating system does with a call is an environment record \<open>os_env\<close>: whether a
  file can be opened, whether a write succeeds, fails on opening or stops short after some bytes
  (\<open>ioutil.WriteFile\<close> truncates first, so a short write leaves a damaged file), whether a rename
  succeeds, and what a script returns. \<open>glog.Fatalf\<close> ends the process: outcome \<open>Exit\<close>.
\<close>

section \<open>The operating system as the code sees it\<close>

datatype write_result = WriteOk | OpenFails | ShortWrite nat

record os_env =
  os_can_open :: "string \<Rightarrow> bool"
  os_write :: "string \<Rightarrow> write_result"
  os_can_rename :: "string \<Rightarrow> string \<Rightarrow> bool"
  os_script :: "string \<Rightarrow> string option"

record machine =
  files :: "string \<rightharpoonup> string"
  scripts_run :: "string list"

definition ReadFile :: "os_env \<Rightarrow> machine \<Rightarrow> string \<Rightarrow> gerror + string" where
  "ReadFile E m path =
     (case files m path of
        Some content \<Rightarrow> if os_can_open E path then Inr content else Inl (OSError path)
      | None \<Rightarrow> Inl (OSError path))"

definition WriteFile :: "os_env \<Rightarrow> machine \<Rightarrow> string \<Rightarrow> string \<Rightarrow> machine \<times> gerror option" where
  "WriteFile E m path bs =
     (case os_write E path of
        WriteOk \<Rightarrow> (m\<lparr>files := (files m)(path \<mapsto> bs)\<rparr>, None)
      | OpenFails \<Rightarrow> (m, Some (OSError path))
      | ShortWrite n \<Rightarrow> (m\<lparr>files := (files m)(path \<mapsto> take n bs)\<rparr>, Some (OSError path)))"

definition Rename :: "os_env \<Rightarrow> machine \<Rightarrow> string \<Rightarrow> string \<Rightarrow> machine \<times> gerror option" where
  "Rename E m from to =
     (case files m from of
        Some content \<Rightarrow>
          if os_can_rename E from to
          then (m\<lparr>files := (files m)(from := None, to \<mapsto> content)\<rparr>, None)
          else (m, Some (OSError from))
      | None \<Rightarrow> (m, Some (OSError from)))"

definition CombinedOutput :: "os_env \<Rightarrow> machine \<Rightarrow> string \<Rightarrow> machine \<times> string option" where
  "CombinedOutput E m script = (m\<lparr>scripts_run := script # scripts_run m\<rparr>, os_script E script)"

section \<open>Configurer\<close>

record Configurer =
  configFilePath :: string

definition canReadFile :: "os_env \<Rightarrow> machine \<Rightarrow> string \<Rightarrow> bool" where
  "canReadFile E m path \<longleftrightarrow> files m path \<noteq> None \<and> os_can_open E path"

definition NewConfigurer :: "os_env \<Rightarrow> machine \<Rightarrow> string \<Rightarrow> gerror + Configurer" where
  "NewConfigurer E m path =
     (if \<not> canReadFile E m path
      then Inl (Errorf ''ConfigFile can not be found or not readable'')
      else Inr \<lparr>configFilePath = path\<rparr>)"

abbreviation backup_path :: "Configurer \<Rightarrow> string" where
  "backup_path c \<equiv> configFilePath c @ ''.bak''"

abbreviation tmp_path :: "Configurer \<Rightarrow> string" where
  "tmp_path c \<equiv> configFilePath c @ ''.tmp''"

definition createConfigBackup :: "os_env \<Rightarrow> machine \<Rightarrow> Configurer \<Rightarrow> machine \<times> unit outcome" where
  "createConfigBackup E m c =
     (case ReadFile E m (configFilePath c) of
        Inl err \<Rightarrow> (m, Exit ''failed to create configuration backup file'')
      | Inr cfgContent \<Rightarrow>
          (case WriteFile E m (backup_path c) cfgContent of
             (m1, Some err) \<Rightarrow> (m1, Exit ''failed to write backup file'')
           | (m1, None) \<Rightarrow> (m1, Ok ())))"

definition WriteConfig :: "os_env \<Rightarrow> machine \<Rightarrow> Configurer \<Rightarrow> string \<Rightarrow> machine \<times> unit outcome" where
  "WriteConfig E m c bs =
     (case createConfigBackup E m c of
        (m1, Ok _) \<Rightarrow>
          (case WriteFile E m1 (tmp_path c) bs of
             (m2, Some err) \<Rightarrow> (m2, Fail err)
           | (m2, None) \<Rightarrow>
               (case Rename E m2 (tmp_path c) (configFilePath c) of
                  (m3, Some err) \<Rightarrow> (m3, Fail err)
                | (m3, None) \<Rightarrow> (m3, Ok ())))
      | (m1, Fail err) \<Rightarrow> (m1, Exit ''failed to create backup'')
      | (m1, stopped) \<Rightarrow> (m1, stopped))"

section \<open>HAProxy and Keepalived instances\<close>

record InstanceConfig =
  ConfigPath :: string
  TemplatePath :: string
  ReloadScriptPath :: string
  ReloadInterval :: "64 word"

type_synonym HaproxyConfig = InstanceConfig
type_synonym KeepalivedConfig = InstanceConfig

record Instance =
  in_config :: InstanceConfig
  in_configurer :: Configurer

definition haproxy_NewInstance :: "os_env \<Rightarrow> machine \<Rightarrow> HaproxyConfig \<Rightarrow> gerror + Instance" where
  "haproxy_NewInstance E m cfg =
     (case NewConfigurer E m (ConfigPath cfg) of
        Inl err \<Rightarrow> Inl err
      | Inr configurer \<Rightarrow> Inr \<lparr>in_config = cfg, in_configurer = configurer\<rparr>)"

definition keepalived_NewInstance :: "os_env \<Rightarrow> machine \<Rightarrow> KeepalivedConfig \<Rightarrow> gerror + Instance" where
  "keepalived_NewInstance E m cfg =
     (case NewConfigurer E m (ConfigPath cfg) of
        Inl err \<Rightarrow> Inl err
      | Inr configurer \<Rightarrow> Inr \<lparr>in_config = cfg, in_configurer = configurer\<rparr>)"

definition haproxy_Reload :: "os_env \<Rightarrow> machine \<Rightarrow> Instance \<Rightarrow> string \<Rightarrow> machine \<times> unit outcome" where
  "haproxy_Reload E m p cfgBytes =
     (case WriteConfig E m (in_configurer p) cfgBytes of
        (m1, Ok _) \<Rightarrow>
          (case CombinedOutput E m1 (ReloadScriptPath (in_config p)) of
             (m2, Some out) \<Rightarrow> (m2, Fail (Errorf (''error reloading haproxy: '' @ out)))
           | (m2, None) \<Rightarrow> (m2, Ok ()))
      | (m1, failed) \<Rightarrow> (m1, failed))"

definition keepalived_Reload :: "os_env \<Rightarrow> machine \<Rightarrow> Instance \<Rightarrow> string \<Rightarrow> machine \<times> unit outcome" where
  "keepalived_Reload E m k cfgBytes =
     (case WriteConfig E m (in_configurer k) cfgBytes of
        (m1, Ok _) \<Rightarrow>
          (case CombinedOutput E m1 (ReloadScriptPath (in_config k)) of
             (m2, Some out) \<Rightarrow> (m2, Fail (Errorf (''error reloading keepalived: '' @ out)))
           | (m2, None) \<Rightarrow> (m2, Ok ()))
      | (m1, failed) \<Rightarrow> (m1, failed))"

lemmas file_ops = ReadFile_def WriteFile_def Rename_def CombinedOutput_def

lemma tmp_backup_distinct [simp]:
  "tmp_path c \<noteq> backup_path c" "tmp_path c \<noteq> configFilePath c" "backup_path c \<noteq> configFilePath c"
  "configFilePath c \<noteq> tmp_path c" "configFilePath c \<noteq> backup_path c" "backup_path c \<noteq> tmp_path c"
  by auto

lemma createConfigBackup_cases:
  obtains (gone) "createConfigBackup E m c = (m, Exit ''failed to create configuration backup file'')"
  | (failed) m1 where "createConfigBackup E m c = (m1, Exit ''failed to write backup file'')"
      "\<And>path. path \<noteq> backup_path c \<Longrightarrow> files m1 path = files m path" "scripts_run m1 = scripts_run m"
  | (ok) old where "files m (configFilePath c) = Some old"
      "createConfigBackup E m c = (m\<lparr>files := (files m)(backup_path c \<mapsto> old)\<rparr>, Ok ())"
proof -
  consider "ReadFile E m (configFilePath c) = Inl (OSError (configFilePath c))"
    | old where "ReadFile E m (configFilePath c) = Inr old" "files m (configFilePath c) = Some old"
    by (cases "files m (configFilePath c)"; cases "os_can_open E (configFilePath c)")
      (auto simp: ReadFile_def)
  then show ?thesis
  proof cases
    case 1
    then show ?thesis by (intro gone) (simp add: createConfigBackup_def)
  next
    case (2 old)
    show ?thesis
    proof (cases "os_write E (backup_path c)")
      case WriteOk
      with 2 show ?thesis by (intro ok [of old]) (simp_all add: createConfigBackup_def WriteFile_def)
    next
      case OpenFails
      with 2 show ?thesis by (intro failed [of m]) (simp_all add: createConfigBackup_def WriteFile_def)
    next
      case (ShortWrite n)
      with 2 show ?thesis
        by (intro failed [of "m\<lparr>files := (files m)(backup_path c \<mapsto> take n old)\<rparr>"])
          (simp_all add: createConfigBackup_def WriteFile_def)
    qed
  qed
qed

lemma WriteConfig_spec:
  fixes E m c bs
  defines "m' \<equiv> fst (WriteConfig E m c bs)" and "out \<equiv> snd (WriteConfig E m c bs)"
  shows "files m' (configFilePath c) = (if out = Ok () then Some bs else files m (configFilePath c))"
    and "path \<notin> {configFilePath c, backup_path c, tmp_path c} \<Longrightarrow> files m' path = files m path"
    and "scripts_run m' = scripts_run m"
    and "out = Ok () \<Longrightarrow> files m' (backup_path c) = files m (configFilePath c) \<and> files m' (tmp_path c) = None"
    and "(\<exists>err. out = Fail err) \<Longrightarrow> files m' (backup_path c) = files m (configFilePath c)"
proof -
  have "files m' (configFilePath c) = (if out = Ok () then Some bs else files m (configFilePath c)) \<and>
    (path \<notin> {configFilePath c, backup_path c, tmp_path c} \<longrightarrow> files m' path = files m path) \<and>
    scripts_run m' = scripts_run m \<and>
    (out = Ok () \<longrightarrow> files m' (backup_path c) = files m (configFilePath c) \<and> files m' (tmp_path c) = None) \<and>
    ((\<exists>err. out = Fail err) \<longrightarrow> files m' (backup_path c) = files m (configFilePath c))" for path
  proof (cases rule: createConfigBackup_cases [of E m c])
    case gone
    then show ?thesis by (simp add: m'_def out_def WriteConfig_def)
  next
    case (failed m1)
    then show ?thesis by (simp add: m'_def out_def WriteConfig_def)
  next
    case (ok old)
    then show ?thesis
      by (auto simp: m'_def out_def WriteConfig_def WriteFile_def Rename_def
          split: write_result.splits option.splits)
  qed
  then show "files m' (configFilePath c) = (if out = Ok () then Some bs else files m (configFilePath c))"
    and "path \<notin> {configFilePath c, backup_path c, tmp_path c} \<Longrightarrow> files m' path = files m path"
    and "scripts_run m' = scripts_run m"
    and "out = Ok () \<Longrightarrow> files m' (backup_path c) = files m (configFilePath c) \<and> files m' (tmp_path c) = None"
    and "(\<exists>err. out = Fail err) \<Longrightarrow> files m' (backup_path c) = files m (configFilePath c)"
    by blast+
qed

lemma WriteConfig_succeeds:
  assumes "files m (configFilePath c) \<noteq> None" and "os_can_open E (configFilePath c)"
    and "os_write E (backup_path c) = WriteOk" and "os_write E (tmp_path c) = WriteOk"
    and "os_can_rename E (tmp_path c) (configFilePath c)"
  shows "snd (WriteConfig E m c bs) = Ok ()"
  using assms by (auto simp: WriteConfig_def createConfigBackup_def file_ops)

section \<open>The contract of a reload\<close>

locale reloadable =
  fixes reload :: "os_env \<Rightarrow> machine \<Rightarrow> Instance \<Rightarrow> string \<Rightarrow> machine \<times> unit outcome"
  assumes reload_cfg: "files (fst (reload E m i bs)) (configFilePath (in_configurer i)) \<in>
        {files m (configFilePath (in_configurer i)), Some bs}"
    and reload_frame: "path \<notin> {configFilePath (in_configurer i), backup_path (in_configurer i), tmp_path (in_configurer i)} \<Longrightarrow>
        files (fst (reload E m i bs)) path = files m path"
    and reload_script: "scripts_run (fst (reload E m i bs)) =
        (if snd (WriteConfig E m (in_configurer i) bs) = Ok ()
         then ReloadScriptPath (in_config i) # scripts_run m else scripts_run m)"
    and reload_ok: "snd (reload E m i bs) = Ok () \<longleftrightarrow>
        snd (WriteConfig E m (in_configurer i) bs) = Ok () \<and> os_script E (ReloadScriptPath (in_config i)) = None"
    and reload_written: "snd (WriteConfig E m (in_configurer i) bs) = Ok () \<Longrightarrow>
        files (fst (reload E m i bs)) (configFilePath (in_configurer i)) = Some bs"
    and reload_no_panic: "snd (reload E m i bs) \<noteq> Panic msg"
begin

lemma reload_installs: "snd (reload E m i bs) = Ok () \<Longrightarrow>
    files (fst (reload E m i bs)) (configFilePath (in_configurer i)) = Some bs \<and>
    scripts_run (fst (reload E m i bs)) = ReloadScriptPath (in_config i) # scripts_run m"
  using reload_ok reload_script reload_written by auto

text \<open>Over any series of reloads the file holds its first contents or one of the written ones.\<close>

lemma reloads_cfg: "files (foldl (\<lambda>m (E, bs). fst (reload E m i bs)) m rs) (configFilePath (in_configurer i)) \<in>
    insert (files m (configFilePath (in_configurer i))) (Some ` snd ` set rs)"
proof (induction rs arbitrary: m)
  case Nil
  then show ?case by simp
next
  case (Cons r rs)
  obtain E bs where r: "r = (E, bs)" by force
  show ?case using Cons [of "fst (reload E m i bs)"] reload_cfg [of E m i bs] by (auto simp: r)
qed

end

lemma haproxy_Reload_unfold:
  "haproxy_Reload E m p bs =
     (if snd (WriteConfig E m (in_configurer p) bs) = Ok ()
      then ((fst (WriteConfig E m (in_configurer p) bs))\<lparr>scripts_run := ReloadScriptPath (in_config p) # scripts_run m\<rparr>,
        (case os_script E (ReloadScriptPath (in_config p)) of
           Some out \<Rightarrow> Fail (Errorf (''error reloading haproxy: '' @ out)) | None \<Rightarrow> Ok ()))
      else WriteConfig E m (in_configurer p) bs)"
  using WriteConfig_spec(3) [of E m "in_configurer p" bs]
  by (cases "WriteConfig E m (in_configurer p) bs")
    (auto simp: haproxy_Reload_def CombinedOutput_def split: outcome.splits option.splits)

lemma keepalived_Reload_unfold:
  "keepalived_Reload E m k bs =
     (if snd (WriteConfig E m (in_configurer k) bs) = Ok ()
      then ((fst (WriteConfig E m (in_configurer k) bs))\<lparr>scripts_run := ReloadScriptPath (in_config k) # scripts_run m\<rparr>,
        (case os_script E (ReloadScriptPath (in_config k)) of
           Some out \<Rightarrow> Fail (Errorf (''error reloading keepalived: '' @ out)) | None \<Rightarrow> Ok ()))
      else WriteConfig E m (in_configurer k) bs)"
  using WriteConfig_spec(3) [of E m "in_configurer k" bs]
  by (cases "WriteConfig E m (in_configurer k) bs")
    (auto simp: keepalived_Reload_def CombinedOutput_def split: outcome.splits option.splits)

lemma WriteConfig_no_panic: "snd (WriteConfig E m c bs) \<noteq> Panic msg"
  by (cases rule: createConfigBackup_cases [of E m c])
    (auto simp: WriteConfig_def WriteFile_def Rename_def split: write_result.splits option.splits)

interpretation hp: reloadable haproxy_Reload
  by unfold_locales
    (auto simp: haproxy_Reload_unfold WriteConfig_spec WriteConfig_no_panic split: option.splits)

interpretation ka: reloadable keepalived_Reload
  by unfold_locales
    (auto simp: keepalived_Reload_unfold WriteConfig_spec WriteConfig_no_panic split: option.splits)

section \<open>Properties\<close>

text \<open>C18: replacing the configuration is all or nothing: whatever the operating system does, the
  configuration file ends up with the new bytes (exactly when \<open>WriteConfig\<close> succeeds) or keeps its
  old contents, and no file other than it, its backup and its temporary file changes.\<close>

theorem WriteConfig_atomic:
  "files (fst (WriteConfig E m c bs)) (configFilePath c) =
     (if snd (WriteConfig E m c bs) = Ok () then Some bs else files m (configFilePath c)) \<and>
   (\<forall>path. path \<notin> {configFilePath c, backup_path c, tmp_path c} \<longrightarrow>
      files (fst (WriteConfig E m c bs)) path = files m path)"
  by (simp add: WriteConfig_spec(1,2))

theorem WriteConfig_atomic_witness:
  "let E = \<lparr>os_can_open = \<lambda>_. True, os_write = \<lambda>p. if p = ''h.cfg.tmp'' then ShortWrite 1 else WriteOk,
        os_can_rename = \<lambda>_ _. True, os_script = \<lambda>_. None\<rparr>;
      m = \<lparr>files = [''h.cfg'' \<mapsto> ''old'', ''other'' \<mapsto> ''x''], scripts_run = []\<rparr>;
      c = \<lparr>configFilePath = ''h.cfg''\<rparr>
   in files (fst (WriteConfig E m c ''new'')) ''h.cfg'' = Some ''old'' \<and>
      files (fst (WriteConfig E m c ''new'')) ''other'' = Some ''x'' \<and>
      files (fst (WriteConfig E m c ''new'')) ''h.cfg.tmp'' = Some ''n''"
proof -
  let ?E = "\<lparr>os_can_open = \<lambda>_. True, os_write = \<lambda>p. if p = ''h.cfg.tmp'' then ShortWrite 1 else WriteOk,
        os_can_rename = \<lambda>_ _. True, os_script = \<lambda>_. None\<rparr>"
  let ?m = "\<lparr>files = [''h.cfg'' \<mapsto> ''old'', ''other'' \<mapsto> ''x''], scripts_run = []\<rparr>"
  have "snd (WriteConfig ?E ?m \<lparr>configFilePath = ''h.cfg''\<rparr> ''new'') \<noteq> Ok ()"
    by (simp add: WriteConfig_def createConfigBackup_def file_ops)
  then show ?thesis
    using WriteConfig_atomic [of ?E ?m "\<lparr>configFilePath = ''h.cfg''\<rparr>" "''new''"]
    by (simp add: WriteConfig_def createConfigBackup_def file_ops)
qed

text \<open>A successful reload has installed the new configuration, kept the previous one as the
  backup, left no temporary file and run the reload script once; the script never runs on a
  configuration that was not written.\<close>

theorem haproxy_reload_correct:
  "(snd (haproxy_Reload E m p bs) = Ok () \<longrightarrow>
      files (fst (haproxy_Reload E m p bs)) (configFilePath (in_configurer p)) = Some bs \<and>
      files (fst (haproxy_Reload E m p bs)) (backup_path (in_configurer p)) = files m (configFilePath (in_configurer p)) \<and>
      files (fst (haproxy_Reload E m p bs)) (tmp_path (in_configurer p)) = None \<and>
      scripts_run (fst (haproxy_Reload E m p bs)) = ReloadScriptPath (in_config p) # scripts_run m) \<and>
   (scripts_run (fst (haproxy_Reload E m p bs)) \<noteq> scripts_run m \<longrightarrow>
      files (fst (haproxy_Reload E m p bs)) (configFilePath (in_configurer p)) = Some bs)"
  using hp.reload_installs [of E m p bs] hp.reload_script [of E m p bs] hp.reload_written [of E m p bs]
    WriteConfig_spec(4) [of E m "in_configurer p" bs] hp.reload_ok [of E m p bs]
  by (auto simp: haproxy_Reload_unfold split: if_splits option.splits)

abbreviation friendly_env :: os_env where
  "friendly_env \<equiv> \<lparr>os_can_open = \<lambda>_. True, os_write = \<lambda>_. WriteOk, os_can_rename = \<lambda>_ _. True,
     os_script = \<lambda>_. None\<rparr>"

theorem haproxy_reload_correct_witness:
  "let m = \<lparr>files = [''h.cfg'' \<mapsto> ''old''], scripts_run = []\<rparr>;
      p = \<lparr>in_config = \<lparr>ConfigPath = ''h.cfg'', TemplatePath = ''t'', ReloadScriptPath = ''r.sh'', ReloadInterval = 5\<rparr>,
            in_configurer = \<lparr>configFilePath = ''h.cfg''\<rparr>\<rparr>
   in snd (haproxy_Reload friendly_env m p ''new'') = Ok () \<and>
      files (fst (haproxy_Reload friendly_env m p ''new'')) ''h.cfg'' = Some ''new'' \<and>
      files (fst (haproxy_Reload friendly_env m p ''new'')) ''h.cfg.bak'' = Some ''old'' \<and>
      scripts_run (fst (haproxy_Reload friendly_env m p ''new'')) = [''r.sh'']"
proof -
  let ?m = "\<lparr>files = [''h.cfg'' \<mapsto> ''old''], scripts_run = []\<rparr>"
  let ?p = "\<lparr>in_config = \<lparr>ConfigPath = ''h.cfg'', TemplatePath = ''t'', ReloadScriptPath = ''r.sh'', ReloadInterval = 5\<rparr>,
      in_configurer = \<lparr>configFilePath = ''h.cfg''\<rparr>\<rparr>"
  have "snd (haproxy_Reload friendly_env ?m ?p ''new'') = Ok ()"
    by (simp add: hp.reload_ok WriteConfig_succeeds)
  with haproxy_reload_correct [of friendly_env ?m ?p "''new''"] show ?thesis by simp
qed

end
