(* ===== verification/IpAddr.thy ===== *)
theory IpAddr
  imports Prelude
begin

text \<open>
  \<open>util/ipaddr/addr.go\<close>: the addresses bound to the network device.

  The netlink library is a record of functions over the kernel's state \<open>'k\<close>; it is a parameter of
  every operation. Addresses of family V4 are four bytes, and \<open>net.IP.String\<close> prints them as
  dotted decimals (\<open>itod\<close> is Go's decimal printer for small numbers).
\<close>

unbundle bit_operations_syntax

section \<open>Printing addresses\<close>

definition digit_char :: "nat \<Rightarrow> char" where
  "digit_char d = char_of (48 + d)"

fun itod :: "nat \<Rightarrow> string" where
  "itod n = (if n < 10 then [digit_char n] else itod (n div 10) @ [digit_char (n mod 10)])"

declare itod.simps [simp del]

datatype ipv4 = IPv4 "8 word" "8 word" "8 word" "8 word"

fun ip_String :: "ipv4 \<Rightarrow> string" where
  "ip_String (IPv4 a b c d) =
     itod (unat a) @ ''.'' @ itod (unat b) @ ''.'' @ itod (unat c) @ ''.'' @ itod (unat d)"

section \<open>The device\<close>

record link =
  lk_Name :: string
  lk_Flags :: "32 word"

record Addr =
  ad_IP :: ipv4
  ad_MaskOnes :: nat

record 'k netlink =
  LinkByName :: "'k \<Rightarrow> string \<Rightarrow> gerror + link"
  AddrList :: "'k \<Rightarrow> link \<Rightarrow> gerror + Addr list"
  AddrAdd :: "'k \<Rightarrow> link \<Rightarrow> Addr \<Rightarrow> 'k \<times> gerror option"
  AddrDel :: "'k \<Rightarrow> link \<Rightarrow> Addr \<Rightarrow> 'k \<times> gerror option"

definition FlagUp :: "32 word" where
  "FlagUp = 1"

text \<open>\<open>net.CIDRMask(32, 32)\<close>, given by its number of leading ones.\<close>

definition DefaultMask :: nat where
  "DefaultMask = 32"

record runner =
  rn_link :: link

definition ipaddr_New :: "'k netlink \<Rightarrow> 'k \<Rightarrow> string \<Rightarrow> gerror + runner" where
  "ipaddr_New N k device =
     (case LinkByName N k device of
        Inl err \<Rightarrow> Inl (Errorf (''failed to find netlink named '' @ device))
      | Inr link \<Rightarrow>
          if lk_Flags link AND FlagUp = 0
          then Inl (Errorf ''netlink %!s(MISSING) is DOWN, please make sure the netlink is up'')
          else Inr \<lparr>rn_link = link\<rparr>)"

definition AddAddr :: "'k netlink \<Rightarrow> 'k \<Rightarrow> runner \<Rightarrow> ipv4 \<Rightarrow> 'k \<times> gerror option" where
  "AddAddr N k runner ip = AddrAdd N k (rn_link runner) \<lparr>ad_IP = ip, ad_MaskOnes = DefaultMask\<rparr>"

definition DeleteAddr :: "'k netlink \<Rightarrow> 'k \<Rightarrow> runner \<Rightarrow> ipv4 \<Rightarrow> 'k \<times> gerror option" where
  "DeleteAddr N k runner ip = AddrDel N k (rn_link runner) \<lparr>ad_IP = ip, ad_MaskOnes = DefaultMask\<rparr>"

fun addrs_loop :: "Addr list \<Rightarrow> (string, bool) gomap \<Rightarrow> (string, bool) gomap" where
  "addrs_loop [] ips = ips"
| "addrs_loop (addr # addrList) ips = addrs_loop addrList (gm_set (ip_String (ad_IP addr)) True ips)"

definition GetAddrs :: "'k netlink \<Rightarrow> 'k \<Rightarrow> runner \<Rightarrow> gerror + (string, bool) gomap" where
  "GetAddrs N k runner =
     (case AddrList N k (rn_link runner) of
        Inl err \<Rightarrow> Inl (Errorf (''failed to list address of netlink '' @ lk_Name (rn_link runner)))
      | Inr addrList \<Rightarrow> Inr (addrs_loop addrList []))"

section \<open>Printed addresses determine the address\<close>

definition digit_val :: "char \<Rightarrow> nat" where
  "digit_val c = of_char c - 48"

definition str_val :: "string \<Rightarrow> nat" where
  "str_val = foldl (\<lambda>v c. 10 * v + digit_val c) 0"

lemma of_digit_char: "d < 10 \<Longrightarrow> (of_char (digit_char d) :: nat) = 48 + d"
  by (simp add: digit_char_def of_char_of)

lemma str_val_itod: "str_val (itod n) = n"
proof (induction n rule: itod.induct)
  case (1 n)
  show ?case
  proof (cases "n < 10")
    case True
    then show ?thesis by (simp add: itod.simps [of n] str_val_def digit_val_def of_digit_char)
  next
    case False
    with 1 show ?thesis
      by (simp add: itod.simps [of n] str_val_def digit_val_def of_digit_char)
  qed
qed

lemma itod_inject: "itod m = itod n \<longleftrightarrow> m = n"
  by (metis str_val_itod)

lemma digit_char_no_dot: "d < 10 \<Longrightarrow> digit_char d \<noteq> CHR ''.''"
proof
  assume "d < 10" and "digit_char d = CHR ''.''"
  then have "(of_char (digit_char d) :: nat) = of_char (CHR ''.'')" by simp
  with of_digit_char [OF \<open>d < 10\<close>] show False by simp
qed

lemma itod_no_dot: "CHR ''.'' \<notin> set (itod n)"
proof (induction n rule: itod.induct)
  case (1 n)
  have "CHR ''.'' \<noteq> digit_char (n mod 10)" "n < 10 \<Longrightarrow> CHR ''.'' \<noteq> digit_char n"
    by (rule digit_char_no_dot [symmetric], simp)+
  with 1 show ?case by (subst itod.simps) (simp split: if_splits)
qed

lemma ip_String_inject: "ip_String x = ip_String y \<longleftrightarrow> x = y"
  by (cases x; cases y) (auto simp: append_sep_inj itod_no_dot itod_inject unsigned_word_eqI)

lemma addrs_loop_abs:
  "map_of (addrs_loop as ips) = (\<lambda>s. if s \<in> (ip_String \<circ> ad_IP) ` set as then Some True else map_of ips s)"
  by (induction as arbitrary: ips) (auto simp: gomap_simps fun_eq_iff)

lemma addrs_loop_wf: "gm_wf ips \<Longrightarrow> gm_wf (addrs_loop as ips)"
  by (induction as arbitrary: ips) auto

section \<open>Properties\<close>

text \<open>\<open>GetAddrs\<close> reports exactly the bound addresses: a printed address is in the result, with
  value true, if and only if that very address is bound to the device, and the result has no
  repeated key. In particular printing never confuses two addresses.\<close>

theorem GetAddrs_exact:
  assumes "AddrList N k (rn_link runner) = Inr as"
  shows "\<exists>ips. GetAddrs N k runner = Inr ips \<and> gm_wf ips \<and> ran (map_of ips) \<subseteq> {True} \<and>
    (\<forall>ip. gm_get ips (ip_String ip) = Some True \<longleftrightarrow> ip \<in> ad_IP ` set as) \<and>
    (\<forall>s. gm_get ips s \<noteq> None \<longrightarrow> (\<exists>ip. s = ip_String ip))"
  using assms
  by (auto simp: GetAddrs_def gomap_simps addrs_loop_abs addrs_loop_wf ip_String_inject ran_def
      split: if_splits)

theorem GetAddrs_exact_witness:
  "\<exists>ips. GetAddrs \<lparr>LinkByName = (\<lambda>_ _. Inr \<lparr>lk_Name = ''lo'', lk_Flags = 1\<rparr>),
        AddrList = (\<lambda>k _. Inr k), AddrAdd = (\<lambda>k _ a. (a # k, None)), AddrDel = (\<lambda>k _ a. (removeAll a k, None))\<rparr>
      [\<lparr>ad_IP = IPv4 10 0 0 1, ad_MaskOnes = 32\<rparr>] \<lparr>rn_link = \<lparr>lk_Name = ''lo'', lk_Flags = 1\<rparr>\<rparr> = Inr ips \<and>
    gm_get ips (ip_String (IPv4 10 0 0 1)) = Some True \<and>
    gm_get ips (ip_String (IPv4 100 0 0 1)) \<noteq> Some True"
proof -
  let ?N = "\<lparr>LinkByName = (\<lambda>_ _. Inr \<lparr>lk_Name = ''lo'', lk_Flags = 1\<rparr>),
        AddrList = (\<lambda>k _. Inr k), AddrAdd = (\<lambda>k _ a. (a # k, None)), AddrDel = (\<lambda>k _ a. (removeAll a k, None))\<rparr>"
  from GetAddrs_exact [of ?N "[\<lparr>ad_IP = IPv4 10 0 0 1, ad_MaskOnes = 32\<rparr>]" "\<lparr>rn_link = \<lparr>lk_Name = ''lo'', lk_Flags = 1\<rparr>\<rparr>"
      "[\<lparr>ad_IP = IPv4 10 0 0 1, ad_MaskOnes = 32\<rparr>]"]
  show ?thesis by (auto simp del: ip_String.simps)
qed

end
