(* ===== verification/Template.thy ===== *)
theory Template
  imports Types
begin

text \<open>
  \<open>util/template/template.go\<close>: rendering a configuration from a template.

  Go's \<open>text/template\<close> is a parameter: an engine says whether a text parses and what executing it
  with a function map and data gives. \<open>template.Must\<close> panics on a text that does not parse;
  execution errors are returned. The two template functions of the daemon are defined here
  (\<open>ToLower\<close> on ASCII letters, the only ones in a protocol name).
\<close>

record TemplateData =
  td_IPs :: "(string, bool) gomap"
  td_RouteTable :: "(string, ServiceUnit) gomap"

definition hasIP :: "(string, bool) gomap \<Rightarrow> string \<Rightarrow> bool" where
  "hasIP ipsMap ip \<longleftrightarrow> gm_get ipsMap ip = Some True"

definition char_lower :: "char \<Rightarrow> char" where
  "char_lower c = (let n = of_char c :: nat in if 65 \<le> n \<and> n \<le> 90 then char_of (n + 32) else c)"

definition ToLower :: "string \<Rightarrow> string" where
  "ToLower s = map char_lower s"

record funcMap =
  fm_hasIP :: "(string, bool) gomap \<Rightarrow> string \<Rightarrow> bool"
  fm_ToLower :: "string \<Rightarrow> string"

record 'd engine =
  en_parses :: "funcMap option \<Rightarrow> string \<Rightarrow> bool"
  en_execute :: "funcMap option \<Rightarrow> string \<Rightarrow> 'd \<Rightarrow> gerror + string"

definition RenderTemplate :: "'d engine \<Rightarrow> string \<Rightarrow> string \<Rightarrow> 'd \<Rightarrow> string outcome" where
  "RenderTemplate T templateName templateContent data =
     (if \<not> en_parses T None templateContent then Panic (''template: '' @ templateName)
      else case en_execute T None templateContent data of
             Inl err \<Rightarrow> Fail err
           | Inr bytes \<Rightarrow> Ok bytes)"

definition RenderTemplateWithFuncs :: "'d engine \<Rightarrow> string \<Rightarrow> string \<Rightarrow> 'd \<Rightarrow> string outcome" where
  "RenderTemplateWithFuncs T templateName templateContent data =
     (let fm = Some \<lparr>fm_hasIP = hasIP, fm_ToLower = ToLower\<rparr> in
      if \<not> en_parses T fm templateContent then Panic (''template: '' @ templateName)
      else case en_execute T fm templateContent data of
             Inl err \<Rightarrow> Fail err
           | Inr bytes \<Rightarrow> Ok bytes)"

lemma RenderTemplate_not_exit: "RenderTemplate T n c d \<noteq> Exit msg"
  by (simp add: RenderTemplate_def split: sum.splits)

lemma RenderTemplateWithFuncs_not_exit: "RenderTemplateWithFuncs T n c d \<noteq> Exit msg"
  by (simp add: RenderTemplateWithFuncs_def Let_def split: sum.splits)

lemma ToLower_TCP: "ToLower ''TCP'' = ''tcp''"
  by code_simp

lemma char_lower_idem: "char_lower (char_lower c) = char_lower c"
  by (auto simp: char_lower_def Let_def of_char_of)

lemma ToLower_idem: "ToLower (ToLower s) = ToLower s"
  by (simp add: ToLower_def char_lower_idem)

end
