(* ===== verification/Proxier.thy ===== *)
theory Proxier
  imports EventQueue Types Abool RateLimiter Config IpAddr Template
begin

text \<open>
  \<open>proxy/template/proxier.go\<close>: the table of virtual IPs, the route table and the commits.

  A handler takes the proxier and returns it updated with what the Go function hands back; the
  result is \<open>None\<close> when the call blocks on \<open>proxier.lock\<close>. A \<open>*proxy.ServiceUnit\<close> is reachable only
  through one entry of the route table, so assigning to a field of the unit is replacing the entry.
  \<open>range\<close> over a map visits the association list in order; the theory \<open>MapOrder\<close> has the handlers with any
  order, and shows that the resulting tables do not depend on it.
\<close>

section \<open>State\<close>

record ProxierConfig =
  pc_Device :: string
  pc_KeepalivedConfig :: KeepalivedConfig
  pc_HaproxyConfig :: HaproxyConfig

text \<open>The resource handed to \<open>Invoke\<close> is the rate limited function itself; only its identity
  matters, so it is represented by its key.\<close>

record Proxier =
  px_config :: ProxierConfig
  px_master :: AtomicBool
  px_skipCommit :: bool
  px_lock :: bool
  px_vipTable :: "(string, bool) gomap"
  px_routeTable :: "(string, ServiceUnit) gomap"
  px_ip :: runner
  px_haproxyInstance :: Instance
  px_keepalivedInstance :: Instance
  px_commitKeepalived :: "string FIFO RateLimitedFunction"
  px_commitHaproxy :: "string FIFO RateLimitedFunction"

definition keepalived_key :: string where
  "keepalived_key = ''proxier_keepalived''"

definition haproxy_key :: string where
  "haproxy_key = ''proxier_haproxy''"

definition NewProxier :: "os_env \<Rightarrow> machine \<Rightarrow> 'k netlink \<Rightarrow> 'k \<Rightarrow> ProxierConfig \<Rightarrow> gerror + Proxier" where
  "NewProxier E m N k cfg =
     (case ipaddr_New N k (pc_Device cfg) of
        Inl err \<Rightarrow> Inl err
      | Inr ip \<Rightarrow>
          (case keepalived_NewInstance E m (pc_KeepalivedConfig cfg) of
             Inl err \<Rightarrow> Inl err
           | Inr keepalived \<Rightarrow>
               (case haproxy_NewInstance E m (pc_HaproxyConfig cfg) of
                  Inl err \<Rightarrow> Inl err
                | Inr haproxy \<Rightarrow>
                    Inr \<lparr>px_config = cfg, px_master = ab_New, px_skipCommit = False, px_lock = False,
                      px_vipTable = [], px_routeTable = [], px_ip = ip,
                      px_haproxyInstance = haproxy, px_keepalivedInstance = keepalived,
                      px_commitKeepalived =
                        NewRateLimitedFunction keepalived_key (ReloadInterval (pc_KeepalivedConfig cfg)),
                      px_commitHaproxy =
                        NewRateLimitedFunction haproxy_key (ReloadInterval (pc_HaproxyConfig cfg))\<rparr>)))"

section \<open>Commits\<close>

definition commitKeepalived :: "Proxier \<Rightarrow> Proxier" where
  "commitKeepalived p =
     (if \<not> ab_IsSet (px_master p) \<or> px_skipCommit p then p
      else p\<lparr>px_commitKeepalived := rl_Invoke (rl_Q keepalived_key) (px_commitKeepalived p) keepalived_key\<rparr>)"

definition commitHaproxy :: "Proxier \<Rightarrow> Proxier" where
  "commitHaproxy p =
     (if \<not> ab_IsSet (px_master p) \<or> px_skipCommit p then p
      else p\<lparr>px_commitHaproxy := rl_Invoke (rl_Q haproxy_key) (px_commitHaproxy p) haproxy_key\<rparr>)"

section \<open>Helpers\<close>

definition findServiceUnit :: "Proxier \<Rightarrow> string \<Rightarrow> ServiceUnit option" where
  "findServiceUnit p name = gm_get (px_routeTable p) name"

definition createServiceUnit :: "Proxier \<Rightarrow> string \<Rightarrow> Proxier" where
  "createServiceUnit p name =
     p\<lparr>px_routeTable := gm_set name
         \<lparr>su_Name = name, su_ServiceInfo = zero_Service, su_Endpoints = []\<rparr> (px_routeTable p)\<rparr>"

text \<open>Slicing with the -1 of an absent colon panics.\<close>

fun service_ports_loop :: "string list \<Rightarrow> string \<Rightarrow> string list outcome" where
  "service_ports_loop [] svcName = Ok []"
| "service_ports_loop (name # rest) svcName =
     (case LastIndex (CHR '':'') name of
        None \<Rightarrow> Panic ''slice bounds out of range''
      | Some i \<Rightarrow>
          (case service_ports_loop rest svcName of
             Ok names \<Rightarrow> Ok (if take i name = svcName then name # names else names)
           | failed \<Rightarrow> failed))"

definition getServicePorts :: "Proxier \<Rightarrow> string \<Rightarrow> string list outcome" where
  "getServicePorts p svcName = service_ports_loop (gm_keys (px_routeTable p)) svcName"

fun diff_found :: "string \<Rightarrow> string list \<Rightarrow> bool" where
  "diff_found oldItem [] = False"
| "diff_found oldItem (newItem # newList) = (if oldItem = newItem then True else diff_found oldItem newList)"

fun diff :: "string list \<Rightarrow> string list \<Rightarrow> string list" where
  "diff [] newList = []"
| "diff (oldItem # oldList) newList =
     (if \<not> diff_found oldItem newList then oldItem # diff oldList newList else diff oldList newList)"

section \<open>Service handlers\<close>

definition service_of :: "APIService \<Rightarrow> ServicePort \<Rightarrow> Service" where
  "service_of service servicePort =
     \<lparr>s_ClusterIP = svc_ClusterIP service, s_Port = sp_Port servicePort, s_Protocol = sp_Protocol servicePort\<rparr>"

abbreviation svc_key :: "APIService \<Rightarrow> ServicePort \<Rightarrow> string" where
  "svc_key service servicePort \<equiv> port_key (svc_Namespace service) (svc_Name service) (sp_Name servicePort)"

definition addVip :: "Proxier \<Rightarrow> APIService \<Rightarrow> Proxier" where
  "addVip p service =
     (if gm_get (px_vipTable p) (svc_ClusterIP service) \<noteq> Some True
      then commitKeepalived (p\<lparr>px_vipTable := gm_set (svc_ClusterIP service) True (px_vipTable p)\<rparr>)
      else p)"

definition putServiceInfo :: "Proxier \<Rightarrow> string \<Rightarrow> Service \<Rightarrow> Proxier" where
  "putServiceInfo p name svc =
     (case findServiceUnit p name of
        Some oldSvcUnit \<Rightarrow>
          if su_ServiceInfo oldSvcUnit \<noteq> svc
          then p\<lparr>px_routeTable := gm_set name (oldSvcUnit\<lparr>su_ServiceInfo := svc\<rparr>) (px_routeTable p)\<rparr>
          else p
      | None \<Rightarrow>
          p\<lparr>px_routeTable := gm_set name
              \<lparr>su_Name = name, su_ServiceInfo = svc, su_Endpoints = []\<rparr> (px_routeTable p)\<rparr>)"

fun add_ports_loop :: "Proxier \<Rightarrow> APIService \<Rightarrow> ServicePort list \<Rightarrow> Proxier" where
  "add_ports_loop p service [] = p"
| "add_ports_loop p service (servicePort # ports) =
     (if sp_Protocol servicePort = ProtocolUDP then add_ports_loop p service ports
      else add_ports_loop (putServiceInfo p (svc_key service servicePort) (service_of service servicePort))
             service ports)"

definition handleServiceAdd :: "Proxier \<Rightarrow> APIService \<Rightarrow> (Proxier \<times> unit outcome) option" where
  "handleServiceAdd p service =
     (if \<not> IsServiceIPSet service then Some (p, Ok ())
      else if px_lock p then None
      else Some (commitHaproxy (add_ports_loop (addVip p service) service (svc_Ports service)), Ok ()))"

fun update_ports_loop :: "Proxier \<Rightarrow> APIService \<Rightarrow> ServicePort list \<Rightarrow> string list \<Rightarrow> Proxier \<times> string list" where
  "update_ports_loop p service [] newSvcPortsList = (p, newSvcPortsList)"
| "update_ports_loop p service (servicePort # ports) newSvcPortsList =
     (if sp_Protocol servicePort = ProtocolUDP then update_ports_loop p service ports newSvcPortsList
      else update_ports_loop (putServiceInfo p (svc_key service servicePort) (service_of service servicePort))
             service ports (newSvcPortsList @ [svc_key service servicePort]))"

fun delete_routes :: "Proxier \<Rightarrow> string list \<Rightarrow> Proxier" where
  "delete_routes p [] = p"
| "delete_routes p (name # names) =
     delete_routes (p\<lparr>px_routeTable := gm_del name (px_routeTable p)\<rparr>) names"

definition handleServiceUpdate :: "Proxier \<Rightarrow> APIService \<Rightarrow> (Proxier \<times> unit outcome) option" where
  "handleServiceUpdate p service =
     (if \<not> IsServiceIPSet service then Some (p, Ok ())
      else if px_lock p then None
      else let p1 = addVip p service in
           case getServicePorts p1 (svc_Namespace service @ '':'' @ svc_Name service) of
             Ok oldSvcPortsList \<Rightarrow>
               (let (p2, newSvcPortsList) = update_ports_loop p1 service (svc_Ports service) [];
                    diffList = diff oldSvcPortsList newSvcPortsList
                in Some (commitHaproxy (delete_routes p2 diffList), Ok ()))
           | Fail err \<Rightarrow> Some (p1, Fail err)
           | Panic msg \<Rightarrow> Some (p1, Panic msg)
           | Exit msg \<Rightarrow> Some (p1, Exit msg))"

definition handleServiceDelete :: "Proxier \<Rightarrow> APIService \<Rightarrow> (Proxier \<times> unit outcome) option" where
  "handleServiceDelete p service =
     (if px_lock p then None
      else let p1 = commitKeepalived (p\<lparr>px_vipTable := gm_del (svc_ClusterIP service) (px_vipTable p)\<rparr>)
           in Some (commitHaproxy (delete_routes p1 (map (svc_key service) (svc_Ports service))), Ok ()))"

section \<open>Endpoints handlers\<close>

abbreviation eps_key :: "APIEndpoints \<Rightarrow> string \<Rightarrow> string" where
  "eps_key endpoints portname \<equiv> port_key (eps_Namespace endpoints) (eps_Name endpoints) portname"

type_synonym ports_map = "(string, Endpoint list) gomap"

fun explode_addrs :: "EndpointPort \<Rightarrow> string list \<Rightarrow> ports_map \<Rightarrow> ports_map" where
  "explode_addrs port [] m = m"
| "explode_addrs port (addr # addrs) m =
     explode_addrs port addrs
       (gm_set (ep_Name port)
          ((case gm_get m (ep_Name port) of Some es \<Rightarrow> es | None \<Rightarrow> []) @ [\<lparr>e_IP = addr, e_Port = ep_Port port\<rparr>]) m)"

fun explode_ports :: "EndpointSubset \<Rightarrow> EndpointPort list \<Rightarrow> ports_map \<Rightarrow> ports_map" where
  "explode_ports ss [] m = m"
| "explode_ports ss (port # ports) m = explode_ports ss ports (explode_addrs port (ss_Addresses ss) m)"

fun explode_subsets :: "EndpointSubset list \<Rightarrow> ports_map \<Rightarrow> ports_map" where
  "explode_subsets [] m = m"
| "explode_subsets (ss # subsets) m = explode_subsets subsets (explode_ports ss (ss_Ports ss) m)"

definition putEndpoints :: "Proxier \<Rightarrow> string \<Rightarrow> Endpoint list \<Rightarrow> Proxier" where
  "putEndpoints p name newEndpoints =
     (case findServiceUnit p name of
        Some oldServiceUnit \<Rightarrow>
          if su_Endpoints oldServiceUnit \<noteq> newEndpoints
          then p\<lparr>px_routeTable := gm_set name (oldServiceUnit\<lparr>su_Endpoints := newEndpoints\<rparr>) (px_routeTable p)\<rparr>
          else p
      | None \<Rightarrow>
          (let p1 = createServiceUnit p name in
           case findServiceUnit p1 name of
             Some newServiceUnit \<Rightarrow>
               p1\<lparr>px_routeTable := gm_set name
                    (newServiceUnit\<lparr>su_Endpoints := su_Endpoints newServiceUnit @ newEndpoints\<rparr>) (px_routeTable p1)\<rparr>
           | None \<Rightarrow> p1))"

fun put_endpoints_loop :: "Proxier \<Rightarrow> APIEndpoints \<Rightarrow> ports_map \<Rightarrow> Proxier" where
  "put_endpoints_loop p endpoints [] = p"
| "put_endpoints_loop p endpoints ((portname, newEndpoints) # rest) =
     put_endpoints_loop (putEndpoints p (eps_key endpoints portname) newEndpoints) endpoints rest"

definition handleEndpointsAdd :: "Proxier \<Rightarrow> APIEndpoints \<Rightarrow> (Proxier \<times> unit outcome) option" where
  "handleEndpointsAdd p endpoints =
     (if px_lock p then None
      else if length (eps_Subsets endpoints) = 0 then Some (p, Ok ())
      else Some (commitHaproxy (put_endpoints_loop p endpoints (explode_subsets (eps_Subsets endpoints) [])), Ok ()))"

text \<open>Assigning through the nil pointer of an absent entry panics.\<close>

fun clear_endpoints_loop :: "Proxier \<Rightarrow> string list \<Rightarrow> Proxier \<times> unit outcome" where
  "clear_endpoints_loop p [] = (p, Ok ())"
| "clear_endpoints_loop p (name # names) =
     (case gm_get (px_routeTable p) name of
        None \<Rightarrow> (p, Panic ''nil pointer dereference'')
      | Some unit \<Rightarrow>
          clear_endpoints_loop
            (p\<lparr>px_routeTable := gm_set name (unit\<lparr>su_Endpoints := []\<rparr>) (px_routeTable p)\<rparr>) names)"

definition handleEndpointsUpdate :: "Proxier \<Rightarrow> APIEndpoints \<Rightarrow> (Proxier \<times> unit outcome) option" where
  "handleEndpointsUpdate p endpoints =
     (if px_lock p then None
      else case getServicePorts p (eps_Namespace endpoints @ '':'' @ eps_Name endpoints) of
             Ok oldSvcPortsList \<Rightarrow>
               (let portsToEndpoints = explode_subsets (eps_Subsets endpoints) [];
                    p1 = put_endpoints_loop p endpoints portsToEndpoints;
                    newSvcPortsList = map (eps_key endpoints) (gm_keys portsToEndpoints)
                in case clear_endpoints_loop p1 (diff oldSvcPortsList newSvcPortsList) of
                     (p2, Ok _) \<Rightarrow> Some (commitHaproxy p2, Ok ())
                   | (p2, failed) \<Rightarrow> Some (p2, failed))
           | Fail err \<Rightarrow> Some (p, Fail err)
           | Panic msg \<Rightarrow> Some (p, Panic msg)
           | Exit msg \<Rightarrow> Some (p, Exit msg))"

fun ports_name_map :: "EndpointSubset list \<Rightarrow> (string, bool) gomap \<Rightarrow> (string, bool) gomap" where
  "ports_name_map [] m = m"
| "ports_name_map (ss # subsets) m = ports_name_map subsets (fold (\<lambda>port. gm_set (ep_Name port) True) (ss_Ports ss) m)"

fun empty_endpoints_loop :: "Proxier \<Rightarrow> string list \<Rightarrow> Proxier" where
  "empty_endpoints_loop p [] = p"
| "empty_endpoints_loop p (name # names) =
     empty_endpoints_loop
       (case findServiceUnit p name of
          Some oldServiceUnit \<Rightarrow>
            p\<lparr>px_routeTable := gm_set name (oldServiceUnit\<lparr>su_Endpoints := []\<rparr>) (px_routeTable p)\<rparr>
        | None \<Rightarrow> p) names"

definition handleEndpointsDelete :: "Proxier \<Rightarrow> APIEndpoints \<Rightarrow> (Proxier \<times> unit outcome) option" where
  "handleEndpointsDelete p endpoints =
     (if px_lock p then None
      else Some (commitHaproxy (empty_endpoints_loop p
             (map (eps_key endpoints) (gm_keys (ports_name_map (eps_Subsets endpoints) [])))), Ok ()))"

section \<open>Dispatch\<close>

definition HandleService :: "Proxier \<Rightarrow> EventType \<Rightarrow> APIService \<Rightarrow> (Proxier \<times> unit outcome) option" where
  "HandleService p eventType service =
     (case eventType of
        Added \<Rightarrow> handleServiceAdd p service
      | Modified \<Rightarrow> handleServiceUpdate p service
      | Deleted \<Rightarrow> handleServiceDelete p service
      | _ \<Rightarrow> Some (p, Ok ()))"

definition HandleEndpoints :: "Proxier \<Rightarrow> EventType \<Rightarrow> APIEndpoints \<Rightarrow> (Proxier \<times> unit outcome) option" where
  "HandleEndpoints p eventType endpoints =
     (case eventType of
        Added \<Rightarrow> handleEndpointsAdd p endpoints
      | Modified \<Rightarrow> handleEndpointsUpdate p endpoints
      | Deleted \<Rightarrow> handleEndpointsDelete p endpoints
      | _ \<Rightarrow> Some (p, Ok ()))"

definition SetSkipCommit :: "Proxier \<Rightarrow> bool \<Rightarrow> Proxier" where
  "SetSkipCommit p skipCommit =
     (if px_skipCommit p \<noteq> skipCommit then p\<lparr>px_skipCommit := skipCommit\<rparr> else p)"

end
