(* ===== verification/RouteSpec.thy ===== *)
theory RouteSpec
  imports Proxier "HOL-Library.Multiset"
begin

text \<open>
  What the proxier promises about its route table, and that the handlers keep the promise.

  The abstract table is a partial map from service port names to units. \<open>spec_service\<close> and
  \<open>spec_endpoints\<close> say in one equation each what an event does to it. The locale \<open>router\<close> is the
  contract the controller relies on; the section on convergence is proved inside it and reaches
  the code through the interpretation \<open>px\<close>.
\<close>

section \<open>The abstract route table\<close>

type_synonym routes = "string \<rightharpoonup> ServiceUnit"

definition set_info :: "string \<Rightarrow> Service \<Rightarrow> routes \<Rightarrow> routes" where
  "set_info name svc r = r(name \<mapsto>
     (case r name of Some u \<Rightarrow> u\<lparr>su_ServiceInfo := svc\<rparr>
      | None \<Rightarrow> \<lparr>su_Name = name, su_ServiceInfo = svc, su_Endpoints = []\<rparr>))"

definition set_eps :: "string \<Rightarrow> Endpoint list \<Rightarrow> routes \<Rightarrow> routes" where
  "set_eps name es r = r(name \<mapsto>
     (case r name of Some u \<Rightarrow> u\<lparr>su_Endpoints := es\<rparr>
      | None \<Rightarrow> \<lparr>su_Name = name, su_ServiceInfo = zero_Service, su_Endpoints = es\<rparr>))"

definition drop_eps :: "ServiceUnit \<Rightarrow> ServiceUnit" where
  "drop_eps u = u\<lparr>su_Endpoints := []\<rparr>"

text \<open>The service information a service asks for: its ports that are not UDP, the last one of a
  repeated name winning.\<close>

definition tcp_ports :: "APIService \<Rightarrow> ServicePort list" where
  "tcp_ports service = filter (\<lambda>pt. sp_Protocol pt \<noteq> ProtocolUDP) (svc_Ports service)"

definition wanted_info :: "APIService \<Rightarrow> string \<rightharpoonup> Service" where
  "wanted_info service =
     map_of (rev (map (\<lambda>pt. (svc_key service pt, service_of service pt)) (tcp_ports service)))"

text \<open>The ready endpoints behind a port name, over all subsets.\<close>

definition ready_endpoints :: "EndpointSubset list \<Rightarrow> string \<Rightarrow> Endpoint list" where
  "ready_endpoints subsets pn =
     concat (map (\<lambda>ss. concat (map (\<lambda>port.
       if ep_Name port = pn then map (\<lambda>a. \<lparr>e_IP = a, e_Port = ep_Port port\<rparr>) (ss_Addresses ss) else [])
       (ss_Ports ss))) subsets)"

definition subset_ports :: "EndpointSubset list \<Rightarrow> string list" where
  "subset_ports subsets = concat (map (\<lambda>ss. map ep_Name (ss_Ports ss)) subsets)"

definition wanted_eps :: "APIEndpoints \<Rightarrow> string \<rightharpoonup> Endpoint list" where
  "wanted_eps endpoints =
     map_of (map (\<lambda>pn. (eps_key endpoints pn, ready_endpoints (eps_Subsets endpoints) pn))
       (filter (\<lambda>pn. ready_endpoints (eps_Subsets endpoints) pn \<noteq> []) (subset_ports (eps_Subsets endpoints))))"

definition owned :: "string \<Rightarrow> string \<Rightarrow> string \<Rightarrow> bool" where
  "owned ns name key \<longleftrightarrow> service_prefix key = Some (ns @ '':'' @ name)"

definition put_infos :: "(string \<rightharpoonup> Service) \<Rightarrow> routes \<Rightarrow> routes" where
  "put_infos w r = (\<lambda>key. case w key of Some svc \<Rightarrow> set_info key svc r key | None \<Rightarrow> r key)"

definition put_epss :: "(string \<rightharpoonup> Endpoint list) \<Rightarrow> routes \<Rightarrow> routes" where
  "put_epss w r = (\<lambda>key. case w key of Some es \<Rightarrow> set_eps key es r key | None \<Rightarrow> r key)"

fun spec_service :: "EventType \<Rightarrow> APIService \<Rightarrow> routes \<Rightarrow> routes" where
  "spec_service Added s r = (if IsServiceIPSet s then put_infos (wanted_info s) r else r)"
| "spec_service Modified s r =
     (if IsServiceIPSet s
      then (\<lambda>key. if wanted_info s key = None \<and> owned (svc_Namespace s) (svc_Name s) key then None
                  else put_infos (wanted_info s) r key)
      else r)"
| "spec_service Deleted s r = (\<lambda>key. if key \<in> svc_key s ` set (svc_Ports s) then None else r key)"
| "spec_service _ s r = r"

fun spec_endpoints :: "EventType \<Rightarrow> APIEndpoints \<Rightarrow> routes \<Rightarrow> routes" where
  "spec_endpoints Added e r = put_epss (wanted_eps e) r"
| "spec_endpoints Modified e r =
     (\<lambda>key. if wanted_eps e key = None \<and> owned (eps_Namespace e) (eps_Name e) key
            then map_option drop_eps (r key) else put_epss (wanted_eps e) r key)"
| "spec_endpoints Deleted e r =
     (\<lambda>key. if key \<in> eps_key e ` set (subset_ports (eps_Subsets e)) then map_option drop_eps (r key) else r key)"
| "spec_endpoints _ e r = r"

text \<open>The virtual IPs.\<close>

fun spec_vips :: "EventType \<Rightarrow> APIService \<Rightarrow> string set \<Rightarrow> string set" where
  "spec_vips Added s V = (if IsServiceIPSet s then insert (svc_ClusterIP s) V else V)"
| "spec_vips Modified s V = (if IsServiceIPSet s then insert (svc_ClusterIP s) V else V)"
| "spec_vips Deleted s V = V - {svc_ClusterIP s}"
| "spec_vips _ s V = V"

section \<open>The invariant of the tables\<close>

definition route_ok :: "(string, ServiceUnit) gomap \<Rightarrow> bool" where
  "route_ok rt \<longleftrightarrow> gm_wf rt \<and>
     (\<forall>key u. map_of rt key = Some u \<longrightarrow> CHR '':'' \<in> set key \<and> su_Name u = key)"

lemma route_ok_set: "route_ok rt \<Longrightarrow> CHR '':'' \<in> set key \<Longrightarrow> su_Name u = key \<Longrightarrow> route_ok (gm_set key u rt)"
  by (auto simp: route_ok_def gomap_simps split: if_splits)

lemma route_ok_del: "route_ok rt \<Longrightarrow> route_ok (gm_del key rt)"
  by (auto simp: route_ok_def gomap_simps split: if_splits)

lemma route_ok_name: "route_ok rt \<Longrightarrow> map_of rt key = Some u \<Longrightarrow> su_Name u = key \<and> CHR '':'' \<in> set key"
  by (simp add: route_ok_def)

lemma route_ok_keys: "route_ok rt \<Longrightarrow> key \<in> set (gm_keys rt) \<Longrightarrow> CHR '':'' \<in> set key"
  by (metis gm_key_iff not_Some_eq route_ok_def)

section \<open>Service handlers\<close>

text \<open>Every loop changes the route table only.\<close>

definition routes_only :: "Proxier \<Rightarrow> Proxier \<Rightarrow> bool" where
  "routes_only p p' \<longleftrightarrow> p' = p\<lparr>px_routeTable := px_routeTable p'\<rparr>"

lemma routes_only_refl [simp]: "routes_only p p"
  by (simp add: routes_only_def)

lemma routes_only_upd [simp]: "routes_only p (p\<lparr>px_routeTable := rt\<rparr>)"
  by (simp add: routes_only_def)

lemma routes_only_trans: "routes_only p q \<Longrightarrow> routes_only q r \<Longrightarrow> routes_only p r"
  unfolding routes_only_def by (metis Proxier.surjective Proxier.update_convs(6))

lemma putServiceInfo_spec:
  assumes "route_ok (px_routeTable p)" and "CHR '':'' \<in> set name"
  shows "map_of (px_routeTable (putServiceInfo p name svc)) = set_info name svc (map_of (px_routeTable p))"
    and "route_ok (px_routeTable (putServiceInfo p name svc))"
    and "routes_only p (putServiceInfo p name svc)"
  using assms
  by (auto simp: putServiceInfo_def findServiceUnit_def set_info_def gomap_simps fun_eq_iff
      intro!: route_ok_set dest: route_ok_name split: option.splits)

definition infos_of :: "APIService \<Rightarrow> ServicePort list \<Rightarrow> string \<rightharpoonup> Service" where
  "infos_of service ports =
     map_of (rev (map (\<lambda>pt. (svc_key service pt, service_of service pt))
       (filter (\<lambda>pt. sp_Protocol pt \<noteq> ProtocolUDP) ports)))"

lemma infos_of_wanted: "infos_of service (svc_Ports service) = wanted_info service"
  by (simp add: infos_of_def wanted_info_def tcp_ports_def)

lemma put_infos_Cons:
  "sp_Protocol pt \<noteq> ProtocolUDP \<Longrightarrow> put_infos (infos_of service (pt # ports)) r =
     put_infos (infos_of service ports) (set_info (svc_key service pt) (service_of service pt) r)"
  by (auto simp: put_infos_def infos_of_def set_info_def map_add_def fun_eq_iff split: option.splits)

lemma add_ports_loop_spec:
  assumes "route_ok (px_routeTable p)"
  shows "map_of (px_routeTable (add_ports_loop p service ports)) =
      put_infos (infos_of service ports) (map_of (px_routeTable p)) \<and>
    route_ok (px_routeTable (add_ports_loop p service ports)) \<and> routes_only p (add_ports_loop p service ports)"
  using assms
proof (induction p service ports rule: add_ports_loop.induct)
  case (1 p service)
  then show ?case by (simp add: put_infos_def infos_of_def)
next
  case (2 p service pt ports)
  show ?case
  proof (cases "sp_Protocol pt = ProtocolUDP")
    case True
    with 2 show ?thesis by (simp add: infos_of_def)
  next
    case False
    note put = putServiceInfo_spec [OF "2.prems" port_key_colon]
    from "2.IH"(2) [OF False put(2)] put(1,3) False show ?thesis
      by (auto simp: put_infos_Cons intro: routes_only_trans [OF put(3)])
  qed
qed

lemma update_ports_loop_add:
  "update_ports_loop p service ports acc =
     (add_ports_loop p service ports,
      acc @ map (svc_key service) (filter (\<lambda>pt. sp_Protocol pt \<noteq> ProtocolUDP) ports))"
  by (induction p service ports acc rule: update_ports_loop.induct) simp_all

lemma service_ports_loop_spec:
  "(\<forall>name \<in> set names. CHR '':'' \<in> set name) \<Longrightarrow>
   service_ports_loop names svcName = Ok (filter (\<lambda>name. service_prefix name = Some svcName) names)"
  by (induction names svcName rule: service_ports_loop.induct)
    (auto simp: service_prefix_def LastIndex_None split: option.splits)

lemma getServicePorts_spec:
  assumes "route_ok (px_routeTable p)"
  shows "getServicePorts p (ns @ '':'' @ name) = Ok (filter (owned ns name) (gm_keys (px_routeTable p)))"
  unfolding getServicePorts_def owned_def
  using service_ports_loop_spec route_ok_keys [OF assms] by blast

lemma diff_found_iff: "diff_found x xs \<longleftrightarrow> x \<in> set xs"
  by (induction xs) auto

lemma diff_filter: "diff old new = filter (\<lambda>x. x \<notin> set new) old"
  by (induction old) (simp_all add: diff_found_iff)

lemma delete_routes_spec:
  assumes "route_ok (px_routeTable p)"
  shows "map_of (px_routeTable (delete_routes p names)) =
      (\<lambda>key. if key \<in> set names then None else map_of (px_routeTable p) key) \<and>
    route_ok (px_routeTable (delete_routes p names)) \<and> routes_only p (delete_routes p names)"
  using assms
proof (induction p names rule: delete_routes.induct)
  case (1 p)
  then show ?case by simp
next
  case (2 p name names)
  from "2.IH" route_ok_del [OF "2.prems"] show ?case
    by (auto simp: gomap_simps fun_eq_iff intro: routes_only_trans [OF routes_only_upd])
qed

section \<open>Effect of a handler\<close>

definition vips :: "Proxier \<Rightarrow> string set" where
  "vips p = dom (map_of (px_vipTable p))"

definition routes_of :: "Proxier \<Rightarrow> routes" where
  "routes_of p = map_of (px_routeTable p)"

definition pending_keepalived :: "Proxier \<Rightarrow> bool" where
  "pending_keepalived p \<longleftrightarrow> ff_slot keepalived_key (rl_queue (px_commitKeepalived p)) \<noteq> None"

definition pending_haproxy :: "Proxier \<Rightarrow> bool" where
  "pending_haproxy p \<longleftrightarrow> ff_slot haproxy_key (rl_queue (px_commitHaproxy p)) \<noteq> None"

definition active :: "Proxier \<Rightarrow> bool" where
  "active p \<longleftrightarrow> ab_IsSet (px_master p) \<and> \<not> px_skipCommit p"

definition queues_ok :: "Proxier \<Rightarrow> bool" where
  "queues_ok p \<longleftrightarrow> ff_one_key keepalived_key (rl_queue (px_commitKeepalived p)) \<and>
     ff_one_key haproxy_key (rl_queue (px_commitHaproxy p))"

definition vip_ok :: "(string, bool) gomap \<Rightarrow> bool" where
  "vip_ok vt \<longleftrightarrow> gm_wf vt \<and> (\<forall>ip. map_of vt ip \<noteq> Some False)"

definition px_ready :: "Proxier \<Rightarrow> bool" where
  "px_ready p \<longleftrightarrow> \<not> px_lock p \<and> route_ok (px_routeTable p) \<and> vip_ok (px_vipTable p) \<and> queues_ok p"

definition same_frame :: "Proxier \<Rightarrow> Proxier \<Rightarrow> bool" where
  "same_frame p p' \<longleftrightarrow> px_config p' = px_config p \<and> px_master p' = px_master p \<and>
     px_skipCommit p' = px_skipCommit p \<and> px_ip p' = px_ip p \<and>
     px_haproxyInstance p' = px_haproxyInstance p \<and> px_keepalivedInstance p' = px_keepalivedInstance p \<and>
     rl_backOff (px_commitKeepalived p') = rl_backOff (px_commitKeepalived p) \<and>
     rl_backOffKey (px_commitKeepalived p') = rl_backOffKey (px_commitKeepalived p) \<and>
     rl_backOff (px_commitHaproxy p') = rl_backOff (px_commitHaproxy p) \<and>
     rl_backOffKey (px_commitHaproxy p') = rl_backOffKey (px_commitHaproxy p)"

text \<open>\<open>effect p r V kc hc p'\<close>: going from \<open>p\<close> to \<open>p'\<close> leaves the route table \<open>r\<close> and the virtual IPs
  \<open>V\<close>, asks for a Keepalived (\<open>kc\<close>) and a HAProxy (\<open>hc\<close>) commit, and changes nothing else.\<close>

definition effect :: "Proxier \<Rightarrow> routes \<Rightarrow> string set \<Rightarrow> bool \<Rightarrow> bool \<Rightarrow> Proxier \<Rightarrow> bool" where
  "effect p r V kc hc p' \<longleftrightarrow> px_ready p' \<and> routes_of p' = r \<and> vips p' = V \<and>
     pending_keepalived p' = (pending_keepalived p \<or> kc \<and> active p) \<and>
     pending_haproxy p' = (pending_haproxy p \<or> hc \<and> active p) \<and>
     same_frame p p'"

lemmas px_ready_defs =
  px_ready_def queues_ok_def pending_keepalived_def pending_haproxy_def active_def vips_def
  routes_of_def same_frame_def

lemma vips_iff: "px_ready p \<Longrightarrow> ip \<in> vips p \<longleftrightarrow> gm_get (px_vipTable p) ip = Some True"
  by (cases "map_of (px_vipTable p) ip") (auto simp: px_ready_def vip_ok_def vips_def gm_get_def dest: spec [of _ ip])

lemma effect_refl: "px_ready p \<Longrightarrow> effect p (routes_of p) (vips p) False False p"
  by (simp add: effect_def same_frame_def)

lemma effect_routes:
  assumes "effect p r V kc hc q" and "routes_only q q'" and "route_ok (px_routeTable q')"
  shows "effect p (map_of (px_routeTable q')) V kc hc q'"
proof -
  obtain rt where "q' = q\<lparr>px_routeTable := rt\<rparr>" using assms(2) by (auto simp: routes_only_def)
  with assms show ?thesis
    by (auto simp: effect_def px_ready_defs)
qed

lemma invoke_slot:
  "ff_one_key key (rl_queue f) \<Longrightarrow> ff_one_key key (rl_queue (rl_Invoke (rl_Q key) f x)) \<and>
     ff_slot key (rl_queue (rl_Invoke (rl_Q key) f x)) \<noteq> None \<and>
     rl_backOff (rl_Invoke (rl_Q key) f x) = rl_backOff f \<and>
     rl_backOffKey (rl_Invoke (rl_Q key) f x) = rl_backOffKey f"
  unfolding rl_Q_const using ff_one_key_add [of key "rl_queue f" x]
  by (simp add: rl_Invoke_def fifo_queue_def)

lemma effect_commitHaproxy:
  assumes "effect p r V kc False q"
  shows "effect p r V kc True (commitHaproxy q)"
proof -
  have act: "active q = active p"
    using assms by (simp add: effect_def same_frame_def active_def)
  show ?thesis
  proof (cases "active p")
    case True
    with act have "commitHaproxy q = q\<lparr>px_commitHaproxy := rl_Invoke (rl_Q haproxy_key) (px_commitHaproxy q) haproxy_key\<rparr>"
      by (simp add: commitHaproxy_def active_def)
    moreover have "ff_one_key haproxy_key (rl_queue (px_commitHaproxy q))"
      using assms by (simp add: effect_def px_ready_defs)
    note invoke_slot [OF this, of haproxy_key]
    ultimately show ?thesis using assms True
      by (auto simp: effect_def px_ready_defs)
  next
    case False
    with act have "commitHaproxy q = q" by (auto simp: commitHaproxy_def active_def)
    with assms False show ?thesis by (simp add: effect_def)
  qed
qed

lemma effect_commitKeepalived:
  assumes "effect p r V False hc q"
  shows "effect p r V True hc (commitKeepalived q)"
proof -
  have act: "active q = active p"
    using assms by (simp add: effect_def same_frame_def active_def)
  show ?thesis
  proof (cases "active p")
    case True
    with act have "commitKeepalived q =
        q\<lparr>px_commitKeepalived := rl_Invoke (rl_Q keepalived_key) (px_commitKeepalived q) keepalived_key\<rparr>"
      by (simp add: commitKeepalived_def active_def)
    moreover have "ff_one_key keepalived_key (rl_queue (px_commitKeepalived q))"
      using assms by (simp add: effect_def px_ready_defs)
    note invoke_slot [OF this, of keepalived_key]
    ultimately show ?thesis using assms True
      by (auto simp: effect_def px_ready_defs)
  next
    case False
    with act have "commitKeepalived q = q" by (auto simp: commitKeepalived_def active_def)
    with assms False show ?thesis by (simp add: effect_def)
  qed
qed

lemma effect_vips:
  assumes "px_ready p" and "vip_ok vt"
  shows "effect p (routes_of p) (dom (map_of vt)) False False (p\<lparr>px_vipTable := vt\<rparr>)"
  using assms by (simp add: effect_def px_ready_defs)

lemma vip_ok_set: "vip_ok vt \<Longrightarrow> vip_ok (gm_set ip True vt)"
  by (auto simp: vip_ok_def gomap_simps split: if_splits)

lemma vip_ok_del: "vip_ok vt \<Longrightarrow> vip_ok (gm_del ip vt)"
  by (auto simp: vip_ok_def gomap_simps split: if_splits)

lemma addVip_effect:
  assumes "px_ready p"
  shows "effect p (routes_of p) (insert (svc_ClusterIP s) (vips p)) (svc_ClusterIP s \<notin> vips p) False (addVip p s)"
proof (cases "svc_ClusterIP s \<in> vips p")
  case True
  with assms show ?thesis
    by (simp add: addVip_def vips_iff [symmetric] insert_absorb effect_refl)
next
  case False
  have "effect p (routes_of p) (insert (svc_ClusterIP s) (vips p)) False False
      (p\<lparr>px_vipTable := gm_set (svc_ClusterIP s) True (px_vipTable p)\<rparr>)"
    using effect_vips [OF assms vip_ok_set, of "px_vipTable p" "svc_ClusterIP s"] assms
    by (simp add: px_ready_def vips_def gomap_simps)
  from effect_commitKeepalived [OF this] False assms show ?thesis
    by (simp add: addVip_def vips_iff)
qed

lemma effect_route_ok: "effect p r V kc hc q \<Longrightarrow> route_ok (px_routeTable q) \<and> map_of (px_routeTable q) = r"
  by (simp add: effect_def px_ready_defs)

lemma handleServiceAdd_effect:
  assumes "px_ready p" and "IsServiceIPSet s"
  shows "\<exists>p'. handleServiceAdd p s = Some (p', Ok ()) \<and>
    effect p (spec_service Added s (routes_of p)) (spec_vips Added s (vips p)) (svc_ClusterIP s \<notin> vips p) True p'"
proof -
  note vip = addVip_effect [OF assms(1), of s]
  have "effect p (put_infos (wanted_info s) (routes_of p)) (insert (svc_ClusterIP s) (vips p))
      (svc_ClusterIP s \<notin> vips p) False (add_ports_loop (addVip p s) s (svc_Ports s))"
    using add_ports_loop_spec [of "addVip p s" s "svc_Ports s"] effect_route_ok [OF vip]
      effect_routes [OF vip] by (metis infos_of_wanted)
  from effect_commitHaproxy [OF this] assms show ?thesis
    by (simp add: handleServiceAdd_def px_ready_def)
qed

lemma wanted_None: "wanted_info s key = None \<longleftrightarrow> key \<notin> svc_key s ` set (tcp_ports s)"
  by (force simp: wanted_info_def map_of_eq_None_iff image_image)

lemma wanted_owned:
  assumes "\<forall>pt \<in> set (svc_Ports s). CHR '':'' \<notin> set (sp_Name pt)" and "wanted_info s key \<noteq> None"
  shows "owned (svc_Namespace s) (svc_Name s) key"
  using assms by (auto simp: wanted_None tcp_ports_def owned_def port_key_prefix)

text \<open>Names to delete are those of the old table; names put meanwhile are all wanted.\<close>

lemma put_infos_None: "w key = None \<Longrightarrow> put_infos w r key = r key"
  by (simp add: put_infos_def)

lemma handleServiceUpdate_effect:
  assumes "px_ready p" and "IsServiceIPSet s"
  shows "\<exists>p'. handleServiceUpdate p s = Some (p', Ok ()) \<and>
    effect p (spec_service Modified s (routes_of p)) (spec_vips Modified s (vips p)) (svc_ClusterIP s \<notin> vips p) True p'"
proof -
  let ?p1 = "addVip p s" and ?own = "owned (svc_Namespace s) (svc_Name s)"
  let ?p2 = "add_ports_loop ?p1 s (svc_Ports s)"
  let ?new = "map (svc_key s) (tcp_ports s)"
  let ?dl = "diff (filter ?own (gm_keys (px_routeTable ?p1))) ?new"
  note vip = addVip_effect [OF assms(1), of s]
  have ok1: "route_ok (px_routeTable ?p1)" "map_of (px_routeTable ?p1) = routes_of p"
    using effect_route_ok [OF vip] by auto
  note loop = add_ports_loop_spec [OF ok1(1), of s "svc_Ports s", unfolded infos_of_wanted ok1(2)]
  have dl: "key \<in> set ?dl \<longleftrightarrow> ?own key \<and> routes_of p key \<noteq> None \<and> wanted_info s key = None" for key
    using gm_key_iff [of key "px_routeTable ?p1"] by (auto simp: diff_filter wanted_None ok1(2))
  have "(\<lambda>key. if key \<in> set ?dl then None else map_of (px_routeTable ?p2) key) = spec_service Modified s (routes_of p)"
    using assms(2) by (auto simp: dl loop put_infos_None fun_eq_iff)
  moreover have ok2: "route_ok (px_routeTable ?p2)" "routes_only ?p1 ?p2" using loop by auto
  moreover note del = delete_routes_spec [OF ok2(1), of ?dl]
  moreover have "effect p (map_of (px_routeTable (delete_routes ?p2 ?dl))) (insert (svc_ClusterIP s) (vips p))
      (svc_ClusterIP s \<notin> vips p) False (delete_routes ?p2 ?dl)"
    using effect_routes [OF vip routes_only_trans [OF ok2(2)]] del by blast
  ultimately have "effect p (spec_service Modified s (routes_of p)) (insert (svc_ClusterIP s) (vips p))
      (svc_ClusterIP s \<notin> vips p) False (delete_routes ?p2 ?dl)" by metis
  from effect_commitHaproxy [OF this] assms getServicePorts_spec [OF ok1(1)] show ?thesis
    by (simp add: handleServiceUpdate_def px_ready_def Let_def update_ports_loop_add tcp_ports_def)
qed

lemma handleServiceDelete_effect:
  assumes "px_ready p"
  shows "\<exists>p'. handleServiceDelete p s = Some (p', Ok ()) \<and>
    effect p (spec_service Deleted s (routes_of p)) (spec_vips Deleted s (vips p)) True True p'"
proof -
  let ?p1 = "commitKeepalived (p\<lparr>px_vipTable := gm_del (svc_ClusterIP s) (px_vipTable p)\<rparr>)"
  let ?names = "map (svc_key s) (svc_Ports s)"
  have "effect p (routes_of p) (vips p - {svc_ClusterIP s}) False False
      (p\<lparr>px_vipTable := gm_del (svc_ClusterIP s) (px_vipTable p)\<rparr>)"
    using effect_vips [OF assms vip_ok_del, of "px_vipTable p" "svc_ClusterIP s"] assms
    by (simp add: px_ready_def vips_def gomap_simps)
  note e1 = effect_commitKeepalived [OF this]
  have ok1: "route_ok (px_routeTable ?p1)" "map_of (px_routeTable ?p1) = routes_of p"
    using effect_route_ok [OF e1] by auto
  from delete_routes_spec [OF ok1(1), of ?names, unfolded ok1(2)] effect_routes [OF e1, of "delete_routes ?p1 ?names"]
  have "effect p (spec_service Deleted s (routes_of p)) (vips p - {svc_ClusterIP s}) True False (delete_routes ?p1 ?names)"
    by simp
  from effect_commitHaproxy [OF this] assms show ?thesis
    by (simp add: handleServiceDelete_def px_ready_def Let_def)
qed

section \<open>Endpoints handlers\<close>

definition get_eps :: "ports_map \<Rightarrow> string \<Rightarrow> Endpoint list" where
  "get_eps m pn = (case map_of m pn of Some es \<Rightarrow> es | None \<Rightarrow> [])"

definition ports_ok :: "ports_map \<Rightarrow> bool" where
  "ports_ok m \<longleftrightarrow> gm_wf m \<and> (\<forall>pn. map_of m pn \<noteq> Some [])"

lemma explode_addrs_spec: "ports_ok m \<Longrightarrow> ports_ok (explode_addrs port addrs m) \<and>
    get_eps (explode_addrs port addrs m) pn = get_eps m pn @
      (if ep_Name port = pn then map (\<lambda>a. \<lparr>e_IP = a, e_Port = ep_Port port\<rparr>) addrs else [])"
proof (induction port addrs m rule: explode_addrs.induct)
  case (1 port m)
  then show ?case by simp
next
  case (2 port addr addrs m)
  have "ports_ok (gm_set (ep_Name port) ((case gm_get m (ep_Name port) of Some es \<Rightarrow> es | None \<Rightarrow> []) @
      [\<lparr>e_IP = addr, e_Port = ep_Port port\<rparr>]) m)"
    using "2.prems" by (auto simp: ports_ok_def gomap_simps)
  with "2.IH" show ?case by (auto simp: get_eps_def gomap_simps)
qed

lemma explode_ports_spec: "ports_ok m \<Longrightarrow> ports_ok (explode_ports ss ports m) \<and>
    get_eps (explode_ports ss ports m) pn = get_eps m pn @
      concat (map (\<lambda>port. if ep_Name port = pn then map (\<lambda>a. \<lparr>e_IP = a, e_Port = ep_Port port\<rparr>) (ss_Addresses ss) else []) ports)"
  by (induction ss ports m rule: explode_ports.induct) (auto simp: explode_addrs_spec)

lemma explode_subsets_spec: "ports_ok m \<Longrightarrow> ports_ok (explode_subsets subsets m) \<and>
    get_eps (explode_subsets subsets m) pn = get_eps m pn @ ready_endpoints subsets pn"
  by (induction subsets m rule: explode_subsets.induct) (auto simp: explode_ports_spec ready_endpoints_def)

lemma explode_lookup:
  "map_of (explode_subsets subsets []) pn =
     (if ready_endpoints subsets pn = [] then None else Some (ready_endpoints subsets pn))"
  using explode_subsets_spec [of "[]" subsets pn]
  by (auto simp: ports_ok_def get_eps_def split: option.splits)

lemma ready_in_ports: "ready_endpoints subsets pn \<noteq> [] \<Longrightarrow> pn \<in> set (subset_ports subsets)"
  by (fastforce simp: ready_endpoints_def subset_ports_def split: if_splits)

lemma eps_key_inject [simp]: "eps_key e pn = eps_key e pn' \<longleftrightarrow> pn = pn'"
  by (simp add: ServicePortName_String_def)

lemma wanted_eps_key: "wanted_eps e (eps_key e pn) = map_of (explode_subsets (eps_Subsets e) []) pn"
proof -
  let ?f = "\<lambda>pn. (eps_key e pn, ready_endpoints (eps_Subsets e) pn)"
  have "map_of (map ?f xs) (eps_key e pn) =
      (if pn \<in> set xs then Some (ready_endpoints (eps_Subsets e) pn) else None)" for xs
    by (induction xs) auto
  then show ?thesis by (auto simp: wanted_eps_def explode_lookup ready_in_ports)
qed

lemma wanted_eps_range: "wanted_eps e key \<noteq> None \<Longrightarrow> \<exists>pn. key = eps_key e pn"
  by (auto simp: wanted_eps_def dest!: map_of_SomeD)

definition keyed :: "APIEndpoints \<Rightarrow> ports_map \<Rightarrow> string \<rightharpoonup> Endpoint list" where
  "keyed e m = map_of (map (\<lambda>(pn, es). (eps_key e pn, es)) m)"

lemma keyed_key: "keyed e m (eps_key e pn) = map_of m pn"
  by (induction m) (auto simp: keyed_def)

lemma keyed_range: "keyed e m key \<noteq> None \<Longrightarrow> \<exists>pn. key = eps_key e pn"
  by (auto simp: keyed_def dest!: map_of_SomeD)

lemma keyed_explode: "keyed e (explode_subsets (eps_Subsets e) []) = wanted_eps e"
proof
  fix key
  show "keyed e (explode_subsets (eps_Subsets e) []) key = wanted_eps e key"
    by (cases "\<exists>pn. key = eps_key e pn") (metis keyed_key keyed_range wanted_eps_key wanted_eps_range)+
qed

lemma putEndpoints_spec:
  assumes "route_ok (px_routeTable p)" and "CHR '':'' \<in> set name"
  shows "map_of (px_routeTable (putEndpoints p name es)) = set_eps name es (map_of (px_routeTable p))"
    and "route_ok (px_routeTable (putEndpoints p name es))"
    and "routes_only p (putEndpoints p name es)"
  using assms
  by (auto simp: putEndpoints_def findServiceUnit_def createServiceUnit_def set_eps_def gomap_simps fun_eq_iff Let_def
      intro!: route_ok_set dest: route_ok_name split: option.splits)

lemma put_epss_Cons:
  assumes "gm_wf ((pn, es) # m)"
  shows "put_epss (keyed e ((pn, es) # m)) r = put_epss (keyed e m) (set_eps (eps_key e pn) es r)"
proof -
  have "keyed e m (eps_key e pn) = None" using assms by (simp add: keyed_key map_of_eq_None_iff)
  then show ?thesis by (auto simp: put_epss_def keyed_def set_eps_def fun_eq_iff split: option.splits)
qed

lemma put_endpoints_loop_spec:
  assumes "route_ok (px_routeTable p)" and "gm_wf m"
  shows "map_of (px_routeTable (put_endpoints_loop p e m)) = put_epss (keyed e m) (map_of (px_routeTable p)) \<and>
    route_ok (px_routeTable (put_endpoints_loop p e m)) \<and> routes_only p (put_endpoints_loop p e m)"
  using assms
proof (induction p e m rule: put_endpoints_loop.induct)
  case (1 p e)
  then show ?case by (simp add: put_epss_def keyed_def)
next
  case (2 p e pn es m)
  note put = putEndpoints_spec [OF "2.prems"(1) port_key_colon]
  have "gm_wf m" using "2.prems"(2) by simp
  from "2.IH" [OF put(2) this] put(1,3) put_epss_Cons [OF "2.prems"(2)] show ?case
    by (auto intro: routes_only_trans [OF put(3)])
qed

lemma explode_ok: "gm_wf (explode_subsets subsets [])"
  using explode_subsets_spec [of "[]" subsets] by (auto simp: ports_ok_def)

lemma handleEndpointsAdd_effect:
  assumes "px_ready p"
  shows "\<exists>p'. handleEndpointsAdd p e = Some (p', Ok ()) \<and>
    effect p (spec_endpoints Added e (routes_of p)) (vips p) False (eps_Subsets e \<noteq> []) p'"
proof (cases "eps_Subsets e = []")
  case True
  then have "wanted_eps e = Map.empty" by (simp add: wanted_eps_def subset_ports_def)
  with True assms effect_refl [OF assms] show ?thesis
    by (simp add: handleEndpointsAdd_def px_ready_def put_epss_def)
next
  case False
  let ?p1 = "put_endpoints_loop p e (explode_subsets (eps_Subsets e) [])"
  have ok: "route_ok (px_routeTable p)" using assms by (simp add: px_ready_def)
  from put_endpoints_loop_spec [OF ok explode_ok, of e "eps_Subsets e"] effect_routes [OF effect_refl [OF assms], of ?p1]
  have "effect p (spec_endpoints Added e (routes_of p)) (vips p) False False ?p1"
    by (simp add: keyed_explode routes_of_def)
  from effect_commitHaproxy [OF this] False assms show ?thesis
    by (simp add: handleEndpointsAdd_def px_ready_def)
qed

lemma drop_eps_ok: "route_ok rt \<Longrightarrow> map_of rt name = Some u \<Longrightarrow> route_ok (gm_set name (u\<lparr>su_Endpoints := []\<rparr>) rt)"
  by (auto intro!: route_ok_set dest: route_ok_name)

definition dropped :: "string list \<Rightarrow> routes \<Rightarrow> routes" where
  "dropped names r = (\<lambda>key. if key \<in> set names then map_option drop_eps (r key) else r key)"

lemma dropped_Cons_Some: "r name = Some u \<Longrightarrow>
    dropped (name # names) r = dropped names (r(name \<mapsto> u\<lparr>su_Endpoints := []\<rparr>))"
  by (auto simp: dropped_def drop_eps_def fun_eq_iff)

lemma dropped_Cons_None: "r name = None \<Longrightarrow> dropped (name # names) r = dropped names r"
  by (auto simp: dropped_def fun_eq_iff)

lemma clear_endpoints_loop_spec:
  assumes "route_ok (px_routeTable p)" and "\<forall>name \<in> set names. map_of (px_routeTable p) name \<noteq> None"
  shows "\<exists>p'. clear_endpoints_loop p names = (p', Ok ()) \<and>
    map_of (px_routeTable p') = dropped names (map_of (px_routeTable p)) \<and>
    route_ok (px_routeTable p') \<and> routes_only p p'"
  using assms
proof (induction p names rule: clear_endpoints_loop.induct)
  case (1 p)
  then show ?case by (simp add: dropped_def)
next
  case (2 p name names)
  then obtain u where u: "map_of (px_routeTable p) name = Some u" by auto
  let ?p1 = "p\<lparr>px_routeTable := gm_set name (u\<lparr>su_Endpoints := []\<rparr>) (px_routeTable p)\<rparr>"
  have "route_ok (px_routeTable ?p1)" using drop_eps_ok [OF "2.prems"(1) u] by simp
  moreover have "\<forall>name \<in> set names. map_of (px_routeTable ?p1) name \<noteq> None"
    using "2.prems"(2) by (simp add: gomap_simps)
  ultimately show ?case
    using "2.IH" [of u] u dropped_Cons_Some [of "map_of (px_routeTable p)", OF u, of names] routes_only_trans [OF routes_only_upd]
    by (fastforce simp: gomap_simps)
qed

lemma empty_endpoints_loop_spec:
  assumes "route_ok (px_routeTable p)"
  shows "map_of (px_routeTable (empty_endpoints_loop p names)) = dropped names (map_of (px_routeTable p)) \<and>
    route_ok (px_routeTable (empty_endpoints_loop p names)) \<and> routes_only p (empty_endpoints_loop p names)"
  using assms
proof (induction names arbitrary: p)
  case Nil
  then show ?case by (simp add: dropped_def)
next
  case (Cons name names)
  show ?case
  proof (cases "map_of (px_routeTable p) name")
    case None
    with Cons show ?thesis by (simp add: findServiceUnit_def gomap_simps dropped_Cons_None)
  next
    case (Some u)
    let ?p1 = "p\<lparr>px_routeTable := gm_set name (u\<lparr>su_Endpoints := []\<rparr>) (px_routeTable p)\<rparr>"
    have "route_ok (px_routeTable ?p1)" using drop_eps_ok [OF Cons.prems Some] by simp
    note IH = Cons.IH [OF this]
    have "map_of (px_routeTable ?p1) = (map_of (px_routeTable p))(name \<mapsto> u\<lparr>su_Endpoints := []\<rparr>)"
      by (simp add: map_of_gm_set)
    with IH have "map_of (px_routeTable (empty_endpoints_loop ?p1 names)) =
        dropped (name # names) (map_of (px_routeTable p))"
      unfolding dropped_Cons_Some [of "map_of (px_routeTable p)", OF Some] by argo
    with IH Some routes_only_trans [of p ?p1 "empty_endpoints_loop ?p1 names"] show ?thesis
      by (simp add: findServiceUnit_def gm_get_def)
  qed
qed

lemma put_epss_dom: "map_of rt key \<noteq> None \<Longrightarrow> put_epss w (map_of rt) key \<noteq> None"
  by (auto simp: put_epss_def set_eps_def split: option.splits)

lemma handleEndpointsUpdate_effect:
  assumes "px_ready p"
  shows "\<exists>p'. handleEndpointsUpdate p e = Some (p', Ok ()) \<and>
    effect p (spec_endpoints Modified e (routes_of p)) (vips p) False True p'"
proof -
  let ?m = "explode_subsets (eps_Subsets e) []" and ?own = "owned (eps_Namespace e) (eps_Name e)"
  let ?p1 = "put_endpoints_loop p e ?m" and ?new = "map (eps_key e) (gm_keys (explode_subsets (eps_Subsets e) []))"
  define DL where "DL = diff (filter ?own (gm_keys (px_routeTable p))) ?new"
  have ok: "route_ok (px_routeTable p)" using assms by (simp add: px_ready_def)
  note put = put_endpoints_loop_spec [OF ok explode_ok, of e "eps_Subsets e", unfolded keyed_explode]
  have new: "key \<in> set ?new \<longleftrightarrow> wanted_eps e key \<noteq> None" for key
  proof
    show "wanted_eps e key \<noteq> None" if "key \<in> set ?new"
    proof -
      from that obtain pn where "key = eps_key e pn" "pn \<in> set (gm_keys ?m)"
        unfolding set_map [of "eps_key e"] by (rule imageE)
      then show ?thesis unfolding gm_key_iff by (simp add: wanted_eps_key)
    qed
    show "key \<in> set ?new" if k: "wanted_eps e key \<noteq> None"
    proof -
      obtain pn where pn: "key = eps_key e pn" using wanted_eps_range [OF k] by blast
      with k have "pn \<in> set (gm_keys ?m)" unfolding gm_key_iff by (simp add: wanted_eps_key)
      with pn show ?thesis unfolding set_map [of "eps_key e"] by (rule image_eqI)
    qed
  qed
  have dl: "key \<in> set DL \<longleftrightarrow> ?own key \<and> routes_of p key \<noteq> None \<and> wanted_eps e key = None" for key
    unfolding DL_def diff_filter using gm_key_iff [of key "px_routeTable p"] new [of key] by (auto simp: routes_of_def)
  have "\<forall>name \<in> set DL. map_of (px_routeTable ?p1) name \<noteq> None"
    using put put_epss_dom by (simp add: dl routes_of_def)
  from clear_endpoints_loop_spec [OF _ this] put obtain p2 where
    p2: "clear_endpoints_loop ?p1 DL = (p2, Ok ())" "map_of (px_routeTable p2) = dropped DL (put_epss (wanted_eps e) (routes_of p))"
      "route_ok (px_routeTable p2)" "routes_only p p2"
    using routes_only_trans by (force simp: routes_of_def)
  have "dropped DL (put_epss (wanted_eps e) (routes_of p)) = spec_endpoints Modified e (routes_of p)"
    by (auto simp: dropped_def dl put_epss_def fun_eq_iff)
  with effect_routes [OF effect_refl [OF assms] p2(4,3)] p2(2)
  have "effect p (spec_endpoints Modified e (routes_of p)) (vips p) False False p2" by simp
  from effect_commitHaproxy [OF this] p2(1) getServicePorts_spec [OF ok] assms show ?thesis
    by (simp add: handleEndpointsUpdate_def px_ready_def Let_def DL_def)
qed

lemma fold_set_keys: "set (gm_keys (fold (\<lambda>port. gm_set (ep_Name port) True) ports m)) =
    ep_Name ` set ports \<union> set (gm_keys m)"
  by (induction ports arbitrary: m) (auto simp: gm_keys_set [simplified])

lemma ports_name_map_keys: "set (gm_keys (ports_name_map subsets m)) = set (subset_ports subsets) \<union> set (gm_keys m)"
  by (induction subsets m rule: ports_name_map.induct) (auto simp: subset_ports_def fold_set_keys [simplified])

lemma handleEndpointsDelete_effect:
  assumes "px_ready p"
  shows "\<exists>p'. handleEndpointsDelete p e = Some (p', Ok ()) \<and>
    effect p (spec_endpoints Deleted e (routes_of p)) (vips p) False True p'"
proof -
  let ?names = "map (eps_key e) (gm_keys (ports_name_map (eps_Subsets e) []))"
  have ok: "route_ok (px_routeTable p)" using assms by (simp add: px_ready_def)
  have "dropped ?names (routes_of p) = spec_endpoints Deleted e (routes_of p)"
    unfolding dropped_def set_map [of "eps_key e"] ports_name_map_keys by (simp add: fun_eq_iff)
  with empty_endpoints_loop_spec [OF ok, of ?names] effect_routes [OF effect_refl [OF assms], of "empty_endpoints_loop p ?names"]
  have "effect p (spec_endpoints Deleted e (routes_of p)) (vips p) False False (empty_endpoints_loop p ?names)"
    by (simp add: routes_of_def)
  from effect_commitHaproxy [OF this] assms show ?thesis
    by (simp add: handleEndpointsDelete_def px_ready_def)
qed

section \<open>Dispatch\<close>

text \<open>Which commits an event asks for.\<close>

fun service_commits :: "EventType \<Rightarrow> APIService \<Rightarrow> string set \<Rightarrow> bool \<times> bool" where
  "service_commits Added s V = (IsServiceIPSet s \<and> svc_ClusterIP s \<notin> V, IsServiceIPSet s)"
| "service_commits Modified s V = (IsServiceIPSet s \<and> svc_ClusterIP s \<notin> V, IsServiceIPSet s)"
| "service_commits Deleted s V = (True, True)"
| "service_commits _ s V = (False, False)"

fun endpoints_commits :: "EventType \<Rightarrow> APIEndpoints \<Rightarrow> bool" where
  "endpoints_commits Added e = (eps_Subsets e \<noteq> [])"
| "endpoints_commits Modified e = True"
| "endpoints_commits Deleted e = True"
| "endpoints_commits _ e = False"

lemma HandleService_effect:
  assumes "px_ready p"
  shows "\<exists>p'. HandleService p t s = Some (p', Ok ()) \<and>
    effect p (spec_service t s (routes_of p)) (spec_vips t s (vips p))
      (fst (service_commits t s (vips p))) (snd (service_commits t s (vips p))) p'"
proof (cases "t \<in> {Added, Modified} \<and> \<not> IsServiceIPSet s")
  case True
  with effect_refl [OF assms] show ?thesis
    by (auto simp: HandleService_def handleServiceAdd_def handleServiceUpdate_def)
next
  case False
  with assms effect_refl [OF assms] handleServiceAdd_effect [OF assms, of s]
    handleServiceUpdate_effect [OF assms, of s] handleServiceDelete_effect [OF assms, of s]
  show ?thesis by (cases t) (simp_all add: HandleService_def)
qed

lemma HandleEndpoints_effect:
  assumes "px_ready p"
  shows "\<exists>p'. HandleEndpoints p t e = Some (p', Ok ()) \<and>
    effect p (spec_endpoints t e (routes_of p)) (vips p) False (endpoints_commits t e) p'"
  using assms effect_refl [OF assms] handleEndpointsAdd_effect [OF assms, of e]
    handleEndpointsUpdate_effect [OF assms, of e] handleEndpointsDelete_effect [OF assms, of e]
  by (cases t) (simp_all add: HandleEndpoints_def)

lemma NewProxier_ready:
  assumes "NewProxier E m N k cfg = Inr p"
  shows "px_ready p \<and> routes_of p = Map.empty \<and> vips p = {}"
  using assms
  by (auto simp: NewProxier_def px_ready_defs route_ok_def vip_ok_def NewRateLimitedFunction_def ff_one_key_new
      split: sum.splits)

end
