(* ===== verification/Routing.thy ===== *)
theory Routing
  imports RouteSpec
begin

text \<open>
  Sequences of events. The locale \<open>router\<close> is what the controller relies on: a handler that never
  blocks, fails or panics in a ready state and refines the abstract table. Convergence of the route
  table is proved inside it, over the abstract specification, and interpreted on the proxier.
\<close>

section \<open>Events\<close>

datatype proxy_event = SvcEvent EventType APIService | EpsEvent EventType APIEndpoints

fun px_handle :: "Proxier \<Rightarrow> proxy_event \<Rightarrow> (Proxier \<times> unit outcome) option" where
  "px_handle p (SvcEvent t s) = HandleService p t s"
| "px_handle p (EpsEvent t e) = HandleEndpoints p t e"

fun handle_all :: "('p \<Rightarrow> 'e \<Rightarrow> ('p \<times> unit outcome) option) \<Rightarrow> 'p \<Rightarrow> 'e list \<Rightarrow> ('p \<times> unit outcome) option" where
  "handle_all h p [] = Some (p, Ok ())"
| "handle_all h p (ev # evs) =
     (case h p ev of
        Some (p', Ok _) \<Rightarrow> handle_all h p' evs
      | stopped \<Rightarrow> stopped)"

fun spec_event :: "proxy_event \<Rightarrow> routes \<Rightarrow> routes" where
  "spec_event (SvcEvent t s) = spec_service t s"
| "spec_event (EpsEvent t e) = spec_endpoints t e"

section \<open>Names without colons\<close>

definition colon_free :: "string \<Rightarrow> bool" where
  "colon_free s \<longleftrightarrow> CHR '':'' \<notin> set s"

fun event_name :: "proxy_event \<Rightarrow> string \<times> string" where
  "event_name (SvcEvent t s) = (svc_Namespace s, svc_Name s)"
| "event_name (EpsEvent t e) = (eps_Namespace e, eps_Name e)"

definition wf_event :: "proxy_event \<Rightarrow> bool" where
  "wf_event ev \<longleftrightarrow> colon_free (fst (event_name ev)) \<and> colon_free (snd (event_name ev))"

lemma port_key_eq:
  "colon_free ns \<Longrightarrow> colon_free name \<Longrightarrow> colon_free ns' \<Longrightarrow> colon_free name' \<Longrightarrow>
     port_key ns name pn = port_key ns' name' pn' \<longleftrightarrow> ns = ns' \<and> name = name' \<and> pn = pn'"
  by (auto simp: ServicePortName_String_def colon_free_def append_sep_inj)

lemma owned_key:
  "colon_free ns \<Longrightarrow> colon_free ns' \<Longrightarrow> colon_free pn \<Longrightarrow>
     owned ns' name' (port_key ns name pn) \<longleftrightarrow> ns = ns' \<and> name = name'"
  by (auto simp: owned_def port_key_prefix colon_free_def append_sep_inj)

lemma wanted_info_other:
  "wf_event (SvcEvent t s) \<Longrightarrow> colon_free ns \<Longrightarrow> colon_free name \<Longrightarrow> (svc_Namespace s, svc_Name s) \<noteq> (ns, name) \<Longrightarrow>
     port_key ns name pn \<notin> svc_key s ` set (svc_Ports s) \<and> wanted_info s (port_key ns name pn) = None"
  by (auto simp: wanted_None tcp_ports_def wf_event_def port_key_eq)

lemma wanted_eps_other:
  "wf_event (EpsEvent t e) \<Longrightarrow> colon_free ns \<Longrightarrow> colon_free name \<Longrightarrow> (eps_Namespace e, eps_Name e) \<noteq> (ns, name) \<Longrightarrow>
     port_key ns name pn \<notin> eps_key e ` P \<and> wanted_eps e (port_key ns name pn) = None"
  using wanted_eps_range [of e "port_key ns name pn"]
  by (cases "wanted_eps e (port_key ns name pn)") (auto simp: wf_event_def port_key_eq)

text \<open>An event leaves the routes of other services alone.\<close>

lemma spec_event_frame:
  assumes "wf_event ev" "event_name ev \<noteq> (ns, name)" "colon_free ns" "colon_free name" "colon_free pn"
  shows "spec_event ev r (port_key ns name pn) = r (port_key ns name pn)"
proof (cases ev)
  case (SvcEvent t s)
  with assms wanted_info_other [of t s ns name pn] owned_key [of ns "svc_Namespace s" pn "svc_Name s" name]
  show ?thesis by (cases t) (auto simp: put_infos_None wf_event_def)
next
  case (EpsEvent t e)
  with assms wanted_eps_other [of t e ns name pn "set (subset_ports (eps_Subsets e))"]
    owned_key [of ns "eps_Namespace e" pn "eps_Name e" name]
  show ?thesis by (cases t) (auto simp: put_epss_def wf_event_def)
qed

lemma spec_events_frame:
  assumes "\<forall>ev \<in> set evs. wf_event ev \<and> event_name ev \<noteq> (ns, name)" "colon_free ns" "colon_free name" "colon_free pn"
  shows "fold spec_event evs r (port_key ns name pn) = r (port_key ns name pn)"
  using assms by (induction evs arbitrary: r) (simp_all add: spec_event_frame)

section \<open>Single events on a route\<close>

lemma wanted_info_port:
  assumes "pt \<in> set (svc_Ports s)" "sp_Protocol pt \<noteq> ProtocolUDP" "distinct (map sp_Name (svc_Ports s))"
  shows "wanted_info s (svc_key s pt) = Some (service_of s pt)"
proof -
  have inj: "svc_key s a = svc_key s b \<longleftrightarrow> sp_Name a = sp_Name b" for a b
    by (simp add: ServicePortName_String_def)
  have d: "distinct (map (svc_key s) (tcp_ports s))"
    using assms(3) unfolding tcp_ports_def distinct_map
    by (auto simp: inj_on_def inj)
  have "(svc_key s pt, service_of s pt) \<in> set (rev (map (\<lambda>pt. (svc_key s pt, service_of s pt)) (tcp_ports s)))"
    using assms(1,2) by (auto simp: tcp_ports_def)
  then show ?thesis unfolding wanted_info_def
    by (rule map_of_is_SomeI [rotated]) (use d in \<open>simp add: rev_map [symmetric] o_def\<close>)
qed

lemma spec_service_port:
  assumes "wanted_info s key = Some svc" "t \<in> {Added, Modified}" "IsServiceIPSet s"
  shows "spec_service t s r key = set_info key svc r key"
  using assms by (auto simp: put_infos_def)

lemma spec_endpoints_port:
  assumes "t = Modified \<or> t = Added \<and> ready_endpoints (eps_Subsets e) pn \<noteq> []" "colon_free pn"
  shows "spec_endpoints t e r (eps_key e pn) =
    (if ready_endpoints (eps_Subsets e) pn = [] then map_option drop_eps (r (eps_key e pn))
     else set_eps (eps_key e pn) (ready_endpoints (eps_Subsets e) pn) r (eps_key e pn))"
  using assms
  by (auto simp: wanted_eps_key explode_lookup put_epss_def owned_def port_key_prefix colon_free_def)

definition names_ok :: "routes \<Rightarrow> bool" where
  "names_ok r \<longleftrightarrow> (\<forall>key u. r key = Some u \<longrightarrow> su_Name u = key)"

section \<open>Convergence\<close>

lemma spec_event_names_ok: "names_ok r \<Longrightarrow> names_ok (spec_event ev r)"
proof (cases ev)
  case (SvcEvent t s)
  then show "names_ok r \<Longrightarrow> ?thesis"
    by (cases t) (auto simp: names_ok_def put_infos_def set_info_def split: option.splits if_splits)
next
  case (EpsEvent t e)
  then show "names_ok r \<Longrightarrow> ?thesis"
    by (cases t) (auto simp: names_ok_def put_epss_def set_eps_def drop_eps_def split: option.splits if_splits)
qed

lemma spec_events_names_ok: "names_ok r \<Longrightarrow> names_ok (fold spec_event evs r)"
  by (induction evs arbitrary: r) (simp_all add: spec_event_names_ok)

text \<open>What a service port and the endpoints of its service ask for.\<close>

definition wanted_unit :: "APIService \<Rightarrow> ServicePort \<Rightarrow> APIEndpoints \<Rightarrow> ServiceUnit" where
  "wanted_unit s pt e = \<lparr>su_Name = svc_key s pt, su_ServiceInfo = service_of s pt,
     su_Endpoints = ready_endpoints (eps_Subsets e) (sp_Name pt)\<rparr>"

definition routed_port :: "APIService \<Rightarrow> ServicePort \<Rightarrow> bool" where
  "routed_port s pt \<longleftrightarrow> pt \<in> set (svc_Ports s) \<and> sp_Protocol pt \<noteq> ProtocolUDP \<and>
     distinct (map sp_Name (svc_Ports s)) \<and> IsServiceIPSet s \<and>
     colon_free (svc_Namespace s) \<and> colon_free (svc_Name s) \<and> colon_free (sp_Name pt)"

lemma spec_converges:
  assumes "names_ok r" and rp: "routed_port s pt"
    and same: "eps_Namespace e = svc_Namespace s" "eps_Name e = svc_Name s"
    and ts: "ts \<in> {Added, Modified}"
    and te: "te = Modified \<or> te = Added \<and> ready_endpoints (eps_Subsets e) (sp_Name pt) \<noteq> []"
    and ab: "{a, b} = {SvcEvent ts s, EpsEvent te e}"
    and oth: "\<forall>ev \<in> set (mid @ post). wf_event ev \<and> event_name ev \<noteq> (svc_Namespace s, svc_Name s)"
  shows "fold spec_event (pre @ a # mid @ b # post) r (svc_key s pt) = Some (wanted_unit s pt e)"
proof -
  let ?k = "svc_key s pt" and ?es = "ready_endpoints (eps_Subsets e) (sp_Name pt)"
  define q where "q = fold spec_event pre r"
  have pt: "pt \<in> set (svc_Ports s)" "sp_Protocol pt \<noteq> ProtocolUDP" "distinct (map sp_Name (svc_Ports s))"
    and ip: "IsServiceIPSet s"
    and free: "colon_free (svc_Namespace s)" "colon_free (svc_Name s)" "colon_free (sp_Name pt)"
    using rp by (simp_all add: routed_port_def)
  note frame = spec_events_frame [OF _ free]
  have svc: "spec_event (SvcEvent ts s) r ?k = set_info ?k (service_of s pt) r ?k" for r
    using spec_service_port [OF wanted_info_port [OF pt] ts ip] by simp
  have eps: "spec_event (EpsEvent te e) r ?k = (if ?es = [] then map_option drop_eps (r ?k) else set_eps ?k ?es r ?k)" for r
    using spec_endpoints_port [OF te free(3)] by (simp add: same)
  have name: "q ?k = Some u \<Longrightarrow> su_Name u = ?k" for u
    using spec_events_names_ok [OF assms(1), of pre] by (simp add: names_ok_def q_def)
  have "fold spec_event (pre @ a # mid @ b # post) r ?k =
      spec_event b (fold spec_event mid (spec_event a q)) ?k"
    using frame [of post] oth by (simp add: q_def)
  moreover have "fold spec_event mid r ?k = r ?k" for r using frame [of mid] oth by simp
  ultimately show ?thesis
    using ab name by (auto simp: wanted_unit_def doubleton_eq_iff svc eps set_info_def set_eps_def drop_eps_def
        simp del: spec_event.simps split: option.splits)
qed

locale router =
  fixes handle :: "'p \<Rightarrow> proxy_event \<Rightarrow> ('p \<times> unit outcome) option"
    and routes :: "'p \<Rightarrow> routes"
    and ready :: "'p \<Rightarrow> bool"
  assumes handle_ok: "ready p \<Longrightarrow> \<exists>p'. handle p ev = Some (p', Ok ()) \<and> ready p' \<and> routes p' = spec_event ev (routes p)"
    and ready_names: "ready p \<Longrightarrow> names_ok (routes p)"
begin

lemma handle_all_ok:
  "ready p \<Longrightarrow> \<exists>p'. handle_all handle p evs = Some (p', Ok ()) \<and> ready p' \<and> routes p' = fold spec_event evs (routes p)"
proof (induction evs arbitrary: p)
  case Nil
  then show ?case by simp
next
  case (Cons ev evs)
  from handle_ok [OF Cons.prems, of ev] Cons.IH show ?case by fastforce
qed

lemma converges:
  assumes "ready p" and "routed_port s pt" "eps_Namespace e = svc_Namespace s" "eps_Name e = svc_Name s"
    and "ts \<in> {Added, Modified}" "te = Modified \<or> te = Added \<and> ready_endpoints (eps_Subsets e) (sp_Name pt) \<noteq> []"
    and "{a, b} = {SvcEvent ts s, EpsEvent te e}"
    and "\<forall>ev \<in> set (mid @ post). wf_event ev \<and> event_name ev \<noteq> (svc_Namespace s, svc_Name s)"
  shows "\<exists>p'. handle_all handle p (pre @ a # mid @ b # post) = Some (p', Ok ()) \<and>
    routes p' (svc_key s pt) = Some (wanted_unit s pt e)"
  using handle_all_ok [OF assms(1), of "pre @ a # mid @ b # post"]
    spec_converges [OF ready_names [OF assms(1)] assms(2-8), of pre] by auto

end

interpretation px: router px_handle routes_of px_ready
proof
  fix p ev assume p: "px_ready p"
  show "\<exists>p'. px_handle p ev = Some (p', Ok ()) \<and> px_ready p' \<and> routes_of p' = spec_event ev (routes_of p)"
  proof (cases ev)
    case (SvcEvent t s)
    with HandleService_effect [OF p, of t s] show ?thesis by (auto simp: effect_def)
  next
    case (EpsEvent t e)
    with HandleEndpoints_effect [OF p, of t e] show ?thesis by (auto simp: effect_def)
  qed
  show "names_ok (routes_of p)" using p by (simp add: names_ok_def px_ready_def route_ok_def routes_of_def)
qed

section \<open>Properties\<close>

text \<open>C5: convergence of the route table. However many events came before (in any order), once a service with a
  cluster IP and its endpoints have each been delivered a last time, in either order and with events of other services
  (with colon-free names) in between and after, every port of the service that is not UDP is routed with the address
  of that service and exactly the ready endpoints of those endpoints, in their order. The names are colon-free and
  those of the ports distinct. If the last endpoints event is an addition it must carry ready endpoints for the port,
  for \<open>handleEndpointsAdd\<close> leaves a route alone otherwise.\<close>

theorem route_converges:
  assumes "px_ready p" "routed_port s pt" "eps_Namespace e = svc_Namespace s" "eps_Name e = svc_Name s"
    and "ts \<in> {Added, Modified}"
    and "te = Modified \<or> te = Added \<and> ready_endpoints (eps_Subsets e) (sp_Name pt) \<noteq> []"
    and "{a, b} = {SvcEvent ts s, EpsEvent te e}"
    and "\<forall>ev \<in> set (mid @ post). wf_event ev \<and> event_name ev \<noteq> (svc_Namespace s, svc_Name s)"
  shows "\<exists>p'. handle_all px_handle p (pre @ a # mid @ b # post) = Some (p', Ok ()) \<and>
    gm_get (px_routeTable p') (svc_key s pt) =
      Some \<lparr>su_Name = svc_key s pt, su_ServiceInfo = service_of s pt,
            su_Endpoints = ready_endpoints (eps_Subsets e) (sp_Name pt)\<rparr>"
  using px.converges [OF assms] by (simp add: routes_of_def gm_get_def wanted_unit_def)

abbreviation demo_config :: InstanceConfig where
  "demo_config \<equiv> \<lparr>ConfigPath = ''c'', TemplatePath = ''t'', ReloadScriptPath = ''r'', ReloadInterval = 5000000000\<rparr>"

abbreviation demo_instance :: Instance where
  "demo_instance \<equiv> \<lparr>in_config = demo_config, in_configurer = \<lparr>configFilePath = ''c''\<rparr>\<rparr>"

definition demo_proxier :: Proxier where
  "demo_proxier = \<lparr>px_config = \<lparr>pc_Device = ''eth0'', pc_KeepalivedConfig = demo_config, pc_HaproxyConfig = demo_config\<rparr>,
     px_master = ab_Set ab_New, px_skipCommit = False, px_lock = False, px_vipTable = [], px_routeTable = [],
     px_ip = \<lparr>rn_link = \<lparr>lk_Name = ''eth0'', lk_Flags = 1\<rparr>\<rparr>, px_haproxyInstance = demo_instance,
     px_keepalivedInstance = demo_instance,
     px_commitKeepalived = NewRateLimitedFunction keepalived_key 5000000000,
     px_commitHaproxy = NewRateLimitedFunction haproxy_key 5000000000\<rparr>"

definition demo_service :: APIService where
  "demo_service = \<lparr>svc_Namespace = ''default'', svc_Name = ''web'', svc_ClusterIP = ''10.0.0.1'',
     svc_Ports = [\<lparr>sp_Name = ''http'', sp_Protocol = ''TCP'', sp_Port = 80\<rparr>]\<rparr>"

definition demo_endpoints :: APIEndpoints where
  "demo_endpoints = \<lparr>eps_Namespace = ''default'', eps_Name = ''web'',
     eps_Subsets = [\<lparr>ss_Addresses = [''172.16.0.1'', ''172.16.0.2''], ss_NotReadyAddresses = [],
       ss_Ports = [\<lparr>ep_Name = ''http'', ep_Port = 8080\<rparr>]\<rparr>]\<rparr>"

lemma demo_ready: "px_ready demo_proxier"
  by (simp add: demo_proxier_def px_ready_defs route_ok_def vip_ok_def NewRateLimitedFunction_def ff_one_key_new)

theorem route_converges_witness:
  "\<exists>p'. handle_all px_handle demo_proxier [EpsEvent Added demo_endpoints, SvcEvent Added demo_service] = Some (p', Ok ()) \<and>
    gm_get (px_routeTable p') ''default:web:http'' =
      Some \<lparr>su_Name = ''default:web:http'',
        su_ServiceInfo = \<lparr>s_ClusterIP = ''10.0.0.1'', s_Port = 80, s_Protocol = ''TCP''\<rparr>,
        su_Endpoints = [\<lparr>e_IP = ''172.16.0.1'', e_Port = 8080\<rparr>, \<lparr>e_IP = ''172.16.0.2'', e_Port = 8080\<rparr>]\<rparr>"
  using route_converges [of demo_proxier demo_service "\<lparr>sp_Name = ''http'', sp_Protocol = ''TCP'', sp_Port = 80\<rparr>"
      demo_endpoints Added Added "EpsEvent Added demo_endpoints" "SvcEvent Added demo_service" "[]" "[]" "[]"] demo_ready
  by (simp add: routed_port_def demo_service_def demo_endpoints_def ProtocolUDP_def colon_free_def IsServiceIPSet_def
      ready_endpoints_def insert_commute service_of_def ServicePortName_String_def)

text \<open>C6: refinement. In a ready state a service event is handled without blocking, error or panic;
  afterwards the state is ready again, the route table and the virtual IPs are those of the
  specification, and a commit is queued exactly for a MASTER with a processed list (Keepalived only if the
  virtual IPs changed or a service was deleted), or if it was already queued.\<close>

theorem HandleService_refines:
  assumes "px_ready p"
  shows "\<exists>p'. HandleService p t s = Some (p', Ok ()) \<and> px_ready p' \<and>
    routes_of p' = spec_service t s (routes_of p) \<and> vips p' = spec_vips t s (vips p) \<and>
    pending_keepalived p' = (pending_keepalived p \<or> active p \<and> fst (service_commits t s (vips p))) \<and>
    pending_haproxy p' = (pending_haproxy p \<or> active p \<and> snd (service_commits t s (vips p))) \<and> same_frame p p'"
  using HandleService_effect [OF assms, of t s] by (auto simp: effect_def)

theorem HandleService_refines_witness:
  "\<exists>p'. HandleService demo_proxier Added demo_service = Some (p', Ok ()) \<and>
    vips p' = {''10.0.0.1''} \<and> pending_keepalived p' \<and> pending_haproxy p'"
proof -
  have "vips demo_proxier = {}" "active demo_proxier" by (simp_all add: demo_proxier_def vips_def active_def)
  with HandleService_refines [OF demo_ready, of Added demo_service] show ?thesis
    by (auto simp: demo_service_def IsServiceIPSet_def)
qed

text \<open>C7: the same for endpoints events. They never touch the virtual IPs and never ask for a
  Keepalived commit; endpoints without subsets are ignored when added.\<close>

theorem HandleEndpoints_refines:
  assumes "px_ready p"
  shows "\<exists>p'. HandleEndpoints p t e = Some (p', Ok ()) \<and> px_ready p' \<and>
    routes_of p' = spec_endpoints t e (routes_of p) \<and> vips p' = vips p \<and>
    pending_keepalived p' = pending_keepalived p \<and>
    pending_haproxy p' = (pending_haproxy p \<or> active p \<and> endpoints_commits t e) \<and> same_frame p p'"
  using HandleEndpoints_effect [OF assms, of t e] by (auto simp: effect_def)

theorem HandleEndpoints_refines_witness:
  "\<exists>p'. HandleEndpoints demo_proxier Modified demo_endpoints = Some (p', Ok ()) \<and> vips p' = {} \<and> pending_haproxy p'"
proof -
  have "vips demo_proxier = {}" "active demo_proxier" by (simp_all add: demo_proxier_def vips_def active_def)
  with HandleEndpoints_refines [OF demo_ready, of Modified demo_endpoints] show ?thesis by auto
qed

text \<open>C8: no sequence of events makes a proxier that \<open>NewProxier\<close> returned block or panic: the
  slice in \<open>getServicePorts\<close> stays in range and \<open>handleEndpointsUpdate\<close> never meets a nil unit. Every
  entry of the resulting table is stored under its own name.\<close>

theorem proxier_never_panics:
  assumes "NewProxier E m N k cfg = Inr p"
  shows "\<exists>p'. handle_all px_handle p evs = Some (p', Ok ()) \<and> gm_wf (px_routeTable p') \<and>
    (\<forall>key u. gm_get (px_routeTable p') key = Some u \<longrightarrow> su_Name u = key)"
  using px.handle_all_ok [of p evs] NewProxier_ready [OF assms]
  by (auto simp: px_ready_def route_ok_def gm_get_def)

theorem proxier_never_panics_witness:
  "let m = \<lparr>files = [''c'' \<mapsto> ''''], scripts_run = []\<rparr>;
      N = \<lparr>LinkByName = (\<lambda>_ _. Inr \<lparr>lk_Name = ''eth0'', lk_Flags = 1\<rparr>), AddrList = (\<lambda>k _. Inr k),
            AddrAdd = (\<lambda>k _ a. (a # k, None)), AddrDel = (\<lambda>k _ a. (removeAll a k, None))\<rparr>;
      cfg = \<lparr>pc_Device = ''eth0'', pc_KeepalivedConfig = demo_config, pc_HaproxyConfig = demo_config\<rparr>
   in \<exists>p p'. NewProxier friendly_env m N [] cfg = Inr p \<and>
        handle_all px_handle p [SvcEvent Modified demo_service, EpsEvent Modified demo_endpoints] = Some (p', Ok ())"
proof -
  let ?m = "\<lparr>files = [''c'' \<mapsto> ''''], scripts_run = []\<rparr>"
  let ?N = "\<lparr>LinkByName = (\<lambda>_ _. Inr \<lparr>lk_Name = ''eth0'', lk_Flags = 1\<rparr>), AddrList = (\<lambda>k _. Inr k),
            AddrAdd = (\<lambda>k _ a. (a # k, None)), AddrDel = (\<lambda>k _ a. (removeAll a k, None))\<rparr>"
  let ?cfg = "\<lparr>pc_Device = ''eth0'', pc_KeepalivedConfig = demo_config, pc_HaproxyConfig = demo_config\<rparr>"
  obtain p where "NewProxier friendly_env ?m ?N [] ?cfg = Inr p"
    by (simp add: NewProxier_def ipaddr_New_def FlagUp_def keepalived_NewInstance_def haproxy_NewInstance_def
        NewConfigurer_def canReadFile_def)
  with proxier_never_panics [OF this, of "[SvcEvent Modified demo_service, EpsEvent Modified demo_endpoints]"]
  show ?thesis by auto
qed

text \<open>After an update the routes of a service are exactly its ports that are not UDP: a port
  removed from the service is gone from the table and each remaining port keeps the endpoints it had.\<close>

theorem service_update_exact:
  assumes "px_ready p" "IsServiceIPSet s" "wf_event (SvcEvent Modified s)" "colon_free pn"
  shows "\<exists>p'. HandleService p Modified s = Some (p', Ok ()) \<and>
    (gm_get (px_routeTable p') (port_key (svc_Namespace s) (svc_Name s) pn) \<noteq> None \<longleftrightarrow>
       (\<exists>pt \<in> set (svc_Ports s). sp_Name pt = pn \<and> sp_Protocol pt \<noteq> ProtocolUDP)) \<and>
    (\<forall>u u'. gm_get (px_routeTable p) (port_key (svc_Namespace s) (svc_Name s) pn) = Some u \<longrightarrow>
       gm_get (px_routeTable p') (port_key (svc_Namespace s) (svc_Name s) pn) = Some u' \<longrightarrow>
       su_Endpoints u' = su_Endpoints u \<and> s_ClusterIP (su_ServiceInfo u') = svc_ClusterIP s)"
proof -
  let ?k = "port_key (svc_Namespace s) (svc_Name s) pn"
  obtain p' where p': "HandleService p Modified s = Some (p', Ok ())" "routes_of p' = spec_service Modified s (routes_of p)"
    using HandleService_effect [OF assms(1), of Modified s] by (auto simp: effect_def)
  have own: "owned (svc_Namespace s) (svc_Name s) ?k" using assms(4) by (simp add: owned_def port_key_prefix colon_free_def)
  have want: "wanted_info s ?k \<noteq> None \<longleftrightarrow> (\<exists>pt \<in> set (svc_Ports s). sp_Name pt = pn \<and> sp_Protocol pt \<noteq> ProtocolUDP)"
    unfolding wanted_None by (auto simp: tcp_ports_def ServicePortName_String_def image_iff)
  have ip: "wanted_info s ?k = Some svc \<Longrightarrow> s_ClusterIP svc = svc_ClusterIP s" for svc
    by (auto simp: wanted_info_def service_of_def dest!: map_of_SomeD)
  have "gm_get (px_routeTable p') ?k = (case wanted_info s ?k of None \<Rightarrow> None
      | Some svc \<Rightarrow> set_info ?k svc (routes_of p) ?k)"
    using p'(2) own assms(2) by (auto simp: routes_of_def gm_get_def put_infos_def split: option.splits)
  with p'(1) want ip show ?thesis
    by (auto simp: set_info_def routes_of_def gm_get_def split: option.splits)
qed

theorem service_update_exact_witness:
  "\<exists>p'. HandleService demo_proxier Modified demo_service = Some (p', Ok ()) \<and>
    gm_get (px_routeTable p') ''default:web:http'' \<noteq> None"
  using service_update_exact [OF demo_ready, of demo_service "''http''"]
  by (auto simp: demo_service_def IsServiceIPSet_def wf_event_def colon_free_def ProtocolUDP_def ServicePortName_String_def)

text \<open>Deleting a service removes its virtual IP and the routes of all its ports, and leaves the
  routes of other services as they were.\<close>

theorem service_delete_exact:
  assumes "px_ready p" "wf_event (SvcEvent Deleted s)"
  shows "\<exists>p'. HandleService p Deleted s = Some (p', Ok ()) \<and> vips p' = vips p - {svc_ClusterIP s} \<and>
    (\<forall>pt \<in> set (svc_Ports s). gm_get (px_routeTable p') (svc_key s pt) = None) \<and>
    (\<forall>ns name pn. colon_free ns \<and> colon_free name \<and> colon_free pn \<and> (ns, name) \<noteq> (svc_Namespace s, svc_Name s) \<longrightarrow>
       gm_get (px_routeTable p') (port_key ns name pn) = gm_get (px_routeTable p) (port_key ns name pn))"
proof -
  obtain p' where p': "HandleService p Deleted s = Some (p', Ok ())" "routes_of p' = spec_event (SvcEvent Deleted s) (routes_of p)"
      "vips p' = vips p - {svc_ClusterIP s}"
    using HandleService_effect [OF assms(1), of Deleted s] by (auto simp: effect_def)
  have "gm_get (px_routeTable p') (port_key ns name pn) = gm_get (px_routeTable p) (port_key ns name pn)"
    if "colon_free ns" "colon_free name" "colon_free pn" "(ns, name) \<noteq> (svc_Namespace s, svc_Name s)" for ns name pn
  proof -
    have "event_name (SvcEvent Deleted s) \<noteq> (ns, name)" using that(4) by auto
    from spec_event_frame [OF assms(2) this that(1-3), of "routes_of p"] p'(2) show ?thesis
      by (simp add: routes_of_def gm_get_def)
  qed
  with p' show ?thesis by (auto simp: routes_of_def gm_get_def)
qed

theorem service_delete_exact_witness:
  "\<exists>p'. HandleService demo_proxier Deleted demo_service = Some (p', Ok ()) \<and>
    gm_get (px_routeTable p') ''default:web:http'' = None"
  using service_delete_exact [OF demo_ready, of demo_service]
  by (auto simp: demo_service_def wf_event_def colon_free_def ServicePortName_String_def)

abbreviation demo_routes :: "string list \<Rightarrow> Proxier" where
  "demo_routes names \<equiv> demo_proxier\<lparr>px_routeTable :=
     map (\<lambda>n. (n, \<lparr>su_Name = n, su_ServiceInfo = zero_Service, su_Endpoints = []\<rparr>)) names\<rparr>"

lemma demo_routes_ready: "distinct names \<Longrightarrow> \<forall>n \<in> set names. CHR '':'' \<in> set n \<Longrightarrow> px_ready (demo_routes names)"
  using demo_ready by (auto simp: px_ready_def queues_ok_def route_ok_def comp_def dest!: map_of_SomeD)

text \<open>A service that is deleted and created again comes back without endpoints: deleting it drops the
  endpoints known for its ports, and creating it starts from an empty list, until the next endpoints
  event.\<close>

theorem recreated_service_has_no_endpoints:
  assumes "px_ready p" "routed_port s pt"
  shows "\<exists>p'. handle_all px_handle p [EpsEvent Modified e, SvcEvent Added s, SvcEvent Deleted s, SvcEvent Added s] = Some (p', Ok ()) \<and>
    gm_get (px_routeTable p') (svc_key s pt) =
      Some \<lparr>su_Name = svc_key s pt, su_ServiceInfo = service_of s pt, su_Endpoints = []\<rparr>"
proof -
  have pt: "pt \<in> set (svc_Ports s)" "sp_Protocol pt \<noteq> ProtocolUDP" "distinct (map sp_Name (svc_Ports s))" "IsServiceIPSet s"
    using assms(2) by (simp_all add: routed_port_def)
  have "spec_service Deleted s r (svc_key s pt) = None" for r using pt(1) by simp
  then have "fold spec_event [EpsEvent Modified e, SvcEvent Added s, SvcEvent Deleted s, SvcEvent Added s] r (svc_key s pt) =
      Some \<lparr>su_Name = svc_key s pt, su_ServiceInfo = service_of s pt, su_Endpoints = []\<rparr>" for r
    using spec_service_port [OF wanted_info_port [OF pt(1-3)] _ pt(4), of Added]
    by (simp add: set_info_def del: spec_service.simps)
  then show ?thesis
    using px.handle_all_ok [OF assms(1), of "[EpsEvent Modified e, SvcEvent Added s, SvcEvent Deleted s, SvcEvent Added s]"]
    by (auto simp: routes_of_def gm_get_def simp del: handle_all.simps spec_event.simps fold.simps)
qed

theorem recreated_service_has_no_endpoints_witness:
  "\<exists>p'. handle_all px_handle demo_proxier [EpsEvent Modified demo_endpoints, SvcEvent Added demo_service,
      SvcEvent Deleted demo_service, SvcEvent Added demo_service] = Some (p', Ok ()) \<and>
    map_option su_Endpoints (gm_get (px_routeTable p') ''default:web:http'') = Some []"
proof -
  let ?pt = "\<lparr>sp_Name = ''http'', sp_Protocol = ''TCP'', sp_Port = 80\<rparr>"
  have "routed_port demo_service ?pt"
    by (simp add: routed_port_def demo_service_def ProtocolUDP_def colon_free_def IsServiceIPSet_def)
  moreover have "svc_key demo_service ?pt = ''default:web:http''"
    by (simp add: demo_service_def ServicePortName_String_def)
  ultimately show ?thesis
    using recreated_service_has_no_endpoints [OF demo_ready, of demo_service ?pt demo_endpoints]
    by (auto simp del: handle_all.simps)
qed

text \<open>A Keepalived commit that is skipped is not made up for. If a service with a new virtual IP arrives
  while commits are skipped (a list is being read), then, once they are enabled again, no number of
  endpoints events and of events of services with known virtual IPs asks for a Keepalived commit: the
  new virtual IP is in the table but nothing is pending to announce it.\<close>

theorem skipped_vip_is_not_committed:
  assumes "px_ready p" "px_skipCommit p" "\<not> pending_keepalived p" "IsServiceIPSet s" "HandleService p Added s = Some (p1, out)"
    and "list_all (\<lambda>ev. case ev of SvcEvent t x \<Rightarrow> t \<in> {Added, Modified} \<and> svc_ClusterIP x \<in> vips p1 | EpsEvent t e \<Rightarrow> True) evs"
  shows "\<exists>p'. handle_all px_handle (SetSkipCommit p1 False) evs = Some (p', Ok ()) \<and>
    svc_ClusterIP s \<in> vips p' \<and> \<not> pending_keepalived p'"
proof -
  from HandleService_effect [OF assms(1), of Added s] assms(5)
  have p1: "px_ready p1" "svc_ClusterIP s \<in> vips p1" "\<not> pending_keepalived p1"
    using assms(2,3,4) by (auto simp: effect_def active_def)
  have run: "px_ready q \<Longrightarrow> vips q = vips p1 \<Longrightarrow> \<not> pending_keepalived q \<Longrightarrow>
      list_all (\<lambda>ev. case ev of SvcEvent t x \<Rightarrow> t \<in> {Added, Modified} \<and> svc_ClusterIP x \<in> vips p1 | EpsEvent t e \<Rightarrow> True) evs \<Longrightarrow>
      \<exists>p'. handle_all px_handle q evs = Some (p', Ok ()) \<and> vips p' = vips p1 \<and> \<not> pending_keepalived p'" for q
  proof (induction evs arbitrary: q)
    case Nil
    then show ?case by simp
  next
    case (Cons ev evs)
    obtain q' where q': "px_handle q ev = Some (q', Ok ())" "px_ready q'" "vips q' = vips p1" "\<not> pending_keepalived q'"
    proof (cases ev)
      case (SvcEvent t x)
      with Cons.prems HandleService_effect [OF Cons.prems(1), of t x] that show ?thesis
        by (auto simp: effect_def insert_absorb split: if_splits)
    next
      case (EpsEvent t e)
      with Cons.prems HandleEndpoints_effect [OF Cons.prems(1), of t e] that show ?thesis
        by (auto simp: effect_def)
    qed
    with Cons.IH [OF q'(2-4)] Cons.prems(4) show ?case by simp
  qed
  have "px_ready (SetSkipCommit p1 False)" "vips (SetSkipCommit p1 False) = vips p1" "\<not> pending_keepalived (SetSkipCommit p1 False)"
    using p1 by (simp_all add: SetSkipCommit_def px_ready_defs)
  from run [OF this assms(6)] p1(2) show ?thesis by auto
qed

theorem skipped_vip_is_not_committed_witness:
  "\<exists>p1 p'. HandleService (demo_proxier\<lparr>px_skipCommit := True\<rparr>) Added demo_service = Some (p1, Ok ()) \<and>
    handle_all px_handle (SetSkipCommit p1 False) [EpsEvent Modified demo_endpoints] = Some (p', Ok ()) \<and>
    ''10.0.0.1'' \<in> vips p' \<and> \<not> pending_keepalived p'"
proof -
  let ?p = "demo_proxier\<lparr>px_skipCommit := True\<rparr>"
  have p: "px_ready ?p" "px_skipCommit ?p" using demo_ready by (simp_all add: px_ready_def queues_ok_def)
  have k: "\<not> pending_keepalived ?p" "IsServiceIPSet demo_service"
    by (simp_all add: pending_keepalived_def demo_proxier_def NewRateLimitedFunction_def ff_slot_new demo_service_def IsServiceIPSet_def)
  obtain p1 where p1: "HandleService ?p Added demo_service = Some (p1, Ok ())" using HandleService_effect [OF p(1)] by blast
  from skipped_vip_is_not_committed [OF p k p1, of "[EpsEvent Modified demo_endpoints]"] p1 show ?thesis
    by (auto simp: demo_service_def simp del: handle_all.simps)
qed

end
