(* ===== verification/MapOrder.thy ===== *)
theory MapOrder
  imports Routing
begin

text \<open>
  Go visits the entries of a map in an order that is not specified and differs from loop to loop. The handlers of
  \<open>proxy/template/proxier.go\<close> have four such loops: over the route table in \<open>getServicePorts\<close> (called twice), over
  \<open>portsToEndpoints\<close> (in the add and the update of endpoints) and over \<open>portsNameMap\<close>.

  Here each handler with a loop over a map takes the order of its visits as an argument; the theory \<open>Proxier\<close> has the
  same handlers with the order of the association list. \<open>any_order\<close> lets every event choose any order, and \<open>any_run\<close> is a
  sequence of events in which each one does. All such runs end in the same tables with the same commits.
\<close>

section \<open>The handlers with the order of their visits\<close>

text \<open>\<open>names\<close>: the keys of the route table in the order in which \<open>getServicePorts\<close> visits them.\<close>

definition handleServiceUpdate_by :: "string list \<Rightarrow> Proxier \<Rightarrow> APIService \<Rightarrow> (Proxier \<times> unit outcome) option" where
  "handleServiceUpdate_by names p service =
     (if \<not> IsServiceIPSet service then Some (p, Ok ())
      else if px_lock p then None
      else let p1 = addVip p service in
           case service_ports_loop names (svc_Namespace service @ '':'' @ svc_Name service) of
             Ok oldSvcPortsList \<Rightarrow>
               (let (p2, newSvcPortsList) = update_ports_loop p1 service (svc_Ports service) [];
                    diffList = diff oldSvcPortsList newSvcPortsList
                in Some (commitHaproxy (delete_routes p2 diffList), Ok ()))
           | Fail err \<Rightarrow> Some (p1, Fail err)
           | Panic msg \<Rightarrow> Some (p1, Panic msg)
           | Exit msg \<Rightarrow> Some (p1, Exit msg))"

text \<open>\<open>m\<close>: the entries of \<open>portsToEndpoints\<close> in the order of the loop over it.\<close>

definition handleEndpointsAdd_by :: "ports_map \<Rightarrow> Proxier \<Rightarrow> APIEndpoints \<Rightarrow> (Proxier \<times> unit outcome) option" where
  "handleEndpointsAdd_by m p endpoints =
     (if px_lock p then None
      else if length (eps_Subsets endpoints) = 0 then Some (p, Ok ())
      else Some (commitHaproxy (put_endpoints_loop p endpoints m), Ok ()))"

definition handleEndpointsUpdate_by :: "string list \<Rightarrow> ports_map \<Rightarrow> Proxier \<Rightarrow> APIEndpoints \<Rightarrow> (Proxier \<times> unit outcome) option" where
  "handleEndpointsUpdate_by names m p endpoints =
     (if px_lock p then None
      else case service_ports_loop names (eps_Namespace endpoints @ '':'' @ eps_Name endpoints) of
             Ok oldSvcPortsList \<Rightarrow>
               (let p1 = put_endpoints_loop p endpoints m;
                    newSvcPortsList = map (eps_key endpoints) (gm_keys m)
                in case clear_endpoints_loop p1 (diff oldSvcPortsList newSvcPortsList) of
                     (p2, Ok _) \<Rightarrow> Some (commitHaproxy p2, Ok ())
                   | (p2, failed) \<Rightarrow> Some (p2, failed))
           | Fail err \<Rightarrow> Some (p, Fail err)
           | Panic msg \<Rightarrow> Some (p, Panic msg)
           | Exit msg \<Rightarrow> Some (p, Exit msg))"

text \<open>\<open>portnames\<close>: the keys of \<open>portsNameMap\<close> in the order of the loop over it.\<close>

definition handleEndpointsDelete_by :: "string list \<Rightarrow> Proxier \<Rightarrow> APIEndpoints \<Rightarrow> (Proxier \<times> unit outcome) option" where
  "handleEndpointsDelete_by portnames p endpoints =
     (if px_lock p then None
      else Some (commitHaproxy (empty_endpoints_loop p (map (eps_key endpoints) portnames)), Ok ()))"

text \<open>With the order of the association lists these are the handlers of the theory \<open>Proxier\<close>.\<close>

lemma handlers_by_own_order:
  "handleServiceUpdate_by (gm_keys (px_routeTable (addVip p s))) p s = handleServiceUpdate p s"
  "handleEndpointsAdd_by (explode_subsets (eps_Subsets e) []) p e = handleEndpointsAdd p e"
  "handleEndpointsUpdate_by (gm_keys (px_routeTable p)) (explode_subsets (eps_Subsets e) []) p e = handleEndpointsUpdate p e"
  "handleEndpointsDelete_by (gm_keys (ports_name_map (eps_Subsets e) [])) p e = handleEndpointsDelete p e"
  unfolding handleServiceUpdate_by_def handleServiceUpdate_def handleEndpointsAdd_by_def handleEndpointsAdd_def
    handleEndpointsUpdate_by_def handleEndpointsUpdate_def handleEndpointsDelete_by_def handleEndpointsDelete_def
    getServicePorts_def Let_def by simp_all

text \<open>One event, with any order of visits in its loops. The events of the last rule have no loop over a map.\<close>

inductive any_order :: "Proxier \<Rightarrow> proxy_event \<Rightarrow> (Proxier \<times> unit outcome) option \<Rightarrow> bool" for p :: Proxier where
  service_update: "mset names = mset (gm_keys (px_routeTable p)) \<Longrightarrow>
    any_order p (SvcEvent Modified s) (handleServiceUpdate_by names p s)"
| endpoints_add: "mset m = mset (explode_subsets (eps_Subsets e) []) \<Longrightarrow>
    any_order p (EpsEvent Added e) (handleEndpointsAdd_by m p e)"
| endpoints_update: "mset names = mset (gm_keys (px_routeTable p)) \<Longrightarrow> mset m = mset (explode_subsets (eps_Subsets e) []) \<Longrightarrow>
    any_order p (EpsEvent Modified e) (handleEndpointsUpdate_by names m p e)"
| endpoints_delete: "mset portnames = mset (gm_keys (ports_name_map (eps_Subsets e) [])) \<Longrightarrow>
    any_order p (EpsEvent Deleted e) (handleEndpointsDelete_by portnames p e)"
| service_other: "t \<noteq> Modified \<Longrightarrow> any_order p (SvcEvent t s) (HandleService p t s)"
| endpoints_other: "t \<notin> {Added, Modified, Deleted} \<Longrightarrow> any_order p (EpsEvent t e) (HandleEndpoints p t e)"

inductive any_run :: "Proxier \<Rightarrow> proxy_event list \<Rightarrow> (Proxier \<times> unit outcome) option \<Rightarrow> bool" where
  run_done: "any_run p [] (Some (p, Ok ()))"
| run_next: "any_order p ev (Some (q, Ok ())) \<Longrightarrow> any_run q evs r \<Longrightarrow> any_run p (ev # evs) r"
| run_stop: "any_order p ev r \<Longrightarrow> (\<And>q. r \<noteq> Some (q, Ok ())) \<Longrightarrow> any_run p (ev # evs) r"

inductive_cases any_run_ConsE: "any_run p (ev # evs) r"

inductive_cases any_run_NilE: "any_run p [] r"

section \<open>What each handler does in any order\<close>

lemma perm_keys: "mset names = mset (gm_keys m) \<Longrightarrow> set names = set (gm_keys m)"
  by (metis mset_eq_setD)

lemma perm_map:
  assumes "mset m' = mset m" "gm_wf m"
  shows "gm_wf m'" "keyed e m' = keyed e m" "set (gm_keys m') = set (gm_keys m)"
proof -
  have "mset (map fst m') = mset (map fst m)" using assms(1) by simp
  then show wf: "gm_wf m'" using assms(2) by (metis mset_eq_imp_distinct_iff)
  have "map_of m' = map_of m" using assms wf by (metis map_of_inject_set mset_eq_setD)
  then have "keyed e m' key = keyed e m key" for key
    by (cases "\<exists>pn. key = eps_key e pn") (metis keyed_key keyed_range)+
  then show "keyed e m' = keyed e m" by (simp add: fun_eq_iff)
  show "set (gm_keys m') = set (gm_keys m)" using assms(1) by (simp add: mset_eq_setD [OF assms(1)])
qed

lemma ports_by_spec:
  assumes "route_ok (px_routeTable p)" "set names = set (gm_keys (px_routeTable p))"
  shows "service_ports_loop names (ns @ '':'' @ name) = Ok (filter (owned ns name) names)"
  unfolding owned_def using service_ports_loop_spec route_ok_keys [OF assms(1)] assms(2) by blast

lemma addVip_routes [simp]: "px_routeTable (addVip p s) = px_routeTable p"
  by (simp add: addVip_def commitKeepalived_def)

lemma service_update_by_effect:
  assumes "px_ready p" "IsServiceIPSet s" "set names = set (gm_keys (px_routeTable p))"
  shows "\<exists>p'. handleServiceUpdate_by names p s = Some (p', Ok ()) \<and>
    effect p (spec_service Modified s (routes_of p)) (spec_vips Modified s (vips p)) (svc_ClusterIP s \<notin> vips p) True p'"
proof -
  let ?p1 = "addVip p s" and ?own = "owned (svc_Namespace s) (svc_Name s)"
  let ?p2 = "add_ports_loop ?p1 s (svc_Ports s)"
  let ?dl = "diff (filter ?own names) (map (svc_key s) (tcp_ports s))"
  note vip = addVip_effect [OF assms(1), of s]
  have ok1: "route_ok (px_routeTable ?p1)" "map_of (px_routeTable ?p1) = routes_of p"
    using effect_route_ok [OF vip] by auto
  note loop = add_ports_loop_spec [OF ok1(1), of s "svc_Ports s", unfolded infos_of_wanted ok1(2)]
  have dl: "key \<in> set ?dl \<longleftrightarrow> ?own key \<and> routes_of p key \<noteq> None \<and> wanted_info s key = None" for key
    using gm_key_iff [of key "px_routeTable p"] assms(3) by (auto simp: diff_filter wanted_None routes_of_def)
  have spec: "(\<lambda>key. if key \<in> set ?dl then None else map_of (px_routeTable ?p2) key) = spec_service Modified s (routes_of p)"
    using assms(2) by (auto simp: dl loop put_infos_None fun_eq_iff)
  have ok2: "route_ok (px_routeTable ?p2)" "routes_only ?p1 ?p2" using loop by auto
  note del = delete_routes_spec [OF ok2(1), of ?dl]
  have "effect p (spec_service Modified s (routes_of p)) (insert (svc_ClusterIP s) (vips p))
      (svc_ClusterIP s \<notin> vips p) False (delete_routes ?p2 ?dl)"
    using effect_routes [OF vip routes_only_trans [OF ok2(2)], of "delete_routes ?p2 ?dl"] del spec by metis
  from effect_commitHaproxy [OF this] assms ports_by_spec [of p] show ?thesis
    by (simp add: handleServiceUpdate_by_def px_ready_def Let_def update_ports_loop_add tcp_ports_def)
qed

lemma endpoints_add_by_effect:
  assumes "px_ready p" "mset m = mset (explode_subsets (eps_Subsets e) [])"
  shows "\<exists>p'. handleEndpointsAdd_by m p e = Some (p', Ok ()) \<and>
    effect p (spec_endpoints Added e (routes_of p)) (vips p) False (eps_Subsets e \<noteq> []) p'"
proof (cases "eps_Subsets e = []")
  case True
  with handleEndpointsAdd_effect [OF assms(1), of e] show ?thesis
    by (auto simp: handleEndpointsAdd_by_def handleEndpointsAdd_def split: if_splits)
next
  case False
  have ok: "route_ok (px_routeTable p)" using assms(1) by (simp add: px_ready_def)
  note perm = perm_map [OF assms(2) explode_ok]
  from put_endpoints_loop_spec [OF ok perm(1), of e] effect_routes [OF effect_refl [OF assms(1)], of "put_endpoints_loop p e m"]
  have "effect p (spec_endpoints Added e (routes_of p)) (vips p) False False (put_endpoints_loop p e m)"
    by (simp add: perm(2) keyed_explode routes_of_def)
  from effect_commitHaproxy [OF this] False assms(1) show ?thesis
    by (simp add: handleEndpointsAdd_by_def px_ready_def)
qed

lemma exploded_keys: "key \<in> eps_key e ` set (gm_keys (explode_subsets (eps_Subsets e) [])) \<longleftrightarrow> wanted_eps e key \<noteq> None"
proof
  show "wanted_eps e key \<noteq> None" if "key \<in> eps_key e ` set (gm_keys (explode_subsets (eps_Subsets e) []))"
  proof -
    from that obtain pn where "key = eps_key e pn" "pn \<in> set (gm_keys (explode_subsets (eps_Subsets e) []))" by (rule imageE)
    then show ?thesis unfolding gm_key_iff by (simp add: wanted_eps_key)
  qed
  show "key \<in> eps_key e ` set (gm_keys (explode_subsets (eps_Subsets e) []))" if k: "wanted_eps e key \<noteq> None"
  proof -
    obtain pn where pn: "key = eps_key e pn" using wanted_eps_range [OF k] by blast
    with k have "pn \<in> set (gm_keys (explode_subsets (eps_Subsets e) []))" unfolding gm_key_iff by (simp add: wanted_eps_key)
    with pn show ?thesis by (rule image_eqI)
  qed
qed

lemma endpoints_update_by_effect:
  assumes "px_ready p" "set names = set (gm_keys (px_routeTable p))" "mset m = mset (explode_subsets (eps_Subsets e) [])"
  shows "\<exists>p'. handleEndpointsUpdate_by names m p e = Some (p', Ok ()) \<and>
    effect p (spec_endpoints Modified e (routes_of p)) (vips p) False True p'"
proof -
  let ?own = "owned (eps_Namespace e) (eps_Name e)"
  let ?p1 = "put_endpoints_loop p e m"
  define dl where "dl = diff (filter ?own names) (map (eps_key e) (gm_keys m))"
  have ok: "route_ok (px_routeTable p)" using assms(1) by (simp add: px_ready_def)
  note perm = perm_map [OF assms(3) explode_ok]
  note put = put_endpoints_loop_spec [OF ok perm(1), of e, unfolded perm(2) keyed_explode]
  have in_dl: "key \<in> set dl \<longleftrightarrow> ?own key \<and> routes_of p key \<noteq> None \<and> wanted_eps e key = None" for key
    unfolding dl_def diff_filter set_filter set_map [of "eps_key e"] perm(3) exploded_keys
    using gm_key_iff [of key "px_routeTable p"] assms(2) by (auto simp: routes_of_def)
  have "\<forall>name \<in> set dl. map_of (px_routeTable ?p1) name \<noteq> None"
    using put put_epss_dom by (simp add: in_dl routes_of_def)
  from clear_endpoints_loop_spec [OF _ this] put obtain p2 where
    p2: "clear_endpoints_loop ?p1 dl = (p2, Ok ())" "map_of (px_routeTable p2) = dropped dl (put_epss (wanted_eps e) (routes_of p))"
      "route_ok (px_routeTable p2)" "routes_only p p2"
    using routes_only_trans by (force simp: routes_of_def)
  have "dropped dl (put_epss (wanted_eps e) (routes_of p)) = spec_endpoints Modified e (routes_of p)"
    by (auto simp: dropped_def in_dl put_epss_def fun_eq_iff)
  with effect_routes [OF effect_refl [OF assms(1)] p2(4,3)] p2(2)
  have "effect p (spec_endpoints Modified e (routes_of p)) (vips p) False False p2" by simp
  from effect_commitHaproxy [OF this] p2(1) ports_by_spec [OF ok assms(2)] assms(1) show ?thesis
    by (simp add: handleEndpointsUpdate_by_def px_ready_def Let_def dl_def)
qed

lemma endpoints_delete_by_effect:
  assumes "px_ready p" "set portnames = set (gm_keys (ports_name_map (eps_Subsets e) []))"
  shows "\<exists>p'. handleEndpointsDelete_by portnames p e = Some (p', Ok ()) \<and>
    effect p (spec_endpoints Deleted e (routes_of p)) (vips p) False True p'"
proof -
  let ?names = "map (eps_key e) portnames"
  have ok: "route_ok (px_routeTable p)" using assms(1) by (simp add: px_ready_def)
  have "dropped ?names (routes_of p) = spec_endpoints Deleted e (routes_of p)"
    unfolding dropped_def set_map [of "eps_key e"] assms(2) ports_name_map_keys by (simp add: fun_eq_iff)
  with empty_endpoints_loop_spec [OF ok, of ?names] effect_routes [OF effect_refl [OF assms(1)], of "empty_endpoints_loop p ?names"]
  have "effect p (spec_endpoints Deleted e (routes_of p)) (vips p) False False (empty_endpoints_loop p ?names)"
    by (simp add: routes_of_def)
  from effect_commitHaproxy [OF this] assms(1) show ?thesis
    by (simp add: handleEndpointsDelete_by_def px_ready_def)
qed

section \<open>Runs\<close>

fun event_effect :: "Proxier \<Rightarrow> proxy_event \<Rightarrow> Proxier \<Rightarrow> bool" where
  "event_effect p (SvcEvent t s) p' \<longleftrightarrow> effect p (spec_service t s (routes_of p)) (spec_vips t s (vips p))
     (fst (service_commits t s (vips p))) (snd (service_commits t s (vips p))) p'"
| "event_effect p (EpsEvent t e) p' \<longleftrightarrow>
     effect p (spec_endpoints t e (routes_of p)) (vips p) False (endpoints_commits t e) p'"

lemma px_handle_effect: "px_ready p \<Longrightarrow> \<exists>p'. px_handle p ev = Some (p', Ok ()) \<and> event_effect p ev p'"
  using HandleService_effect HandleEndpoints_effect by (cases ev) simp_all

lemma any_order_effect:
  assumes "any_order p ev r" "px_ready p"
  shows "\<exists>p'. r = Some (p', Ok ()) \<and> event_effect p ev p'"
  using assms(1)
proof cases
  case (service_update names s)
  show ?thesis
  proof (cases "IsServiceIPSet s")
    case True
    with service_update_by_effect [OF assms(2) True perm_keys [OF service_update(3)]] service_update show ?thesis by simp
  next
    case False
    with service_update effect_refl [OF assms(2)] show ?thesis by (simp add: handleServiceUpdate_by_def)
  qed
next
  case (endpoints_add m e)
  with endpoints_add_by_effect [OF assms(2)] show ?thesis by simp
next
  case (endpoints_update names m e)
  with endpoints_update_by_effect [OF assms(2) perm_keys] show ?thesis by simp
next
  case (endpoints_delete portnames e)
  with endpoints_delete_by_effect [OF assms(2) perm_keys] show ?thesis by simp
qed (use px_handle_effect [OF assms(2), of ev] in auto)

text \<open>Proxiers that no event can tell apart: the layout of the tables may differ.\<close>

definition same_tables :: "Proxier \<Rightarrow> Proxier \<Rightarrow> bool" where
  "same_tables p q \<longleftrightarrow> routes_of p = routes_of q \<and> vips p = vips q \<and>
     pending_haproxy p = pending_haproxy q \<and> pending_keepalived p = pending_keepalived q"

definition alike :: "Proxier \<Rightarrow> Proxier \<Rightarrow> bool" where
  "alike p q \<longleftrightarrow> px_ready p \<and> px_ready q \<and> active p = active q \<and> same_tables p q"

lemma alike_step: "alike p q \<Longrightarrow> event_effect p ev p' \<Longrightarrow> event_effect q ev q' \<Longrightarrow> alike p' q'"
  by (cases ev) (auto simp: alike_def same_tables_def effect_def same_frame_def active_def)

lemma any_run_alike:
  "any_run p evs r \<Longrightarrow> alike p q \<Longrightarrow>
     \<exists>p' q'. r = Some (p', Ok ()) \<and> handle_all px_handle q evs = Some (q', Ok ()) \<and> alike p' q'"
proof (induction arbitrary: q rule: any_run.induct)
  case (run_done p)
  then show ?case by simp
next
  case (run_next p ev p1 evs r)
  then have p: "px_ready p" "px_ready q" by (simp_all add: alike_def)
  from any_order_effect [OF run_next.hyps(1) p(1)] have "event_effect p ev p1" by simp
  moreover from px_handle_effect [OF p(2), of ev] obtain q1 where "px_handle q ev = Some (q1, Ok ())" "event_effect q ev q1" by blast
  ultimately show ?case using run_next.IH [of q1] alike_step [OF run_next.prems] by simp
next
  case (run_stop p ev r evs)
  then show ?case using any_order_effect [OF run_stop.hyps(1)] by (auto simp: alike_def)
qed

section \<open>Properties\<close>

text \<open>C35: the order in which Go visits its maps does not matter. Let every loop over a map in the handlers of the proxier, over
  the route table, the ports of endpoints and the names of their ports, visit the entries in any order, chosen anew for each
  event. From a ready proxier every such run handles all events without blocking, failing or panicking, and ends with the
  same routes, the same virtual addresses and the same queued commits.\<close>

theorem map_order_irrelevant:
  assumes "px_ready p" "any_run p evs r"
  shows "\<exists>p' q. r = Some (p', Ok ()) \<and> handle_all px_handle p evs = Some (q, Ok ()) \<and>
    routes_of p' = routes_of q \<and> vips p' = vips q \<and>
    pending_haproxy p' = pending_haproxy q \<and> pending_keepalived p' = pending_keepalived q"
  using any_run_alike [OF assms(2), of p] assms(1) by (auto simp: alike_def same_tables_def)

text \<open>Endpoints with two ports, visited in the other order, on a proxier with two routes that are visited in the other order.\<close>

definition two_ports :: APIEndpoints where
  "two_ports = \<lparr>eps_Namespace = ''a'', eps_Name = ''b'', eps_Subsets =
     [\<lparr>ss_Addresses = [''172.16.0.1''], ss_NotReadyAddresses = [],
       ss_Ports = [\<lparr>ep_Name = ''y'', ep_Port = 1\<rparr>, \<lparr>ep_Name = ''z'', ep_Port = 2\<rparr>]\<rparr>]\<rparr>"

lemma commitHaproxy_routes: "px_routeTable (commitHaproxy p) = px_routeTable p"
  by (simp add: commitHaproxy_def)

lemmas order_eval =
  two_ports_def demo_proxier_def putEndpoints_def findServiceUnit_def createServiceUnit_def ServicePortName_String_def
  commitHaproxy_routes gm_set_def gm_get_def Let_def

theorem map_order_irrelevant_witness:
  "let p = demo_routes [''a:b:w'', ''a:b:x'']; names = [''a:b:x'', ''a:b:w''];
       m = [(''z'', [\<lparr>e_IP = ''172.16.0.1'', e_Port = 2\<rparr>]), (''y'', [\<lparr>e_IP = ''172.16.0.1'', e_Port = 1\<rparr>])]
   in \<exists>p' q. any_run p [EpsEvent Modified two_ports] (handleEndpointsUpdate_by names m p two_ports) \<and>
        handleEndpointsUpdate_by names m p two_ports = Some (p', Ok ()) \<and>
        handle_all px_handle p [EpsEvent Modified two_ports] = Some (q, Ok ()) \<and>
        gm_keys (px_routeTable p') \<noteq> gm_keys (px_routeTable q) \<and> routes_of p' = routes_of q"
proof -
  let ?p = "demo_routes [''a:b:w'', ''a:b:x'']" and ?names = "[''a:b:x'', ''a:b:w'']"
  let ?m = "[(''z'', [\<lparr>e_IP = ''172.16.0.1'', e_Port = 2\<rparr>]), (''y'', [\<lparr>e_IP = ''172.16.0.1'', e_Port = 1\<rparr>])]"
  have ready: "px_ready ?p" by (rule demo_routes_ready) simp_all
  have m: "explode_subsets (eps_Subsets two_ports) [] = rev ?m"
    by (simp add: two_ports_def gm_set_def gm_get_def)
  have ord: "any_order ?p (EpsEvent Modified two_ports) (handleEndpointsUpdate_by ?names ?m ?p two_ports)"
    by (rule endpoints_update) (simp_all add: m)
  from any_order_effect [OF ord ready] obtain p' where p': "handleEndpointsUpdate_by ?names ?m ?p two_ports = Some (p', Ok ())" by blast
  have run: "any_run ?p [EpsEvent Modified two_ports] (Some (p', Ok ()))"
    using run_next [OF ord [unfolded p'] run_done] .
  from map_order_irrelevant [OF ready run] obtain q where q: "handle_all px_handle ?p [EpsEvent Modified two_ports] = Some (q, Ok ())"
    "routes_of p' = routes_of q" by (auto simp del: handle_all.simps)
  have "gm_keys (px_routeTable p') = [''a:b:w'', ''a:b:x'', ''a:b:z'', ''a:b:y'']"
    using p' by (auto simp: handleEndpointsUpdate_by_def order_eval)
  moreover have "gm_keys (px_routeTable q) = [''a:b:w'', ''a:b:x'', ''a:b:y'', ''a:b:z'']"
    using q(1) by (auto simp: HandleEndpoints_def handleEndpointsUpdate_def getServicePorts_def order_eval)
  ultimately show ?thesis using p' q run by (auto simp: Let_def simp del: handle_all.simps)
qed

end
