(* ===== verification/Commit.thy ===== *)
theory Commit
  imports Routing
begin

text \<open>
  The commits of \<open>proxy/template/proxier.go\<close>: rendering a table under the lock, handing the bytes to
  the instance, and the transition to MASTER.

  The environment of a commit is the record \<open>host\<close> (operating system, netlink library and template
  engines) and the state of the kernel's device. A result \<open>None\<close> means that the goroutine blocks on
  \<open>proxier.lock\<close>. \<open>SetMaster\<close> takes two functions for what the other goroutines and the kernel do
  while it sleeps, and between its second commit and the moment it raises the flag.
\<close>

section \<open>Rendering and reloading\<close>

record 'k host =
  h_os :: os_env
  h_netlink :: "'k netlink"
  h_vip_engine :: "(string, bool) gomap engine"
  h_route_engine :: "TemplateData engine"

definition commitAndReloadKeepalived ::
  "'k host \<Rightarrow> Proxier \<Rightarrow> machine \<Rightarrow> (Proxier \<times> machine \<times> unit outcome) option" where
  "commitAndReloadKeepalived H p m =
     (case ReadFile (h_os H) m (TemplatePath (pc_KeepalivedConfig (px_config p))) of
        Inl err \<Rightarrow> Some (p, m, Fail err)
      | Inr templateContent \<Rightarrow>
          if px_lock p then None
          else (case RenderTemplate (h_vip_engine H) ''keepalived_tpl'' templateContent (px_vipTable p) of
                  Ok cfgBytes \<Rightarrow>
                    (let (m1, out) = keepalived_Reload (h_os H) m (px_keepalivedInstance p) cfgBytes
                     in Some (p, m1, out))
                | Fail err \<Rightarrow> Some (p, m, Fail err)
                | Panic msg \<Rightarrow> Some (p\<lparr>px_lock := True\<rparr>, m, Panic msg)
                | Exit msg \<Rightarrow> Some (p\<lparr>px_lock := True\<rparr>, m, Exit msg)))"

definition commitAndReloadHaproxy ::
  "'k host \<Rightarrow> 'k \<Rightarrow> Proxier \<Rightarrow> machine \<Rightarrow> (Proxier \<times> machine \<times> unit outcome) option" where
  "commitAndReloadHaproxy H k p m =
     (case ReadFile (h_os H) m (TemplatePath (pc_HaproxyConfig (px_config p))) of
        Inl err \<Rightarrow> Some (p, m, Fail err)
      | Inr templateContent \<Rightarrow>
          (case GetAddrs (h_netlink H) k (px_ip p) of
             Inl err \<Rightarrow> Some (p, m, Fail err)
           | Inr ips \<Rightarrow>
               if px_lock p then None
               else (let templateData = \<lparr>td_IPs = ips, td_RouteTable = px_routeTable p\<rparr> in
                     case RenderTemplateWithFuncs (h_route_engine H) ''haproxy_tpl'' templateContent templateData of
                       Ok cfgBytes \<Rightarrow>
                         (let (m1, out) = haproxy_Reload (h_os H) m (px_haproxyInstance p) cfgBytes
                          in Some (p, m1, out))
                     | Fail err \<Rightarrow> Some (p, m, Fail err)
                     | Panic msg \<Rightarrow> Some (p\<lparr>px_lock := True\<rparr>, m, Panic msg)
                     | Exit msg \<Rightarrow> Some (p\<lparr>px_lock := True\<rparr>, m, Exit msg))))"

text \<open>The errors of the two commits are dropped; a panic or the end of the process goes up.\<close>

definition goes_on :: "unit outcome \<Rightarrow> bool" where
  "goes_on out \<longleftrightarrow> (case out of Ok _ \<Rightarrow> True | Fail _ \<Rightarrow> True | _ \<Rightarrow> False)"

definition SetMaster ::
  "'k host \<Rightarrow> (Proxier \<times> machine \<times> 'k \<Rightarrow> Proxier \<times> machine \<times> 'k) \<Rightarrow> (Proxier \<Rightarrow> Proxier)
     \<Rightarrow> Proxier \<Rightarrow> machine \<Rightarrow> 'k \<Rightarrow> bool \<Rightarrow> (Proxier \<times> machine \<times> unit outcome) option" where
  "SetMaster H asleep beforeSet p m k master =
     (if master
      then (case commitAndReloadKeepalived H p m of
              None \<Rightarrow> None
            | Some (p1, m1, out1) \<Rightarrow>
                if \<not> goes_on out1 then Some (p1, m1, out1)
                else (let (p2, m2, k2) = asleep (p1, m1, k) in
                      case commitAndReloadHaproxy H k2 p2 m2 of
                        None \<Rightarrow> None
                      | Some (p3, m3, out3) \<Rightarrow>
                          if \<not> goes_on out3 then Some (p3, m3, out3)
                          else (let p4 = beforeSet p3 in
                                Some (p4\<lparr>px_master := ab_Set (px_master p4)\<rparr>, m3, Ok ()))))
      else Some (p\<lparr>px_master := ab_UnSet (px_master p)\<rparr>, m, Ok ()))"

section \<open>What a commit does\<close>

definition route_text :: "'k host \<Rightarrow> 'k \<Rightarrow> Proxier \<Rightarrow> string \<Rightarrow> string outcome" where
  "route_text H k p content =
     (case GetAddrs (h_netlink H) k (px_ip p) of
        Inl err \<Rightarrow> Fail err
      | Inr ips \<Rightarrow> RenderTemplateWithFuncs (h_route_engine H) ''haproxy_tpl'' content
                    \<lparr>td_IPs = ips, td_RouteTable = px_routeTable p\<rparr>)"

definition vip_text :: "'k host \<Rightarrow> Proxier \<Rightarrow> string \<Rightarrow> string outcome" where
  "vip_text H p content = RenderTemplate (h_vip_engine H) ''keepalived_tpl'' content (px_vipTable p)"

lemma commitAndReloadHaproxy_text:
  assumes "ReadFile (h_os H) m (TemplatePath (pc_HaproxyConfig (px_config p))) = Inr content" and "\<not> px_lock p"
  shows "commitAndReloadHaproxy H k p m =
    (case route_text H k p content of
       Ok bs \<Rightarrow> Some (p, haproxy_Reload (h_os H) m (px_haproxyInstance p) bs)
     | Fail err \<Rightarrow> Some (p, m, Fail err)
     | Panic msg \<Rightarrow> Some (p\<lparr>px_lock := True\<rparr>, m, Panic msg)
     | Exit msg \<Rightarrow> Some (p\<lparr>px_lock := True\<rparr>, m, Exit msg))"
  using assms
  by (auto simp: commitAndReloadHaproxy_def route_text_def Let_def split: sum.splits outcome.splits prod.splits)

lemma commitAndReloadKeepalived_text:
  assumes "ReadFile (h_os H) m (TemplatePath (pc_KeepalivedConfig (px_config p))) = Inr content" and "\<not> px_lock p"
  shows "commitAndReloadKeepalived H p m =
    (case vip_text H p content of
       Ok bs \<Rightarrow> Some (p, keepalived_Reload (h_os H) m (px_keepalivedInstance p) bs)
     | Fail err \<Rightarrow> Some (p, m, Fail err)
     | Panic msg \<Rightarrow> Some (p\<lparr>px_lock := True\<rparr>, m, Panic msg)
     | Exit msg \<Rightarrow> Some (p\<lparr>px_lock := True\<rparr>, m, Exit msg))"
  using assms
  by (auto simp: commitAndReloadKeepalived_def vip_text_def split: outcome.splits prod.splits)

text \<open>Whatever happens, a commit changes no table, queue or flag; only the lock can stay taken.\<close>

lemma commitAndReloadHaproxy_proxier:
  "commitAndReloadHaproxy H k p m = Some (p', m', out) \<Longrightarrow> p' = p \<or> p' = p\<lparr>px_lock := True\<rparr> \<and> \<not> goes_on out"
  by (auto simp: commitAndReloadHaproxy_def goes_on_def Let_def
      split: sum.splits outcome.splits prod.splits if_splits)

lemma commitAndReloadKeepalived_proxier:
  "commitAndReloadKeepalived H p m = Some (p', m', out) \<Longrightarrow> p' = p \<or> p' = p\<lparr>px_lock := True\<rparr> \<and> \<not> goes_on out"
  by (auto simp: commitAndReloadKeepalived_def goes_on_def
      split: sum.splits outcome.splits prod.splits if_splits)

lemma commit_runs:
  assumes "\<not> px_lock p"
  shows "\<exists>r. commitAndReloadHaproxy H k p m = Some r" and "\<exists>r. commitAndReloadKeepalived H p m = Some r"
  using assms
  by (auto simp: commitAndReloadHaproxy_def commitAndReloadKeepalived_def Let_def
      split: sum.splits outcome.splits prod.splits)

section \<open>A concrete host\<close>

definition demo_host :: "Addr list host" where
  "demo_host = \<lparr>h_os = friendly_env,
     h_netlink = \<lparr>LinkByName = (\<lambda>_ _. Inr \<lparr>lk_Name = ''eth0'', lk_Flags = 1\<rparr>), AddrList = (\<lambda>k _. Inr k),
       AddrAdd = (\<lambda>k _ a. (a # k, None)), AddrDel = (\<lambda>k _ a. (removeAll a k, None))\<rparr>,
     h_vip_engine = \<lparr>en_parses = (\<lambda>_ c. c \<noteq> ''{{''), en_execute = (\<lambda>_ c d. Inr (c @ concat (map fst d)))\<rparr>,
     h_route_engine = \<lparr>en_parses = (\<lambda>_ c. c \<noteq> ''{{''),
       en_execute = (\<lambda>_ c d. Inr (c @ concat (map fst (td_RouteTable d))))\<rparr>\<rparr>"

definition demo_machine :: "string \<Rightarrow> machine" where
  "demo_machine tpl = \<lparr>files = [''c'' \<mapsto> '''', ''t'' \<mapsto> tpl], scripts_run = []\<rparr>"

definition demo_backup :: Proxier where
  "demo_backup = demo_proxier\<lparr>px_master := ab_New\<rparr>"

lemmas demo_defs = demo_host_def demo_machine_def demo_backup_def demo_proxier_def

lemmas commit_eval =
  commitAndReloadHaproxy_def commitAndReloadKeepalived_def RenderTemplate_def RenderTemplateWithFuncs_def
  GetAddrs_def haproxy_Reload_def keepalived_Reload_def WriteConfig_def createConfigBackup_def file_ops Let_def

lemma demo_keepalived:
  "\<exists>m1. commitAndReloadKeepalived demo_host demo_backup (demo_machine tpl) = Some (demo_backup, m1, Ok ()) \<and>
     files m1 ''c'' = Some tpl \<and> files m1 ''t'' = Some tpl" if "tpl \<noteq> ''{{''"
  using that by (simp add: demo_defs commit_eval)

lemma demo_backup_ready: "px_ready demo_backup" "\<not> pending_haproxy demo_backup" "\<not> ab_IsSet (px_master demo_backup)"
  using demo_ready by (simp_all add: demo_backup_def px_ready_defs)
    (simp add: demo_proxier_def NewRateLimitedFunction_def ff_slot_new)

section \<open>Properties\<close>

text \<open>C16: a HAProxy commit that reports success has installed the current template rendered with the
  current route table and the addresses bound at that moment, and run the reload script once. A
  commit that does not report success leaves the old configuration or a complete new one. The
  proxier's tables, queues and flags are never changed by a commit.\<close>

theorem haproxy_commit_sound:
  assumes "commitAndReloadHaproxy H k p m = Some (p', m', out)"
  shows "(out = Ok () \<longrightarrow> p' = p \<and>
      (\<exists>content bs. ReadFile (h_os H) m (TemplatePath (pc_HaproxyConfig (px_config p))) = Inr content \<and>
        route_text H k p content = Ok bs \<and>
        files m' (configFilePath (in_configurer (px_haproxyInstance p))) = Some bs \<and>
        scripts_run m' = ReloadScriptPath (in_config (px_haproxyInstance p)) # scripts_run m)) \<and>
    (out \<noteq> Ok () \<longrightarrow>
      files m' (configFilePath (in_configurer (px_haproxyInstance p))) =
        files m (configFilePath (in_configurer (px_haproxyInstance p))) \<or>
      (\<exists>content bs. route_text H k p content = Ok bs \<and>
        files m' (configFilePath (in_configurer (px_haproxyInstance p))) = Some bs)) \<and>
    routes_of p' = routes_of p \<and> vips p' = vips p \<and> same_frame p p' \<and>
    pending_haproxy p' = pending_haproxy p \<and> pending_keepalived p' = pending_keepalived p"
proof (cases "ReadFile (h_os H) m (TemplatePath (pc_HaproxyConfig (px_config p)))")
  case (Inl err)
  with assms show ?thesis by (auto simp: commitAndReloadHaproxy_def px_ready_defs)
next
  case (Inr content)
  have frame: "routes_of p' = routes_of p \<and> vips p' = vips p \<and> same_frame p p' \<and>
      pending_haproxy p' = pending_haproxy p \<and> pending_keepalived p' = pending_keepalived p"
    using commitAndReloadHaproxy_proxier [OF assms] by (auto simp: px_ready_defs)
  show ?thesis
  proof (cases "px_lock p")
    case True
    with assms Inr have "m' = m \<and> out \<noteq> Ok ()" by (auto simp: commitAndReloadHaproxy_def split: sum.splits)
    with frame show ?thesis by simp
  next
    case False
    note eq = commitAndReloadHaproxy_text [OF Inr False, of k]
    show ?thesis
    proof (cases "route_text H k p content")
      case (Ok bs)
      with eq assms have "p' = p" "(m', out) = haproxy_Reload (h_os H) m (px_haproxyInstance p) bs" by auto
      with Ok Inr frame hp.reload_installs [of "h_os H" m "px_haproxyInstance p" bs]
        hp.reload_cfg [of "h_os H" m "px_haproxyInstance p" bs]
      show ?thesis by (cases "haproxy_Reload (h_os H) m (px_haproxyInstance p) bs") auto
    qed (use eq assms frame in auto)
  qed
qed

theorem haproxy_commit_sound_witness:
  "\<exists>m'. commitAndReloadHaproxy demo_host [] (demo_routes [''a:b:x'']) (demo_machine ''tpl '') =
      Some (demo_routes [''a:b:x''], m', Ok ()) \<and> files m' ''c'' = Some ''tpl a:b:x'' \<and> scripts_run m' = [''r'']"
proof -
  let ?p = "demo_routes [''a:b:x'']"
  obtain m' where m': "commitAndReloadHaproxy demo_host [] ?p (demo_machine ''tpl '') = Some (?p, m', Ok ())"
    by (simp add: demo_defs commit_eval)
  from haproxy_commit_sound [OF this] m' show ?thesis
    by (auto simp: demo_defs route_text_def GetAddrs_def RenderTemplateWithFuncs_def Let_def ReadFile_def)
qed

text \<open>Hypotheses under which the operating system lets a commit through.\<close>

definition lets_through :: "os_env \<Rightarrow> machine \<Rightarrow> Instance \<Rightarrow> bool" where
  "lets_through E m i \<longleftrightarrow> files m (configFilePath (in_configurer i)) \<noteq> None \<and>
     os_can_open E (configFilePath (in_configurer i)) \<and>
     os_write E (backup_path (in_configurer i)) = WriteOk \<and> os_write E (tmp_path (in_configurer i)) = WriteOk \<and>
     os_can_rename E (tmp_path (in_configurer i)) (configFilePath (in_configurer i)) \<and>
     os_script E (ReloadScriptPath (in_config i)) = None"

lemma haproxy_lets_through: "lets_through E m i \<Longrightarrow> snd (haproxy_Reload E m i bs) = Ok ()"
  using WriteConfig_succeeds [of m "in_configurer i" E bs] by (auto simp: lets_through_def hp.reload_ok)

lemma haproxy_commit_ok:
  assumes "lets_through (h_os H) m (px_haproxyInstance p)" "\<not> px_lock p"
    "ReadFile (h_os H) m (TemplatePath (pc_HaproxyConfig (px_config p))) = Inr content" "route_text H k p content = Ok bs"
  shows "\<exists>m'. commitAndReloadHaproxy H k p m = Some (p, m', Ok ()) \<and>
    files m' (configFilePath (in_configurer (px_haproxyInstance p))) = Some bs"
  using commitAndReloadHaproxy_text [OF assms(3,2), of k] assms(4) haproxy_lets_through [OF assms(1), of bs]
    hp.reload_installs [of "h_os H" m "px_haproxyInstance p" bs]
  by (cases "haproxy_Reload (h_os H) m (px_haproxyInstance p) bs") auto

lemma SetMaster_stages:
  assumes "commitAndReloadKeepalived H p m = Some (p, m1, out1)" "goes_on out1" "asleep (p, m1, k) = (p2, m2, k2)"
    "commitAndReloadHaproxy H k2 p2 m2 = Some (p2, m3, Ok ())"
  shows "SetMaster H asleep beforeSet p m k True =
    Some ((beforeSet p2)\<lparr>px_master := ab_Set (px_master (beforeSet p2))\<rparr>, m3, Ok ())"
  using assms by (simp add: SetMaster_def goes_on_def Let_def)

text \<open>C20: becoming MASTER. Let the Keepalived commit return, successful or not, let the other goroutines do to
  the proxier whatever they like during the sleep except hold the lock, let the HAProxy commit after it go through
  (template and addresses readable, files written, script run), and let nothing happen between this commit and the
  raising of the flag. Then the proxier is MASTER and HAProxy runs the configuration of the route table it then has,
  with the addresses that are bound after the sleep.\<close>

theorem becoming_master_in_sync:
  assumes "commitAndReloadKeepalived H p m = Some (p, m1, out1)" "goes_on out1" "asleep (p, m1, k) = (p2, m2, k2)"
    and "\<not> px_lock p2" "lets_through (h_os H) m2 (px_haproxyInstance p2)"
    and "ReadFile (h_os H) m2 (TemplatePath (pc_HaproxyConfig (px_config p2))) = Inr content"
    and "route_text H k2 p2 content = Ok bs"
  shows "\<exists>p' m'. SetMaster H asleep id p m k True = Some (p', m', Ok ()) \<and> ab_IsSet (px_master p') \<and>
    px_routeTable p' = px_routeTable p2 \<and> route_text H k2 p' content = Ok bs \<and>
    files m' (configFilePath (in_configurer (px_haproxyInstance p2))) = Some bs"
proof -
  from haproxy_commit_ok [OF assms(5,4,6,7)] obtain m' where
    "commitAndReloadHaproxy H k2 p2 m2 = Some (p2, m', Ok ())"
    "files m' (configFilePath (in_configurer (px_haproxyInstance p2))) = Some bs" by blast
  with SetMaster_stages [where asleep = asleep and beforeSet = id, OF assms(1-3)] assms(7) show ?thesis
    by (simp add: route_text_def split: sum.splits)
qed

lemma demo_promotion:
  assumes "files m1 ''c'' = Some tpl" "files m1 ''t'' = Some tpl" "tpl \<noteq> ''{{''"
  shows "lets_through (h_os demo_host) m1 (px_haproxyInstance demo_backup)"
    "ReadFile (h_os demo_host) m1 (TemplatePath (pc_HaproxyConfig (px_config demo_backup))) = Inr tpl"
    "route_text demo_host [] demo_backup tpl = Ok tpl"
  using assms by (simp_all add: lets_through_def demo_defs ReadFile_def route_text_def GetAddrs_def
      RenderTemplateWithFuncs_def Let_def)

theorem becoming_master_in_sync_witness:
  "\<exists>p' m'. SetMaster demo_host (\<lambda>w. w) id demo_backup (demo_machine ''tpl'') [] True = Some (p', m', Ok ()) \<and>
    ab_IsSet (px_master p') \<and> files m' ''c'' = Some ''tpl''"
proof -
  from demo_keepalived [of "''tpl''"] obtain m1 where
    m1: "commitAndReloadKeepalived demo_host demo_backup (demo_machine ''tpl'') = Some (demo_backup, m1, Ok ())"
      "files m1 ''c'' = Some ''tpl''" "files m1 ''t'' = Some ''tpl''" by auto
  note d = demo_promotion [OF m1(2,3)]
  have "\<not> px_lock demo_backup" "goes_on (Ok ())" by (simp_all add: demo_defs goes_on_def)
  with becoming_master_in_sync [where asleep = "\<lambda>w. w", OF m1(1) this(2) refl this(1) d] show ?thesis
    by (auto simp: demo_defs)
qed

text \<open>C39: a commit lost during promotion. Let a proxier that is not MASTER and has no HAProxy commit pending
  after the sleep be promoted, with a second commit that goes through. An event handled between that commit and the
  raising of the flag changes the route table, but as the proxier is not MASTER yet no commit is queued: when
  \<open>SetMaster\<close> returns, the proxier is MASTER, nothing is pending, and HAProxy runs the configuration of
  the table before the event, until another event asks for a commit.\<close>

theorem promotion_loses_commit:
  assumes "commitAndReloadKeepalived H p m = Some (p, m1, out1)" "goes_on out1" "asleep (p, m1, k) = (p2, m2, k2)"
    and "px_ready p2" "\<not> ab_IsSet (px_master p2)" "\<not> pending_haproxy p2"
    and "lets_through (h_os H) m2 (px_haproxyInstance p2)"
    and "ReadFile (h_os H) m2 (TemplatePath (pc_HaproxyConfig (px_config p2))) = Inr content"
    and "route_text H k2 p2 content = Ok bs"
  shows "\<exists>p' m'. SetMaster H asleep (\<lambda>q. fst (the (px_handle q ev))) p m k True = Some (p', m', Ok ()) \<and>
    ab_IsSet (px_master p') \<and> routes_of p' = spec_event ev (routes_of p2) \<and> \<not> pending_haproxy p' \<and>
    files m' (configFilePath (in_configurer (px_haproxyInstance p2))) = Some bs"
proof -
  have unlocked: "\<not> px_lock p2" using assms(4) by (simp add: px_ready_def)
  from haproxy_commit_ok [OF assms(7) unlocked assms(8,9)] obtain m' where m':
    "commitAndReloadHaproxy H k2 p2 m2 = Some (p2, m', Ok ())"
    "files m' (configFilePath (in_configurer (px_haproxyInstance p2))) = Some bs" by blast
  obtain q r V kc hc where q: "px_handle p2 ev = Some (q, Ok ())" "effect p2 r V kc hc q" "r = spec_event ev (routes_of p2)"
    using HandleService_effect [OF assms(4)] HandleEndpoints_effect [OF assms(4)] by (cases ev) fastforce+
  with SetMaster_stages [where asleep = asleep and beforeSet = "\<lambda>q. fst (the (px_handle q ev))", OF assms(1-3) m'(1)] assms(5,6) m'(2) show ?thesis
    by (simp add: effect_def px_ready_defs)
qed

theorem promotion_loses_commit_witness:
  "\<exists>p' m'. SetMaster demo_host (\<lambda>w. w) (\<lambda>q. fst (the (px_handle q (SvcEvent Added demo_service))))
      demo_backup (demo_machine ''tpl'') [] True = Some (p', m', Ok ()) \<and>
    ab_IsSet (px_master p') \<and> routes_of p' ''default:web:http'' \<noteq> None \<and> \<not> pending_haproxy p' \<and>
    files m' ''c'' = Some ''tpl''"
proof -
  from demo_keepalived [of "''tpl''"] obtain m1 where
    m1: "commitAndReloadKeepalived demo_host demo_backup (demo_machine ''tpl'') = Some (demo_backup, m1, Ok ())"
      "files m1 ''c'' = Some ''tpl''" "files m1 ''t'' = Some ''tpl''" by auto
  note d = demo_promotion [OF m1(2,3)]
  have on: "goes_on (Ok ())" by (simp add: goes_on_def)
  have "spec_event (SvcEvent Added demo_service) r ''default:web:http'' \<noteq> None" for r
    by (simp add: demo_service_def IsServiceIPSet_def put_infos_def wanted_info_def tcp_ports_def ProtocolUDP_def
        ServicePortName_String_def set_info_def)
  with promotion_loses_commit [where asleep = "\<lambda>w. w" and ev = "SvcEvent Added demo_service",
      OF m1(1) on refl demo_backup_ready(1,3,2) d]
  show ?thesis by (auto simp: demo_defs)
qed




end
