(* ===== verification/Controller.thy ===== *)
theory Controller
  imports EventQueueSync Commit
begin

text \<open>
  \<open>proxy/controller/controller.go\<close>: two goroutines that pop an event and hand it to the proxier, and
  one that turns signals into MASTER transitions.

  \<open>HandleService\<close> and \<open>HandleEndpoints\<close> are two critical sections each: the \<open>Pop\<close> of the event queue, and
  the part under \<open>c.lock\<close>. The whole functions are \<open>ct_HandleService\<close> and \<open>ct_HandleEndpoints\<close>; the system
  \<open>ctl_step\<close> interleaves the sections of the two goroutines, with the event a goroutine has popped but not
  handled yet kept in its hand. As a section is one step, \<open>c.lock\<close> itself is not part of the state.
\<close>

section \<open>State\<close>

definition ServiceKey :: "APIService KeyFunc" where
  "ServiceKey s = MetaNamespaceKeyFunc (ObjectMeta (svc_Namespace s) (svc_Name s))"

definition EndpointsKey :: "APIEndpoints KeyFunc" where
  "EndpointsKey e = MetaNamespaceKeyFunc (ObjectMeta (eps_Namespace e) (eps_Name e))"

text \<open>The function fields of the Go struct are closures over the two queues.\<close>

record ProxyController =
  ct_Proxier :: Proxier
  ct_services :: "(APIService cache, APIService) EventQueue"
  ct_endpoints :: "(APIEndpoints cache, APIEndpoints) EventQueue"
  ct_serviceListConsumed :: bool
  ct_endpointsListConsumed :: bool

definition controller_New :: "Proxier \<Rightarrow> ProxyController" where
  "controller_New proxier =
     \<lparr>ct_Proxier = proxier, ct_services = NewEventQueue ServiceKey, ct_endpoints = NewEventQueue EndpointsKey,
      ct_serviceListConsumed = False, ct_endpointsListConsumed = False\<rparr>"

definition NextService :: "ProxyController \<Rightarrow> (ProxyController \<times> (EventType \<times> APIService) outcome) option" where
  "NextService c =
     map_option (\<lambda>(q, out). (c\<lparr>ct_services := q\<rparr>, out)) (eq_Pop (cache_store ServiceKey) [ct_services c])"

definition NextEndpoints :: "ProxyController \<Rightarrow> (ProxyController \<times> (EventType \<times> APIEndpoints) outcome) option" where
  "NextEndpoints c =
     map_option (\<lambda>(q, out). (c\<lparr>ct_endpoints := q\<rparr>, out)) (eq_Pop (cache_store EndpointsKey) [ct_endpoints c])"

definition updateLastSyncProcessed :: "ProxyController \<Rightarrow> ProxyController" where
  "updateLastSyncProcessed c =
     (let lastSyncProcessed = ct_endpointsListConsumed c \<and> ct_serviceListConsumed c
      in c\<lparr>ct_Proxier := SetSkipCommit (ct_Proxier c) (\<not> lastSyncProcessed)\<rparr>)"

section \<open>Handlers\<close>

definition service_section ::
  "ProxyController \<Rightarrow> EventType \<Rightarrow> APIService \<Rightarrow> (ProxyController \<times> unit outcome) option" where
  "service_section c eventType service =
     (let c1 = updateLastSyncProcessed (c\<lparr>ct_serviceListConsumed := eq_ListConsumed (ct_services c)\<rparr>)
      in case HandleService (ct_Proxier c1) eventType service of
           None \<Rightarrow> None
         | Some (p, Fail err) \<Rightarrow> Some (c1\<lparr>ct_Proxier := p\<rparr>, Ok ())
         | Some (p, out) \<Rightarrow> Some (c1\<lparr>ct_Proxier := p\<rparr>, out))"

definition ct_HandleService :: "ProxyController \<Rightarrow> (ProxyController \<times> unit outcome) option" where
  "ct_HandleService c =
     (case NextService c of
        None \<Rightarrow> None
      | Some (c1, Ok (eventType, service)) \<Rightarrow> service_section c1 eventType service
      | Some (c1, Fail err) \<Rightarrow> Some (c1, Ok ())
      | Some (c1, Panic msg) \<Rightarrow> Some (c1, Panic msg)
      | Some (c1, Exit msg) \<Rightarrow> Some (c1, Exit msg))"

definition endpoints_section ::
  "ProxyController \<Rightarrow> EventType \<Rightarrow> APIEndpoints \<Rightarrow> (ProxyController \<times> unit outcome) option" where
  "endpoints_section c eventType endpoints =
     (let c1 = updateLastSyncProcessed (c\<lparr>ct_endpointsListConsumed := eq_ListConsumed (ct_endpoints c)\<rparr>)
      in case HandleEndpoints (ct_Proxier c1) eventType endpoints of
           None \<Rightarrow> None
         | Some (p, Fail err) \<Rightarrow> Some (c1\<lparr>ct_Proxier := p\<rparr>, Ok ())
         | Some (p, out) \<Rightarrow> Some (c1\<lparr>ct_Proxier := p\<rparr>, out))"

definition ct_HandleEndpoints :: "ProxyController \<Rightarrow> (ProxyController \<times> unit outcome) option" where
  "ct_HandleEndpoints c =
     (case NextEndpoints c of
        None \<Rightarrow> None
      | Some (c1, Ok (eventType, endpoints)) \<Rightarrow> endpoints_section c1 eventType endpoints
      | Some (c1, Fail err) \<Rightarrow> Some (c1, Ok ())
      | Some (c1, Panic msg) \<Rightarrow> Some (c1, Panic msg)
      | Some (c1, Exit msg) \<Rightarrow> Some (c1, Exit msg))"

text \<open>One round of the signal loop of \<open>Run\<close>.\<close>

datatype signal = SIGUSR1 | SIGUSR2

definition handle_signal ::
  "'k host \<Rightarrow> (Proxier \<times> machine \<times> 'k \<Rightarrow> Proxier \<times> machine \<times> 'k) \<Rightarrow> (Proxier \<Rightarrow> Proxier)
     \<Rightarrow> Proxier \<Rightarrow> machine \<Rightarrow> 'k \<Rightarrow> signal \<Rightarrow> (Proxier \<times> machine \<times> unit outcome) option" where
  "handle_signal H asleep beforeSet p m k sig =
     (if sig = SIGUSR1 then SetMaster H asleep beforeSet p m k True
      else SetMaster H asleep beforeSet p m k False)"

section \<open>The two goroutines interleaved\<close>

record ctl_sys =
  ctl :: ProxyController
  svc_hand :: "(EventType \<times> APIService) option"
  eps_hand :: "(EventType \<times> APIEndpoints) option"

datatype ctl_label = TakeService | PutService | TakeEndpoints | PutEndpoints

fun ctl_step :: "ctl_sys \<Rightarrow> ctl_label \<Rightarrow> ctl_sys option" where
  "ctl_step s TakeService =
     (case svc_hand s of
        Some _ \<Rightarrow> None
      | None \<Rightarrow>
          (case NextService (ctl s) of
             Some (c, Ok ev) \<Rightarrow> Some (s\<lparr>ctl := c, svc_hand := Some ev\<rparr>)
           | Some (c, _) \<Rightarrow> Some (s\<lparr>ctl := c\<rparr>)
           | None \<Rightarrow> None))"
| "ctl_step s PutService =
     (case svc_hand s of
        None \<Rightarrow> None
      | Some (t, service) \<Rightarrow>
          map_option (\<lambda>(c, _). s\<lparr>ctl := c, svc_hand := None\<rparr>) (service_section (ctl s) t service))"
| "ctl_step s TakeEndpoints =
     (case eps_hand s of
        Some _ \<Rightarrow> None
      | None \<Rightarrow>
          (case NextEndpoints (ctl s) of
             Some (c, Ok ev) \<Rightarrow> Some (s\<lparr>ctl := c, eps_hand := Some ev\<rparr>)
           | Some (c, _) \<Rightarrow> Some (s\<lparr>ctl := c\<rparr>)
           | None \<Rightarrow> None))"
| "ctl_step s PutEndpoints =
     (case eps_hand s of
        None \<Rightarrow> None
      | Some (t, endpoints) \<Rightarrow>
          map_option (\<lambda>(c, _). s\<lparr>ctl := c, eps_hand := None\<rparr>) (endpoints_section (ctl s) t endpoints))"

section \<open>The sections\<close>

lemma ready_skip: "px_ready p \<Longrightarrow> px_ready (SetSkipCommit p b)"
  by (simp add: SetSkipCommit_def px_ready_defs)

lemma SetSkipCommit_simps [simp]:
  "px_skipCommit (SetSkipCommit p b) = b" "routes_of (SetSkipCommit p b) = routes_of p"
  "vips (SetSkipCommit p b) = vips p" "px_master (SetSkipCommit p b) = px_master p"
  "pending_haproxy (SetSkipCommit p b) = pending_haproxy p"
  "pending_keepalived (SetSkipCommit p b) = pending_keepalived p"
  by (simp_all add: SetSkipCommit_def px_ready_defs)

lemma service_section_effect:
  assumes "px_ready (ct_Proxier c)"
  shows "\<exists>p'. service_section c t s = Some (c\<lparr>ct_serviceListConsumed := eq_ListConsumed (ct_services c), ct_Proxier := p'\<rparr>, Ok ()) \<and>
    effect (SetSkipCommit (ct_Proxier c) (\<not> (ct_endpointsListConsumed c \<and> eq_ListConsumed (ct_services c))))
      (spec_service t s (routes_of (ct_Proxier c))) (spec_vips t s (vips (ct_Proxier c)))
      (fst (service_commits t s (vips (ct_Proxier c)))) (snd (service_commits t s (vips (ct_Proxier c)))) p'"
  using HandleService_effect [OF ready_skip [OF assms], of _ t s]
  by (auto simp: service_section_def updateLastSyncProcessed_def Let_def
      dest!: meta_spec [of _ "\<not> (ct_endpointsListConsumed c \<and> eq_ListConsumed (ct_services c))"])

lemma endpoints_section_effect:
  assumes "px_ready (ct_Proxier c)"
  shows "\<exists>p'. endpoints_section c t e = Some (c\<lparr>ct_endpointsListConsumed := eq_ListConsumed (ct_endpoints c), ct_Proxier := p'\<rparr>, Ok ()) \<and>
    effect (SetSkipCommit (ct_Proxier c) (\<not> (eq_ListConsumed (ct_endpoints c) \<and> ct_serviceListConsumed c)))
      (spec_endpoints t e (routes_of (ct_Proxier c))) (vips (ct_Proxier c)) False (endpoints_commits t e) p'"
  using HandleEndpoints_effect [OF ready_skip [OF assms], of _ t e]
  by (auto simp: endpoints_section_def updateLastSyncProcessed_def Let_def
      dest!: meta_spec [of _ "\<not> (eq_ListConsumed (ct_endpoints c) \<and> ct_serviceListConsumed c)"])

section \<open>Properties\<close>

text \<open>C21: commits wait for the lists. When the controller hands a service event to a ready proxier, commits are
  skipped exactly if the service list is not consumed now or the endpoints list was not consumed at the last endpoints
  event. A HAProxy commit is queued afterwards exactly if it was before, or the proxier is MASTER, commits are not
  skipped, and the event is one that commits: an addition or change of a service with a cluster IP, or a
  deletion.\<close>

theorem service_commit_gated:
  assumes "px_ready (ct_Proxier c)"
  shows "\<exists>c'. service_section c t s = Some (c', Ok ()) \<and> px_ready (ct_Proxier c') \<and>
    ct_serviceListConsumed c' = eq_ListConsumed (ct_services c) \<and> ct_endpointsListConsumed c' = ct_endpointsListConsumed c \<and>
    px_skipCommit (ct_Proxier c') = (\<not> (ct_serviceListConsumed c' \<and> ct_endpointsListConsumed c')) \<and>
    routes_of (ct_Proxier c') = spec_service t s (routes_of (ct_Proxier c)) \<and>
    pending_haproxy (ct_Proxier c') = (pending_haproxy (ct_Proxier c) \<or>
      ab_IsSet (px_master (ct_Proxier c)) \<and> ct_serviceListConsumed c' \<and> ct_endpointsListConsumed c' \<and>
      snd (service_commits t s (vips (ct_Proxier c))))"
  using service_section_effect [OF assms, of t s] by (auto simp: effect_def same_frame_def active_def)

theorem service_commit_gated_witness:
  "\<exists>c'. service_section (controller_New demo_proxier) Added demo_service = Some (c', Ok ()) \<and>
    px_skipCommit (ct_Proxier c') \<and> routes_of (ct_Proxier c') ''default:web:http'' \<noteq> None"
proof -
  have "px_ready (ct_Proxier (controller_New demo_proxier))" using demo_ready by (simp add: controller_New_def)
  from service_commit_gated [OF this, of Added demo_service] show ?thesis
    by (auto simp: controller_New_def demo_service_def IsServiceIPSet_def put_infos_def wanted_info_def tcp_ports_def
        ProtocolUDP_def ServicePortName_String_def set_info_def)
qed

text \<open>Nothing is committed before both lists have been seen: as long as no endpoints event has been handled,
  the service goroutine may run for ever without a HAProxy or Keepalived commit being queued, even in MASTER
  state. A cluster without a single endpoints object is never served.\<close>

theorem no_commit_without_endpoints:
  assumes "px_ready (ct_Proxier c)" "\<not> ct_endpointsListConsumed c"
    and "\<not> pending_haproxy (ct_Proxier c)" "\<not> pending_keepalived (ct_Proxier c)"
    and "run_steps ctl_step \<lparr>ctl = c, svc_hand = hand, eps_hand = None\<rparr> ls = Some t" "set ls \<subseteq> {TakeService, PutService}"
  shows "\<not> pending_haproxy (ct_Proxier (ctl t)) \<and> \<not> pending_keepalived (ct_Proxier (ctl t))"
proof -
  let ?ok = "\<lambda>c. px_ready (ct_Proxier c) \<and> \<not> ct_endpointsListConsumed c \<and>
    \<not> pending_haproxy (ct_Proxier c) \<and> \<not> pending_keepalived (ct_Proxier c)"
  have take: "?ok (ctl u) \<Longrightarrow> ctl_step u TakeService = Some v \<Longrightarrow> ?ok (ctl v)" for u v
    by (auto simp: NextService_def split: option.splits outcome.splits if_splits prod.splits)
  have put: "?ok (ctl u) \<Longrightarrow> ctl_step u PutService = Some v \<Longrightarrow> ?ok (ctl v)" for u v
  proof -
    assume ok: "?ok (ctl u)" and v: "ctl_step u PutService = Some v"
    obtain e x where h: "svc_hand u = Some (e, x)" using v by (auto split: option.splits)
    from ok have "px_ready (ct_Proxier (ctl u))" by simp
    from service_section_effect [OF this, of e x] v h ok show "?ok (ctl v)"
      by (auto simp: effect_def active_def)
  qed
  have "?ok (ctl u) \<Longrightarrow> run_steps ctl_step u ls = Some t \<Longrightarrow> set ls \<subseteq> {TakeService, PutService} \<Longrightarrow> ?ok (ctl t)" for u
  proof (induction ls arbitrary: u)
    case Nil
    then show ?case by simp
  next
    case (Cons l ls)
    then obtain v where v: "ctl_step u l = Some v" "run_steps ctl_step v ls = Some t" by (auto split: option.splits)
    have "?ok (ctl v)" using take [OF Cons.prems(1)] put [OF Cons.prems(1)] v(1) Cons.prems(3) by auto
    with Cons.IH v(2) Cons.prems(3) show ?case by simp
  qed
  from this [of "\<lparr>ctl = c, svc_hand = hand, eps_hand = None\<rparr>"] assms show ?thesis by simp
qed

theorem no_commit_without_endpoints_witness:
  "\<exists>t. run_steps ctl_step \<lparr>ctl = controller_New demo_proxier, svc_hand = Some (Added, demo_service), eps_hand = None\<rparr>
      [PutService] = Some t \<and> ab_IsSet (px_master (ct_Proxier (controller_New demo_proxier))) \<and>
    \<not> pending_haproxy (ct_Proxier (ctl t)) \<and> \<not> pending_keepalived (ct_Proxier (ctl t))"
proof -
  let ?c = "controller_New demo_proxier"
  have p: "px_ready (ct_Proxier ?c)" "\<not> ct_endpointsListConsumed ?c" "\<not> pending_haproxy (ct_Proxier ?c)"
    "\<not> pending_keepalived (ct_Proxier ?c)" "ab_IsSet (px_master (ct_Proxier ?c))"
    using demo_ready by (simp_all add: controller_New_def)
      (simp_all add: demo_proxier_def pending_haproxy_def pending_keepalived_def NewRateLimitedFunction_def ff_slot_new)
  obtain t where t: "run_steps ctl_step \<lparr>ctl = ?c, svc_hand = Some (Added, demo_service), eps_hand = None\<rparr> [PutService] = Some t"
    using service_section_effect [OF p(1), of Added demo_service] by auto
  from no_commit_without_endpoints [OF p(1-4) t] t p(5) show ?thesis by auto
qed

end
