(* ===== verification/Resync.thy ===== *)
theory Resync
  imports Controller
begin

text \<open>
  A re-list of both resources, followed by the two goroutines of the controller working in any
  interleaving until both queues are empty. \<open>holds\<close> says what an event queue contains right after
  \<open>Replace\<close> and while the list is read; \<open>resync\<close> is the invariant that links the queues, the events in the goroutines' hands and the
  route table; \<open>todo\<close> is the measure that every step decreases.
\<close>

section \<open>A queue that holds a list\<close>

definition holds :: "'o KeyFunc \<Rightarrow> ('o cache, 'o) EventQueue \<Rightarrow> 'o list \<Rightarrow> bool" where
  "holds keyFn q objs \<longleftrightarrow> cache_invar (eq_store q) \<and>
     (\<exists>ks. obj_keys keyFn objs = Some ks \<and> distinct ks \<and> eq_queue q = ks) \<and>
     eq_lastReplaceKey q = (if eq_queue q = [] then '''' else last (eq_queue q)) \<and>
     (\<forall>obj \<in> set objs. \<forall>k. keyFn obj = Inr k \<longrightarrow> eq_events q k = Some Modified \<and> cache_abs (eq_store q) k = Some obj)"

lemma obj_keys_mem: "obj_keys keyFn objs = Some ks \<Longrightarrow> obj \<in> set objs \<Longrightarrow> \<exists>k \<in> set ks. keyFn obj = Inr k"
  by (induction objs arbitrary: ks) (auto split: sum.splits option.splits)

lemma obj_keys_Cons: "obj_keys keyFn (obj # objs) = Some ks \<longleftrightarrow>
    (\<exists>k ks'. keyFn obj = Inr k \<and> obj_keys keyFn objs = Some ks' \<and> ks = k # ks')"
  by (auto split: sum.splits option.splits)

lemma keyed_map_keeps:
  "obj_keys keyFn objs = Some ks \<Longrightarrow> k \<notin> set ks \<Longrightarrow> keyed_map keyFn m objs = Inr m' \<Longrightarrow> m' k = m k"
proof (induction objs arbitrary: ks m)
  case Nil
  then show ?case by simp
next
  case (Cons x xs)
  from Cons.prems(1) obtain k1 ks' where "keyFn x = Inr k1" "obj_keys keyFn xs = Some ks'" "ks = k1 # ks'"
    unfolding obj_keys_Cons by blast
  note x = this
  with Cons.prems(3) have m': "keyed_map keyFn (m(k1 \<mapsto> x)) xs = Inr m'" by simp
  from Cons.IH [OF x(2) _ m'] Cons.prems(2) x(3) show ?case by simp
qed

lemma keyed_map_lookup:
  "obj_keys keyFn objs = Some ks \<Longrightarrow> distinct ks \<Longrightarrow> keyed_map keyFn m objs = Inr m' \<Longrightarrow>
     obj \<in> set objs \<Longrightarrow> keyFn obj = Inr k \<Longrightarrow> m' k = Some obj"
proof (induction objs arbitrary: ks m)
  case Nil
  then show ?case by simp
next
  case (Cons x xs)
  from Cons.prems(1) obtain k1 ks' where k1: "keyFn x = Inr k1" "obj_keys keyFn xs = Some ks'" "ks = k1 # ks'"
    unfolding obj_keys_Cons by blast
  with Cons.prems(3) have m': "keyed_map keyFn (m(k1 \<mapsto> x)) xs = Inr m'" by simp
  show ?case
  proof (cases "obj \<in> set xs")
    case True
    with Cons.IH [OF k1(2) _ m' True Cons.prems(5)] k1 Cons.prems(2) show ?thesis by simp
  next
    case False
    with Cons.prems(4,5) k1(1) have "obj = x" "k = k1" by auto
    with keyed_map_keeps [OF k1(2) _ m', of k1] Cons.prems(2) k1(3) show ?thesis by simp
  qed
qed

lemma holds_replace:
  assumes "cache_invar (eq_store q)" "eq_keyFn q = keyFn" "obj_keys keyFn objs = Some ks" "distinct ks"
  shows "holds keyFn (fst (eq_Replace (cache_store keyFn) q objs rv)) objs"
proof -
  obtain m where m: "keyed_map keyFn Map.empty objs = Inr m" using keyed_map_ok [OF assms(3)] by blast
  obtain st where "cache_invar st" "cache_abs st = m" "eq_Replace (cache_store keyFn) q objs rv =
      (q\<lparr>eq_store := st, eq_events := (\<lambda>k. if k \<in> set ks then Some Modified else None),
        eq_queue := ks, eq_lastReplaceKey := (if ks \<noteq> [] then last ks else '''')\<rparr>, Ok ())"
    using cs.Replace_ok [where keyFunc = keyFn, OF assms(1-3) m] by blast
  then show ?thesis
    using assms(3,4) obj_keys_mem [OF assms(3)] keyed_map_lookup [OF assms(3,4) m]
    by (fastforce simp: holds_def)
qed

lemma holds_pop:
  assumes "holds keyFn q (obj # objs)"
  shows "\<exists>q'. pop_body (cache_store keyFn) q = (q', Ok (Modified, obj)) \<and> holds keyFn q' objs"
proof -
  from assms obtain k ks where k: "keyFn obj = Inr k" "obj_keys keyFn objs = Some ks" "distinct (k # ks)" "eq_queue q = k # ks"
    unfolding holds_def obj_keys_Cons by blast
  from assms k(1) have e: "cache_invar (eq_store q)" "eq_events q k = Some Modified" "cache_abs (eq_store q) k = Some obj"
    by (auto simp: holds_def)
  obtain st where "cache_invar st" "cache_abs st = cache_abs (eq_store q)" "pop_body (cache_store keyFn) q =
      (q\<lparr>eq_queue := ks, eq_events := (eq_events q)(k := None), eq_store := st,
        eq_lastReplaceKey := (if eq_lastReplaceKey q = k then '''' else eq_lastReplaceKey q)\<rparr>, Ok (Modified, obj))"
    using cs.pop_head [where keyFunc = keyFn, OF e(1) k(4) e(2,3) k(1)] by auto
  moreover have "k' \<noteq> k" if "x \<in> set objs" "keyFn x = Inr k'" for x k'
    using obj_keys_mem [OF k(2) that(1)] that(2) k(3) by auto
  ultimately show ?thesis using assms k by (auto simp: holds_def)
qed

lemma holds_queue: "holds keyFn q objs \<Longrightarrow> length (eq_queue q) = length objs"
proof -
  have "obj_keys keyFn objs = Some ks \<Longrightarrow> length ks = length objs" for ks
    by (induction objs arbitrary: ks) (auto split: sum.splits option.splits)
  then show "holds keyFn q objs \<Longrightarrow> ?thesis" by (auto simp: holds_def)
qed

lemma holds_consumed: "holds keyFn q [] \<Longrightarrow> eq_ListConsumed q"
  by (auto simp: holds_def eq_ListConsumed_def)

lemma holds_empty: "holds keyFn q objs \<Longrightarrow> eq_queue q = [] \<longleftrightarrow> objs = []"
  using holds_queue by fastforce

section \<open>The invariant of a resynchronisation\<close>

fun is_svc :: "proxy_event \<Rightarrow> bool" where
  "is_svc (SvcEvent _ _) = True"
| "is_svc (EpsEvent _ _) = False"

definition in_svc_hand :: "ctl_sys \<Rightarrow> proxy_event list" where
  "in_svc_hand s = (case svc_hand s of None \<Rightarrow> [] | Some (t, x) \<Rightarrow> [SvcEvent t x])"

definition in_eps_hand :: "ctl_sys \<Rightarrow> proxy_event list" where
  "in_eps_hand s = (case eps_hand s of None \<Rightarrow> [] | Some (t, x) \<Rightarrow> [EpsEvent t x])"

text \<open>\<open>handled\<close> are the events handled so far, \<open>ss\<close> and \<open>es\<close> the objects still queued.\<close>

definition resync_at :: "routes \<Rightarrow> APIService list \<Rightarrow> APIEndpoints list \<Rightarrow> ctl_sys
    \<Rightarrow> proxy_event list \<Rightarrow> APIService list \<Rightarrow> APIEndpoints list \<Rightarrow> bool" where
  "resync_at r0 svcs epss s handled ss es \<longleftrightarrow> px_ready (ct_Proxier (ctl s)) \<and>
     holds ServiceKey (ct_services (ctl s)) ss \<and> holds EndpointsKey (ct_endpoints (ctl s)) es \<and>
     routes_of (ct_Proxier (ctl s)) = fold spec_event handled r0 \<and>
     filter is_svc handled @ in_svc_hand s @ map (SvcEvent Modified) ss = map (SvcEvent Modified) svcs \<and>
     filter (\<lambda>ev. \<not> is_svc ev) handled @ in_eps_hand s @ map (EpsEvent Modified) es = map (EpsEvent Modified) epss"

definition resync :: "routes \<Rightarrow> APIService list \<Rightarrow> APIEndpoints list \<Rightarrow> ctl_sys \<Rightarrow> bool" where
  "resync r0 svcs epss s \<longleftrightarrow> (\<exists>handled ss es. resync_at r0 svcs epss s handled ss es)"

lemma resync_atD:
  assumes "resync_at r0 svcs epss s handled ss es"
  shows "px_ready (ct_Proxier (ctl s))" "holds ServiceKey (ct_services (ctl s)) ss"
    "holds EndpointsKey (ct_endpoints (ctl s)) es" "routes_of (ct_Proxier (ctl s)) = fold spec_event handled r0"
    "filter is_svc handled @ in_svc_hand s @ map (SvcEvent Modified) ss = map (SvcEvent Modified) svcs"
    "filter (\<lambda>ev. \<not> is_svc ev) handled @ in_eps_hand s @ map (EpsEvent Modified) es = map (EpsEvent Modified) epss"
  using assms by (simp_all add: resync_at_def)

definition todo :: "ctl_sys \<Rightarrow> nat" where
  "todo s = 2 * length (eq_queue (ct_services (ctl s))) + length (in_svc_hand s) +
     2 * length (eq_queue (ct_endpoints (ctl s))) + length (in_eps_hand s)"

lemma resyncI:
  assumes "px_ready (ct_Proxier (ctl s))" "holds ServiceKey (ct_services (ctl s)) ss"
    "holds EndpointsKey (ct_endpoints (ctl s)) es" "routes_of (ct_Proxier (ctl s)) = fold spec_event handled r0"
    "filter is_svc handled @ in_svc_hand s @ map (SvcEvent Modified) ss = map (SvcEvent Modified) svcs"
    "filter (\<lambda>ev. \<not> is_svc ev) handled @ in_eps_hand s @ map (EpsEvent Modified) es = map (EpsEvent Modified) epss"
  shows "resync r0 svcs epss s"
  using assms unfolding resync_def resync_at_def by blast

lemma take_service:
  assumes "resync r0 svcs epss s" "svc_hand s = None" "eq_queue (ct_services (ctl s)) \<noteq> []"
  shows "\<exists>t. ctl_step s TakeService = Some t \<and> resync r0 svcs epss t \<and> todo t < todo s"
proof -
  from assms(1) obtain handled ss es where h: "resync_at r0 svcs epss s handled ss es"
    by (auto simp: resync_def)
  note h = resync_atD [OF h]
  obtain x ss' where ss: "ss = x # ss'" using holds_empty [OF h(2)] assms(3) by (cases ss) auto
  obtain q' where q': "pop_body (cache_store ServiceKey) (ct_services (ctl s)) = (q', Ok (Modified, x))" "holds ServiceKey q' ss'"
    using holds_pop [OF h(2) [unfolded ss]] by blast
  let ?t = "s\<lparr>ctl := (ctl s)\<lparr>ct_services := q'\<rparr>, svc_hand := Some (Modified, x)\<rparr>"
  have "ctl_step s TakeService = Some ?t" using assms(2,3) q'(1) by (simp add: NextService_def)
  moreover have "resync r0 svcs epss ?t"
    by (rule resyncI [of _ ss' es handled])
      (use h q'(2) ss assms(2) in \<open>simp_all add: in_svc_hand_def in_eps_hand_def\<close>)
  moreover have "todo ?t < todo s"
    using holds_queue [OF h(2)] holds_queue [OF q'(2)] ss assms(2) by (simp add: todo_def in_svc_hand_def in_eps_hand_def)
  ultimately show ?thesis by blast
qed

lemma take_endpoints:
  assumes "resync r0 svcs epss s" "eps_hand s = None" "eq_queue (ct_endpoints (ctl s)) \<noteq> []"
  shows "\<exists>t. ctl_step s TakeEndpoints = Some t \<and> resync r0 svcs epss t \<and> todo t < todo s"
proof -
  from assms(1) obtain handled ss es where h: "resync_at r0 svcs epss s handled ss es"
    by (auto simp: resync_def)
  note h = resync_atD [OF h]
  obtain x es' where es: "es = x # es'" using holds_empty [OF h(3)] assms(3) by (cases es) auto
  obtain q' where q': "pop_body (cache_store EndpointsKey) (ct_endpoints (ctl s)) = (q', Ok (Modified, x))" "holds EndpointsKey q' es'"
    using holds_pop [OF h(3) [unfolded es]] by blast
  let ?t = "s\<lparr>ctl := (ctl s)\<lparr>ct_endpoints := q'\<rparr>, eps_hand := Some (Modified, x)\<rparr>"
  have "ctl_step s TakeEndpoints = Some ?t" using assms(2,3) q'(1) by (simp add: NextEndpoints_def)
  moreover have "resync r0 svcs epss ?t"
    by (rule resyncI [of _ ss es' handled])
      (use h q'(2) es assms(2) in \<open>simp_all add: in_svc_hand_def in_eps_hand_def\<close>)
  moreover have "todo ?t < todo s"
    using holds_queue [OF h(3)] holds_queue [OF q'(2)] es assms(2) by (simp add: todo_def in_svc_hand_def in_eps_hand_def)
  ultimately show ?thesis by blast
qed

lemma put_service:
  assumes "resync r0 svcs epss s" "svc_hand s = Some (t, x)"
  shows "\<exists>s'. ctl_step s PutService = Some s' \<and> resync r0 svcs epss s' \<and> todo s' < todo s"
proof -
  from assms(1) obtain handled ss es where h: "resync_at r0 svcs epss s handled ss es"
    by (auto simp: resync_def)
  note h = resync_atD [OF h]
  let ?c = "(ctl s)\<lparr>ct_serviceListConsumed := eq_ListConsumed (ct_services (ctl s))\<rparr>"
  obtain p' where p': "service_section (ctl s) t x = Some (?c\<lparr>ct_Proxier := p'\<rparr>, Ok ())"
      "px_ready p'" "routes_of p' = spec_service t x (fold spec_event handled r0)"
    using service_section_effect [OF h(1), of t x] h(4) by (auto simp: effect_def)
  let ?s' = "s\<lparr>ctl := ?c\<lparr>ct_Proxier := p'\<rparr>, svc_hand := None\<rparr>"
  have "ctl_step s PutService = Some ?s'" using assms(2) p'(1) by simp
  moreover have "resync r0 svcs epss ?s'"
    by (rule resyncI [of _ ss es "handled @ [SvcEvent t x]"])
      (use h p'(2,3) assms(2) in \<open>simp_all add: in_svc_hand_def in_eps_hand_def\<close>)
  moreover have "todo ?s' < todo s" using assms(2) by (simp add: todo_def in_svc_hand_def in_eps_hand_def)
  ultimately show ?thesis by blast
qed

lemma put_endpoints:
  assumes "resync r0 svcs epss s" "eps_hand s = Some (t, x)"
  shows "\<exists>s'. ctl_step s PutEndpoints = Some s' \<and> resync r0 svcs epss s' \<and> todo s' < todo s"
proof -
  from assms(1) obtain handled ss es where h: "resync_at r0 svcs epss s handled ss es"
    by (auto simp: resync_def)
  note h = resync_atD [OF h]
  let ?c = "(ctl s)\<lparr>ct_endpointsListConsumed := eq_ListConsumed (ct_endpoints (ctl s))\<rparr>"
  obtain p' where p': "endpoints_section (ctl s) t x = Some (?c\<lparr>ct_Proxier := p'\<rparr>, Ok ())"
      "px_ready p'" "routes_of p' = spec_endpoints t x (fold spec_event handled r0)"
    using endpoints_section_effect [OF h(1), of t x] h(4) by (auto simp: effect_def)
  let ?s' = "s\<lparr>ctl := ?c\<lparr>ct_Proxier := p'\<rparr>, eps_hand := None\<rparr>"
  have "ctl_step s PutEndpoints = Some ?s'" using assms(2) p'(1) by simp
  moreover have "resync r0 svcs epss ?s'"
    by (rule resyncI [of _ ss es "handled @ [EpsEvent t x]"])
      (use h p'(2,3) assms(2) in \<open>simp_all add: in_svc_hand_def in_eps_hand_def\<close>)
  moreover have "todo ?s' < todo s" using assms(2) by (simp add: todo_def in_svc_hand_def in_eps_hand_def)
  ultimately show ?thesis by blast
qed

section \<open>Every step works, and the work ends\<close>

definition idle :: "ctl_sys \<Rightarrow> bool" where
  "idle s \<longleftrightarrow> eq_queue (ct_services (ctl s)) = [] \<and> eq_queue (ct_endpoints (ctl s)) = [] \<and>
     svc_hand s = None \<and> eps_hand s = None"

lemma resync_step:
  assumes "resync r0 svcs epss s" "ctl_step s l = Some t"
  shows "resync r0 svcs epss t \<and> todo t < todo s"
proof (cases l)
  case TakeService
  then have "svc_hand s = None" "eq_queue (ct_services (ctl s)) \<noteq> []"
    using assms(2) by (auto simp: NextService_def split: option.splits if_splits)
  with take_service [OF assms(1)] TakeService assms(2) show ?thesis by auto
next
  case PutService
  then obtain ev x where "svc_hand s = Some (ev, x)" using assms(2) by (auto split: option.splits)
  with put_service [OF assms(1)] PutService assms(2) show ?thesis by fastforce
next
  case TakeEndpoints
  then have "eps_hand s = None" "eq_queue (ct_endpoints (ctl s)) \<noteq> []"
    using assms(2) by (auto simp: NextEndpoints_def split: option.splits if_splits)
  with take_endpoints [OF assms(1)] TakeEndpoints assms(2) show ?thesis by auto
next
  case PutEndpoints
  then obtain ev x where "eps_hand s = Some (ev, x)" using assms(2) by (auto split: option.splits)
  with put_endpoints [OF assms(1)] PutEndpoints assms(2) show ?thesis by fastforce
qed

lemma resync_progress:
  assumes "resync r0 svcs epss s" "\<not> idle s"
  shows "\<exists>l t. ctl_step s l = Some t"
proof -
  consider "svc_hand s = None" "eq_queue (ct_services (ctl s)) \<noteq> []" | ev x where "svc_hand s = Some (ev, x)"
    | "eps_hand s = None" "eq_queue (ct_endpoints (ctl s)) \<noteq> []" | ev x where "eps_hand s = Some (ev, x)"
    using assms(2) by (cases "svc_hand s"; cases "eps_hand s") (auto simp: idle_def)
  then show ?thesis
    using take_service [OF assms(1)] take_endpoints [OF assms(1)] put_service [OF assms(1)] put_endpoints [OF assms(1)]
    by cases blast+
qed

text \<open>However it is scheduled, the work of a resynchronisation is bounded by \<open>todo\<close> and can always be
  finished.\<close>

lemma resync_run: "resync r0 svcs epss s \<Longrightarrow> run_steps ctl_step s ls = Some t \<Longrightarrow>
    resync r0 svcs epss t \<and> length ls + todo t \<le> todo s"
proof (induction ls arbitrary: s)
  case Nil
  then show ?case by simp
next
  case (Cons l ls)
  then obtain u where u: "ctl_step s l = Some u" "run_steps ctl_step u ls = Some t" by (auto split: option.splits)
  from resync_step [OF Cons.prems(1) u(1)] Cons.IH [OF _ u(2)] show ?case by fastforce
qed

lemma resync_finishes: "resync r0 svcs epss s \<Longrightarrow> \<exists>ls t. run_steps ctl_step s ls = Some t \<and> idle t"
proof (induction "todo s" arbitrary: s rule: less_induct)
  case less
  show ?case
  proof (cases "idle s")
    case True
    then show ?thesis by (intro exI [of _ "[]"]) simp
  next
    case False
    obtain l t where t: "ctl_step s l = Some t" using resync_progress [OF less.prems False] by blast
    from less.hyps [of t] resync_step [OF less.prems t] obtain ls u where "run_steps ctl_step t ls = Some u" "idle u" by blast
    with t show ?thesis by (intro exI [of _ "l # ls"]) auto
  qed
qed

section \<open>The table afterwards\<close>

lemma distinct_events:
  assumes "distinct (map event_name (filter P xs))" "distinct (map event_name (filter (\<lambda>x. \<not> P x) xs))"
  shows "distinct xs"
  using assms by (induction xs) (auto split: if_splits simp: image_iff)

lemma keys_names:
  "obj_keys ServiceKey svcs = Some ks \<Longrightarrow> distinct ks \<Longrightarrow> distinct (map (\<lambda>s. (svc_Namespace s, svc_Name s)) svcs)"
proof (induction svcs arbitrary: ks)
  case Nil
  then show ?case by simp
next
  case (Cons s svcs)
  then obtain k ks' where k: "ServiceKey s = Inr k" "obj_keys ServiceKey svcs = Some ks'" "ks = k # ks'"
    unfolding obj_keys_Cons by blast
  have "(svc_Namespace s, svc_Name s) \<noteq> (svc_Namespace s', svc_Name s')" if "s' \<in> set svcs" for s'
    using obj_keys_mem [OF k(2) that] Cons.prems(2) k(1,3) by (auto simp: ServiceKey_def)
  with Cons k show ?case by auto
qed

lemma ekeys_names:
  "obj_keys EndpointsKey epss = Some ks \<Longrightarrow> distinct ks \<Longrightarrow> distinct (map (\<lambda>e. (eps_Namespace e, eps_Name e)) epss)"
proof (induction epss arbitrary: ks)
  case Nil
  then show ?case by simp
next
  case (Cons e epss)
  then obtain k ks' where k: "EndpointsKey e = Inr k" "obj_keys EndpointsKey epss = Some ks'" "ks = k # ks'"
    unfolding obj_keys_Cons by blast
  have "(eps_Namespace e, eps_Name e) \<noteq> (eps_Namespace e', eps_Name e')" if "e' \<in> set epss" for e'
    using obj_keys_mem [OF k(2) that] Cons.prems(2) k(1,3) by (auto simp: EndpointsKey_def)
  with Cons k show ?case by auto
qed

text \<open>Two events of a list without repetitions, in the order in which they come.\<close>

lemma two_in_order:
  assumes "x \<in> set xs" "y \<in> set xs" "x \<noteq> y" "distinct xs"
  shows "\<exists>a b pre mid post. xs = pre @ a # mid @ b # post \<and> {a, b} = {x, y} \<and> x \<notin> set (mid @ post) \<and> y \<notin> set (mid @ post)"
proof -
  obtain l r where x: "xs = l @ x # r" using assms(1) by (meson split_list)
  show ?thesis
  proof (cases "y \<in> set r")
    case True
    then obtain m n where "r = m @ y # n" by (meson split_list)
    with x assms(4) show ?thesis by (intro exI [of _ x] exI [of _ y] exI [of _ l] exI [of _ m] exI [of _ n]) auto
  next
    case False
    with x assms(2,3) have "y \<in> set l" by auto
    then obtain m n where "l = m @ y # n" by (meson split_list)
    with x assms(4) show ?thesis by (intro exI [of _ y] exI [of _ x] exI [of _ m] exI [of _ n] exI [of _ r]) auto
  qed
qed

lemma resync_routes:
  assumes inv: "resync r0 svcs epss t" and "idle t" "names_ok r0"
    and d: "distinct (map (\<lambda>s. (svc_Namespace s, svc_Name s)) svcs)" "distinct (map (\<lambda>e. (eps_Namespace e, eps_Name e)) epss)"
    and wf: "\<forall>s \<in> set svcs. wf_event (SvcEvent Modified s)" "\<forall>e \<in> set epss. wf_event (EpsEvent Modified e)"
    and se: "s \<in> set svcs" "e \<in> set epss" "routed_port s pt" "eps_Namespace e = svc_Namespace s" "eps_Name e = svc_Name s"
  shows "routes_of (ct_Proxier (ctl t)) (svc_key s pt) = Some (wanted_unit s pt e)"
proof -
  from inv obtain handled ss es where h: "resync_at r0 svcs epss t handled ss es" by (auto simp: resync_def)
  note h = resync_atD [OF h]
  have "ss = []" "es = []" using holds_empty [OF h(2)] holds_empty [OF h(3)] assms(2) by (simp_all add: idle_def)
  with h assms(2) have f: "filter is_svc handled = map (SvcEvent Modified) svcs"
      "filter (\<lambda>ev. \<not> is_svc ev) handled = map (EpsEvent Modified) epss"
    by (simp_all add: idle_def in_svc_hand_def in_eps_hand_def)
  have dh: "distinct handled"
    by (rule distinct_events [of is_svc]) (use d in \<open>simp_all add: f comp_def\<close>)
  have mem: "ev \<in> set handled \<longleftrightarrow> ev \<in> SvcEvent Modified ` set svcs \<or> ev \<in> EpsEvent Modified ` set epss" for ev
  proof -
    have "ev \<in> set handled \<longleftrightarrow> ev \<in> set (filter is_svc handled) \<or> ev \<in> set (filter (\<lambda>ev. \<not> is_svc ev) handled)" by auto
    then show ?thesis by (simp add: f)
  qed
  have "SvcEvent Modified s \<in> set handled" "EpsEvent Modified e \<in> set handled" using se(1,2) by (simp_all add: mem)
  from two_in_order [OF this _ dh] obtain a b pre mid post where o: "handled = pre @ a # mid @ b # post"
      "{a, b} = {SvcEvent Modified s, EpsEvent Modified e}"
      "SvcEvent Modified s \<notin> set (mid @ post)" "EpsEvent Modified e \<notin> set (mid @ post)" by blast
  have "wf_event ev \<and> event_name ev \<noteq> (svc_Namespace s, svc_Name s)" if "ev \<in> set (mid @ post)" for ev
  proof -
    have "ev \<in> set handled" using that o(1) by auto
    then consider s' where "ev = SvcEvent Modified s'" "s' \<in> set svcs" | e' where "ev = EpsEvent Modified e'" "e' \<in> set epss"
      unfolding mem by blast
    then show ?thesis
    proof cases
      case 1
      with o(3) that have "s' \<noteq> s" by auto
      with 1 d(1) se(1) wf(1) show ?thesis by (auto simp: distinct_map inj_on_def)
    next
      case 2
      with o(4) that have "e' \<noteq> e" by auto
      with 2 d(2) se(2,4,5) wf(2) show ?thesis by (auto simp: distinct_map inj_on_def)
    qed
  qed
  from spec_converges [OF assms(3) se(3-5) _ _ o(2), of mid post pre] this o(1) h(4) show ?thesis by simp
qed

end
