(* ===== verification/Server.thy ===== *)
theory Server
  imports Controller Complex_Main
begin

text \<open>
  \<open>app/options/options.go\<close> and \<open>app/server.go\<close>: the configuration with its defaults and flags, the
  construction of the server, and the signal channel.

  What the flags do to the configuration is the assignment \<open>store_var\<close> of a parsed value for each flag of \<open>AddFlags\<close>; the
  theory \<open>Cli\<close> shows that parsing a command line comes down to it, and has the HTTP endpoints of \<open>Run\<close>. Loading the client
  configuration and creating the API client are parameters.
\<close>

section \<open>Options\<close>

record ProxyServerConfig =
  cf_BindAddress :: string
  cf_Address :: string
  cf_Port :: int
  cf_KubeAPIQPS :: rat
  cf_KubeAPIBurst :: int
  cf_Master :: string
  cf_SyncPeriod :: duration
  cf_Kubeconfig :: string
  cf_EnableProfiling :: bool
  cf_Device :: string
  cf_KeepalivedConfig :: KeepalivedConfig
  cf_HaproxyConfig :: HaproxyConfig

definition NewProxyServerConfig :: ProxyServerConfig where
  "NewProxyServerConfig =
     \<lparr>cf_BindAddress = '''', cf_Address = '''', cf_Port = 0, cf_KubeAPIQPS = 5, cf_KubeAPIBurst = 10,
      cf_Master = '''', cf_SyncPeriod = 30 * 60 * second, cf_Kubeconfig = '''', cf_EnableProfiling = False,
      cf_Device = '''',
      cf_KeepalivedConfig = \<lparr>ConfigPath = ''/etc/keepalived/keepalived.conf'', TemplatePath = '''',
        ReloadScriptPath = '''', ReloadInterval = 2 * second\<rparr>,
      cf_HaproxyConfig = \<lparr>ConfigPath = ''/etc/haproxy/haproxy.cfg'', TemplatePath = '''',
        ReloadScriptPath = '''', ReloadInterval = 5 * second\<rparr>\<rparr>"

datatype flag_value = StringVal string | IntVal int | Float32Val rat | BoolVal bool | DurationVal duration

text \<open>The variables that flags are registered with, e.g. \<open>AddressV\<close> for \<open>&s.Address\<close>.\<close>

datatype flag_var =
    AddressV | PortV | KubeAPIQPSV | KubeAPIBurstV | MasterV | SyncPeriodV | KubeconfigV | EnableProfilingV | DeviceV
  | KeepalivedConfigPathV | KeepalivedTemplatePathV | KeepalivedReloadIntervalV | KeepalivedReloadScriptPathV
  | HaproxyConfigPathV | HaproxyTemplatePathV | HaproxyReloadIntervalV | HaproxyReloadScriptPathV

definition AddFlags :: "(string \<times> flag_var) list" where
  "AddFlags =
     [(''address'', AddressV), (''port'', PortV), (''kube-api-qps'', KubeAPIQPSV), (''kube-api-burst'', KubeAPIBurstV),
      (''master'', MasterV), (''sync-period'', SyncPeriodV), (''kubeconfig'', KubeconfigV),
      (''profiling'', EnableProfilingV), (''device'', DeviceV), (''keepalived-config-file'', KeepalivedConfigPathV),
      (''keepalived-template-file'', KeepalivedTemplatePathV),
      (''keepalived-reload-interval'', KeepalivedReloadIntervalV),
      (''keepalived-reload-script'', KeepalivedReloadScriptPathV), (''haproxy-config-file'', HaproxyConfigPathV),
      (''haproxy-template-file'', HaproxyTemplatePathV), (''haproxy-reload-interval'', HaproxyReloadIntervalV),
      (''haproxy-reload-script'', HaproxyReloadScriptPathV)]"

text \<open>Storing a parsed value; \<open>None\<close> when the value is not of the variable's kind.\<close>

fun store_var :: "flag_var \<Rightarrow> flag_value \<Rightarrow> ProxyServerConfig \<Rightarrow> ProxyServerConfig option" where
  "store_var AddressV (StringVal x) s = Some (s\<lparr>cf_Address := x\<rparr>)"
| "store_var PortV (IntVal x) s = Some (s\<lparr>cf_Port := x\<rparr>)"
| "store_var KubeAPIQPSV (Float32Val x) s = Some (s\<lparr>cf_KubeAPIQPS := x\<rparr>)"
| "store_var KubeAPIBurstV (IntVal x) s = Some (s\<lparr>cf_KubeAPIBurst := x\<rparr>)"
| "store_var MasterV (StringVal x) s = Some (s\<lparr>cf_Master := x\<rparr>)"
| "store_var SyncPeriodV (DurationVal x) s = Some (s\<lparr>cf_SyncPeriod := x\<rparr>)"
| "store_var KubeconfigV (StringVal x) s = Some (s\<lparr>cf_Kubeconfig := x\<rparr>)"
| "store_var EnableProfilingV (BoolVal x) s = Some (s\<lparr>cf_EnableProfiling := x\<rparr>)"
| "store_var DeviceV (StringVal x) s = Some (s\<lparr>cf_Device := x\<rparr>)"
| "store_var KeepalivedConfigPathV (StringVal x) s = Some (s\<lparr>cf_KeepalivedConfig := (cf_KeepalivedConfig s)\<lparr>ConfigPath := x\<rparr>\<rparr>)"
| "store_var KeepalivedTemplatePathV (StringVal x) s = Some (s\<lparr>cf_KeepalivedConfig := (cf_KeepalivedConfig s)\<lparr>TemplatePath := x\<rparr>\<rparr>)"
| "store_var KeepalivedReloadIntervalV (DurationVal x) s = Some (s\<lparr>cf_KeepalivedConfig := (cf_KeepalivedConfig s)\<lparr>ReloadInterval := x\<rparr>\<rparr>)"
| "store_var KeepalivedReloadScriptPathV (StringVal x) s = Some (s\<lparr>cf_KeepalivedConfig := (cf_KeepalivedConfig s)\<lparr>ReloadScriptPath := x\<rparr>\<rparr>)"
| "store_var HaproxyConfigPathV (StringVal x) s = Some (s\<lparr>cf_HaproxyConfig := (cf_HaproxyConfig s)\<lparr>ConfigPath := x\<rparr>\<rparr>)"
| "store_var HaproxyTemplatePathV (StringVal x) s = Some (s\<lparr>cf_HaproxyConfig := (cf_HaproxyConfig s)\<lparr>TemplatePath := x\<rparr>\<rparr>)"
| "store_var HaproxyReloadIntervalV (DurationVal x) s = Some (s\<lparr>cf_HaproxyConfig := (cf_HaproxyConfig s)\<lparr>ReloadInterval := x\<rparr>\<rparr>)"
| "store_var HaproxyReloadScriptPathV (StringVal x) s = Some (s\<lparr>cf_HaproxyConfig := (cf_HaproxyConfig s)\<lparr>ReloadScriptPath := x\<rparr>\<rparr>)"
| "store_var _ _ s = None"

text \<open>Parsing stops with an error at a flag that is not registered or has a value of another kind.\<close>

definition parse_flag :: "string \<times> flag_value \<Rightarrow> ProxyServerConfig \<Rightarrow> ProxyServerConfig option" where
  "parse_flag arg s = (case map_of AddFlags (fst arg) of None \<Rightarrow> None | Some var \<Rightarrow> store_var var (snd arg) s)"

fun parse_flags :: "(string \<times> flag_value) list \<Rightarrow> ProxyServerConfig \<Rightarrow> gerror + ProxyServerConfig" where
  "parse_flags [] s = Inr s"
| "parse_flags (arg # args) s =
     (case parse_flag arg s of Some s' \<Rightarrow> parse_flags args s' | None \<Rightarrow> Inl (Errorf (''invalid flag '' @ fst arg)))"

section \<open>The server\<close>

record 'c ProxyServer =
  sv_Client :: 'c
  sv_Config :: ProxyServerConfig
  sv_Controller :: ProxyController

definition NewProxyServer :: "'c \<Rightarrow> ProxyController \<Rightarrow> ProxyServerConfig \<Rightarrow> gerror + 'c ProxyServer" where
  "NewProxyServer client controller config =
     Inr \<lparr>sv_Client = client, sv_Config = config, sv_Controller = controller\<rparr>"

text \<open>\<open>ClientConfig\<close> takes the kubeconfig path and the server override; the QPS and burst settings are
  handed to \<open>kubeclient_New\<close> with it. Both belong to the API client: \<open>daemon_ClientConfig\<close> and \<open>daemon_client\<close> model them later, and
  either may panic.\<close>

definition NewProxyServerDefault ::
  "(string \<Rightarrow> string \<Rightarrow> 'cfg outcome) \<Rightarrow> ('cfg \<Rightarrow> rat \<Rightarrow> int \<Rightarrow> 'c outcome) \<Rightarrow> os_env \<Rightarrow> machine \<Rightarrow> 'k netlink \<Rightarrow> 'k
     \<Rightarrow> ProxyServerConfig \<Rightarrow> 'c ProxyServer outcome" where
  "NewProxyServerDefault ClientConfig kubeclient_New E m N k config =
     (case ClientConfig (cf_Kubeconfig config) (cf_Master config) of
        Fail err \<Rightarrow> Fail err
      | Panic e \<Rightarrow> Panic e
      | Exit e \<Rightarrow> Exit e
      | Ok kubeconfig \<Rightarrow>
          (case kubeclient_New kubeconfig (cf_KubeAPIQPS config) (cf_KubeAPIBurst config) of
             Fail err \<Rightarrow> Exit ''Invalid API configuration''
           | Panic e \<Rightarrow> Panic e
           | Exit e \<Rightarrow> Exit e
           | Ok client \<Rightarrow>
               (let proxierConfig = \<lparr>pc_Device = cf_Device config, pc_KeepalivedConfig = cf_KeepalivedConfig config,
                                     pc_HaproxyConfig = cf_HaproxyConfig config\<rparr> in
                case NewProxier E m N k proxierConfig of
                  Inl err \<Rightarrow> Fail err
                | Inr proxier \<Rightarrow>
                    (case NewProxyServer client (controller_New proxier) config of
                       Inl err \<Rightarrow> Fail err
                     | Inr s \<Rightarrow> Ok s))))"

text \<open>The channel of \<open>registerOSSignals\<close> has room for two signals; \<open>signal.Notify\<close> never waits, it drops a
  signal that does not fit.\<close>

definition notify :: "signal list \<Rightarrow> signal \<Rightarrow> signal list" where
  "notify c sig = (if length c < 2 then c @ [sig] else c)"

definition registerOSSignals :: "signal list" where
  "registerOSSignals = []"

text \<open>The signal goroutine works off what is in the channel; \<open>asleep\<close> and \<open>beforeSet\<close> are as for \<open>SetMaster\<close>.\<close>

fun signal_loop ::
  "'k host \<Rightarrow> (Proxier \<times> machine \<times> 'k \<Rightarrow> Proxier \<times> machine \<times> 'k) \<Rightarrow> (Proxier \<Rightarrow> Proxier)
     \<Rightarrow> Proxier \<Rightarrow> machine \<Rightarrow> 'k \<Rightarrow> signal list \<Rightarrow> (Proxier \<times> machine \<times> unit outcome) option" where
  "signal_loop H asleep beforeSet p m k [] = Some (p, m, Ok ())"
| "signal_loop H asleep beforeSet p m k (sig # sigs) =
     (case handle_signal H asleep beforeSet p m k sig of
        Some (p', m', Ok _) \<Rightarrow> signal_loop H asleep beforeSet p' m' k sigs
      | stopped \<Rightarrow> stopped)"

section \<open>Properties\<close>

lemma notify_take: "length c \<le> 2 \<Longrightarrow> foldl notify c sigs = take 2 (c @ sigs)"
proof (induction sigs arbitrary: c)
  case Nil
  then show ?case by simp
next
  case (Cons sig sigs)
  show ?case
  proof (cases "length c < 2")
    case True
    with Cons.IH [of "c @ [sig]"] show ?thesis by (simp add: notify_def)
  next
    case False
    with Cons show ?thesis by (simp add: notify_def)
  qed
qed

lemma handle_signal_flag:
  assumes "handle_signal H asleep beforeSet p m k sig = Some (p', m', Ok ())"
  shows "ab_IsSet (px_master p') \<longleftrightarrow> sig = SIGUSR1"
  using assms
  by (auto simp: handle_signal_def SetMaster_def Let_def goes_on_def
      split: if_splits option.splits prod.splits outcome.splits)

lemma signal_loop_flag:
  "signal_loop H asleep beforeSet p m k sigs = Some (p', m', Ok ()) \<Longrightarrow> sigs \<noteq> [] \<Longrightarrow>
     ab_IsSet (px_master p') \<longleftrightarrow> last sigs = SIGUSR1"
proof (induction sigs arbitrary: p m)
  case Nil
  then show ?case by simp
next
  case (Cons sig sigs)
  obtain q n where q: "handle_signal H asleep beforeSet p m k sig = Some (q, n, Ok ())"
      "signal_loop H asleep beforeSet q n k sigs = Some (p', m', Ok ())"
    using Cons.prems(1) by (auto split: option.splits prod.splits outcome.splits)
  show ?case
  proof (cases "sigs = []")
    case True
    with q handle_signal_flag [OF q(1)] show ?thesis by simp
  next
    case False
    with Cons.IH [OF q(2)] show ?thesis by simp
  qed
qed

lemma store_var_kind: "store_var a v s = None \<longleftrightarrow> store_var a v s' = None"
  by (cases a; cases v) simp_all

lemma store_var_commute:
  assumes "a \<noteq> b" "store_var a v s = Some s1" "store_var b w s1 = Some s2"
  shows "\<exists>s3. store_var b w s = Some s3 \<and> store_var a v s3 = Some s2"
  using assms by (cases a; cases v) (simp_all, (cases b; cases w; auto)+)

text \<open>Every flag has its own variable, so the order of two different flags on the command line does not
  matter: they are accepted in one order if and only if they are in the other, with the same result.\<close>

lemma flags_independent:
  assumes "name \<noteq> name'"
  shows "parse_flags [(name, v), (name', v')] s = Inr s2 \<longleftrightarrow> parse_flags [(name', v'), (name, v)] s = Inr s2"
proof -
  have d: "distinct (map snd AddFlags)" by (simp add: AddFlags_def)
  have vars: "a \<noteq> b" if "map_of AddFlags n = Some a" "map_of AddFlags n' = Some b" "n \<noteq> n'" for n n' a b
    using that d by (metis distinct_map inj_onD map_of_SomeD prod.inject snd_conv)
  have one: "parse_flags [(n', w'), (n, w)] s = Inr s2"
    if "parse_flags [(n, w), (n', w')] s = Inr s2" "n \<noteq> n'" for n n' w w'
    using that vars [of n _ n'] store_var_commute [of _ _ w s _ w' s2]
    by (fastforce simp: parse_flag_def split: option.splits)
  from one [of name v name' v'] one [of name' v' name v] assms show ?thesis by auto
qed

lemma flags_independent_witness:
  "parse_flags [(''device'', StringVal ''eth1''), (''port'', IntVal 80)] NewProxyServerConfig =
     Inr (NewProxyServerConfig\<lparr>cf_Device := ''eth1'', cf_Port := 80\<rparr>)"
  using flags_independent [of "''device''" "''port''" "StringVal ''eth1''" "IntVal 80" NewProxyServerConfig
      "NewProxyServerConfig\<lparr>cf_Device := ''eth1'', cf_Port := 80\<rparr>"]
  by (simp add: parse_flag_def AddFlags_def)

text \<open>The MASTER flag after a burst of signals that arrive while the signal goroutine is busy is that of the
  last of the first two: up to two signals give the state that was asked for last, but a third and later
  ones are dropped, so that the daemon can stay MASTER after Keepalived has made it BACKUP.\<close>

theorem signal_burst_state:
  assumes "signal_loop H asleep beforeSet p m k (foldl notify registerOSSignals sigs) = Some (p', m', Ok ())" "sigs \<noteq> []"
  shows "ab_IsSet (px_master p') \<longleftrightarrow> last (take 2 sigs) = SIGUSR1"
proof -
  have "foldl notify registerOSSignals sigs = take 2 sigs" by (simp add: registerOSSignals_def notify_take)
  with assms signal_loop_flag [of H asleep beforeSet p m k "take 2 sigs"] show ?thesis by (cases sigs) auto
qed

theorem signal_burst_state_witness:
  "\<exists>p' m'. signal_loop demo_host (\<lambda>w. w) id demo_backup (demo_machine ''tpl'') []
      (foldl notify registerOSSignals [SIGUSR2, SIGUSR1, SIGUSR2]) = Some (p', m', Ok ()) \<and> ab_IsSet (px_master p')"
proof -
  obtain p' m' where r: "signal_loop demo_host (\<lambda>w. w) id demo_backup (demo_machine ''tpl'') []
      (foldl notify registerOSSignals [SIGUSR2, SIGUSR1, SIGUSR2]) = Some (p', m', Ok ())"
    by (simp add: notify_def registerOSSignals_def handle_signal_def SetMaster_def goes_on_def demo_defs commit_eval)
  with signal_burst_state [OF r] show ?thesis by (auto simp: numeral_2_eq_2)
qed

text \<open>A server built with the default intervals reloads Keepalived at most every two seconds and HAProxy at
  most every five, on the paths of the configuration: construction passes the configuration on unchanged, and
  starts with empty tables, not MASTER and with no list read.\<close>

theorem default_server:
  assumes "NewProxyServerDefault ClientConfig kubeclient_New E m N k config = Ok sv"
  shows "sv_Config sv = config \<and> px_ready (ct_Proxier (sv_Controller sv)) \<and>
    routes_of (ct_Proxier (sv_Controller sv)) = Map.empty \<and> vips (ct_Proxier (sv_Controller sv)) = {} \<and>
    \<not> ab_IsSet (px_master (ct_Proxier (sv_Controller sv))) \<and>
    \<not> ct_serviceListConsumed (sv_Controller sv) \<and> \<not> ct_endpointsListConsumed (sv_Controller sv) \<and>
    configFilePath (in_configurer (px_haproxyInstance (ct_Proxier (sv_Controller sv)))) = ConfigPath (cf_HaproxyConfig config) \<and>
    bo_defaultDuration (rl_backOff (px_commitHaproxy (ct_Proxier (sv_Controller sv)))) = ReloadInterval (cf_HaproxyConfig config) \<and>
    (config = NewProxyServerConfig \<longrightarrow>
      sint (bo_defaultDuration (rl_backOff (px_commitHaproxy (ct_Proxier (sv_Controller sv))))) = 5000000000 \<and>
      sint (bo_defaultDuration (rl_backOff (px_commitKeepalived (ct_Proxier (sv_Controller sv))))) = 2000000000)"
proof -
  let ?pc = "\<lparr>pc_Device = cf_Device config, pc_KeepalivedConfig = cf_KeepalivedConfig config, pc_HaproxyConfig = cf_HaproxyConfig config\<rparr>"
  obtain p where p: "NewProxier E m N k ?pc = Inr p" "sv_Config sv = config" "sv_Controller sv = controller_New p"
    using assms by (auto simp: NewProxyServerDefault_def NewProxyServer_def Let_def split: sum.splits outcome.splits)
  have "\<not> ab_IsSet (px_master p)" "configFilePath (in_configurer (px_haproxyInstance p)) = ConfigPath (cf_HaproxyConfig config)"
    "bo_defaultDuration (rl_backOff (px_commitHaproxy p)) = ReloadInterval (cf_HaproxyConfig config)"
    "bo_defaultDuration (rl_backOff (px_commitKeepalived p)) = ReloadInterval (cf_KeepalivedConfig config)"
    using p(1) by (auto simp: NewProxier_def haproxy_NewInstance_def NewConfigurer_def NewRateLimitedFunction_def
        NewBackOff_def split: sum.splits if_splits)
  with p NewProxier_ready [OF p(1)] show ?thesis
    by (auto simp: controller_New_def NewProxyServerConfig_def)
qed

theorem default_server_witness:
  "\<exists>sv. NewProxyServerDefault (\<lambda>_ _. Ok ()) (\<lambda>_ _ _. Ok ()) friendly_env
      \<lparr>files = (\<lambda>_. Some ''''), scripts_run = []\<rparr> (h_netlink demo_host) [] NewProxyServerConfig = Ok sv \<and>
    sint (bo_defaultDuration (rl_backOff (px_commitHaproxy (ct_Proxier (sv_Controller sv))))) = 5000000000"
proof -
  obtain sv where sv: "NewProxyServerDefault (\<lambda>_ _. Ok ()) (\<lambda>_ _ _. Ok ()) friendly_env
      \<lparr>files = (\<lambda>_. Some ''''), scripts_run = []\<rparr> (h_netlink demo_host) [] NewProxyServerConfig = Ok sv"
    by (simp add: NewProxyServerDefault_def NewProxyServer_def NewProxier_def ipaddr_New_def FlagUp_def demo_host_def
        keepalived_NewInstance_def haproxy_NewInstance_def NewConfigurer_def canReadFile_def Let_def)
  with default_server [OF sv] show ?thesis by blast
qed

end
