(* ===== verification/Reflector.thy ===== *)
theory Reflector
  imports EventQueueSync Backoff
begin

text \<open>
  \<open>pkg/client/cache/reflector.go\<close> of the vendored Kubernetes client: the producer of an event queue.

  The API server is a parameter: a reply to the list request, and for each watch request a function from the
  requested resource version and timeout to a reply. A watch that is accepted is the list of results that
  \<open>select\<close> picks one after the other; at the end of the list the goroutine waits (\<open>None\<close>). The store is a record
  of the methods that are called; \<open>queue_store\<close> is the event queue as such a store. Clock readings and random
  numbers are arguments.
\<close>

section \<open>The store and the server as the reflector sees them\<close>

record ('s, 'o) rstore =
  rs_Add :: "'s \<Rightarrow> 'o \<Rightarrow> 's \<times> unit outcome"
  rs_Update :: "'s \<Rightarrow> 'o \<Rightarrow> 's \<times> unit outcome"
  rs_Delete :: "'s \<Rightarrow> 'o \<Rightarrow> 's \<times> unit outcome"
  rs_Replace :: "'s \<Rightarrow> 'o list \<Rightarrow> string \<Rightarrow> 's \<times> unit outcome"

definition queue_store :: "('s, 'o) kstore \<Rightarrow> (('s, 'o) EventQueue, 'o) rstore" where
  "queue_store S = \<lparr>rs_Add = eq_Add S, rs_Update = eq_Update S, rs_Delete = eq_Delete S, rs_Replace = eq_Replace S\<rparr>"

text \<open>The object of a watch event: of the expected type, with its resource version; of another type; or
  without metadata.\<close>

datatype 'o wobject = Expected 'o string | OtherType | NoAccessor

datatype 'o wselect = StopFired | ResyncFired | ChanClosed | Received EventType "'o wobject"

datatype 'o list_reply = ListFails | NoListMeta | NotAList | Listed "'o list" string

datatype 'o watch_reply = ConnRefused | WatchFails | Watching "'o wselect list" bool gotime

section \<open>The reflector\<close>

record 's Reflector =
  rf_name :: string
  rf_store :: 's
  rf_period :: duration
  rf_resyncPeriod :: duration
  rf_nextResync :: gotime
  rf_lastSyncResourceVersion :: string

definition minWatchTimeout :: duration where
  "minWatchTimeout = 5 * 60 * second"

definition forceResyncThreshold :: duration where
  "forceResyncThreshold = 3 * second"

definition timeoutThreshold :: duration where
  "timeoutThreshold = 1 * second"

definition NewNamedReflector :: "string \<Rightarrow> 's \<Rightarrow> duration \<Rightarrow> 's Reflector" where
  "NewNamedReflector name store resyncPeriod =
     \<lparr>rf_name = name, rf_store = store, rf_period = second, rf_resyncPeriod = resyncPeriod,
      rf_nextResync = 0, rf_lastSyncResourceVersion = ''''\<rparr>"

definition resyncChan :: "'s Reflector \<Rightarrow> gotime \<Rightarrow> 's Reflector" where
  "resyncChan r now =
     (if rf_resyncPeriod r = 0 then r\<lparr>rf_nextResync := 0\<rparr>
      else r\<lparr>rf_nextResync := now + sint (rf_resyncPeriod r)\<rparr>)"

text \<open>\<open>randTimeout\<close> is the random duration of the first line; the result is in whole seconds.\<close>

definition timeoutForWatch :: "'s Reflector \<Rightarrow> duration \<Rightarrow> gotime \<Rightarrow> int" where
  "timeoutForWatch r randTimeout now =
     (let timeout = time_Sub (rf_nextResync r) now - timeoutThreshold;
          chosen = (if dur_less timeout 0 \<or> dur_less randTimeout timeout then randTimeout else timeout)
      in sint chosen div 1000000000)"

definition canForceResyncNow :: "'s Reflector \<Rightarrow> gotime \<Rightarrow> bool" where
  "canForceResyncNow r now \<longleftrightarrow> rf_nextResync r \<noteq> 0 \<and> now + sint forceResyncThreshold > rf_nextResync r"

definition setLastSyncResourceVersion :: "'s Reflector \<Rightarrow> string \<Rightarrow> 's Reflector" where
  "setLastSyncResourceVersion r v = r\<lparr>rf_lastSyncResourceVersion := v\<rparr>"

definition LastSyncResourceVersion :: "'s Reflector \<Rightarrow> string" where
  "LastSyncResourceVersion r = rf_lastSyncResourceVersion r"

definition syncWith :: "('s, 'o) rstore \<Rightarrow> 's Reflector \<Rightarrow> 'o list \<Rightarrow> string \<Rightarrow> 's Reflector \<times> unit outcome" where
  "syncWith R r itms resourceVersion =
     (let (st, out) = rs_Replace R (rf_store r) itms resourceVersion in (r\<lparr>rf_store := st\<rparr>, out))"

text \<open>How the loop of \<open>watchHandler\<close> ends: with an error, or because the channel was closed.\<close>

datatype watch_end = StopRequested | ResyncRequested | APIError | ShortWatch | WatchClosed

definition store_event :: "('s, 'o) rstore \<Rightarrow> 's \<Rightarrow> EventType \<Rightarrow> 'o \<Rightarrow> 's \<times> unit outcome" where
  "store_event R st t obj =
     (case t of
        Added \<Rightarrow> rs_Add R st obj
      | Modified \<Rightarrow> rs_Update R st obj
      | Deleted \<Rightarrow> rs_Delete R st obj
      | _ \<Rightarrow> (st, Ok ()))"

fun watch_loop ::
  "('s, 'o) rstore \<Rightarrow> 's Reflector \<Rightarrow> string \<Rightarrow> nat \<Rightarrow> 'o wselect list
     \<Rightarrow> ('s Reflector \<times> string \<times> nat \<times> watch_end outcome) option" where
  "watch_loop R r resourceVersion eventCount [] = None"
| "watch_loop R r resourceVersion eventCount (StopFired # sel) = Some (r, resourceVersion, eventCount, Ok StopRequested)"
| "watch_loop R r resourceVersion eventCount (ResyncFired # sel) = Some (r, resourceVersion, eventCount, Ok ResyncRequested)"
| "watch_loop R r resourceVersion eventCount (ChanClosed # sel) = Some (r, resourceVersion, eventCount, Ok WatchClosed)"
| "watch_loop R r resourceVersion eventCount (Received t obj # sel) =
     (if t = Error then Some (r, resourceVersion, eventCount, Ok APIError)
      else case obj of
             OtherType \<Rightarrow> watch_loop R r resourceVersion eventCount sel
           | NoAccessor \<Rightarrow> watch_loop R r resourceVersion eventCount sel
           | Expected x newResourceVersion \<Rightarrow>
               (case store_event R (rf_store r) t x of
                  (st, Panic msg) \<Rightarrow> Some (r\<lparr>rf_store := st\<rparr>, resourceVersion, eventCount, Panic msg)
                | (st, Exit msg) \<Rightarrow> Some (r\<lparr>rf_store := st\<rparr>, resourceVersion, eventCount, Exit msg)
                | (st, _) \<Rightarrow>
                    watch_loop R (setLastSyncResourceVersion (r\<lparr>rf_store := st\<rparr>) newResourceVersion)
                      newResourceVersion (Suc eventCount) sel))"

text \<open>\<open>lasted\<close>: the watch lasted at least a second.\<close>

definition watchHandler ::
  "('s, 'o) rstore \<Rightarrow> 's Reflector \<Rightarrow> string \<Rightarrow> 'o wselect list \<Rightarrow> bool
     \<Rightarrow> ('s Reflector \<times> string \<times> watch_end outcome) option" where
  "watchHandler R r resourceVersion sel lasted =
     (case watch_loop R r resourceVersion 0 sel of
        None \<Rightarrow> None
      | Some (r1, rv, eventCount, Ok WatchClosed) \<Rightarrow>
          Some (r1, rv, Ok (if \<not> lasted \<and> eventCount = 0 then ShortWatch else WatchClosed))
      | Some (r1, rv, eventCount, out) \<Rightarrow> Some (r1, rv, out))"

text \<open>The watch requests of one \<open>ListAndWatch\<close>; each carries its random timeout and the time it is made.\<close>

type_synonym 'o watch_try = "(string \<Rightarrow> int \<Rightarrow> 'o watch_reply) \<times> duration \<times> gotime"

fun watch_rounds ::
  "('s, 'o) rstore \<Rightarrow> 's Reflector \<Rightarrow> string \<Rightarrow> 'o watch_try list \<Rightarrow> ('s Reflector \<times> unit outcome) option" where
  "watch_rounds R r resourceVersion [] = None"
| "watch_rounds R r resourceVersion ((Watch, randTimeout, now) # tries) =
     (case Watch resourceVersion (timeoutForWatch r randTimeout now) of
        ConnRefused \<Rightarrow> watch_rounds R r resourceVersion tries
      | WatchFails \<Rightarrow> Some (r, Ok ())
      | Watching sel lasted ended \<Rightarrow>
          (case watchHandler R r resourceVersion sel lasted of
             None \<Rightarrow> None
           | Some (r1, rv, Panic msg) \<Rightarrow> Some (r1, Panic msg)
           | Some (r1, rv, Exit msg) \<Rightarrow> Some (r1, Exit msg)
           | Some (r1, rv, Fail err) \<Rightarrow> Some (r1, Ok ())
           | Some (r1, rv, Ok WatchClosed) \<Rightarrow>
               if canForceResyncNow r1 ended then Some (r1, Ok ()) else watch_rounds R r1 rv tries
           | Some (r1, rv, Ok _) \<Rightarrow> Some (r1, Ok ())))"

definition ListAndWatch ::
  "('s, 'o) rstore \<Rightarrow> 's Reflector \<Rightarrow> gotime \<Rightarrow> 'o list_reply \<Rightarrow> 'o watch_try list
     \<Rightarrow> ('s Reflector \<times> unit outcome) option" where
  "ListAndWatch R r now list tries =
     (let r1 = resyncChan r now in
      case list of
        ListFails \<Rightarrow> Some (r1, Fail (Errorf (rf_name r @ '': Failed to list'')))
      | NoListMeta \<Rightarrow> Some (r1, Fail (Errorf (rf_name r @ '': Unable to understand list result'')))
      | NotAList \<Rightarrow> Some (r1, Fail (Errorf (rf_name r @ '': Unable to understand list result'')))
      | Listed itms resourceVersion \<Rightarrow>
          (case syncWith R r1 itms resourceVersion of
             (r2, Fail err) \<Rightarrow> Some (r2, Fail (Errorf (rf_name r @ '': Unable to sync list result'')))
           | (r2, Panic msg) \<Rightarrow> Some (r2, Panic msg)
           | (r2, Exit msg) \<Rightarrow> Some (r2, Exit msg)
           | (r2, Ok _) \<Rightarrow>
               watch_rounds R (setLastSyncResourceVersion r2 resourceVersion) resourceVersion tries))"

section \<open>A log of events\<close>

type_synonym 'o log_entry = "EventType \<times> 'o \<times> string"

fun recv :: "'o log_entry \<Rightarrow> 'o wselect" where
  "recv (t, obj, v) = Received t (Expected obj v)"

fun log_version :: "'o log_entry \<Rightarrow> string" where
  "log_version (t, obj, v) = v"

fun log_type :: "'o log_entry \<Rightarrow> EventType" where
  "log_type (t, obj, v) = t"

fun apply_log :: "('s, 'o) rstore \<Rightarrow> 'o log_entry list \<Rightarrow> 's \<Rightarrow> 's" where
  "apply_log R [] st = st"
| "apply_log R ((t, obj, v) # es) st = apply_log R es (fst (store_event R st t obj))"

lemma apply_log_append: "apply_log R (xs @ ys) st = apply_log R ys (apply_log R xs st)"
  by (induction R xs st rule: apply_log.induct) simp_all

text \<open>The resource version after the first \<open>i\<close> events of the log.\<close>

definition version_at :: "string \<Rightarrow> 'o log_entry list \<Rightarrow> nat \<Rightarrow> string" where
  "version_at v0 log i = (v0 # map log_version log) ! i"

text \<open>The same with the outcomes: an operation of the store that does not return ends the run.\<close>

fun run_log :: "('s, 'o) rstore \<Rightarrow> 'o log_entry list \<Rightarrow> 's \<Rightarrow> 's \<times> unit outcome" where
  "run_log R [] st = (st, Ok ())"
| "run_log R ((t, obj, v) # es) st =
     (case store_event R st t obj of
        (st', Panic msg) \<Rightarrow> (st', Panic msg)
      | (st', Exit msg) \<Rightarrow> (st', Exit msg)
      | (st', _) \<Rightarrow> run_log R es st')"

lemma run_log_append:
  "run_log R (xs @ ys) st = (case run_log R xs st of (st', Ok _) \<Rightarrow> run_log R ys st' | other \<Rightarrow> other)"
  by (induction R xs st rule: run_log.induct) (auto split: prod.splits outcome.splits)

lemma run_log_apply: "run_log R es st = (st', Ok ()) \<Longrightarrow> st' = apply_log R es st"
  by (induction R es st rule: run_log.induct) (auto split: prod.splits outcome.splits)

lemma run_log_no_fail: "run_log R es st \<noteq> (st', Fail err)"
  by (induction R es st rule: run_log.induct) (auto split: prod.splits outcome.splits)

text \<open>How a watch ends: the channel is closed, the reflector is stopped or has to list again, or the server sends
  an error. Until then (\<open>[]\<close>) the goroutine waits.\<close>

fun watch_over :: "'o wselect list \<Rightarrow> bool" where
  "watch_over [] \<longleftrightarrow> True"
| "watch_over (ChanClosed # sel) \<longleftrightarrow> True"
| "watch_over (StopFired # sel) \<longleftrightarrow> True"
| "watch_over (ResyncFired # sel) \<longleftrightarrow> True"
| "watch_over (Received t obj # sel) \<longleftrightarrow> t = Error"

lemma watch_loop_log:
  assumes "list_all (\<lambda>e. log_type e \<noteq> Error) es" "watch_over tail" "watch_loop R r rv c (map recv es @ tail) = Some (r', rv', n, out)"
  shows "rf_store r' = fst (run_log R es (rf_store r)) \<and>
    ((\<exists>x. out = Ok x) \<and> snd (run_log R es (rf_store r)) = Ok () \<and> rv' = last (rv # map log_version es) \<and>
        rf_lastSyncResourceVersion r' = last (rf_lastSyncResourceVersion r # map log_version es) \<or>
     (\<exists>msg. out = Panic msg \<and> snd (run_log R es (rf_store r)) = Panic msg) \<or>
     (\<exists>msg. out = Exit msg \<and> snd (run_log R es (rf_store r)) = Exit msg))"
  using assms
proof (induction es arbitrary: r rv c)
  case Nil
  then show ?case by (cases tail rule: watch_over.cases) auto
next
  case (Cons e es)
  obtain t obj v where e: "e = (t, obj, v)" by (cases e)
  obtain st o1 where st: "store_event R (rf_store r) t obj = (st, o1)" by fastforce
  let ?r = "setLastSyncResourceVersion (r\<lparr>rf_store := st\<rparr>) v"
  show ?case
  proof (cases "(\<exists>msg. o1 = Panic msg) \<or> (\<exists>msg. o1 = Exit msg)")
    case True
    with Cons.prems e st show ?thesis by auto
  next
    case False
    with Cons.prems e st have "watch_loop R ?r v (Suc c) (map recv es @ tail) = Some (r', rv', n, out)"
      by (cases o1) auto
    from Cons.IH [OF _ Cons.prems(2) this] Cons.prems(1) st e False show ?thesis
      by (cases o1) (auto simp: setLastSyncResourceVersion_def)
  qed
qed

text \<open>A server that answers a watch from a version of the log with some of the events that follow it, however the
  watch then ends.\<close>

definition honest :: "string \<Rightarrow> 'o log_entry list \<Rightarrow> (string \<Rightarrow> int \<Rightarrow> 'o watch_reply) \<Rightarrow> bool" where
  "honest v0 log Watch \<longleftrightarrow> (\<forall>i tmo. i \<le> length log \<longrightarrow>
     (case Watch (version_at v0 log i) tmo of
        Watching sel lasted ended \<Rightarrow> \<exists>n tail. sel = map recv (take n (drop i log)) @ tail \<and> watch_over tail
      | _ \<Rightarrow> True))"

lemma last_version:
  assumes "i \<le> length log"
  shows "last (version_at v0 log i # map log_version (take n (drop i log))) =
    version_at v0 log (i + length (take n (drop i log)))"
proof (cases "take n (drop i log) = []")
  case True
  then show ?thesis by auto
next
  case False
  then have "length (take n (drop i log)) > 0" by simp
  with assms False show ?thesis
    by (auto simp: version_at_def last_map last_conv_nth nth_append min_def)
qed

text \<open>One watch of a session: the session ends with it, or goes on from the version of its last event.\<close>

lemma watch_round_log:
  assumes es: "list_all (\<lambda>e. log_type e \<noteq> Error) es" and tl: "watch_over tail"
    and w: "W v (timeoutForWatch r rt now) = Watching (map recv es @ tail) lasted ended"
    and p: "watch_rounds R r v ((W, rt, now) # tries) = Some (r', out)"
    and v: "rf_lastSyncResourceVersion r = v"
  shows "(rf_store r', out) = run_log R es (rf_store r) \<and>
      (out = Ok () \<longrightarrow> rf_lastSyncResourceVersion r' = last (v # map log_version es)) \<or>
    (\<exists>r1. watch_rounds R r1 (last (v # map log_version es)) tries = Some (r', out) \<and>
      (rf_store r1, Ok ()) = run_log R es (rf_store r) \<and> rf_lastSyncResourceVersion r1 = last (v # map log_version es))"
proof -
  obtain r1 rv1 c1 out1 where l: "watch_loop R r v 0 (map recv es @ tail) = Some (r1, rv1, c1, out1)"
    using p w by (cases "watch_loop R r v 0 (map recv es @ tail)") (auto simp: watchHandler_def)
  note log = watch_loop_log [OF es tl l]
  show ?thesis
  proof (cases out1)
    case (Ok x)
    with log v have "rv1 = last (v # map log_version es)" "rf_lastSyncResourceVersion r1 = last (v # map log_version es)"
      "(rf_store r1, Ok ()) = run_log R es (rf_store r)" by (auto simp: prod_eq_iff)
    with p w l Ok show ?thesis by (cases x) (auto simp: watchHandler_def split: if_splits)
  qed (use log p w l in \<open>auto simp: watchHandler_def prod_eq_iff\<close>)
qed

text \<open>What a session does to the store, whatever its outcome.\<close>

lemma watch_rounds_log:
  assumes "list_all (\<lambda>e. log_type e \<noteq> Error) log" "list_all (\<lambda>(W, _). honest v0 log W) tries" "i \<le> length log"
    and "watch_rounds R r (version_at v0 log i) tries = Some (r', out)"
    and "rf_lastSyncResourceVersion r = version_at v0 log i"
  shows "\<exists>j. i \<le> j \<and> j \<le> length log \<and> (rf_store r', out) = run_log R (take (j - i) (drop i log)) (rf_store r) \<and>
    (out = Ok () \<longrightarrow> rf_lastSyncResourceVersion r' = version_at v0 log j)"
  using assms(2-5)
proof (induction tries arbitrary: i r)
  case Nil
  then show ?case by simp
next
  case (Cons req tries)
  obtain W rt now where t: "req = (W, rt, now)" by (cases req)
  let ?v = "version_at v0 log i"
  show ?case
  proof (cases "W ?v (timeoutForWatch r rt now)")
    case ConnRefused
    with Cons t show ?thesis by simp
  next
    case WatchFails
    with Cons.prems t show ?thesis by (intro exI [of _ i]) simp
  next
    case (Watching sel lasted ended)
    obtain n tail where sel: "sel = map recv (take n (drop i log)) @ tail" "watch_over tail"
      using Cons.prems(1,2) t Watching by (auto simp: honest_def dest!: spec [of _ i] spec [of _ "timeoutForWatch r rt now"])
    let ?es = "take n (drop i log)" and ?j = "i + length (take n (drop i log))"
    have es: "list_all (\<lambda>e. log_type e \<noteq> Error) ?es" using assms(1) by (auto simp: list_all_iff dest!: in_set_takeD in_set_dropD)
    have j: "?j \<le> length log" using Cons.prems(2) by simp
    have here: "take (?j - i) (drop i log) = ?es" by (simp add: min_def)
    from watch_round_log [OF es sel(2) Watching [unfolded sel(1)] Cons.prems(3) [unfolded t] Cons.prems(4)]
    consider (over) "(rf_store r', out) = run_log R ?es (rf_store r)" "out = Ok () \<longrightarrow> rf_lastSyncResourceVersion r' = version_at v0 log ?j"
      | (more) r1 where "watch_rounds R r1 (version_at v0 log ?j) tries = Some (r', out)"
          "(rf_store r1, Ok ()) = run_log R ?es (rf_store r)" "rf_lastSyncResourceVersion r1 = version_at v0 log ?j"
      unfolding last_version [OF Cons.prems(2)] by blast
    then show ?thesis
    proof cases
      case over
      with j here show ?thesis by (intro exI [of _ ?j]) simp
    next
      case more
      from Cons.IH [OF _ j more(1,3)] Cons.prems(1) obtain k where k: "?j \<le> k" "k \<le> length log"
          "(rf_store r', out) = run_log R (take (k - ?j) (drop ?j log)) (rf_store r1)" "out = Ok () \<longrightarrow> rf_lastSyncResourceVersion r' = version_at v0 log k"
        by auto
      have "take (k - i) (drop i log) = ?es @ take (k - ?j) (drop ?j log)"
      proof -
        have "take (k - i) (drop i log) = take (length ?es + (k - ?j)) (drop i log)" using k(1) by simp
        also have "\<dots> = take (length ?es) (drop i log) @ take (k - ?j) (drop (length ?es) (drop i log))" by (rule take_add)
        finally show ?thesis unfolding here [simplified] by (simp add: add.commute min_def)
      qed
      with k more(2) [symmetric] show ?thesis by (intro exI [of _ k]) (simp add: run_log_append)
    qed
  qed
qed

lemma ListAndWatch_log:
  assumes "list_all (\<lambda>e. log_type e \<noteq> Error) log" "list_all (\<lambda>(W, _). honest v0 log W) tries"
    and "ListAndWatch R r now (Listed itms v0) tries = Some (r', out)" "rs_Replace R (rf_store r) itms v0 = (st, Ok ())"
  shows "\<exists>j \<le> length log. (rf_store r', out) = run_log R (take j log) st \<and>
    (out = Ok () \<longrightarrow> LastSyncResourceVersion r' = version_at v0 log j)"
proof -
  let ?r = "setLastSyncResourceVersion ((resyncChan r now)\<lparr>rf_store := st\<rparr>) v0"
  have w: "watch_rounds R ?r (version_at v0 log 0) tries = Some (r', out)"
    using assms(3,4) by (simp add: ListAndWatch_def syncWith_def resyncChan_def version_at_def split: if_splits)
  have "rf_lastSyncResourceVersion ?r = version_at v0 log 0" "rf_store ?r = st"
    by (simp_all add: setLastSyncResourceVersion_def version_at_def)
  with watch_rounds_log [OF assms(1,2) _ w] show ?thesis by (auto simp: LastSyncResourceVersion_def)
qed

section \<open>The event queue as the store\<close>

text \<open>The queue between the reflector and a consumer: before each operation of the reflector the consumer pops some
  keys (the next number of the list, as long as there are any) and applies their events to what it knows.\<close>

type_synonym ('s, 'o) fed = "('s, 'o) EventQueue \<times> (string \<rightharpoonup> 'o) \<times> nat list"

fun pop_keys :: "('s, 'o) kstore \<Rightarrow> nat \<Rightarrow> ('s, 'o) EventQueue \<Rightarrow> (string \<rightharpoonup> 'o) \<Rightarrow> ('s, 'o) EventQueue \<times> (string \<rightharpoonup> 'o)" where
  "pop_keys S 0 q v = (q, v)"
| "pop_keys S (Suc n) q v =
     (case eq_queue q of
        [] \<Rightarrow> (q, v)
      | k # _ \<Rightarrow>
         (case pop_body S q of
            (q', Ok (e, obj)) \<Rightarrow> pop_keys S n q' (deliver e k obj v)
          | (q', _) \<Rightarrow> pop_keys S n q' v))"

definition after_pops ::
  "('s, 'o) kstore \<Rightarrow> (('s, 'o) EventQueue \<Rightarrow> ('s, 'o) EventQueue \<times> unit outcome) \<Rightarrow> ('s, 'o) fed \<Rightarrow> ('s, 'o) fed \<times> unit outcome" where
  "after_pops S oper st =
     (let (q, v, ns) = st;
          (q1, v1) = pop_keys S (case ns of [] \<Rightarrow> 0 | n # _ \<Rightarrow> n) q v;
          (q2, out) = oper q1
      in ((q2, v1, tl ns), out))"

definition fed_store :: "('s, 'o) kstore \<Rightarrow> (('s, 'o) fed, 'o) rstore" where
  "fed_store S = \<lparr>rs_Add = (\<lambda>st x. after_pops S (\<lambda>q. rs_Add (queue_store S) q x) st),
     rs_Update = (\<lambda>st x. after_pops S (\<lambda>q. rs_Update (queue_store S) q x) st),
     rs_Delete = (\<lambda>st x. after_pops S (\<lambda>q. rs_Delete (queue_store S) q x) st),
     rs_Replace = (\<lambda>st xs v. after_pops S (\<lambda>q. rs_Replace (queue_store S) q xs v) st)\<rparr>"

text \<open>The watch protocol on a log: objects that are absent are added, those that are there are modified or deleted.
  \<open>server_after\<close> is what the server then has.\<close>

fun follows :: "'o KeyFunc \<Rightarrow> (string \<rightharpoonup> 'o) \<Rightarrow> 'o log_entry list \<Rightarrow> bool" where
  "follows keyFn m [] \<longleftrightarrow> True"
| "follows keyFn m ((t, obj, v) # es) \<longleftrightarrow>
     (case keyFn obj of
        Inl _ \<Rightarrow> False
      | Inr k \<Rightarrow>
         (case t of
            Added \<Rightarrow> m k = None \<and> follows keyFn (m(k \<mapsto> obj)) es
          | Modified \<Rightarrow> m k \<noteq> None \<and> follows keyFn (m(k \<mapsto> obj)) es
          | Deleted \<Rightarrow> m k \<noteq> None \<and> follows keyFn (m(k := None)) es
          | _ \<Rightarrow> False))"

fun server_after :: "'o KeyFunc \<Rightarrow> (string \<rightharpoonup> 'o) \<Rightarrow> 'o log_entry list \<Rightarrow> (string \<rightharpoonup> 'o)" where
  "server_after keyFn m [] = m"
| "server_after keyFn m ((t, obj, v) # es) =
     server_after keyFn (case keyFn obj of Inr k \<Rightarrow> deliver t k obj m | Inl _ \<Rightarrow> m) es"

lemma follows_types: "follows keyFn m es \<Longrightarrow> list_all (\<lambda>e. log_type e \<noteq> Error) es"
  by (induction keyFn m es rule: follows.induct) (auto split: sum.split_asm EventType.split_asm)

lemma follows_take: "follows keyFn m es \<Longrightarrow> follows keyFn m (take j es)"
proof (induction es arbitrary: m j)
  case (Cons e es)
  obtain t obj v where e: "e = (t, obj, v)" by (cases e)
  with Cons show ?case by (cases j) (auto split: sum.split_asm EventType.split_asm)
qed simp

abbreviation queue_reach :: "'o KeyFunc \<Rightarrow> ('o cache, 'o) eq_sys \<Rightarrow> bool" where
  "queue_reach keyFn \<equiv> reach (queue_system keyFn) (eq_sys_init (NewEventQueue keyFn))"

lemma pop_keys_reach:
  assumes "queue_reach keyFn s" "pop_keys (cache_store keyFn) n (sq s) (view s) = (q, v)"
  shows "\<exists>t. queue_reach keyFn t \<and> sq t = q \<and> view t = v \<and> server t = server s \<and> crashed t = crashed s"
  using assms
proof (induction n arbitrary: s)
  case 0
  then show ?case by auto
next
  case (Suc n)
  note inv = queue_system_inv(2) [OF Suc.prems(1)]
  show ?case
  proof (cases "eq_queue (sq s)")
    case Nil
    with Suc.prems show ?thesis by auto
  next
    case (Cons k rest)
    obtain q1 e obj where p: "pop_body (cache_store keyFn) (sq s) = (q1, Ok (e, obj))"
      using cs.pop_body_ok [OF inv Cons] by blast
    let ?t = "s\<lparr>sq := q1, view := deliver e k obj (view s), pending := tl (pending s)\<rparr>"
    have "queue_system keyFn s LPop = Some ?t" using Cons p by simp
    then have "queue_reach keyFn ?t" by (rule reach_step [OF Suc.prems(1)])
    from Suc.IH [OF this] Suc.prems(2) Cons p show ?thesis by auto
  qed
qed

text \<open>One event of the log: the queue takes the step of the queue system, and panics only if the system crashes.\<close>

lemma store_event_step:
  assumes s: "queue_reach keyFn s" "\<not> crashed s" and f: "follows keyFn (server s) ((t, obj, v) # es)"
    and e: "store_event (queue_store (cache_store keyFn)) (sq s) t obj = (q, out)"
  shows "\<exists>u. queue_reach keyFn u \<and> sq u = q \<and> view u = view s \<and> server u = server_after keyFn (server s) [(t, obj, v)] \<and>
    (if crashed u then out = Panic (invalid_transition Deleted Added) else out = Ok () \<and> follows keyFn (server u) es)"
proof -
  note inv = queue_system_inv [OF s(1)]
  from f obtain k where k: "keyFn obj = Inr k" by (auto split: sum.split_asm)
  have kf: "eq_keyFn (sq s) = keyFn" using inv(2) cs.queue_okD(1) by (auto simp: cs.sync_inv_def)
  define l where "l = (if t = Added then LAdd obj else if t = Modified then LUpdate obj else LDelete obj)"
  have t: "t \<in> {Added, Modified, Deleted}" using f k by (auto split: EventType.split_asm)
  let ?w = "if t = Deleted then None else Some obj"
  have e': "handleEvent (cache_store keyFn) (sq s) obj t = (q, out)"
    using e t by (auto simp: store_event_def queue_store_def eq_Add_def eq_Update_def eq_Delete_def)
  have step: "queue_system keyFn s l = Some (emit s k ?w (q, out))"
    using t f k kf e' by (auto simp: l_def eq_Add_def eq_Update_def eq_Delete_def)
  have "out = Ok () \<or> out = Panic (invalid_transition Deleted Added)"
    using t f k e' inv(3) s(2) cs.step_producer(2) [OF inv(2) k, of t ?w] cs.readd_panics [OF inv(2) k]
    by (cases "t = Added \<and> eq_events (sq s) k = Some Deleted") auto
  with reach_step [OF s(1) step] s(2) t f k show ?thesis
    by (intro exI [of _ "emit s k ?w (q, out)"]) (auto simp: emit_def)
qed

lemma fed_event:
  assumes "t \<in> {Added, Modified, Deleted}"
  shows "store_event (fed_store S) st t obj = after_pops S (\<lambda>q. store_event (queue_store S) q t obj) st"
  using assms by (auto simp: store_event_def fed_store_def)

lemma run_log_reach:
  assumes "queue_reach keyFn s" "\<not> crashed s" "follows keyFn (server s) es"
    and "run_log (fed_store (cache_store keyFn)) es (sq s, view s, ns) = ((q, v, ns'), out)"
  shows "\<exists>u j. queue_reach keyFn u \<and> sq u = q \<and> view u = v \<and> j \<le> length es \<and> server u = server_after keyFn (server s) (take j es) \<and>
    (if crashed u then out = Panic (invalid_transition Deleted Added) else out = Ok () \<and> j = length es)"
  using assms
proof (induction es arbitrary: s ns)
  case Nil
  then show ?case by auto
next
  case (Cons e es)
  obtain t obj ver where e: "e = (t, obj, ver)" by (cases e)
  have t: "t \<in> {Added, Modified, Deleted}" using Cons.prems(3) e by (auto split: sum.split_asm EventType.split_asm)
  obtain q1 v1 where p: "pop_keys (cache_store keyFn) (case ns of [] \<Rightarrow> 0 | n # _ \<Rightarrow> n) (sq s) (view s) = (q1, v1)" by fastforce
  obtain s1 where s1: "queue_reach keyFn s1" "sq s1 = q1" "view s1 = v1" "server s1 = server s" "crashed s1 = crashed s"
    using pop_keys_reach [OF Cons.prems(1) p] by blast
  obtain q2 o2 where o2: "store_event (queue_store (cache_store keyFn)) (sq s1) t obj = (q2, o2)" by fastforce
  have s1': "\<not> crashed s1" "follows keyFn (server s1) ((t, obj, ver) # es)" using Cons.prems(2,3) s1 e by simp_all
  from store_event_step [OF s1(1) s1' o2] obtain u where u: "queue_reach keyFn u" "sq u = q2" "view u = v1"
      "server u = server_after keyFn (server s) [e]"
      "if crashed u then o2 = Panic (invalid_transition Deleted Added) else o2 = Ok () \<and> follows keyFn (server u) es"
    using s1 e by auto
  have run: "store_event (fed_store (cache_store keyFn)) (sq s, view s, ns) t obj = ((sq u, view u, tl ns), o2)"
    using p o2 s1 u by (simp add: fed_event [OF t] after_pops_def)
  show ?case
  proof (cases "crashed u")
    case True
    with u run Cons.prems(4) e show ?thesis by (intro exI [of _ u] exI [of _ 1]) auto
  next
    case False
    with u run Cons.prems(4) e have "run_log (fed_store (cache_store keyFn)) es (sq u, view u, tl ns) = ((q, v, ns'), out)" by simp
    from Cons.IH [OF u(1) False _ this] u(5) False obtain x j where x: "queue_reach keyFn x" "sq x = q" "view x = v" "j \<le> length es"
        "server x = server_after keyFn (server u) (take j es)"
        "if crashed x then out = Panic (invalid_transition Deleted Added) else out = Ok () \<and> j = length es" by auto
    then show ?thesis using u(4) e by (intro exI [of _ x] exI [of _ "Suc j"]) auto
  qed
qed

section \<open>Properties\<close>

text \<open>C13: no gap and no repetition. However the watches of the server end, and whichever it refuses, as long as each
  watch it grants starts right after the requested version, \<open>ListAndWatch\<close> has applied to the store exactly the listed
  objects and then a prefix of the server's log, in order and each event once, and remembers the version of the last one.\<close>

theorem reflector_follows_log:
  assumes "list_all (\<lambda>e. log_type e \<noteq> Error) log" "list_all (\<lambda>(W, _). honest v0 log W) tries"
    and "ListAndWatch R r now (Listed itms v0) tries = Some (r', Ok ())"
  shows "\<exists>j \<le> length log. rf_store r' = apply_log R (take j log) (fst (rs_Replace R (rf_store r) itms v0)) \<and>
    LastSyncResourceVersion r' = version_at v0 log j"
proof -
  obtain st where st: "rs_Replace R (rf_store r) itms v0 = (st, Ok ())"
    using assms(3) by (cases "rs_Replace R (rf_store r) itms v0"; cases "snd (rs_Replace R (rf_store r) itms v0)")
      (auto simp: ListAndWatch_def syncWith_def resyncChan_def Let_def split: if_splits)
  from ListAndWatch_log [OF assms st] st show ?thesis by (auto dest!: run_log_apply [OF sym])
qed

theorem reflector_follows_log_witness:
  "let R = \<lparr>rs_Add = (\<lambda>st x. (st @ [x], Ok ())), rs_Update = (\<lambda>st x. (st @ [x], Ok ())), rs_Delete = (\<lambda>st x. (st, Ok ())),
        rs_Replace = (\<lambda>st xs v. (xs, Ok ()))\<rparr>;
      r = NewNamedReflector ''services'' [] 0;
      log = [(Added, 7 :: int, ''5''), (Modified, 8, ''6'')];
      W = (\<lambda>v tmo. if v = ''4'' then Watching (map recv (take 1 log) @ [ChanClosed]) True 0 else WatchFails)
   in \<exists>r'. ListAndWatch R r 0 (Listed [1] ''4'') [(W, 0, 0), (W, 0, 0)] = Some (r', Ok ()) \<and>
        rf_store r' = [1, 7] \<and> LastSyncResourceVersion r' = ''5''"
proof -
  let ?R = "\<lparr>rs_Add = (\<lambda>st x. (st @ [x], Ok ())), rs_Update = (\<lambda>st x. (st @ [x], Ok ())), rs_Delete = (\<lambda>st x. (st, Ok ())),
        rs_Replace = (\<lambda>st xs v. (xs, Ok ()))\<rparr>"
  let ?r = "NewNamedReflector ''services'' [] 0" and ?log = "[(Added, 7 :: int, ''5''), (Modified, 8, ''6'')]"
  let ?W = "\<lambda>v (tmo :: int). if v = ''4'' then Watching (map recv (take 1 ?log) @ [ChanClosed]) True 0 else WatchFails"
  obtain r' where r': "ListAndWatch ?R ?r 0 (Listed [1] ''4'') [(?W, 0, 0), (?W, 0, 0)] = Some (r', Ok ())"
      "LastSyncResourceVersion r' = ''5''"
    by (simp add: ListAndWatch_def syncWith_def resyncChan_def NewNamedReflector_def setLastSyncResourceVersion_def
        watchHandler_def store_event_def canForceResyncNow_def LastSyncResourceVersion_def)
  have h: "honest ''4'' ?log ?W"
  proof -
    have "version_at ''4'' ?log i = ''4'' \<Longrightarrow> i \<le> 2 \<Longrightarrow> i = 0" for i
      by (cases i rule: nat.exhaust; cases "i - 1"; cases "i - 2") (auto simp: version_at_def)
    note v = this
    show ?thesis unfolding honest_def
    proof (intro allI impI)
      fix i and tmo :: int assume i: "i \<le> length ?log"
      show "case ?W (version_at ''4'' ?log i) tmo of
          Watching sel lasted ended \<Rightarrow> \<exists>n tail. sel = map recv (take n (drop i ?log)) @ tail \<and> watch_over tail | _ \<Rightarrow> True"
      proof (cases "version_at ''4'' ?log i = ''4''")
        case True
        with v [of i] i have "i = 0" by simp
        with True show ?thesis by (auto intro!: exI [of _ 1] exI [of _ "[ChanClosed]"])
      qed simp
    qed
  qed
  have "\<exists>j \<le> length ?log. rf_store r' = apply_log ?R (take j ?log) (fst (rs_Replace ?R (rf_store ?r) [1] ''4'')) \<and>
      LastSyncResourceVersion r' = version_at ''4'' ?log j"
    by (rule reflector_follows_log [OF _ _ r'(1)]) (use h in simp_all)
  then obtain j where j: "j \<le> Suc (Suc 0)" "rf_store r' = apply_log ?R (take j ?log) [1]" "version_at ''4'' ?log j = ''5''"
    using r'(2) by auto
  have "j = 1" using j(1,3) by (cases j; cases "j - 1"; cases "j - 2") (auto simp: version_at_def)
  with j r' show ?thesis by (auto simp: Let_def store_event_def)
qed

text \<open>C12: the reflector and its event queue. The list has distinct non-empty keys, the server's log follows the watch
  protocol and its watches send stretches of it; the consumer pops what it likes in between. Then a session of the
  reflector leaves queue and consumer in a state of the queue system in which the server has the objects of a prefix of
  the log. It ends either with the panic of an add over a queued deletion, and the system has crashed, or without one;
  then popping every queued key leaves the consumer with the current state of every object of the server.\<close>

theorem reflector_feeds_queue:
  assumes "obj_keys keyFn itms = Some ks" "distinct ks" "'''' \<notin> set ks" "keyed_map keyFn Map.empty itms = Inr m"
    and "follows keyFn m log" "list_all (\<lambda>(W, _). honest v0 log W) tries"
    and "queue_reach keyFn s0" "rf_store r = (sq s0, view s0, pops)"
    and "ListAndWatch (fed_store (cache_store keyFn)) r now (Listed itms v0) tries = Some (r', out)"
  shows "\<exists>s j. j \<le> length log \<and> queue_reach keyFn s \<and> sq s = fst (rf_store r') \<and> view s = fst (snd (rf_store r')) \<and>
    server s = server_after keyFn m (take j log) \<and>
    (if crashed s then out = Panic (invalid_transition Deleted Added)
     else out = Ok () \<and> LastSyncResourceVersion r' = version_at v0 log j \<and>
       (\<exists>t. run_steps (queue_system keyFn) s (replicate (length (eq_queue (sq s))) LPop) = Some t \<and> eq_queue (sq t) = [] \<and>
          (\<forall>k obj. server s k = Some obj \<longrightarrow> view t k = Some obj)))"
proof -
  let ?S = "cache_store keyFn"
  obtain q0 v1 where p: "pop_keys ?S (case pops of [] \<Rightarrow> 0 | n # _ \<Rightarrow> n) (sq s0) (view s0) = (q0, v1)" by fastforce
  obtain s1 where s1: "queue_reach keyFn s1" "sq s1 = q0" "view s1 = v1" using pop_keys_reach [OF assms(7) p] by blast
  obtain s2 where s2: "queue_reach keyFn s2" "eq_Replace ?S (sq s1) itms v0 = (sq s2, Ok ())" "view s2 = v1" "server s2 = m" "\<not> crashed s2"
    using relist_reach [OF s1(1) assms(1-4), of v0] s1(3) by blast
  have "rs_Replace (fed_store ?S) (rf_store r) itms v0 = ((sq s2, view s2, tl pops), Ok ())"
    using p s1 s2 assms(8) by (simp add: fed_store_def after_pops_def queue_store_def)
  from ListAndWatch_log [OF follows_types [OF assms(5)] assms(6,9) this] obtain i where i: "i \<le> length log"
      "(rf_store r', out) = run_log (fed_store ?S) (take i log) (sq s2, view s2, tl pops)"
      "out = Ok () \<longrightarrow> LastSyncResourceVersion r' = version_at v0 log i" by blast
  obtain q v ns' where r': "rf_store r' = (q, v, ns')" by (cases "rf_store r'")
  have "follows keyFn (server s2) (take i log)" using follows_take [OF assms(5)] s2(4) by simp
  from run_log_reach [OF s2(1,5) this i(2) [unfolded r', symmetric]] obtain s j where s: "queue_reach keyFn s" "sq s = q" "view s = v"
      "j \<le> length (take i log)" "server s = server_after keyFn (server s2) (take j (take i log))"
      "if crashed s then out = Panic (invalid_transition Deleted Added) else out = Ok () \<and> j = length (take i log)" by blast
  have "j \<le> i" "take j (take i log) = take j log" using s(4) by (auto simp: min_def split: if_splits)
  with s i(1) s2(4) have "server s = server_after keyFn m (take j log)" "j \<le> length log"
    "if crashed s then out = Panic (invalid_transition Deleted Added) else out = Ok () \<and> j = i" by (auto simp: min_def)
  with i(3) s(1-3) r' drain_current [OF s(1)] show ?thesis by (intro exI [of _ s] exI [of _ j]) auto
qed

theorem reflector_feeds_queue_witness:
  "let log = [(Deleted, (''a'', 1 :: int), ''5''), (Added, (''a'', 2), ''6'')];
       W = (\<lambda>v (tmo :: int). if v = ''4'' then Watching (map recv log @ [ChanClosed]) True 0 else WatchFails);
       r = NewNamedReflector ''services'' (NewEventQueue pair_key, Map.empty, [0, 0, 1]) 0
   in \<exists>r' s t. ListAndWatch (fed_store (cache_store pair_key)) r 0 (Listed [(''a'', 1)] ''4'') [(W, 0, 0), (W, 0, 0)] = Some (r', Ok ()) \<and>
        sq s = fst (rf_store r') \<and> view s = Map.empty \<and> run_steps (queue_system pair_key) s [LPop] = Some t \<and> view t ''a'' = Some (''a'', 2)"
proof -
  let ?log = "[(Deleted, (''a'', 1 :: int), ''5''), (Added, (''a'', 2), ''6'')]"
  let ?W = "\<lambda>v (tmo :: int). if v = ''4'' then Watching (map recv ?log @ [ChanClosed]) True 0 else WatchFails"
  let ?r = "NewNamedReflector ''services'' (NewEventQueue pair_key, Map.empty, [0, 0, 1]) 0"
  let ?s0 = "eq_sys_init (NewEventQueue pair_key)"
  obtain r' where r': "ListAndWatch (fed_store (cache_store pair_key)) ?r 0 (Listed [(''a'', 1)] ''4'') [(?W, 0, 0), (?W, 0, 0)] = Some (r', Ok ())"
      "LastSyncResourceVersion r' = ''6''" "eq_queue (fst (rf_store r')) = [''a'']" "fst (snd (rf_store r')) = Map.empty"
    by (simp add: ListAndWatch_def syncWith_def resyncChan_def NewNamedReflector_def setLastSyncResourceVersion_def queue_eval
        watchHandler_def store_event_def canForceResyncNow_def LastSyncResourceVersion_def fed_store_def after_pops_def queue_store_def)
  have v: "version_at ''4'' ?log i = ''4'' \<Longrightarrow> i \<le> 2 \<Longrightarrow> i = 0" for i
    by (cases i rule: nat.exhaust; cases "i - 1"; cases "i - 2") (auto simp: version_at_def)
  have h: "honest ''4'' ?log ?W" unfolding honest_def
  proof (intro allI impI)
    fix i and tmo :: int assume i: "i \<le> length ?log"
    show "case ?W (version_at ''4'' ?log i) tmo of
        Watching sel lasted ended \<Rightarrow> \<exists>n tail. sel = map recv (take n (drop i ?log)) @ tail \<and> watch_over tail | _ \<Rightarrow> True"
    proof (cases "version_at ''4'' ?log i = ''4''")
      case True
      with v [of i] i have "i = 0" by simp
      with True show ?thesis by (auto intro!: exI [of _ 2] exI [of _ "[ChanClosed]"])
    qed simp
  qed
  have "rf_store ?r = (sq ?s0, view ?s0, [0, 0, 1])" by (simp add: NewNamedReflector_def eq_sys_init_def)
  from reflector_feeds_queue [OF _ _ _ _ _ _ reach_init this r'(1), of "[''a'']" "[''a'' \<mapsto> (''a'', 1)]" ?log] h
  obtain s j where j: "j \<le> length ?log" and s: "sq s = fst (rf_store r')" "view s = fst (snd (rf_store r'))"
      "server s = server_after pair_key [''a'' \<mapsto> (''a'', 1)] (take j ?log)"
    and c: "if crashed s then Ok () = Panic (invalid_transition Deleted Added)
      else Ok () = Ok () \<and> LastSyncResourceVersion r' = version_at ''4'' ?log j \<and>
       (\<exists>t. run_steps (queue_system pair_key) s (replicate (length (eq_queue (sq s))) LPop) = Some t \<and> eq_queue (sq t) = [] \<and>
          (\<forall>k obj. server s k = Some obj \<longrightarrow> view t k = Some obj))"
    by fastforce
  have "\<not> crashed s" using c by (cases "crashed s") auto
  with c r'(2) have v6: "version_at ''4'' ?log j = ''6''" by simp
  have "j = 2" using j v6 by (cases j; cases "j - 1"; cases "j - 2") (auto simp: version_at_def)
  with s r' c \<open>\<not> crashed s\<close> show ?thesis by (auto simp: Let_def)
qed

text \<open>The timeout of a watch request is between 0 and 600 seconds, whatever the clock and the planned resync
  are (the subtraction saturates and then wraps when no resync is planned), and when a resync is planned at least
  a second ahead the watch ends at least a second before it.\<close>

theorem watch_timeout_bounds:
  assumes "sint minWatchTimeout \<le> sint randTimeout" "sint randTimeout < 2 * sint minWatchTimeout"
  shows "0 \<le> timeoutForWatch r randTimeout now \<and> timeoutForWatch r randTimeout now < 600 \<and>
    (1000000000 \<le> rf_nextResync r - now \<and> rf_nextResync r - now < 2 ^ 63 \<longrightarrow>
      now + timeoutForWatch r randTimeout now * 1000000000 \<le> rf_nextResync r - 1000000000)"
proof -
  have m: "sint minWatchTimeout = 300000000000" by (simp add: minWatchTimeout_def)
  let ?t = "time_Sub (rf_nextResync r) now - timeoutThreshold"
  let ?c = "if dur_less ?t 0 \<or> dur_less randTimeout ?t then randTimeout else ?t"
  have c: "0 \<le> sint ?c" "sint ?c < 600000000000" using assms m by auto
  have div: "0 \<le> sint ?c div 1000000000" "sint ?c div 1000000000 < 600" using c by auto
  have "sint ?c \<le> rf_nextResync r - now - 1000000000"
    if d: "1000000000 \<le> rf_nextResync r - now" "rf_nextResync r - now < 2 ^ 63"
  proof -
    have "time_Sub (rf_nextResync r) now = word_of_int (rf_nextResync r - now)"
      unfolding time_Sub_def using d by (intro arg_cong [of _ _ word_of_int]) auto
    then have t: "?t = word_of_int (rf_nextResync r - now - 1000000000)" by (simp add: timeoutThreshold_def)
    have "sint ?t = rf_nextResync r - now - 1000000000"
      unfolding t sint_sbintrunc' by (rule signed_take_bit_int_eq_self) (use d in auto)
    then show ?thesis using d by auto
  qed
  then have le: "sint ?c div 1000000000 * 1000000000 \<le> rf_nextResync r - now - 1000000000"
    if "1000000000 \<le> rf_nextResync r - now" "rf_nextResync r - now < 2 ^ 63" using that by fastforce
  have eq: "timeoutForWatch r randTimeout now = sint ?c div 1000000000" by (simp add: timeoutForWatch_def Let_def)
  have "now + timeoutForWatch r randTimeout now * 1000000000 \<le> rf_nextResync r - 1000000000"
    if "1000000000 \<le> rf_nextResync r - now" "rf_nextResync r - now < 2 ^ 63"
    using le [OF that] unfolding eq by linarith
  with div show ?thesis unfolding eq by blast
qed

theorem watch_timeout_bounds_witness:
  "timeoutForWatch (NewNamedReflector ''services'' () 0) 400000000000 1500000000000000000 < 600 \<and>
   1800 * 1000000000 + timeoutForWatch (resyncChan (NewNamedReflector ''services'' () (30 * 1000000000)) (1800 * 1000000000)) 400000000000 (1800 * 1000000000) * 1000000000
     \<le> 1829 * 1000000000"
proof -
  have r: "sint minWatchTimeout \<le> sint (400000000000 :: duration)" "sint (400000000000 :: duration) < 2 * sint minWatchTimeout"
    by (simp_all add: minWatchTimeout_def)
  have "rf_nextResync (resyncChan (NewNamedReflector ''services'' () (30 * 1000000000)) (1800 * 1000000000)) = 1830 * 1000000000"
    by (simp add: resyncChan_def NewNamedReflector_def)
  with watch_timeout_bounds [OF r, of "NewNamedReflector ''services'' () 0" 1500000000000000000]
    watch_timeout_bounds [OF r, of "resyncChan (NewNamedReflector ''services'' () (30 * 1000000000)) (1800 * 1000000000)" "1800 * 1000000000"]
  show ?thesis by simp
qed

end
