(* ===== verification/Indexer.thy ===== *)
theory Indexer
  imports Store "HOL-Library.List_Lexorder" "HOL-Library.Char_ord"
begin

text \<open>
  \<open>pkg/util/sets/string.go\<close>, \<open>pkg/client/cache/index.go\<close> and the index part of
  \<open>pkg/client/cache/thread_safe_store.go\<close> (vendored): sets of strings, and the store whose objects can be looked up by the
  values that index functions compute. The theory \<open>Store\<close> has the same store without indices, as the daemon uses it.

  A set is a Go map to the empty struct. The maps of an index and its sets belong to one store, so they are values. A key
  that an index names but the store does not hold would be read as \<open>nil\<close>: the lists of objects are lists of options.
\<close>

section \<open>Sets of strings\<close>

type_synonym sets_String = "(string, unit) gomap"

fun sets_Insert :: "string list \<Rightarrow> sets_String \<Rightarrow> sets_String" where
  "sets_Insert [] s = s"
| "sets_Insert (item # its) s = sets_Insert its (gm_set item () s)"

fun sets_Delete :: "string list \<Rightarrow> sets_String \<Rightarrow> sets_String" where
  "sets_Delete [] s = s"
| "sets_Delete (item # its) s = sets_Delete its (gm_del item s)"

definition NewString :: "string list \<Rightarrow> sets_String" where
  "NewString its = sets_Insert its []"

definition sets_Has :: "sets_String \<Rightarrow> string \<Rightarrow> bool" where
  "sets_Has s item \<longleftrightarrow> gm_get s item \<noteq> None"

fun HasAll :: "sets_String \<Rightarrow> string list \<Rightarrow> bool" where
  "HasAll s [] = True"
| "HasAll s (item # its) = (if \<not> sets_Has s item then False else HasAll s its)"

fun HasAny :: "sets_String \<Rightarrow> string list \<Rightarrow> bool" where
  "HasAny s [] = False"
| "HasAny s (item # its) = (if sets_Has s item then True else HasAny s its)"

definition sets_Len :: "sets_String \<Rightarrow> nat" where
  "sets_Len s = length s"

fun insert_if :: "(string \<Rightarrow> bool) \<Rightarrow> string list \<Rightarrow> sets_String \<Rightarrow> sets_String" where
  "insert_if P [] result = result"
| "insert_if P (key # ks) result = insert_if P ks (if P key then sets_Insert [key] result else result)"

definition Difference :: "sets_String \<Rightarrow> sets_String \<Rightarrow> sets_String" where
  "Difference s s2 = insert_if (\<lambda>key. \<not> sets_Has s2 key) (map fst s) (NewString [])"

definition Union :: "sets_String \<Rightarrow> sets_String \<Rightarrow> sets_String" where
  "Union s1 s2 = insert_if (\<lambda>_. True) (map fst s2) (insert_if (\<lambda>_. True) (map fst s1) (NewString []))"

definition Intersection :: "sets_String \<Rightarrow> sets_String \<Rightarrow> sets_String" where
  "Intersection s1 s2 =
     (let (walk, other) = (if sets_Len s1 < sets_Len s2 then (s1, s2) else (s2, s1)) in
      insert_if (sets_Has other) (map fst walk) (NewString []))"

definition IsSuperset :: "sets_String \<Rightarrow> sets_String \<Rightarrow> bool" where
  "IsSuperset s1 s2 \<longleftrightarrow> HasAll s1 (map fst s2)"

definition sets_Equal :: "sets_String \<Rightarrow> sets_String \<Rightarrow> bool" where
  "sets_Equal s1 s2 \<longleftrightarrow> length s1 = length s2 \<and> IsSuperset s1 s2"

definition sets_List :: "sets_String \<Rightarrow> string list" where
  "sets_List s = sort (map fst s)"

text \<open>Which element \<open>PopAny\<close> returns depends on the order of the map: here the first.\<close>

definition PopAny :: "sets_String \<Rightarrow> sets_String \<times> string option" where
  "PopAny s = (case s of [] \<Rightarrow> (s, None) | (key, _) # _ \<Rightarrow> (sets_Delete [key] s, Some key))"

section \<open>The indexed store\<close>

type_synonym 'o IndexFunc = "'o \<Rightarrow> gerror + string list"
type_synonym Index = "(string, sets_String) gomap"

record 'o indexedMap =
  im_items :: "(string, 'o) gomap"
  im_indexers :: "(string, 'o IndexFunc) gomap"
  im_indices :: "(string, Index) gomap"

definition NewIndexedStore :: "(string, 'o IndexFunc) gomap \<Rightarrow> (string, Index) gomap \<Rightarrow> 'o indexedMap" where
  "NewIndexedStore indexers indices = \<lparr>im_items = [], im_indexers = indexers, im_indices = indices\<rparr>"

fun insert_values :: "string \<Rightarrow> string list \<Rightarrow> Index \<Rightarrow> Index" where
  "insert_values key [] index = index"
| "insert_values key (indexValue # vs) index =
     insert_values key vs (gm_set indexValue (sets_Insert [key] (case gm_get index indexValue of Some s \<Rightarrow> s | None \<Rightarrow> [])) index)"

fun delete_values :: "string \<Rightarrow> string list \<Rightarrow> Index \<Rightarrow> Index" where
  "delete_values key [] index = index"
| "delete_values key (indexValue # vs) index =
     delete_values key vs (case gm_get index indexValue of Some s \<Rightarrow> gm_set indexValue (sets_Delete [key] s) index | None \<Rightarrow> index)"

fun add_loop :: "(string \<times> 'o IndexFunc) list \<Rightarrow> 'o \<Rightarrow> string \<Rightarrow> (string, Index) gomap \<Rightarrow> (string, Index) gomap \<times> gerror option" where
  "add_loop [] newObj key indices = (indices, None)"
| "add_loop ((name, indexFunc) # rest) newObj key indices =
     (case indexFunc newObj of
        Inl err \<Rightarrow> (indices, Some err)
      | Inr indexValues \<Rightarrow>
          add_loop rest newObj key (gm_set name (insert_values key indexValues (case gm_get indices name of Some i \<Rightarrow> i | None \<Rightarrow> [])) indices))"

fun deleteFromIndices :: "(string \<times> 'o IndexFunc) list \<Rightarrow> 'o \<Rightarrow> string \<Rightarrow> (string, Index) gomap \<Rightarrow> (string, Index) gomap \<times> gerror option" where
  "deleteFromIndices [] obj key indices = (indices, None)"
| "deleteFromIndices ((name, indexFunc) # rest) obj key indices =
     (case indexFunc obj of
        Inl err \<Rightarrow> (indices, Some err)
      | Inr indexValues \<Rightarrow>
          deleteFromIndices rest obj key
            (case gm_get indices name of Some i \<Rightarrow> gm_set name (delete_values key indexValues i) indices | None \<Rightarrow> indices))"

text \<open>An error of \<open>deleteFromIndices\<close> is ignored here, and the callers ignore that of \<open>updateIndices\<close>.\<close>

definition updateIndices :: "'o option \<Rightarrow> 'o \<Rightarrow> string \<Rightarrow> 'o indexedMap \<Rightarrow> 'o indexedMap \<times> gerror option" where
  "updateIndices oldObj newObj key c =
     (let indices = (case oldObj of Some obj \<Rightarrow> fst (deleteFromIndices (im_indexers c) obj key (im_indices c)) | None \<Rightarrow> im_indices c) in
      case add_loop (im_indexers c) newObj key indices of (indices', err) \<Rightarrow> (c\<lparr>im_indices := indices'\<rparr>, err))"

definition im_Add :: "'o indexedMap \<Rightarrow> string \<Rightarrow> 'o \<Rightarrow> 'o indexedMap" where
  "im_Add c key obj = fst (updateIndices (gm_get (im_items c) key) obj key (c\<lparr>im_items := gm_set key obj (im_items c)\<rparr>))"

definition im_Update :: "'o indexedMap \<Rightarrow> string \<Rightarrow> 'o \<Rightarrow> 'o indexedMap" where
  "im_Update c key obj = fst (updateIndices (gm_get (im_items c) key) obj key (c\<lparr>im_items := gm_set key obj (im_items c)\<rparr>))"

definition im_Delete :: "'o indexedMap \<Rightarrow> string \<Rightarrow> 'o indexedMap" where
  "im_Delete c key =
     (case gm_get (im_items c) key of
        Some obj \<Rightarrow> c\<lparr>im_indices := fst (deleteFromIndices (im_indexers c) obj key (im_indices c)), im_items := gm_del key (im_items c)\<rparr>
      | None \<Rightarrow> c)"

fun rebuild :: "(string \<times> 'o) list \<Rightarrow> 'o indexedMap \<Rightarrow> 'o indexedMap" where
  "rebuild [] c = c"
| "rebuild ((key, item) # its) c = rebuild its (fst (updateIndices None item key c))"

definition im_Replace :: "'o indexedMap \<Rightarrow> (string, 'o) gomap \<Rightarrow> string \<Rightarrow> 'o indexedMap" where
  "im_Replace c itms resourceVersion = rebuild itms (c\<lparr>im_items := itms, im_indices := []\<rparr>)"

definition index_sets :: "'o indexedMap \<Rightarrow> string \<Rightarrow> string \<Rightarrow> sets_String" where
  "index_sets c indexName indexKey =
     (case gm_get (im_indices c) indexName of
        None \<Rightarrow> []
      | Some index \<Rightarrow> (case gm_get index indexKey of None \<Rightarrow> [] | Some s \<Rightarrow> s))"

fun collect_keys :: "'o indexedMap \<Rightarrow> string \<Rightarrow> string list \<Rightarrow> sets_String \<Rightarrow> sets_String" where
  "collect_keys c indexName [] returnKeySet = returnKeySet"
| "collect_keys c indexName (indexKey # indexKeys) returnKeySet =
     collect_keys c indexName indexKeys (sets_Insert (sets_List (index_sets c indexName indexKey)) returnKeySet)"

definition im_Index :: "'o indexedMap \<Rightarrow> string \<Rightarrow> 'o \<Rightarrow> gerror + 'o option list" where
  "im_Index c indexName obj =
     (case gm_get (im_indexers c) indexName of
        None \<Rightarrow> Inl (Errorf ''Index with name does not exist'')
      | Some indexFunc \<Rightarrow>
          (case indexFunc obj of
             Inl err \<Rightarrow> Inl err
           | Inr indexKeys \<Rightarrow> Inr (map (gm_get (im_items c)) (map fst (collect_keys c indexName indexKeys [])))))"

definition ByIndex :: "'o indexedMap \<Rightarrow> string \<Rightarrow> string \<Rightarrow> gerror + 'o option list" where
  "ByIndex c indexName indexKey =
     (case gm_get (im_indexers c) indexName of
        None \<Rightarrow> Inl (Errorf ''Index with name does not exist'')
      | Some _ \<Rightarrow> Inr (map (gm_get (im_items c)) (sets_List (index_sets c indexName indexKey))))"

definition ListIndexFuncValues :: "'o indexedMap \<Rightarrow> string \<Rightarrow> string list" where
  "ListIndexFuncValues c indexName = (case gm_get (im_indices c) indexName of None \<Rightarrow> [] | Some index \<Rightarrow> map fst index)"

definition IndexFuncToKeyFuncAdapter :: "'o IndexFunc \<Rightarrow> 'o \<Rightarrow> string outcome" where
  "IndexFuncToKeyFuncAdapter indexFunc obj =
     (case indexFunc obj of
        Inl err \<Rightarrow> Fail err
      | Inr indexKeys \<Rightarrow>
          if length indexKeys > 1 then Fail (Errorf ''too many keys'')
          else (case indexKeys of [] \<Rightarrow> Panic ''index out of range'' | k # _ \<Rightarrow> Ok k))"

definition MetaNamespaceIndexFunc :: "('o \<Rightarrow> gerror + string \<times> string) \<Rightarrow> 'o IndexFunc" where
  "MetaNamespaceIndexFunc Accessor obj =
     (case Accessor obj of Inl err \<Rightarrow> Inl (Errorf ''object has no meta'') | Inr (ns, name) \<Rightarrow> Inr [ns])"

section \<open>Sets of strings are sets\<close>

text \<open>The contract of a set: its operations on what it contains.\<close>

locale string_sets =
  fixes contains :: "'s \<Rightarrow> string \<Rightarrow> bool"
    and insert_all :: "string list \<Rightarrow> 's \<Rightarrow> 's"
    and delete_all :: "string list \<Rightarrow> 's \<Rightarrow> 's"
    and none :: 's
    and invar :: "'s \<Rightarrow> bool"
  assumes contains_none: "\<not> contains none x" and invar_none: "invar none"
    and contains_insert: "invar s \<Longrightarrow> contains (insert_all xs s) x \<longleftrightarrow> x \<in> set xs \<or> contains s x"
    and invar_insert: "invar s \<Longrightarrow> invar (insert_all xs s)"
    and contains_delete: "invar s \<Longrightarrow> contains (delete_all xs s) x \<longleftrightarrow> x \<notin> set xs \<and> contains s x"
    and invar_delete: "invar s \<Longrightarrow> invar (delete_all xs s)"
begin

definition elems :: "'s \<Rightarrow> string set" where
  "elems s = {x. contains s x}"

lemma elems_simps: "elems none = {}" "invar s \<Longrightarrow> elems (insert_all xs s) = set xs \<union> elems s"
    "invar s \<Longrightarrow> elems (delete_all xs s) = elems s - set xs"
  by (auto simp: elems_def contains_none contains_insert contains_delete)

lemma insert_delete: "invar s \<Longrightarrow> set xs \<subseteq> elems s \<Longrightarrow> elems (insert_all xs (delete_all xs s)) = elems s"
  by (auto simp: elems_simps invar_delete)

end

lemma sets_Insert_get: "gm_get (sets_Insert xs s) x = (if x \<in> set xs then Some () else gm_get s x)"
  by (induction xs arbitrary: s) (auto simp: gomap_simps)

lemma sets_Delete_get: "gm_get (sets_Delete xs s) x = (if x \<in> set xs then None else gm_get s x)"
  by (induction xs arbitrary: s) (auto simp: gomap_simps)

lemma sets_wf [simp]: "gm_wf s \<Longrightarrow> gm_wf (sets_Insert xs s)" "gm_wf s \<Longrightarrow> gm_wf (sets_Delete xs s)"
  by (induction xs arbitrary: s) auto

lemma sets_Has_simps: "\<not> sets_Has [] x" "sets_Has (sets_Insert xs s) x \<longleftrightarrow> x \<in> set xs \<or> sets_Has s x"
    "sets_Has (sets_Delete xs s) x \<longleftrightarrow> x \<notin> set xs \<and> sets_Has s x"
  by (simp_all add: sets_Has_def sets_Insert_get sets_Delete_get gm_get_def [of "[]"])

interpretation ss: string_sets sets_Has sets_Insert sets_Delete "[]" gm_wf
  by unfold_locales (simp_all add: sets_Has_simps)

lemma elems_keys: "ss.elems s = set (map fst s)"
  by (auto simp: ss.elems_def sets_Has_def gm_get_def map_of_eq_None_iff)

lemma Len_card: "gm_wf s \<Longrightarrow> sets_Len s = card (ss.elems s)"
  by (metis elems_keys sets_Len_def distinct_card length_map)

lemma insert_if_elems: "gm_wf r \<Longrightarrow> gm_wf (insert_if P xs r) \<and> ss.elems (insert_if P xs r) = {x \<in> set xs. P x} \<union> ss.elems r"
  by (induction xs arbitrary: r) (auto simp: ss.elems_simps(2) simp del: sets_Insert.simps)

lemma HasAll_iff: "HasAll s xs \<longleftrightarrow> set xs \<subseteq> ss.elems s"
  by (induction xs) (auto simp: ss.elems_def)

lemma HasAny_iff: "HasAny s xs \<longleftrightarrow> set xs \<inter> ss.elems s \<noteq> {}"
  by (induction xs) (auto simp: ss.elems_def)

lemma set_operations_exact:
  assumes "gm_wf s1" "gm_wf s2"
  shows "ss.elems (Union s1 s2) = ss.elems s1 \<union> ss.elems s2 \<and> ss.elems (Intersection s1 s2) = ss.elems s1 \<inter> ss.elems s2 \<and>
    ss.elems (Difference s1 s2) = ss.elems s1 - ss.elems s2 \<and> (IsSuperset s1 s2 \<longleftrightarrow> ss.elems s2 \<subseteq> ss.elems s1) \<and>
    (sets_Equal s1 s2 \<longleftrightarrow> ss.elems s1 = ss.elems s2) \<and> set (sets_List s1) = ss.elems s1 \<and> sorted (sets_List s1) \<and> distinct (sets_List s1)"
proof -
  have N: "gm_wf (NewString [])" "ss.elems (NewString []) = {}" by (simp_all add: NewString_def ss.elems_simps)
  have k: "set (map fst s) = ss.elems s" for s by (simp add: elems_keys)
  have H: "sets_Has s x \<longleftrightarrow> x \<in> ss.elems s" for s x by (simp add: ss.elems_def)
  note I = insert_if_elems [OF N(1)]
  have "ss.elems (Union s1 s2) = ss.elems s1 \<union> ss.elems s2"
    using insert_if_elems [of "insert_if (\<lambda>_. True) (map fst s1) (NewString [])"] I by (auto simp: Union_def k N simp del: set_map)
  moreover have "ss.elems (Intersection s1 s2) = ss.elems s1 \<inter> ss.elems s2"
    using I by (auto simp: Intersection_def k N H simp del: set_map)
  moreover have "ss.elems (Difference s1 s2) = ss.elems s1 - ss.elems s2" using I by (auto simp: Difference_def k N H simp del: set_map)
  moreover have sup: "IsSuperset s1 s2 \<longleftrightarrow> ss.elems s2 \<subseteq> ss.elems s1" by (simp add: IsSuperset_def HasAll_iff k del: set_map)
  moreover have "sets_Equal s1 s2 \<longleftrightarrow> ss.elems s1 = ss.elems s2"
  proof -
    have "finite (ss.elems s1)" by (simp add: elems_keys)
    moreover have "length s1 = card (ss.elems s1)" "length s2 = card (ss.elems s2)" using Len_card assms by (simp_all add: sets_Len_def)
    ultimately show ?thesis using sup card_subset_eq [of "ss.elems s1" "ss.elems s2"] by (auto simp: sets_Equal_def)
  qed
  moreover have "set (sets_List s1) = ss.elems s1" "sorted (sets_List s1)" "distinct (sets_List s1)"
    using assms by (simp_all add: sets_List_def elems_keys)
  ultimately show ?thesis by blast
qed

section \<open>The indices are exact\<close>

definition in_idx :: "Index \<Rightarrow> string \<Rightarrow> string \<Rightarrow> bool" where
  "in_idx index v k \<longleftrightarrow> (case gm_get index v of None \<Rightarrow> False | Some s \<Rightarrow> sets_Has s k)"

definition in_index :: "(string, Index) gomap \<Rightarrow> string \<Rightarrow> string \<Rightarrow> string \<Rightarrow> bool" where
  "in_index indices name v k \<longleftrightarrow> (case gm_get indices name of None \<Rightarrow> False | Some index \<Rightarrow> in_idx index v k)"

definition has_value :: "'o IndexFunc \<Rightarrow> 'o \<Rightarrow> string \<Rightarrow> bool" where
  "has_value indexFunc obj v \<longleftrightarrow> (case indexFunc obj of Inl _ \<Rightarrow> False | Inr vs \<Rightarrow> v \<in> set vs)"

definition never_fail :: "(string \<times> 'o IndexFunc) list \<Rightarrow> bool" where
  "never_fail fs \<longleftrightarrow> (\<forall>f \<in> snd ` set fs. \<forall>obj. \<exists>vs. f obj = Inr vs)"

lemma never_fail_Cons: "never_fail ((n, f) # rest) \<longleftrightarrow> (\<forall>obj. \<exists>vs. f obj = Inr vs) \<and> never_fail rest"
  by (simp add: never_fail_def)

lemma in_idx_Nil [simp]: "\<not> in_idx [] v k"
  by (simp add: in_idx_def gm_get_def)

lemma in_index_get: "gm_get indices name = Some index \<Longrightarrow> in_index indices name v k = in_idx index v k"
  by (simp add: in_index_def)

lemma in_idx_set: "in_idx (gm_set u s index) v k = (if v = u then sets_Has s k else in_idx index v k)"
  by (simp add: in_idx_def gomap_simps)

lemma in_index_set: "in_index (gm_set n index indices) name v k = (if name = n then in_idx index v k else in_index indices name v k)"
  by (simp add: in_index_def gomap_simps)

lemma insert_values_in: "in_idx (insert_values key vs index) v k \<longleftrightarrow> in_idx index v k \<or> v \<in> set vs \<and> k = key"
proof (induction vs arbitrary: index)
  case (Cons u vs)
  have "sets_Has (sets_Insert [key] (case gm_get index u of Some s \<Rightarrow> s | None \<Rightarrow> [])) k \<longleftrightarrow> k = key \<or> in_idx index u k"
    by (auto simp: in_idx_def sets_Has_simps split: option.splits simp del: sets_Insert.simps)
  with Cons show ?case by (auto simp: in_idx_set simp del: sets_Insert.simps)
qed simp

lemma delete_values_in: "in_idx (delete_values key vs index) v k \<longleftrightarrow> in_idx index v k \<and> \<not> (v \<in> set vs \<and> k = key)"
proof (induction vs arbitrary: index)
  case (Cons u vs)
  show ?case
  proof (cases "gm_get index u")
    case None
    then show ?thesis using Cons [of index] by (auto simp: in_idx_def)
  next
    case (Some s)
    then have "in_idx index u k = sets_Has s k" by (simp add: in_idx_def)
    with Some Cons show ?thesis by (auto simp: in_idx_set sets_Has_simps simp del: sets_Delete.simps)
  qed
qed simp

lemma add_loop_in:
  assumes "never_fail fs" "distinct (map fst fs)"
  shows "in_index (fst (add_loop fs obj key indices)) name v k \<longleftrightarrow>
    in_index indices name v k \<or> k = key \<and> (\<exists>f. map_of fs name = Some f \<and> has_value f obj v)"
  using assms
proof (induction fs obj key indices rule: add_loop.induct)
  case (2 n f rest obj key indices)
  from 2(2) obtain vs where vs: "f obj = Inr vs" and rest: "never_fail rest" unfolding never_fail_Cons by blast
  let ?i = "insert_values key vs (case gm_get indices n of Some i \<Rightarrow> i | None \<Rightarrow> [])"
  have i: "in_idx ?i v k \<longleftrightarrow> in_index indices n v k \<or> v \<in> set vs \<and> k = key"
    by (cases "gm_get indices n") (simp_all add: insert_values_in in_index_def)
  have "map_of rest n = None" using 2(3) by (simp add: map_of_eq_None_iff)
  with 2(1) [OF vs rest] 2(3) vs i show ?case by (auto simp: in_index_set has_value_def)
qed simp

lemma deleteFromIndices_in:
  assumes "never_fail fs" "distinct (map fst fs)"
  shows "in_index (fst (deleteFromIndices fs obj key indices)) name v k \<longleftrightarrow>
    in_index indices name v k \<and> \<not> (k = key \<and> (\<exists>f. map_of fs name = Some f \<and> has_value f obj v))"
  using assms
proof (induction fs obj key indices rule: deleteFromIndices.induct)
  case (2 n f rest obj key indices)
  from 2(2) obtain vs where vs: "f obj = Inr vs" and rest: "never_fail rest" unfolding never_fail_Cons by blast
  let ?is = "case gm_get indices n of Some i \<Rightarrow> gm_set n (delete_values key vs i) indices | None \<Rightarrow> indices"
  have i: "in_index ?is name v k \<longleftrightarrow> in_index indices name v k \<and> \<not> (name = n \<and> v \<in> set vs \<and> k = key)"
  proof (cases "gm_get indices n")
    case None
    then show ?thesis by (auto simp: in_index_def)
  next
    case (Some a)
    then show ?thesis using in_index_get [OF Some, of v k] by (auto simp: in_index_set delete_values_in)
  qed
  have "map_of rest n = None" using 2(3) by (simp add: map_of_eq_None_iff)
  with 2(1) [OF vs rest] 2(3) vs i show ?case by (auto simp: has_value_def)
qed simp

text \<open>Every index names exactly the keys of the objects that have the value.\<close>

definition index_ok :: "'o indexedMap \<Rightarrow> bool" where
  "index_ok c \<longleftrightarrow> (\<forall>name f v k. map_of (im_indexers c) name = Some f \<longrightarrow>
     (in_index (im_indices c) name v k \<longleftrightarrow> (\<exists>obj. gm_get (im_items c) k = Some obj \<and> has_value f obj v)))"

lemma updateIndices_fields: "im_items (fst (updateIndices old new key c)) = im_items c" "im_indexers (fst (updateIndices old new key c)) = im_indexers c"
  by (simp_all add: updateIndices_def Let_def split: prod.splits)

lemma updateIndices_in:
  assumes "never_fail (im_indexers c)" "gm_wf (im_indexers c)" "map_of (im_indexers c) name = Some f"
  shows "in_index (im_indices (fst (updateIndices old new key c))) name v k \<longleftrightarrow>
    in_index (im_indices c) name v k \<and> \<not> (k = key \<and> (\<exists>obj. old = Some obj \<and> has_value f obj v)) \<or> k = key \<and> has_value f new v"
proof -
  define ixs where "ixs = (case old of Some obj \<Rightarrow> fst (deleteFromIndices (im_indexers c) obj key (im_indices c)) | None \<Rightarrow> im_indices c)"
  have "im_indices (fst (updateIndices old new key c)) = fst (add_loop (im_indexers c) new key ixs)"
    by (simp add: updateIndices_def ixs_def split: prod.splits)
  moreover have "in_index ixs name v k \<longleftrightarrow> in_index (im_indices c) name v k \<and> \<not> (k = key \<and> (\<exists>obj. old = Some obj \<and> has_value f obj v))"
    using assms by (cases old) (auto simp: ixs_def deleteFromIndices_in)
  ultimately show ?thesis using assms by (auto simp: add_loop_in)
qed

lemma im_Add_ok:
  assumes "index_ok c" "never_fail (im_indexers c)" "gm_wf (im_indexers c)"
  shows "index_ok (im_Add c key obj)"
  unfolding index_ok_def
proof (intro allI impI)
  fix name f v k assume "map_of (im_indexers (im_Add c key obj)) name = Some f"
  then have f: "map_of (im_indexers c) name = Some f" by (simp add: im_Add_def updateIndices_fields)
  let ?c = "c\<lparr>im_items := gm_set key obj (im_items c)\<rparr>"
  have "in_index (im_indices (im_Add c key obj)) name v k \<longleftrightarrow>
      in_index (im_indices c) name v k \<and> \<not> (k = key \<and> (\<exists>o'. gm_get (im_items c) key = Some o' \<and> has_value f o' v)) \<or> k = key \<and> has_value f obj v"
    using updateIndices_in [of ?c name f] assms(2,3) f by (simp add: im_Add_def)
  also have "\<dots> \<longleftrightarrow> (\<exists>o'. gm_get (im_items (im_Add c key obj)) k = Some o' \<and> has_value f o' v)"
    using assms(1) f by (auto simp: index_ok_def im_Add_def updateIndices_fields gomap_simps)
  finally show "in_index (im_indices (im_Add c key obj)) name v k \<longleftrightarrow>
      (\<exists>o'. gm_get (im_items (im_Add c key obj)) k = Some o' \<and> has_value f o' v)" .
qed

lemma im_Delete_ok:
  assumes "index_ok c" "never_fail (im_indexers c)" "gm_wf (im_indexers c)"
  shows "index_ok (im_Delete c key)"
proof (cases "gm_get (im_items c) key")
  case (Some obj)
  then show ?thesis
    using assms by (auto simp: index_ok_def im_Delete_def deleteFromIndices_in gomap_simps)
qed (use assms in \<open>simp add: im_Delete_def\<close>)

lemma rebuild_fields: "im_items (rebuild its c) = im_items c" "im_indexers (rebuild its c) = im_indexers c"
  by (induction its c rule: rebuild.induct) (simp_all add: updateIndices_fields)

lemma rebuild_in:
  assumes "never_fail (im_indexers c)" "gm_wf (im_indexers c)" "map_of (im_indexers c) name = Some f"
  shows "in_index (im_indices (rebuild its c)) name v k \<longleftrightarrow> in_index (im_indices c) name v k \<or> (\<exists>obj. (k, obj) \<in> set its \<and> has_value f obj v)"
  using assms
proof (induction its c rule: rebuild.induct)
  case (2 key item its c)
  then have "in_index (im_indices (rebuild its (fst (updateIndices None item key c)))) name v k \<longleftrightarrow>
      in_index (im_indices (fst (updateIndices None item key c))) name v k \<or> (\<exists>obj. (k, obj) \<in> set its \<and> has_value f obj v)"
    by (simp add: updateIndices_fields)
  with updateIndices_in [OF 2(2-4), of None item key v k] show ?case by auto
qed simp

lemma im_Replace_ok:
  assumes "never_fail (im_indexers c)" "gm_wf (im_indexers c)" "gm_wf itms"
  shows "index_ok (im_Replace c itms rv)"
  unfolding index_ok_def
proof (intro allI impI)
  fix name f v k assume f: "map_of (im_indexers (im_Replace c itms rv)) name = Some f"
  let ?c = "c\<lparr>im_items := itms, im_indices := []\<rparr>"
  have "in_index (im_indices (rebuild itms ?c)) name v k \<longleftrightarrow> (\<exists>obj. (k, obj) \<in> set itms \<and> has_value f obj v)"
    using rebuild_in [of ?c name f itms v k] assms f by (simp add: im_Replace_def rebuild_fields in_index_def gm_get_def)
  then show "in_index (im_indices (im_Replace c itms rv)) name v k \<longleftrightarrow>
      (\<exists>obj. gm_get (im_items (im_Replace c itms rv)) k = Some obj \<and> has_value f obj v)"
    using assms(3) by (simp add: im_Replace_def rebuild_fields gm_get_def)
qed

section \<open>Sets of an index stay well-formed\<close>

definition wf_indices :: "(string, Index) gomap \<Rightarrow> bool" where
  "wf_indices indices \<longleftrightarrow> (\<forall>name index v s. gm_get indices name = Some index \<longrightarrow> gm_get index v = Some s \<longrightarrow> gm_wf s)"

definition wf_index :: "Index \<Rightarrow> bool" where
  "wf_index index \<longleftrightarrow> (\<forall>v s. gm_get index v = Some s \<longrightarrow> gm_wf s)"

lemma wf_indices_set: "wf_indices indices \<Longrightarrow> wf_index index \<Longrightarrow> wf_indices (gm_set name index indices)"
  by (simp add: wf_indices_def wf_index_def gomap_simps)

lemma wf_indices_get: "wf_indices indices \<Longrightarrow> gm_get indices name = Some index \<Longrightarrow> wf_index index"
  by (auto simp: wf_indices_def wf_index_def)

lemma wf_index_set: "wf_index index \<Longrightarrow> gm_wf s \<Longrightarrow> wf_index (gm_set v s index)"
  by (simp add: wf_index_def gomap_simps)

lemma insert_values_wf: "wf_index index \<Longrightarrow> wf_index (insert_values key vs index)"
proof (induction vs arbitrary: index)
  case (Cons v vs)
  then have "gm_wf (case gm_get index v of Some s \<Rightarrow> s | None \<Rightarrow> [])" by (auto simp: wf_index_def split: option.splits)
  with Cons show ?case by (simp add: wf_index_set)
qed simp

lemma delete_values_wf: "wf_index index \<Longrightarrow> wf_index (delete_values key vs index)"
proof (induction vs arbitrary: index)
  case (Cons v vs)
  then have "wf_index (case gm_get index v of Some s \<Rightarrow> gm_set v (sets_Delete [key] s) index | None \<Rightarrow> index)"
    by (cases "gm_get index v") (auto simp: wf_index_def gomap_simps)
  with Cons show ?case by simp
qed simp

lemma add_loop_wf: "wf_indices indices \<Longrightarrow> wf_indices (fst (add_loop fs obj key indices))"
proof (induction fs obj key indices rule: add_loop.induct)
  case (2 n f rest obj key indices)
  have "wf_index (case gm_get indices n of Some i \<Rightarrow> i | None \<Rightarrow> [])"
    using wf_indices_get [OF 2(2)] by (auto simp: wf_index_def gm_get_def [of "[]"] split: option.splits)
  with 2 show ?case by (simp add: wf_indices_set insert_values_wf split: sum.splits)
qed simp

lemma deleteFromIndices_wf: "wf_indices indices \<Longrightarrow> wf_indices (fst (deleteFromIndices fs obj key indices))"
proof (induction fs obj key indices rule: deleteFromIndices.induct)
  case (2 n f rest obj key indices)
  have "wf_indices (case gm_get indices n of Some i \<Rightarrow> gm_set n (delete_values key vs i) indices | None \<Rightarrow> indices)" for vs
    using 2(2) wf_indices_get [OF 2(2)] by (auto simp: wf_indices_set delete_values_wf split: option.splits)
  with 2 show ?case by (simp split: sum.splits)
qed simp

lemma updateIndices_wf: "wf_indices (im_indices c) \<Longrightarrow> wf_indices (im_indices (fst (updateIndices old new key c)))"
  by (auto simp: updateIndices_def Let_def split: prod.splits option.splits dest!: sym [of _ "(_, _)"])
    (metis add_loop_wf deleteFromIndices_wf fst_conv)+

lemma rebuild_wf: "wf_indices (im_indices c) \<Longrightarrow> wf_indices (im_indices (rebuild its c))"
  by (induction its c rule: rebuild.induct) (auto intro: updateIndices_wf)

section \<open>Looking objects up\<close>

datatype 'o store_op = OpAdd string 'o | OpUpdate string 'o | OpDelete string | OpReplace "(string, 'o) gomap"

fun im_op :: "'o indexedMap \<Rightarrow> 'o store_op \<Rightarrow> 'o indexedMap" where
  "im_op c (OpAdd key obj) = im_Add c key obj"
| "im_op c (OpUpdate key obj) = im_Update c key obj"
| "im_op c (OpDelete key) = im_Delete c key"
| "im_op c (OpReplace itms) = im_Replace c itms ''''"

fun tsm_op :: "'o threadSafeMap \<Rightarrow> 'o store_op \<Rightarrow> 'o threadSafeMap" where
  "tsm_op c (OpAdd key obj) = tsm_Add c key obj"
| "tsm_op c (OpUpdate key obj) = tsm_Update c key obj"
| "tsm_op c (OpDelete key) = tsm_Delete c key"
| "tsm_op c (OpReplace itms) = tsm_Replace c itms ''''"

fun op_wf :: "'o store_op \<Rightarrow> bool" where
  "op_wf (OpReplace itms) = gm_wf itms"
| "op_wf _ = True"

lemma im_op_items: "im_items (im_op c x) = tsm_items (tsm_op \<lparr>tsm_items = im_items c\<rparr> x)" "im_indexers (im_op c x) = im_indexers c"
  by (cases x; simp add: im_Add_def im_Update_def im_Delete_def im_Replace_def tsm_Add_def tsm_Update_def tsm_Delete_def tsm_Replace_def
      updateIndices_fields rebuild_fields split: option.splits)+

lemma im_op_wf:
  assumes "wf_indices (im_indices c)"
  shows "wf_indices (im_indices (im_op c x))"
proof (cases x)
  case (OpReplace itms)
  have "wf_indices []" by (simp add: wf_indices_def gm_get_def)
  then show ?thesis using OpReplace by (simp add: im_Replace_def rebuild_wf)
qed (use assms in \<open>simp_all add: im_Add_def im_Update_def im_Delete_def updateIndices_wf deleteFromIndices_wf split: option.splits\<close>)

lemma im_op_ok:
  assumes "index_ok c" "never_fail (im_indexers c)" "gm_wf (im_indexers c)" "op_wf x"
  shows "index_ok (im_op c x)"
  using assms im_Add_ok by (cases x) (auto simp: im_Update_def im_Delete_ok im_Replace_ok im_Add_def [symmetric])

lemma im_run:
  assumes "index_ok c" "never_fail (im_indexers c)" "gm_wf (im_indexers c)" "wf_indices (im_indices c)" "\<forall>x \<in> set ops. op_wf x"
  shows "index_ok (foldl im_op c ops) \<and> wf_indices (im_indices (foldl im_op c ops)) \<and> im_indexers (foldl im_op c ops) = im_indexers c \<and>
    im_items (foldl im_op c ops) = tsm_items (foldl tsm_op \<lparr>tsm_items = im_items c\<rparr> ops)"
  using assms
proof (induction ops arbitrary: c)
  case (Cons x ops)
  have "tsm_op \<lparr>tsm_items = im_items c\<rparr> x = \<lparr>tsm_items = im_items (im_op c x)\<rparr>" by (simp add: im_op_items(1))
  with Cons im_op_ok [of c x] im_op_wf [of c x] show ?case by (simp add: im_op_items(2))
qed simp

lemma index_sets_in: "set (map fst (index_sets c name v)) = {k. in_index (im_indices c) name v k}"
proof -
  have "sets_Has (index_sets c name v) k \<longleftrightarrow> in_index (im_indices c) name v k" for k
    by (simp add: index_sets_def in_index_def in_idx_def sets_Has_simps split: option.split)
  then show ?thesis unfolding elems_keys [symmetric] by (simp add: ss.elems_def)
qed

lemma index_sets_wf: "wf_indices (im_indices c) \<Longrightarrow> gm_wf (index_sets c name v)"
  by (auto simp: index_sets_def wf_indices_def split: option.splits)

lemma collect_keys_in:
  assumes "wf_indices (im_indices c)" "gm_wf r"
  shows "gm_wf (collect_keys c name vs r) \<and> set (map fst (collect_keys c name vs r)) = {k. \<exists>v \<in> set vs. in_index (im_indices c) name v k} \<union> set (map fst r)"
  using assms(2)
proof (induction vs arbitrary: r)
  case (Cons v vs)
  let ?r = "sets_Insert (sets_List (index_sets c name v)) r"
  have "set (map fst ?r) = {k. in_index (im_indices c) name v k} \<union> set (map fst r)"
    using ss.elems_simps(2) [OF Cons.prems, of "sets_List (index_sets c name v)"] index_sets_in [of c name v]
    by (simp only: elems_keys) (simp add: sets_List_def)
  with Cons.IH [of ?r] Cons.prems show ?case by auto
qed simp

text \<open>C28: whatever is done to a new store, its indices stay exact, if the index functions never fail and a
  \<open>Replace\<close> gets each key once: looking a value up returns, in the order of their keys and without
  repetition, exactly the stored objects with that value, looking an object up exactly those that share a value with
  it, and the stored objects are those of the store without indices.\<close>

theorem index_exact:
  assumes "never_fail indexers" "gm_wf indexers" "\<forall>x \<in> set ops. op_wf x" "map_of indexers name = Some f"
    and c: "c = foldl im_op (NewIndexedStore indexers []) ops"
  shows "(\<exists>ks. sorted ks \<and> distinct ks \<and> ByIndex c name v = Inr (map (gm_get (im_items c)) ks) \<and>
        set ks = {k. \<exists>obj. gm_get (im_items c) k = Some obj \<and> has_value f obj v}) \<and>
    (\<exists>ks. distinct ks \<and> im_Index c name obj = Inr (map (gm_get (im_items c)) ks) \<and>
        set ks = {k. \<exists>obj' u. gm_get (im_items c) k = Some obj' \<and> has_value f obj' u \<and> has_value f obj u}) \<and>
    im_items c = tsm_items (foldl tsm_op NewThreadSafeStore ops)"
proof -
  let ?c0 = "NewIndexedStore indexers []"
  have "index_ok ?c0" "wf_indices (im_indices ?c0)" by (simp_all add: NewIndexedStore_def index_ok_def in_index_def wf_indices_def gm_get_def)
  from im_run [OF this(1) _ _ this(2) assms(3)] assms(1,2)
  have ok: "index_ok c" "wf_indices (im_indices c)" "im_indexers c = indexers" "im_items c = tsm_items (foldl tsm_op NewThreadSafeStore ops)"
    by (simp_all add: c NewIndexedStore_def NewThreadSafeStore_def)
  have g: "gm_get (im_indexers c) name = Some f" using assms(4) ok(3) by (simp add: gm_get_def)
  have i: "in_index (im_indices c) name u k \<longleftrightarrow> (\<exists>obj. gm_get (im_items c) k = Some obj \<and> has_value f obj u)" for u k
    using ok(1,3) assms(4) by (simp add: index_ok_def)
  let ?ks = "sets_List (index_sets c name v)"
  have "sorted ?ks" "distinct ?ks" "set ?ks = {k. in_index (im_indices c) name v k}"
    using index_sets_wf [OF ok(2)] index_sets_in [of c name v] by (simp_all add: sets_List_def)
  then have A: "sorted ?ks \<and> distinct ?ks \<and> ByIndex c name v = Inr (map (gm_get (im_items c)) ?ks) \<and>
      set ?ks = {k. \<exists>obj. gm_get (im_items c) k = Some obj \<and> has_value f obj v}"
    using g i by (simp add: ByIndex_def)
  obtain vs where vs: "f obj = Inr vs" using assms(1,4) map_of_SomeD [OF assms(4)] by (force simp: never_fail_def)
  let ?ls = "map fst (collect_keys c name vs [])"
  have B: "distinct ?ls \<and> im_Index c name obj = Inr (map (gm_get (im_items c)) ?ls) \<and>
      set ?ls = {k. \<exists>obj' u. gm_get (im_items c) k = Some obj' \<and> has_value f obj' u \<and> has_value f obj u}"
    using collect_keys_in [OF ok(2), of "[]" name vs] g vs i by (auto simp: im_Index_def has_value_def simp del: map_map)
  from A B ok(4) show ?thesis by blast
qed

definition demo_indexers :: "(string, (string \<times> string) IndexFunc) gomap" where
  "demo_indexers = [(''namespace'', MetaNamespaceIndexFunc Inr)]"

theorem index_exact_witness:
  "\<exists>ks. sorted ks \<and> ByIndex (foldl im_op (NewIndexedStore demo_indexers []) [OpAdd ''a'' (''default'', ''web''), OpAdd ''b'' (''kube'', ''dns''), OpDelete ''b'']) ''namespace'' ''kube'' =
     Inr (map (gm_get [(''a'', (''default'', ''web''))]) ks) \<and> set ks = {}"
proof -
  let ?ops = "[OpAdd ''a'' (''default'', ''web''), OpAdd ''b'' (''kube'', ''dns''), OpDelete ''b'']"
  let ?c = "foldl im_op (NewIndexedStore demo_indexers []) ?ops"
  have n: "never_fail demo_indexers" "gm_wf demo_indexers" "map_of demo_indexers ''namespace'' = Some (MetaNamespaceIndexFunc Inr)"
    by (simp_all add: demo_indexers_def never_fail_def MetaNamespaceIndexFunc_def)
  have w: "\<forall>x \<in> set ?ops. op_wf x" by simp
  note I = index_exact [OF n(1,2) w n(3) refl, of "''kube''" "(''kube'', '''')"]
  have it: "im_items ?c = [(''a'', (''default'', ''web''))]"
    using I by (simp add: tsm_Add_def tsm_Delete_def NewThreadSafeStore_def gm_set_def gm_del_def gm_get_def)
  have e: "{k. \<exists>obj. gm_get [(''a'', (''default'', ''web''))] k = Some obj \<and> has_value (MetaNamespaceIndexFunc Inr) obj ''kube''} = {}"
    by (simp add: gm_get_def has_value_def MetaNamespaceIndexFunc_def)
  from I obtain ks where ks: "sorted ks" "ByIndex ?c ''namespace'' ''kube'' = Inr (map (gm_get (im_items ?c)) ks)"
      "set ks = {k. \<exists>obj. gm_get (im_items ?c) k = Some obj \<and> has_value (MetaNamespaceIndexFunc Inr) obj ''kube''}"
    by blast
  show ?thesis
    by (intro exI [of _ ks] conjI ks(1) ks(2) [unfolded it] ks(3) [unfolded it e])
qed

end
