(* ===== verification/Strconv.thy ===== *)
theory Strconv
  imports Prelude
begin

text \<open>
  What the daemon and its libraries use of Go's \<open>strconv\<close>: reading and printing integers and booleans.
  \<open>ParseInt\<close> returns a value next to the error, as Go does: 0 for bad syntax and the end of the range for
  a number that does not fit. Text is a byte string.
\<close>

datatype num_error = ErrSyntax | ErrRange

definition digit_of :: "char \<Rightarrow> nat option" where
  "digit_of c =
     (let v = of_char c :: nat in
      if 48 \<le> v \<and> v \<le> 57 then Some (v - 48)
      else if 97 \<le> v \<and> v \<le> 122 then Some (v - 97 + 10)
      else if 65 \<le> v \<and> v \<le> 90 then Some (v - 65 + 10)
      else None)"

text \<open>The digit loop of \<open>ParseUint\<close>: bad syntax is only seen up to the first overflow.\<close>

fun uint_digits :: "nat \<Rightarrow> nat \<Rightarrow> string \<Rightarrow> nat \<times> num_error option" where
  "uint_digits base n [] = (n, None)"
| "uint_digits base n (c # cs) =
     (case digit_of c of
        None \<Rightarrow> (0, Some ErrSyntax)
      | Some d \<Rightarrow>
          if d \<ge> base then (0, Some ErrSyntax)
          else if n * base + d \<ge> 2 ^ 64 then (2 ^ 64 - 1, Some ErrRange)
          else uint_digits base (n * base + d) cs)"

definition ParseUint :: "string \<Rightarrow> nat \<Rightarrow> nat \<times> num_error option" where
  "ParseUint s base =
     (if s = [] then (0, Some ErrSyntax)
      else if 2 \<le> base \<and> base \<le> 36 then uint_digits base 0 s
      else if base = 0 then
        (case s of
           c # d # cs \<Rightarrow>
             if c = CHR ''0'' \<and> (d = CHR ''x'' \<or> d = CHR ''X'')
             then (if cs = [] then (0, Some ErrSyntax) else uint_digits 16 0 cs)
             else if c = CHR ''0'' then uint_digits 8 0 s
             else uint_digits 10 0 s
         | _ \<Rightarrow> if hd s = CHR ''0'' then uint_digits 8 0 s else uint_digits 10 0 s)
      else (0, Some ErrSyntax))"

definition ParseInt :: "string \<Rightarrow> nat \<Rightarrow> int \<times> num_error option" where
  "ParseInt s base =
     (if s = [] then (0, Some ErrSyntax)
      else
        (let neg = (hd s = CHR ''-'');
             s' = (if hd s = CHR ''+'' \<or> hd s = CHR ''-'' then tl s else s) in
         case ParseUint s' base of
           (un, Some ErrSyntax) \<Rightarrow> (0, Some ErrSyntax)
         | (un, _) \<Rightarrow>
             if \<not> neg \<and> un \<ge> 2 ^ 63 then (2 ^ 63 - 1, Some ErrRange)
             else if neg \<and> un > 2 ^ 63 then (- (2 ^ 63), Some ErrRange)
             else (if neg then - int un else int un, None)))"

definition Atoi :: "string \<Rightarrow> int \<times> num_error option" where
  "Atoi s = ParseInt s 10"

definition ParseBool :: "string \<Rightarrow> bool \<times> num_error option" where
  "ParseBool str =
     (if str \<in> {''1'', ''t'', ''T'', ''true'', ''TRUE'', ''True''} then (True, None)
      else if str \<in> {''0'', ''f'', ''F'', ''false'', ''FALSE'', ''False''} then (False, None)
      else (False, Some ErrSyntax))"

definition FormatBool :: "bool \<Rightarrow> string" where
  "FormatBool b = (if b then ''true'' else ''false'')"

definition digit_char :: "nat \<Rightarrow> char" where
  "digit_char d = char_of (48 + d)"

fun FormatUint :: "nat \<Rightarrow> string" where
  "FormatUint n = (if n < 10 then [digit_char n] else FormatUint (n div 10) @ [digit_char (n mod 10)])"

declare FormatUint.simps [simp del]

definition Itoa :: "int \<Rightarrow> string" where
  "Itoa i = (if i < 0 then CHR ''-'' # FormatUint (nat (- i)) else FormatUint (nat i))"

section \<open>Reading undoes printing\<close>

lemma digit_of_digit_char: "d < 10 \<Longrightarrow> digit_of (digit_char d) = Some d"
  by (simp add: digit_of_def digit_char_def of_char_of)

lemma digit_char_inj: "d < 10 \<Longrightarrow> e < 10 \<Longrightarrow> digit_char d = digit_char e \<longleftrightarrow> d = e"
  by (metis digit_of_digit_char option.inject)

lemma digit_char_plain: "d < 10 \<Longrightarrow> digit_char d \<noteq> CHR ''+'' \<and> digit_char d \<noteq> CHR ''-'' \<and> digit_char d \<noteq> CHR ''x'' \<and> digit_char d \<noteq> CHR ''X''"
proof -
  assume "d < 10"
  moreover have "digit_of (CHR ''+'') = None" "digit_of (CHR ''-'') = None" "digit_of (CHR ''x'') = Some 33" "digit_of (CHR ''X'') = Some 33"
    by (simp_all add: digit_of_def)
  ultimately show ?thesis using digit_of_digit_char [of d] by auto
qed

lemma digit_char_0: "digit_char 0 = CHR ''0''"
  by code_simp

lemma uint_digits_append:
  "uint_digits base n a = (m, None) \<Longrightarrow> uint_digits base n (a @ b) = uint_digits base m b"
  by (induction a arbitrary: n) (auto split: option.splits if_splits)

lemma uint_digits_FormatUint: "n < 2 ^ 64 \<Longrightarrow> uint_digits 10 0 (FormatUint n) = (n, None)"
proof (induction n rule: FormatUint.induct)
  case (1 n)
  show ?case
  proof (cases "n < 10")
    case True
    then show ?thesis by (subst FormatUint.simps) (simp add: digit_of_digit_char)
  next
    case False
    have "n div 10 < 2 ^ 64" using 1(2) by linarith
    with 1(1) False have "uint_digits 10 0 (FormatUint (n div 10)) = (n div 10, None)" by simp
    with False 1(2) show ?thesis
      by (subst FormatUint.simps) (simp add: uint_digits_append digit_of_digit_char)
  qed
qed

text \<open>The text of a number has no sign and, but for 0 itself, no leading zero, and is never empty.\<close>

lemma FormatUint_cases: "\<exists>d rest. d < 10 \<and> FormatUint n = digit_char d # rest \<and> (d = 0 \<longrightarrow> n = 0 \<and> rest = [])"
proof (induction n rule: FormatUint.induct)
  case (1 n)
  show ?case
  proof (cases "n < 10")
    case True
    then show ?thesis by (subst FormatUint.simps) auto
  next
    case False
    with 1 obtain d rest where "d < 10" "FormatUint (n div 10) = digit_char d # rest" "d = 0 \<longrightarrow> n div 10 = 0"
      by (metis (no_types))
    moreover from False have "n div 10 \<noteq> 0" by simp
    ultimately show ?thesis using False by (subst FormatUint.simps) auto
  qed
qed

lemma ParseUint_FormatUint: "n < 2 ^ 64 \<Longrightarrow> base = 0 \<or> base = 10 \<Longrightarrow> ParseUint (FormatUint n) base = (n, None)"
proof -
  assume n: "n < 2 ^ 64" and base: "base = 0 \<or> base = 10"
  obtain d rest where d: "d < 10" "FormatUint n = digit_char d # rest" "d = 0 \<longrightarrow> n = 0 \<and> rest = []"
    using FormatUint_cases by blast
  have z: "digit_char d = CHR ''0'' \<longleftrightarrow> d = 0" using digit_char_inj [of d 0] d by (simp add: digit_char_0)
  have u: "uint_digits 10 0 (digit_char d # rest) = (n, None)" using uint_digits_FormatUint [OF n] d by simp
  have "uint_digits 8 0 [CHR ''0''] = (0, None)" by (simp add: digit_of_def)
  with base d z u show ?thesis by (auto simp: ParseUint_def digit_char_0 split: list.splits)
qed

text \<open>Both decimal reading and reading with a base prefix give a printed 64-bit integer back.\<close>

lemma ParseInt_Itoa:
  assumes "- (2 ^ 63) \<le> i" "i < 2 ^ 63" "base = 0 \<or> base = 10"
  shows "ParseInt (Itoa i) base = (i, None)"
proof -
  obtain d rest where d: "d < 10" "FormatUint (nat \<bar>i\<bar>) = digit_char d # rest" using FormatUint_cases by blast
  have u: "ParseUint (FormatUint (nat \<bar>i\<bar>)) base = (nat \<bar>i\<bar>, None)"
    using assms by (intro ParseUint_FormatUint) (auto simp: nat_less_iff)
  have b: "nat (- i) \<le> 2 ^ 63" if "i < 0" using assms that by (simp add: nat_le_iff)
  have b': "nat i < 2 ^ 63" if "0 \<le> i" using assms that by (simp add: nat_less_iff)
  show ?thesis
  proof (cases "i < 0")
    case True
    then show ?thesis using u b by (auto simp: ParseInt_def Itoa_def Let_def)
  next
    case False
    then show ?thesis using u d b' digit_char_plain [OF d(1)] by (auto simp: ParseInt_def Itoa_def Let_def)
  qed
qed

lemma ParseInt_range: "- (2 ^ 63) \<le> fst (ParseInt s base) \<and> fst (ParseInt s base) < 2 ^ 63"
proof -
  obtain un err where u: "ParseUint (if hd s = CHR ''+'' \<or> hd s = CHR ''-'' then tl s else s) base = (un, err)" by force
  have "int un < 2 ^ 63" if "\<not> un \<ge> 2 ^ 63" using that by simp
  moreover have "- (2 ^ 63) \<le> - int un" if "\<not> un > 2 ^ 63" using that by simp
  ultimately show ?thesis
    by (cases err) (auto simp: ParseInt_def Let_def u split: num_error.split)
qed

lemma Atoi_Itoa: "- (2 ^ 63) \<le> i \<Longrightarrow> i < 2 ^ 63 \<Longrightarrow> Atoi (Itoa i) = (i, None)"
  by (simp add: Atoi_def ParseInt_Itoa)

lemma ParseBool_FormatBool: "ParseBool (FormatBool b) = (b, None)"
  by (simp add: ParseBool_def FormatBool_def)

end
