(* ===== verification/Selector.thy ===== *)
theory Selector
  imports Store "HOL-Library.List_Lexorder" "HOL-Library.Char_ord" "HOL-Library.Sublist" "HOL-Library.Multiset"
begin

text \<open>
  \<open>pkg/fields\<close> (vendored): field selectors, which the API client turns into the \<open>fieldSelector\<close> parameter of a
  request. The daemon asks for \<open>fields.Everything()\<close>; the parser and printer are used by the client on every
  selector that restricts a list or a watch.

  A \<open>Selector\<close> is a datatype with a constructor for each implementation of the interface. A \<open>nil\<close> and an
  empty \<open>andTerm\<close> behave alike and are one value. \<open>Fields\<close> is its \<open>Get\<close> method. Go sorts strings by bytes,
  which is the lexicographic order of character lists.
\<close>

section \<open>Splitting at a string\<close>

text \<open>\<open>strings.Split(s, sep)\<close> for any separator, cutting at the leftmost occurrences; an empty separator cuts after
  each character (byte strings).\<close>

function Split :: "string \<Rightarrow> string \<Rightarrow> string list" where
  "Split sep s =
     (if sep = [] then map (\<lambda>c. [c]) s
      else if prefix sep s then [] # Split sep (drop (length sep) s)
      else case s of
             [] \<Rightarrow> [[]]
           | c # cs \<Rightarrow> (case Split sep cs of [] \<Rightarrow> [[c]] | part # parts \<Rightarrow> (c # part) # parts))"
  by pat_completeness auto

termination
  by (relation "measure (length \<circ> snd)") (auto simp: prefix_def)

declare Split.simps [simp del]

fun Join :: "string \<Rightarrow> string list \<Rightarrow> string" where
  "Join sep [] = []"
| "Join sep [s] = s"
| "Join sep (s # t # ss) = s @ sep @ Join sep (t # ss)"

lemma Split_hit: "sep \<noteq> [] \<Longrightarrow> Split sep (sep @ s) = [] # Split sep s"
  by (subst Split.simps) simp

lemma Split_Nil: "sep \<noteq> [] \<Longrightarrow> Split sep [] = [[]]"
  by (subst Split.simps) simp

lemma Split_skip:
  "sep \<noteq> [] \<Longrightarrow> \<not> prefix sep (c # cs) \<Longrightarrow> Split sep cs = part # parts \<Longrightarrow> Split sep (c # cs) = (c # part) # parts"
  by (subst Split.simps) simp

text \<open>A text without the first character of the separator is passed over.\<close>

lemma Split_append:
  assumes "d \<notin> set a" "Split (d # sep) s = part # parts"
  shows "Split (d # sep) (a @ s) = (a @ part) # parts"
  using assms(1)
proof (induction a)
  case Nil
  then show ?case using assms(2) by simp
next
  case (Cons x a)
  then have "\<not> prefix (d # sep) (x # a @ s)" by (auto simp: prefix_def)
  with Cons show ?case using Split_skip [of "d # sep" x "a @ s"] by simp
qed

lemma Split_none: "d \<notin> set a \<Longrightarrow> Split (d # sep) a = [a]"
  using Split_append [of d a sep "[]" "[]" "[]"] by (simp add: Split_Nil)

lemma Split_cut: "d \<notin> set a \<Longrightarrow> Split (d # sep) (a @ (d # sep) @ s) = a # Split (d # sep) s"
  using Split_append [of d a sep "(d # sep) @ s"] Split_hit [of "d # sep" s] by simp

lemma Split_Join:
  "ss \<noteq> [] \<Longrightarrow> \<forall>s \<in> set ss. d \<notin> set s \<Longrightarrow> Split [d] (Join [d] ss) = ss"
proof (induction "[d]" ss rule: Join.induct)
  case (2 s)
  then show ?case by (simp add: Split_none)
next
  case (3 s t ss)
  then show ?case using Split_cut [of d s "[]" "Join [d] (t # ss)"] by simp
qed simp

section \<open>Selectors\<close>

datatype Selector =
    hasTerm string string
  | notHasTerm string string
  | andTerm "Selector list"

type_synonym Fields = "string \<Rightarrow> string"

definition Everything :: Selector where
  "Everything = andTerm []"

type_synonym TransformFunc = "string \<Rightarrow> string \<Rightarrow> gerror + string \<times> string"

text \<open>The methods of \<open>hasTerm\<close>. The value and the flag \<open>found\<close> of \<open>RequiresExactMatch\<close> are an option.\<close>

definition hasTerm_Matches :: "string \<Rightarrow> string \<Rightarrow> Fields \<Rightarrow> bool" where
  [simp]: "hasTerm_Matches field v ls \<longleftrightarrow> ls field = v"

definition hasTerm_Empty :: "string \<Rightarrow> string \<Rightarrow> bool" where
  [simp]: "hasTerm_Empty field v \<longleftrightarrow> False"

definition hasTerm_RequiresExactMatch :: "string \<Rightarrow> string \<Rightarrow> string \<Rightarrow> string option" where
  [simp]: "hasTerm_RequiresExactMatch f v field = (if f = field then Some v else None)"

definition hasTerm_Transform :: "string \<Rightarrow> string \<Rightarrow> TransformFunc \<Rightarrow> gerror + Selector" where
  [simp]: "hasTerm_Transform f v fn = (case fn f v of Inl err \<Rightarrow> Inl err | Inr (field, value') \<Rightarrow> Inr (hasTerm field value'))"

definition hasTerm_String :: "string \<Rightarrow> string \<Rightarrow> string" where
  [simp]: "hasTerm_String f v = f @ ''='' @ v"

text \<open>The methods of \<open>notHasTerm\<close>.\<close>

definition notHasTerm_Matches :: "string \<Rightarrow> string \<Rightarrow> Fields \<Rightarrow> bool" where
  [simp]: "notHasTerm_Matches field v ls \<longleftrightarrow> ls field \<noteq> v"

definition notHasTerm_Empty :: "string \<Rightarrow> string \<Rightarrow> bool" where
  [simp]: "notHasTerm_Empty field v \<longleftrightarrow> False"

definition notHasTerm_RequiresExactMatch :: "string \<Rightarrow> string \<Rightarrow> string \<Rightarrow> string option" where
  [simp]: "notHasTerm_RequiresExactMatch f v field = None"

definition notHasTerm_Transform :: "string \<Rightarrow> string \<Rightarrow> TransformFunc \<Rightarrow> gerror + Selector" where
  [simp]: "notHasTerm_Transform f v fn = (case fn f v of Inl err \<Rightarrow> Inl err | Inr (field, value') \<Rightarrow> Inr (notHasTerm field value'))"

definition notHasTerm_String :: "string \<Rightarrow> string \<Rightarrow> string" where
  [simp]: "notHasTerm_String f v = f @ ''!='' @ v"

text \<open>The calls through the interface, with the methods of \<open>andTerm\<close>, which call it on their elements.\<close>

fun sel_Matches :: "Selector \<Rightarrow> Fields \<Rightarrow> bool" where
  "sel_Matches (hasTerm field v) ls \<longleftrightarrow> hasTerm_Matches field v ls"
| "sel_Matches (notHasTerm field v) ls \<longleftrightarrow> notHasTerm_Matches field v ls"
| "sel_Matches (andTerm t) ls \<longleftrightarrow> list_all (\<lambda>q. sel_Matches q ls) t"

fun sel_Empty :: "Selector \<Rightarrow> bool" where
  "sel_Empty (hasTerm field v) \<longleftrightarrow> hasTerm_Empty field v"
| "sel_Empty (notHasTerm field v) \<longleftrightarrow> notHasTerm_Empty field v"
| "sel_Empty (andTerm t) \<longleftrightarrow> list_all sel_Empty t"

fun sel_RequiresExactMatch :: "Selector \<Rightarrow> string \<Rightarrow> string option"
  and and_RequiresExactMatch :: "Selector list \<Rightarrow> string \<Rightarrow> string option" where
  "sel_RequiresExactMatch (hasTerm f v) field = hasTerm_RequiresExactMatch f v field"
| "sel_RequiresExactMatch (notHasTerm f v) field = notHasTerm_RequiresExactMatch f v field"
| "sel_RequiresExactMatch (andTerm t) field = and_RequiresExactMatch t field"
| "and_RequiresExactMatch [] field = None"
| "and_RequiresExactMatch (s # t) field =
     (case sel_RequiresExactMatch s field of Some v \<Rightarrow> Some v | None \<Rightarrow> and_RequiresExactMatch t field)"

fun sel_Transform :: "TransformFunc \<Rightarrow> Selector \<Rightarrow> gerror + Selector"
  and and_Transform :: "TransformFunc \<Rightarrow> Selector list \<Rightarrow> gerror + Selector list" where
  "sel_Transform fn (hasTerm f v) = hasTerm_Transform f v fn"
| "sel_Transform fn (notHasTerm f v) = notHasTerm_Transform f v fn"
| "sel_Transform fn (andTerm t) =
     (case and_Transform fn t of Inl err \<Rightarrow> Inl err | Inr next' \<Rightarrow> Inr (andTerm next'))"
| "and_Transform fn [] = Inr []"
| "and_Transform fn (s # t) =
     (case sel_Transform fn s of
        Inl err \<Rightarrow> Inl err
      | Inr n \<Rightarrow> (case and_Transform fn t of Inl err \<Rightarrow> Inl err | Inr ns \<Rightarrow> Inr (n # ns)))"

fun sel_String :: "Selector \<Rightarrow> string" where
  "sel_String (hasTerm f v) = hasTerm_String f v"
| "sel_String (notHasTerm f v) = notHasTerm_String f v"
| "sel_String (andTerm t) = Join '','' (map sel_String t)"

definition OneTermEqualSelector :: "string \<Rightarrow> string \<Rightarrow> Selector" where
  "OneTermEqualSelector k v = hasTerm k v"

section \<open>Sets of fields\<close>

type_synonym Set = "(string, string) gomap"

definition Set_Has :: "Set \<Rightarrow> string \<Rightarrow> bool" where
  "Set_Has ls field \<longleftrightarrow> gm_get ls field \<noteq> None"

definition Set_Get :: "Set \<Rightarrow> string \<Rightarrow> string" where
  "Set_Get ls field = (case gm_get ls field of Some v \<Rightarrow> v | None \<Rightarrow> [])"

definition Set_String :: "Set \<Rightarrow> string" where
  "Set_String ls = Join '','' (sort (map (\<lambda>(key, v). key @ ''='' @ v) ls))"

text \<open>A \<open>nil\<close> set is \<open>None\<close>.\<close>

definition SelectorFromSet :: "Set option \<Rightarrow> Selector" where
  "SelectorFromSet ls =
     (case ls of
        None \<Rightarrow> Everything
      | Some m \<Rightarrow> (case map (\<lambda>(field, v). hasTerm field v) m of [item] \<Rightarrow> item | items \<Rightarrow> andTerm items))"

definition AsSelector :: "Set \<Rightarrow> Selector" where
  "AsSelector ls = SelectorFromSet (Some ls)"

section \<open>Parsing\<close>

definition try_op :: "string \<Rightarrow> string \<Rightarrow> (string \<times> string) option" where
  "try_op selectorPiece op =
     (case Split op selectorPiece of [lhs, rhs] \<Rightarrow> Some (lhs, rhs) | _ \<Rightarrow> None)"

fun parse_parts :: "string list \<Rightarrow> gerror + Selector list" where
  "parse_parts [] = Inr []"
| "parse_parts (part # parts) =
     (if part = [] then parse_parts parts
      else
        (case (case try_op part ''!='' of
                 Some (lhs, rhs) \<Rightarrow> Some (notHasTerm lhs rhs)
               | None \<Rightarrow>
                   (case try_op part ''=='' of
                      Some (lhs, rhs) \<Rightarrow> Some (hasTerm lhs rhs)
                    | None \<Rightarrow> (case try_op part ''='' of Some (lhs, rhs) \<Rightarrow> Some (hasTerm lhs rhs) | None \<Rightarrow> None))) of
           None \<Rightarrow> Inl (Errorf (''invalid selector; can't understand '' @ part))
         | Some item \<Rightarrow> (case parse_parts parts of Inl err \<Rightarrow> Inl err | Inr items \<Rightarrow> Inr (item # items))))"

definition parseSelector :: "string \<Rightarrow> TransformFunc \<Rightarrow> gerror + Selector" where
  "parseSelector selector fn =
     (case parse_parts (sort (Split '','' selector)) of
        Inl err \<Rightarrow> Inl err
      | Inr [item] \<Rightarrow> sel_Transform fn item
      | Inr items \<Rightarrow> sel_Transform fn (andTerm items))"

definition ParseSelector :: "string \<Rightarrow> gerror + Selector" where
  "ParseSelector selector = parseSelector selector (\<lambda>lhs rhs. Inr (lhs, rhs))"

definition ParseAndTransformSelector :: "string \<Rightarrow> TransformFunc \<Rightarrow> gerror + Selector" where
  "ParseAndTransformSelector selector fn = parseSelector selector fn"

definition ParseSelectorOrDie :: "string \<Rightarrow> Selector outcome" where
  "ParseSelectorOrDie s = (case ParseSelector s of Inl err \<Rightarrow> Panic ''ParseSelectorOrDie'' | Inr selector \<Rightarrow> Ok selector)"

section \<open>Parsing undoes printing\<close>

text \<open>A term that can be printed: one comparison whose texts have none of the characters of the syntax.\<close>

definition plain :: "string \<Rightarrow> bool" where
  "plain s \<longleftrightarrow> CHR '','' \<notin> set s \<and> CHR ''='' \<notin> set s \<and> CHR ''!'' \<notin> set s"

fun is_term :: "Selector \<Rightarrow> bool" where
  "is_term (hasTerm f v) \<longleftrightarrow> plain f \<and> plain v"
| "is_term (notHasTerm f v) \<longleftrightarrow> plain f \<and> plain v"
| "is_term (andTerm _) \<longleftrightarrow> False"

lemma Transform_id: "\<forall>f v. fn f v = Inr (f, v) \<Longrightarrow> sel_Transform fn s = Inr s"
  and and_Transform_id: "\<forall>f v. fn f v = Inr (f, v) \<Longrightarrow> and_Transform fn t = Inr t"
  by (induction fn s and fn t rule: sel_Transform_and_Transform.induct) auto

lemma try_op_cut: "d \<notin> set f \<Longrightarrow> d \<notin> set v \<Longrightarrow> try_op (f @ (d # sep) @ v) (d # sep) = Some (f, v)"
  using Split_cut [of d f sep v] by (simp add: try_op_def Split_none)

lemma try_op_none: "d \<notin> set s \<Longrightarrow> try_op s (d # sep) = None"
  by (simp add: try_op_def Split_none)

lemma try_op_double:
  assumes "d \<notin> set f" "d \<notin> set v"
  shows "try_op (f @ d # v) [d, d] = None"
proof -
  have "\<not> prefix [d, d] (d # v)" using assms(2) by (cases v) (auto simp: prefix_def)
  then have "Split [d, d] (d # v) = [d # v]"
    using Split_skip [of "[d, d]" d v v "[]"] Split_none [OF assms(2), of "[d]"] by simp
  then show ?thesis using Split_append [OF assms(1), of "[d]" "d # v"] by (simp add: try_op_def)
qed

lemma parse_term:
  assumes "is_term t"
  shows "parse_parts (sel_String t # parts) = (case parse_parts parts of Inl err \<Rightarrow> Inl err | Inr items \<Rightarrow> Inr (t # items))"
proof (cases t)
  case (hasTerm f v)
  then have "plain f" "plain v" using assms by auto
  then show ?thesis
    using try_op_none [of "CHR ''!''" "f @ ''='' @ v" "''=''"] try_op_double [of "CHR ''=''" f v] try_op_cut [of "CHR ''=''" f v "[]"]
    by (simp add: hasTerm plain_def split: sum.splits)
next
  case (notHasTerm f v)
  then have "plain f" "plain v" using assms by auto
  then show ?thesis using try_op_cut [of "CHR ''!''" f v "''=''"] by (simp add: notHasTerm plain_def split: sum.splits)
qed (use assms in simp)

lemma parse_terms: "list_all is_term ts \<Longrightarrow> parse_parts (map sel_String ts) = Inr ts"
  by (induction ts) (simp_all add: parse_term del: parse_parts.simps(2))

lemma sel_String_term: "is_term t \<Longrightarrow> CHR '','' \<notin> set (sel_String t)"
  by (cases t) (auto simp: plain_def)

lemma sort_map_key: "sort (map f xs) = map f (sort_key f xs)"
  by (rule properties_for_sort) simp_all

text \<open>The selector that a list of terms is parsed to.\<close>

definition conj_of :: "Selector list \<Rightarrow> Selector" where
  "conj_of items = (case items of [item] \<Rightarrow> item | _ \<Rightarrow> andTerm items)"

lemma conj_of_Matches: "sel_Matches (conj_of items) ls \<longleftrightarrow> (\<forall>item \<in> set items. sel_Matches item ls)"
  by (auto simp: conj_of_def list_all_iff split: list.splits)

lemma parse_terms_sorted:
  assumes "list_all is_term ts"
  shows "ParseSelector (Join '','' (map sel_String ts)) = Inr (conj_of (sort_key sel_String ts))"
proof -
  have "parse_parts (sort (Split '','' (Join '','' (map sel_String ts)))) = Inr (sort_key sel_String ts)"
  proof (cases "ts = []")
    case True
    then show ?thesis by (simp add: Split_Nil)
  next
    case False
    then have "Split '','' (Join '','' (map sel_String ts)) = map sel_String ts"
      using assms by (intro Split_Join) (auto simp: list_all_iff sel_String_term)
    moreover have "list_all is_term (sort_key sel_String ts)" using assms by (simp add: list_all_iff)
    ultimately show ?thesis by (simp add: sort_map_key parse_terms)
  qed
  then show ?thesis
    by (auto simp: ParseSelector_def parseSelector_def conj_of_def Transform_id and_Transform_id split: list.splits)
qed

text \<open>Parsing undoes printing: a conjunction of comparisons whose texts have no comma, equals or exclamation
  mark is read back as the same comparisons (sorted by their text, a single one without the conjunction), so it
  matches the same objects.\<close>

theorem selector_roundtrip:
  assumes "list_all is_term ts"
  shows "ParseSelector (sel_String (andTerm ts)) = Inr (conj_of (sort_key sel_String ts)) \<and>
    sel_Matches (conj_of (sort_key sel_String ts)) ls = sel_Matches (andTerm ts) ls"
  using parse_terms_sorted [OF assms] by (simp add: conj_of_Matches list_all_iff)

theorem selector_roundtrip_witness:
  "ParseSelector ''status.phase!=Failed,metadata.name=web'' =
     Inr (andTerm [hasTerm ''metadata.name'' ''web'', notHasTerm ''status.phase'' ''Failed''])"
proof -
  let ?ts = "[notHasTerm ''status.phase'' ''Failed'', hasTerm ''metadata.name'' ''web'']"
  have "ParseSelector (sel_String (andTerm ?ts)) = Inr (conj_of (sort_key sel_String ?ts))"
    by (rule selector_roundtrip [THEN conjunct1]) (simp add: plain_def)
  moreover have "sort_key sel_String ?ts = [hasTerm ''metadata.name'' ''web'', notHasTerm ''status.phase'' ''Failed'']"
    by (simp add: less_eq_list_code less_eq_char_simp)
  ultimately show ?thesis by (simp add: conj_of_def)
qed

text \<open>The text of a set of fields is what the parser takes, and selects the objects that agree with the set.\<close>

lemma Set_String_selects:
  assumes "gm_wf ls" "\<forall>(k, v) \<in> set ls. plain k \<and> plain v"
  shows "\<exists>s. ParseSelector (Set_String ls) = Inr s \<and> (\<forall>fs. sel_Matches s fs \<longleftrightarrow> sel_Matches (AsSelector ls) fs) \<and>
    (\<forall>fs. sel_Matches s fs \<longleftrightarrow> (\<forall>k v. map_of ls k = Some v \<longrightarrow> fs k = v))"
proof -
  let ?ts = "map (\<lambda>(k, v). hasTerm k v) ls"
  have terms: "list_all is_term ?ts" "list_all is_term (sort_key sel_String ?ts)" using assms(2) by (auto simp: list_all_iff)
  have "map (\<lambda>(k, v). k @ ''='' @ v) ls = map sel_String ?ts" by (auto simp: split_beta)
  then have "Set_String ls = Join '','' (map sel_String (sort_key sel_String ?ts))"
    unfolding Set_String_def by (simp only: sort_map_key)
  with parse_terms_sorted [OF terms(2)]
  have p: "ParseSelector (Set_String ls) = Inr (conj_of (sort_key sel_String (sort_key sel_String ?ts)))" by simp
  have m: "sel_Matches (conj_of (sort_key sel_String (sort_key sel_String ?ts))) fs \<longleftrightarrow> (\<forall>(k, v) \<in> set ls. fs k = v)" for fs
    by (auto simp: conj_of_Matches)
  have a: "AsSelector ls = conj_of ?ts" by (auto simp: AsSelector_def SelectorFromSet_def conj_of_def split: list.splits)
  show ?thesis using p m a assms(1) by (auto simp: conj_of_Matches map_of_eq_Some_iff)
qed

lemma Everything_matches: "sel_Matches Everything ls" "sel_Empty Everything" "sel_String Everything = []"
  by (simp_all add: Everything_def)

lemma Empty_matches: "sel_Empty s \<Longrightarrow> sel_Matches s ls"
  by (induction s rule: sel_Empty.induct) (auto simp: list_all_iff)

text \<open>A required value is the only one the selector matches.\<close>

lemma RequiresExactMatch_sound:
  "sel_RequiresExactMatch s field = Some v \<Longrightarrow> sel_Matches s ls \<Longrightarrow> ls field = v"
  "and_RequiresExactMatch t field = Some v \<Longrightarrow> list_all (\<lambda>q. sel_Matches q ls) t \<Longrightarrow> ls field = v"
  by (induction s field and t field rule: sel_RequiresExactMatch_and_RequiresExactMatch.induct)
    (auto split: if_splits option.splits)

end
