(* ===== verification/Bucket.thy ===== *)
theory Bucket
  imports Backoff "HOL-Library.Signed_Division"
begin

text \<open>
  \<open>github.com/juju/ratelimit/ratelimit.go\<close> and \<open>pkg/util/throttle.go\<close> (both vendored): the token bucket
  that spaces the requests of the API client (\<open>--kube-api-qps\<close>, \<open>--kube-api-burst\<close>).

  The \<open>int64\<close> and \<open>time.Duration\<close> fields are integers in the signed 64-bit range; every sum,
  difference and product goes through \<open>i64\<close>, which wraps it as Go does, and \<open>sdiv\<close> is Go's truncating
  division. Each method holds the mutex of the bucket, so each is one step; the reading of \<open>time.Now()\<close> is
  an argument, and \<open>time.Sleep(d)\<close> shows as the time at which the caller goes on. The two floating point
  expressions of \<open>NewBucketWithRate\<close> are parameters: the fill interval \<open>1e9 * quantum / rate\<close>
  and the test that the rate of the bucket is within the margin of the rate asked for.
\<close>

section \<open>64-bit integers\<close>

definition i64 :: "int \<Rightarrow> int" where
  "i64 x = (x + 2 ^ 63) mod 2 ^ 64 - 2 ^ 63"

lemma i64_id: "- (2 ^ 63) \<le> x \<Longrightarrow> x < 2 ^ 63 \<Longrightarrow> i64 x = x"
  by (simp add: i64_def)

lemma i64_range: "- (2 ^ 63) \<le> i64 x" "i64 x < 2 ^ 63"
proof -
  have "0 \<le> (x + 2 ^ 63) mod 2 ^ 64" "(x + 2 ^ 63) mod 2 ^ 64 < (2 :: int) ^ 64"
    by (rule pos_mod_sign pos_mod_bound, simp)+
  then show "- (2 ^ 63) \<le> i64 x" "i64 x < 2 ^ 63" by (simp_all add: i64_def)
qed

lemma sdiv_pos: "0 \<le> (a :: int) \<Longrightarrow> 0 < b \<Longrightarrow> a sdiv b = a div b"
  by (simp add: signed_divide_int_def sgn_if)

section \<open>The bucket\<close>

record Bucket =
  tb_startTime :: gotime
  tb_capacity :: int
  tb_quantum :: int
  tb_fillInterval :: int
  tb_avail :: int
  tb_availTick :: int

definition NewBucketWithQuantum :: "gotime \<Rightarrow> int \<Rightarrow> int \<Rightarrow> int \<Rightarrow> Bucket outcome" where
  "NewBucketWithQuantum now fillInterval capacity quantum =
     (if fillInterval \<le> 0 then Panic ''token bucket fill interval is not > 0''
      else if capacity \<le> 0 then Panic ''token bucket capacity is not > 0''
      else if quantum \<le> 0 then Panic ''token bucket quantum is not > 0''
      else Ok \<lparr>tb_startTime = now, tb_capacity = capacity, tb_quantum = quantum, tb_fillInterval = fillInterval,
               tb_avail = capacity, tb_availTick = 0\<rparr>)"

definition NewBucket :: "gotime \<Rightarrow> int \<Rightarrow> int \<Rightarrow> Bucket outcome" where
  "NewBucket now fillInterval capacity = NewBucketWithQuantum now fillInterval capacity 1"

text \<open>The search of \<open>NewBucketWithRate\<close> starts at 1 and stays below \<open>2 ^ 54\<close>, so natural numbers do
  for the quantum.\<close>

definition nextQuantum :: "nat \<Rightarrow> nat" where
  "nextQuantum q = (let q1 = q * 11 div 10 in if q1 = q then q1 + 1 else q1)"

lemma nextQuantum_less: "q < nextQuantum q"
proof -
  have "q \<le> q * 11 div 10" by simp
  then show ?thesis by (simp add: nextQuantum_def Let_def)
qed

function rate_loop :: "(nat \<Rightarrow> int) \<Rightarrow> (Bucket \<Rightarrow> bool) \<Rightarrow> gotime \<Rightarrow> int \<Rightarrow> nat \<Rightarrow> Bucket outcome" where
  "rate_loop interval close now capacity quantum =
     (if quantum < 2 ^ 50 then
        (let fillInterval = interval quantum in
         if fillInterval \<le> 0 then rate_loop interval close now capacity (nextQuantum quantum)
         else
           (case NewBucketWithQuantum now fillInterval capacity (int quantum) of
              Ok tb \<Rightarrow> if close tb then Ok tb else rate_loop interval close now capacity (nextQuantum quantum)
            | failed \<Rightarrow> failed))
      else Panic ''cannot find suitable quantum'')"
  by pat_completeness auto

termination
  by (relation "measure (\<lambda>(_, _, _, _, q). 2 ^ 50 - q)")
    (auto simp: diff_less_mono2 nextQuantum_less)

declare rate_loop.simps [simp del]

definition NewBucketWithRate :: "(nat \<Rightarrow> int) \<Rightarrow> (Bucket \<Rightarrow> bool) \<Rightarrow> gotime \<Rightarrow> int \<Rightarrow> Bucket outcome" where
  "NewBucketWithRate interval close now capacity = rate_loop interval close now capacity 1"

definition tb_adjust :: "Bucket \<Rightarrow> gotime \<Rightarrow> int \<times> Bucket" where
  "tb_adjust tb now =
     (let currentTick = i64 (sint (time_Sub now (tb_startTime tb)) sdiv tb_fillInterval tb) in
      if tb_avail tb \<ge> tb_capacity tb then (currentTick, tb)
      else
        (let avail = i64 (tb_avail tb + i64 (i64 (currentTick - tb_availTick tb) * tb_quantum tb)) in
         (currentTick, tb\<lparr>tb_avail := (if avail > tb_capacity tb then tb_capacity tb else avail),
                          tb_availTick := currentTick\<rparr>)))"

definition tb_take :: "Bucket \<Rightarrow> gotime \<Rightarrow> int \<Rightarrow> int \<Rightarrow> (int \<times> bool) \<times> Bucket" where
  "tb_take tb now count maxWait =
     (if count \<le> 0 then ((0, True), tb)
      else
        (let (currentTick, tb1) = tb_adjust tb now;
             avail = i64 (tb_avail tb1 - count) in
         if avail \<ge> 0 then ((0, True), tb1\<lparr>tb_avail := avail\<rparr>)
         else
           (let endTick = i64 (currentTick + i64 (i64 (i64 (- avail) + tb_quantum tb1) - 1) sdiv tb_quantum tb1);
                endTime = tb_startTime tb1 + i64 (endTick * tb_fillInterval tb1);
                waitTime = sint (time_Sub endTime now) in
            if waitTime > maxWait then ((0, False), tb1)
            else ((waitTime, True), tb1\<lparr>tb_avail := avail\<rparr>))))"

definition infinityDuration :: int where
  "infinityDuration = 0x7fffffffffffffff"

definition Take_tokens :: "Bucket \<Rightarrow> gotime \<Rightarrow> int \<Rightarrow> int \<times> Bucket" where
  "Take_tokens tb now count = (case tb_take tb now count infinityDuration of ((d, _), tb') \<Rightarrow> (d, tb'))"

definition TakeMaxDuration :: "Bucket \<Rightarrow> gotime \<Rightarrow> int \<Rightarrow> int \<Rightarrow> (int \<times> bool) \<times> Bucket" where
  "TakeMaxDuration tb now count maxWait = tb_take tb now count maxWait"

text \<open>\<open>Wait\<close> and \<open>WaitMaxDuration\<close> return at the time the sleep is over.\<close>

definition tb_Wait :: "Bucket \<Rightarrow> gotime \<Rightarrow> int \<Rightarrow> gotime \<times> Bucket" where
  "tb_Wait tb now count =
     (case Take_tokens tb now count of (d, tb') \<Rightarrow> if d > 0 then (now + d, tb') else (now, tb'))"

definition WaitMaxDuration :: "Bucket \<Rightarrow> gotime \<Rightarrow> int \<Rightarrow> int \<Rightarrow> (gotime \<times> bool) \<times> Bucket" where
  "WaitMaxDuration tb now count maxWait =
     (case TakeMaxDuration tb now count maxWait of
        ((d, ok), tb') \<Rightarrow> ((if d > 0 then now + d else now, ok), tb'))"

definition takeAvailable :: "Bucket \<Rightarrow> gotime \<Rightarrow> int \<Rightarrow> int \<times> Bucket" where
  "takeAvailable tb now count =
     (if count \<le> 0 then (0, tb)
      else
        (let (_, tb1) = tb_adjust tb now in
         if tb_avail tb1 \<le> 0 then (0, tb1)
         else
           (let count' = (if count > tb_avail tb1 then tb_avail tb1 else count) in
            (count', tb1\<lparr>tb_avail := i64 (tb_avail tb1 - count')\<rparr>))))"

definition available :: "Bucket \<Rightarrow> gotime \<Rightarrow> int \<times> Bucket" where
  "available tb now = (let (_, tb1) = tb_adjust tb now in (tb_avail tb1, tb1))"

section \<open>The rate limiter of the API client\<close>

definition NewTokenBucketRateLimiter :: "(nat \<Rightarrow> int) \<Rightarrow> (Bucket \<Rightarrow> bool) \<Rightarrow> gotime \<Rightarrow> int \<Rightarrow> Bucket outcome" where
  "NewTokenBucketRateLimiter interval close now burst = NewBucketWithRate interval close now burst"

definition TryAccept :: "Bucket \<Rightarrow> gotime \<Rightarrow> bool \<times> Bucket" where
  "TryAccept limiter now = (case takeAvailable limiter now 1 of (n, l) \<Rightarrow> (n = 1, l))"

definition Accept :: "Bucket \<Rightarrow> gotime \<Rightarrow> gotime \<times> Bucket" where
  "Accept limiter now = tb_Wait limiter now 1"

text \<open>A run of callers: each asks at its time for its number of tokens and goes on at the time returned.\<close>

fun run_waits :: "Bucket \<Rightarrow> (gotime \<times> int) list \<Rightarrow> (gotime \<times> int) list \<times> Bucket" where
  "run_waits tb [] = ([], tb)"
| "run_waits tb ((now, count) # reqs) =
     (let (released, tb1) = tb_Wait tb now count; (rest, tb2) = run_waits tb1 reqs in
      ((released, count) # rest, tb2))"

section \<open>Ticks and tokens without overflow\<close>

text \<open>The ticks that have passed at a time, and the bounds inside which no operation wraps: the bucket is at
  most about 73 years old, fills by at most one token per nanosecond, and at most \<open>L\<close> tokens are owed.\<close>

text \<open>\<open>tb_limit\<close> is \<open>2 ^ 61\<close>.\<close>

abbreviation tb_limit :: int where
  "tb_limit \<equiv> 2305843009213693952"

lemma i64_small: "- (2 * tb_limit) \<le> x \<Longrightarrow> x \<le> 2 * tb_limit \<Longrightarrow> i64 x = x"
  by (rule i64_id) simp_all

definition tick :: "Bucket \<Rightarrow> gotime \<Rightarrow> int" where
  "tick tb t = (t - tb_startTime tb) div tb_fillInterval tb"

definition in_window :: "Bucket \<Rightarrow> gotime \<Rightarrow> bool" where
  "in_window tb now \<longleftrightarrow> tb_startTime tb \<le> now \<and> now < tb_startTime tb + tb_limit"

definition bucket_ok :: "Bucket \<Rightarrow> int \<Rightarrow> gotime \<Rightarrow> bool" where
  "bucket_ok tb L now \<longleftrightarrow>
     1 \<le> tb_quantum tb \<and> tb_quantum tb \<le> tb_fillInterval tb \<and> 1 \<le> tb_capacity tb \<and> tb_capacity tb < tb_limit \<and>
     tb_avail tb \<le> tb_capacity tb \<and> - L \<le> tb_avail tb \<and> 0 \<le> tb_availTick tb \<and> tb_availTick tb \<le> tick tb now \<and>
     in_window tb now"

definition same_shape :: "Bucket \<Rightarrow> Bucket \<Rightarrow> bool" where
  "same_shape tb tb' \<longleftrightarrow> tb_startTime tb' = tb_startTime tb \<and> tb_capacity tb' = tb_capacity tb \<and>
     tb_quantum tb' = tb_quantum tb \<and> tb_fillInterval tb' = tb_fillInterval tb"

lemma tick_cong: "same_shape tb tb' \<Longrightarrow> tick tb' t = tick tb t"
  by (simp add: tick_def same_shape_def)

lemma tick_mono: "1 \<le> tb_fillInterval tb \<Longrightarrow> t \<le> u \<Longrightarrow> tick tb t \<le> tick tb u"
  unfolding tick_def by (rule zdiv_mono1) auto

lemma tick_nonneg: "1 \<le> tb_fillInterval tb \<Longrightarrow> in_window tb t \<Longrightarrow> 0 \<le> tick tb t"
  by (simp add: tick_def in_window_def pos_imp_zdiv_nonneg_iff)

lemma tick_elapsed:
  assumes "1 \<le> tb_fillInterval tb"
  shows "tick tb t * tb_fillInterval tb \<le> t - tb_startTime tb"
    and "t - tb_startTime tb < (tick tb t + 1) * tb_fillInterval tb"
proof -
  let ?f = "tb_fillInterval tb" and ?d = "t - tb_startTime tb"
  have "?d = ?d div ?f * ?f + ?d mod ?f" by simp
  moreover have "0 \<le> ?d mod ?f" "?d mod ?f < ?f" using assms by simp_all
  ultimately show "tick tb t * ?f \<le> ?d" "?d < (tick tb t + 1) * ?f"
    unfolding tick_def distrib_right by linarith+
qed

lemma tick_tokens_bound:
  assumes "1 \<le> tb_quantum tb" "tb_quantum tb \<le> tb_fillInterval tb" "in_window tb now"
  shows "tick tb now * tb_quantum tb < tb_limit"
proof -
  have f: "1 \<le> tb_fillInterval tb" using assms by linarith
  have "tick tb now * tb_quantum tb \<le> tick tb now * tb_fillInterval tb"
    using assms tick_nonneg [OF f assms(3)] by (intro mult_left_mono) auto
  also have "\<dots> < tb_limit" using tick_elapsed(1) [OF f, of now] assms(3) by (simp add: in_window_def)
  finally show ?thesis .
qed

lemma current_tick:
  assumes "1 \<le> tb_fillInterval tb" "in_window tb now"
  shows "i64 (sint (time_Sub now (tb_startTime tb)) sdiv tb_fillInterval tb) = tick tb now"
proof -
  have r: "0 \<le> now - tb_startTime tb" "now - tb_startTime tb < tb_limit" using assms(2) by (auto simp: in_window_def)
  then have s: "sint (time_Sub now (tb_startTime tb)) = now - tb_startTime tb" by (simp add: sint_time_Sub)
  have "tick tb now \<le> tick tb now * tb_fillInterval tb"
    using assms tick_nonneg [OF assms] by (simp add: mult_le_cancel_left1)
  then have "tick tb now < tb_limit" using tick_elapsed(1) [OF assms(1), of now] r by linarith
  then show ?thesis using tick_nonneg [OF assms] assms(1) r s
    by (simp add: sdiv_pos flip: tick_def) (simp add: i64_small)
qed

lemma adjust_exact:
  assumes ok: "bucket_ok tb L now0" and later: "now0 \<le> now" "in_window tb now" and L: "L < tb_limit"
  shows "tb_adjust tb now = (tick tb now,
    if tb_avail tb \<ge> tb_capacity tb then tb
    else tb\<lparr>tb_avail := min (tb_capacity tb) (tb_avail tb + (tick tb now - tb_availTick tb) * tb_quantum tb),
            tb_availTick := tick tb now\<rparr>)"
proof -
  let ?n = "tick tb now - tb_availTick tb" and ?q = "tb_quantum tb"
  have f: "1 \<le> tb_fillInterval tb" "1 \<le> ?q" "?q \<le> tb_fillInterval tb" using ok by (auto simp: bucket_ok_def)
  have at: "0 \<le> tb_availTick tb" "tb_availTick tb \<le> tick tb now"
    using ok tick_mono [OF f(1) later(1)] by (auto simp: bucket_ok_def)
  have n: "0 \<le> ?n" "?n \<le> tick tb now" using at by auto
  have "?n * ?q \<le> tick tb now * ?q" using n f by (intro mult_right_mono) auto
  then have nq2: "?n * ?q < tb_limit" using tick_tokens_bound [OF f(2,3) later(2)] by (rule order.strict_trans1)
  have nq: "0 \<le> ?n * ?q" using n f by simp
  have "?n \<le> ?n * ?q" using n f by (simp add: mult_le_cancel_left1)
  with n nq nq2 have "i64 ?n = ?n" by (intro i64_small) linarith+
  moreover have "i64 (?n * ?q) = ?n * ?q" using nq nq2 by (intro i64_small) linarith+
  moreover have "i64 (tb_avail tb + ?n * ?q) = tb_avail tb + ?n * ?q"
    using nq nq2 ok L by (intro i64_small) (auto simp: bucket_ok_def)
  ultimately show ?thesis
    by (simp add: tb_adjust_def Let_def current_tick [OF f(1) later(2)] min_def)
qed

text \<open>The number of ticks until the missing tokens are there: the least one that is enough.\<close>

definition ticks_for :: "int \<Rightarrow> int \<Rightarrow> int" where
  "ticks_for missing q = (missing + q - 1) div q"

lemma ticks_for_bounds:
  assumes "1 \<le> missing" "1 \<le> q"
  shows "1 \<le> ticks_for missing q" "ticks_for missing q \<le> missing" "missing \<le> ticks_for missing q * q"
    "(ticks_for missing q - 1) * q < missing"
proof -
  let ?k = "(missing + q - 1) div q"
  have "missing + q - 1 = ?k * q + (missing + q - 1) mod q" by simp
  moreover have "0 \<le> (missing + q - 1) mod q" "(missing + q - 1) mod q < q" using assms by simp_all
  ultimately have b: "?k * q \<le> missing + q - 1" "missing + q - 1 < ?k * q + q" by linarith+
  then show "missing \<le> ticks_for missing q * q" "(ticks_for missing q - 1) * q < missing"
    by (simp_all add: ticks_for_def left_diff_distrib)
  have "0 < (missing + q - 1) div q" using assms by (simp add: pos_imp_zdiv_pos_iff)
  then show "1 \<le> ticks_for missing q" by (simp add: ticks_for_def)
  have "(missing + q - 1) div q \<le> missing * q div q"
  proof (rule zdiv_mono1)
    have "0 \<le> (missing - 1) * (q - 1)" using assms by simp
    then show "missing + q - 1 \<le> missing * q" by (simp add: algebra_simps)
  qed (use assms in simp)
  then show "ticks_for missing q \<le> missing" using assms by (simp add: ticks_for_def)
qed

lemma wait_exact:
  assumes ok: "bucket_ok tb L now0" and later: "now0 \<le> now" "in_window tb now"
    and count: "1 \<le> count" and L: "0 \<le> L" "(L + count + 1) * tb_fillInterval tb < tb_limit"
  defines "tb1 \<equiv> snd (tb_adjust tb now)"
  defines "a \<equiv> tb_avail tb1 - count"
  shows "tb_Wait tb now count =
    (if 0 \<le> a then now
     else tb_startTime tb + (tick tb now + ticks_for (- a) (tb_quantum tb)) * tb_fillInterval tb,
     tb1\<lparr>tb_avail := a\<rparr>)"
proof -
  let ?f = "tb_fillInterval tb" and ?q = "tb_quantum tb"
  have fq: "1 \<le> ?f" "1 \<le> ?q" "?q \<le> ?f" using ok by (auto simp: bucket_ok_def)
  have "L + count + 1 \<le> (L + count + 1) * ?f" using fq L count by (simp add: mult_le_cancel_left1)
  then have Lc: "L + count + 1 < tb_limit" using L by linarith
  have adj: "tb_adjust tb now = (tick tb now, tb1)" "- L \<le> tb_avail tb1" "tb_avail tb1 < tb_limit"
      "tb_startTime tb1 = tb_startTime tb" "tb_quantum tb1 = ?q" "tb_fillInterval tb1 = ?f"
  proof -
    have "0 \<le> (tick tb now - tb_availTick tb) * ?q"
      using ok tick_mono [OF fq(1) later(1)] fq by (auto simp: bucket_ok_def)
    then show "tb_adjust tb now = (tick tb now, tb1)" "- L \<le> tb_avail tb1" "tb_avail tb1 < tb_limit"
      "tb_startTime tb1 = tb_startTime tb" "tb_quantum tb1 = ?q" "tb_fillInterval tb1 = ?f"
      using ok L unfolding tb1_def
      by (subst adjust_exact [OF ok later]; use Lc count L in \<open>auto simp: bucket_ok_def\<close>)+
  qed
  have a: "- (L + count) \<le> a" "a < tb_limit" "i64 (tb_avail tb1 - count) = a"
    using adj(2,3) Lc count L by (auto simp: a_def intro!: i64_small)
  show ?thesis
  proof (cases "0 \<le> a")
    case True
    then show ?thesis using a count
      by (simp add: tb_Wait_def Take_tokens_def tb_take_def adj(1) Let_def)
  next
    case False
    let ?k = "ticks_for (- a) ?q"
    have k: "1 \<le> ?k" "?k \<le> - a" using ticks_for_bounds [of "- a" ?q] False fq by auto
    have t: "0 \<le> tick tb now" "tick tb now * ?f < tb_limit" "tick tb now \<le> tick tb now * ?f"
      using tick_nonneg [OF fq(1) later(2)] tick_elapsed(1) [OF fq(1), of now] later(2) fq
      by (auto simp: in_window_def mult_le_cancel_left1)
    have "?k * ?f \<le> (L + count + 1) * ?f" using k a fq by (intro mult_right_mono) auto
    then have kf: "?k * ?f < tb_limit" using L(2) by (rule order.strict_trans1)
    have kk: "?k \<le> ?k * ?f" using fq k by (simp add: mult_le_cancel_left1)
    have q61: "?q < tb_limit" using fq L Lc count mult_right_mono [of 1 "L + count + 1" ?f] by linarith
    have e1: "i64 (i64 (i64 (- a) + ?q) - 1) = - a + ?q - 1"
      using False a Lc q61 fq by (simp add: i64_small)
    have "i64 (i64 (i64 (- a) + ?q) - 1) sdiv ?q = ?k"
      unfolding e1 ticks_for_def using False fq by (intro sdiv_pos) auto
    then have e: "i64 (tick tb now + i64 (i64 (i64 (- a) + ?q) - 1) sdiv ?q) = tick tb now + ?k"
      using t k kf kk by (simp only: \<open>_ sdiv ?q = ?k\<close>) (rule i64_small; linarith)
    have ef: "i64 ((tick tb now + ?k) * ?f) = (tick tb now + ?k) * ?f"
      unfolding distrib_right by (rule i64_small) (use t kf kk k in linarith)+
    have "1 * ?f \<le> ?k * ?f" using k fq by (intro mult_right_mono) auto
    then have w: "0 < tb_startTime tb + (tick tb now + ?k) * ?f - now" "tb_startTime tb + (tick tb now + ?k) * ?f - now < 2 * tb_limit"
      using tick_elapsed(2) [OF fq(1), of now] t kf later(2) by (auto simp: distrib_right in_window_def)
    then have ws: "sint (time_Sub (tb_startTime tb + (tick tb now + ?k) * ?f) now) = tb_startTime tb + (tick tb now + ?k) * ?f - now"
      by (simp add: sint_time_Sub)
    show ?thesis using False a count w
      by (simp add: tb_Wait_def Take_tokens_def tb_take_def adj Let_def e ef ws infinityDuration_def)
  qed
qed

section \<open>How many tokens a run of callers gets\<close>

text \<open>\<open>N\<close> counts the tokens handed out so far: what is left plus what was handed out never exceeds the capacity
  plus one quantum for each tick that was credited.\<close>

definition accounted :: "Bucket \<Rightarrow> int \<Rightarrow> bool" where
  "accounted tb N \<longleftrightarrow> N + tb_avail tb \<le> tb_capacity tb + tb_availTick tb * tb_quantum tb"

lemma adjust_keeps:
  assumes ok: "bucket_ok tb L now0" and later: "now0 \<le> now" "in_window tb now"
    and L: "0 \<le> L" "L < tb_limit" and acc: "accounted tb N" and adj: "tb_adjust tb now = (k, tb1)"
  shows "k = tick tb now" "same_shape tb tb1" "bucket_ok tb1 L now" "accounted tb1 N"
proof -
  let ?n = "tick tb now - tb_availTick tb" and ?q = "tb_quantum tb"
  have fq: "1 \<le> tb_fillInterval tb" "1 \<le> ?q" using ok by (auto simp: bucket_ok_def)
  have tm: "tick tb now0 \<le> tick tb now" "0 \<le> tick tb now"
    using tick_mono [OF fq(1) later(1)] tick_nonneg [OF fq(1) later(2)] by auto
  have nq: "0 \<le> ?n * ?q" using ok tm fq by (auto simp: bucket_ok_def)
  have tb1: "tb1 = (if tb_avail tb \<ge> tb_capacity tb then tb
      else tb\<lparr>tb_avail := min (tb_capacity tb) (tb_avail tb + ?n * ?q), tb_availTick := tick tb now\<rparr>)"
    and k: "k = tick tb now"
    using adjust_exact [OF ok later L(2)] adj by auto
  show "k = tick tb now" by (rule k)
  show ss: "same_shape tb tb1" by (simp add: tb1 same_shape_def)
  have "- L \<le> tb_avail tb" using ok by (simp add: bucket_ok_def)
  with nq have av: "- L \<le> tb_avail tb + ?n * ?q" by linarith
  show "bucket_ok tb1 L now"
    using ok tm av later unfolding bucket_ok_def tick_cong [OF ss] by (auto simp: tb1 in_window_def)
  have "?n * ?q = tick tb now * ?q - tb_availTick tb * ?q" by (simp add: left_diff_distrib)
  then show "accounted tb1 N" using acc by (auto simp: tb1 accounted_def)
qed

lemma wait_keeps:
  assumes ok: "bucket_ok tb L now0" and later: "now0 \<le> now" "in_window tb now" and count: "1 \<le> count"
    and L: "0 \<le> L" "(L + count + 1) * tb_fillInterval tb < tb_limit" and acc: "accounted tb N"
    and run: "tb_Wait tb now count = (r, tb2)"
  shows "same_shape tb tb2" "bucket_ok tb2 (L + count) now" "accounted tb2 (N + count)" "now \<le> r"
    "N + count \<le> tb_capacity tb + tick tb r * tb_quantum tb"
proof -
  let ?f = "tb_fillInterval tb" and ?q = "tb_quantum tb"
  have fq: "1 \<le> ?f" "1 \<le> ?q" using ok by (auto simp: bucket_ok_def)
  have "L + count + 1 \<le> (L + count + 1) * ?f" using fq L count by (simp add: mult_le_cancel_left1)
  then have Ll: "L < tb_limit" using L(2) count by linarith
  obtain tb1 where adj: "tb_adjust tb now = (tick tb now, tb1)" using adjust_exact [OF ok later Ll] by blast
  note tb1 = adjust_keeps [OF ok later L(1) Ll acc adj]
  let ?a = "tb_avail tb1 - count"
  let ?e = "tick tb now + ticks_for (- ?a) ?q"
  have w: "tb2 = tb1\<lparr>tb_avail := ?a\<rparr>" "r = (if 0 \<le> ?a then now else tb_startTime tb + ?e * ?f)"
    using wait_exact [OF ok later count L] run by (simp_all add: adj)
  have sh: "tb_startTime tb1 = tb_startTime tb" "tb_capacity tb1 = tb_capacity tb" "tb_quantum tb1 = ?q" "tb_fillInterval tb1 = ?f"
    using tb1(2) by (simp_all add: same_shape_def)
  show ss: "same_shape tb tb2" by (simp add: w(1) same_shape_def sh)
  show "bucket_ok tb2 (L + count) now"
    using tb1(3) count unfolding bucket_ok_def tick_cong [OF ss] tick_cong [OF tb1(2)]
    by (auto simp: w(1) in_window_def)
  show "accounted tb2 (N + count)" using tb1(4) by (auto simp: w(1) accounted_def)
  have "tb_availTick tb1 * ?q \<le> tick tb now * ?q"
    using tb1(3) fq by (intro mult_right_mono) (auto simp: bucket_ok_def tick_cong [OF tb1(2)])
  with tb1(4) have N: "N + count \<le> tb_capacity tb + tick tb now * ?q - ?a" by (simp add: accounted_def sh)
  have "now \<le> r \<and> N + count \<le> tb_capacity tb + tick tb r * ?q"
  proof (cases "0 \<le> ?a")
    case True
    then show ?thesis using N by (simp add: w(2))
  next
    case False
    then have k: "1 \<le> ticks_for (- ?a) ?q" "- ?a \<le> ticks_for (- ?a) ?q * ?q"
      using ticks_for_bounds [of "- ?a" ?q] fq by auto
    have r: "r = tb_startTime tb + ?e * ?f" using False w(2) by simp
    then have "tick tb r = ?e" using fq by (simp add: tick_def)
    moreover have "1 * ?f \<le> ticks_for (- ?a) ?q * ?f" using k fq by (intro mult_right_mono) auto
    ultimately show ?thesis using N k tick_elapsed(2) [OF fq(1), of now] by (simp add: r distrib_right)
  qed
  then show "now \<le> r" "N + count \<le> tb_capacity tb + tick tb r * ?q" by auto
qed

lemma run_waits_step:
  "tb_Wait tb now c = (r, tb1) \<Longrightarrow> fst (run_waits tb ((now, c) # reqs)) = (r, c) # fst (run_waits tb1 reqs)"
  by (simp split: prod.splits)

declare run_waits.simps(2) [simp del]

lemma run_waits_bound:
  assumes "bucket_ok tb L now0" "0 \<le> L" "accounted tb N" "sorted (map fst reqs)"
    and "\<forall>(t, c) \<in> set reqs. now0 \<le> t \<and> in_window tb t \<and> 1 \<le> c"
    and "(L + sum_list (map snd reqs) + 1) * tb_fillInterval tb < tb_limit"
    and "filter (\<lambda>(r, c). r \<le> T) (fst (run_waits tb reqs)) \<noteq> []"
  shows "N + sum_list (map snd (filter (\<lambda>(r, c). r \<le> T) (fst (run_waits tb reqs)))) \<le> tb_capacity tb + tick tb T * tb_quantum tb"
  using assms
proof (induction reqs arbitrary: tb L N now0)
  case Nil
  then show ?case by simp
next
  case (Cons req reqs)
  obtain now c where req: "req = (now, c)" by (cases req)
  obtain r tb2 where w: "tb_Wait tb now c = (r, tb2)" by (cases "tb_Wait tb now c")
  let ?rest = "fst (run_waits tb2 reqs)" and ?sum = "sum_list (map snd reqs)"
  have nn: "0 \<le> ?sum" using Cons.prems(5) by (intro sum_list_nonneg) auto
  have f: "1 \<le> tb_fillInterval tb" "1 \<le> tb_quantum tb" using Cons.prems(1) by (auto simp: bucket_ok_def)
  have "(L + c + 1) * tb_fillInterval tb \<le> (L + sum_list (map snd (req # reqs)) + 1) * tb_fillInterval tb"
    using nn f by (intro mult_right_mono) (auto simp: req)
  then have Lc: "(L + c + 1) * tb_fillInterval tb < tb_limit" using Cons.prems(6) by (rule order.strict_trans1)
  have now: "now0 \<le> now" "in_window tb now" "1 \<le> c" using Cons.prems(5) by (auto simp: req)
  note k = wait_keeps [OF Cons.prems(1) now Cons.prems(2) Lc Cons.prems(3) w]
  have sh: "tb_capacity tb2 = tb_capacity tb" "tb_quantum tb2 = tb_quantum tb" "tb_fillInterval tb2 = tb_fillInterval tb"
    "in_window tb2 t = in_window tb t" for t
    using k(1) by (simp_all add: same_shape_def in_window_def)
  have IH: "N + c + sum_list (map snd (filter (\<lambda>(r, c). r \<le> T) ?rest)) \<le> tb_capacity tb + tick tb T * tb_quantum tb"
    if "filter (\<lambda>(r, c). r \<le> T) ?rest \<noteq> []"
    using Cons.IH [OF k(2) _ k(3) _ _ _ that] Cons.prems(2,4,5,6) now
    by (fastforce simp: sh tick_cong [OF k(1)] req add.assoc)
  have one: "N + c \<le> tb_capacity tb + tick tb T * tb_quantum tb" if "r \<le> T"
    using k(5) mult_right_mono [OF tick_mono [OF f(1) that], of "tb_quantum tb"] f by linarith
  have run: "fst (run_waits tb (req # reqs)) = (r, c) # ?rest" by (simp add: req run_waits_step [OF w])
  show ?case
    using IH one now Cons.prems(7) unfolding run
    by (cases "filter (\<lambda>(r, c). r \<le> T) ?rest = []") auto
qed

section \<open>Properties\<close>

lemma NewBucketWithQuantum_Ok:
  "NewBucketWithQuantum start fill cap q = Ok tb \<longleftrightarrow>
     0 < fill \<and> 0 < cap \<and> 0 < q \<and>
     tb = \<lparr>tb_startTime = start, tb_capacity = cap, tb_quantum = q, tb_fillInterval = fill, tb_avail = cap, tb_availTick = 0\<rparr>"
  by (auto simp: NewBucketWithQuantum_def)

lemma new_bucket_ok:
  assumes "NewBucketWithQuantum start fill cap q = Ok tb" "q \<le> fill" "cap < tb_limit"
  shows "bucket_ok tb 0 start" "accounted tb 0"
  using assms by (auto simp: NewBucketWithQuantum_Ok bucket_ok_def tick_def in_window_def accounted_def)

text \<open>C34: the throttle keeps its rate: however many callers ask a new bucket for tokens, in the order of their
  times, the tokens of those that may go on by time \<open>T\<close> are at most the capacity plus one quantum for each fill
  interval that has passed by \<open>T\<close> (as long as no 64-bit value overflows: some 73 years, and a backlog of less
  than that).\<close>

theorem throttle_rate_bound:
  assumes "NewBucketWithQuantum start fill cap q = Ok tb" "q \<le> fill" "cap < tb_limit"
    and "sorted (map fst reqs)" "\<forall>(t, c) \<in> set reqs. start \<le> t \<and> t < start + tb_limit \<and> 1 \<le> c"
    and "(sum_list (map snd reqs) + 1) * fill < tb_limit" "start \<le> T"
  shows "sum_list (map snd (filter (\<lambda>(r, c). r \<le> T) (fst (run_waits tb reqs)))) \<le> cap + (T - start) div fill * q"
proof (cases "filter (\<lambda>(r, c). r \<le> T) (fst (run_waits tb reqs)) = []")
  case True
  then show ?thesis using assms(1,7) by (simp add: NewBucketWithQuantum_Ok pos_imp_zdiv_nonneg_iff)
next
  case False
  have tb: "tb_capacity tb = cap" "tb_quantum tb = q" "tb_fillInterval tb = fill" "tb_startTime tb = start"
    using assms(1) by (auto simp: NewBucketWithQuantum_Ok)
  from run_waits_bound [OF new_bucket_ok(1) _ new_bucket_ok(2) assms(4) _ _ False, OF assms(1-3) _ assms(1-3)] assms(5,6)
  show ?thesis by (simp add: tb tick_def in_window_def)
qed

theorem throttle_rate_bound_witness:
  "\<exists>tb. NewBucketWithQuantum 0 200000000 2 1 = Ok tb \<and>
    sum_list (map snd (filter (\<lambda>(r, c). r \<le> 450000000) (fst (run_waits tb [(0, 1), (0, 1), (0, 1), (0, 1), (5, 1)])))) \<le> 4"
proof -
  obtain tb where tb: "NewBucketWithQuantum 0 200000000 2 1 = Ok tb" by (simp add: NewBucketWithQuantum_def)
  with throttle_rate_bound [OF tb, of "[(0, 1), (0, 1), (0, 1), (0, 1), (5, 1)]" 450000000] show ?thesis by simp
qed

lemma spend_available:
  "bucket_ok tb L now \<Longrightarrow> tb_availTick tb = tick tb now \<Longrightarrow> int n \<le> tb_avail tb \<Longrightarrow> tb_avail tb < tb_capacity tb
     \<Longrightarrow> 0 \<le> L \<Longrightarrow> (L + int n + 1) * tb_fillInterval tb < tb_limit
     \<Longrightarrow> fst (run_waits tb (replicate n (now, 1))) = replicate n (now, 1)"
proof (induction n arbitrary: tb L)
  case 0
  then show ?case by simp
next
  case (Suc n)
  have f: "1 \<le> tb_fillInterval tb" "in_window tb now" using Suc.prems(1) by (auto simp: bucket_ok_def)
  have "(L + 1 + 1) * tb_fillInterval tb \<le> (L + int (Suc n) + 1) * tb_fillInterval tb"
    using f by (intro mult_right_mono) auto
  then have L1: "(L + 1 + 1) * tb_fillInterval tb < tb_limit" using Suc.prems(6) by (rule order.strict_trans1)
  moreover have "L + 1 + 1 \<le> (L + 1 + 1) * tb_fillInterval tb" using f Suc.prems(5) by (simp add: mult_le_cancel_left1)
  ultimately have L: "L < tb_limit" by linarith
  have "tb_adjust tb now = (tick tb now, tb)"
    using adjust_exact [OF Suc.prems(1) order_refl f(2) L] Suc.prems(2,4) by simp
  then have w: "tb_Wait tb now 1 = (now, tb\<lparr>tb_avail := tb_avail tb - 1\<rparr>)"
    using wait_exact [OF Suc.prems(1) order_refl f(2) order_refl Suc.prems(5) L1] Suc.prems(3) by simp
  let ?tb = "tb\<lparr>tb_avail := tb_avail tb - 1\<rparr>"
  have "bucket_ok ?tb (L + 1) now" "tb_availTick ?tb = tick ?tb now"
    using Suc.prems(1,2,3,5) by (simp_all add: bucket_ok_def tick_def in_window_def)
  with Suc.IH [of ?tb "L + 1"] Suc.prems w show ?case by (simp add: algebra_simps run_waits_step [OF w])
qed

text \<open>A bucket that was full for a while lets more through at once than its capacity: \<open>adjust\<close> leaves the
  tick of a full bucket alone, so the ticks that passed while it was full are credited after the first token has
  been taken. Single requests (as the API client makes them) get one token too many; a caller that takes the
  whole capacity gets it twice.\<close>

theorem idle_bucket_exceeds_capacity:
  assumes new: "NewBucketWithQuantum start fill cap q = Ok tb" "q \<le> fill" "cap < tb_limit"
    and now: "start \<le> now" "now < start + tb_limit" "cap \<le> (now - start) div fill * q" and room: "(2 * cap + 2) * fill < tb_limit"
  shows "fst (run_waits tb (replicate (nat cap + 1) (now, 1))) = replicate (nat cap + 1) (now, 1) \<and>
    fst (run_waits tb [(now, cap), (now, cap)]) = [(now, cap), (now, cap)]"
proof -
  have tb: "tb_capacity tb = cap" "tb_quantum tb = q" "tb_fillInterval tb = fill" "tb_startTime tb = start"
      "tb_avail tb = cap" "tb_availTick tb = 0" and pos: "0 < cap" "0 < fill" "0 < q"
    using new(1) by (auto simp: NewBucketWithQuantum_Ok)
  note ok = new_bucket_ok(1) [OF new]
  have win: "in_window tb now" using now by (simp add: in_window_def tb)
  have lim: "(c + c' + 1) * fill < tb_limit" if "c \<le> cap" "c' \<le> cap" for c c'
    using room mult_right_mono [of "c + c' + 1" "2 * cap + 2" fill] that pos by linarith
  have clim: "c < tb_limit" if "c \<le> cap" for c using new(3) that by linarith
  have tk: "tick tb' now = (now - start) div fill" if "tb_startTime tb' = start" "tb_fillInterval tb' = fill" for tb'
    using that by (simp add: tick_def)
  have step1: "tb_Wait tb now c = (now, tb\<lparr>tb_avail := cap - c\<rparr>)" if "1 \<le> c" "c \<le> cap" for c
  proof -
    have "tb_adjust tb now = (tick tb now, tb)"
      using adjust_exact [OF ok now(1) win clim] pos by (simp add: tb)
    with wait_exact [OF ok now(1) win that(1) order_refl] lim [of 0 c] that pos show ?thesis by (simp add: tb)
  qed
  let ?tb1 = "\<lambda>c. tb\<lparr>tb_avail := cap - c\<rparr>" and ?tb2 = "\<lambda>c. tb\<lparr>tb_avail := cap - c, tb_availTick := tick tb now\<rparr>"
  have ok1: "bucket_ok (?tb1 c) c start" if "1 \<le> c" "c \<le> cap" for c
    using ok that by (simp add: bucket_ok_def in_window_def tick_def tb)
  have step2: "tb_Wait (?tb1 c) now c = (now, ?tb2 c)" if "1 \<le> c" "c \<le> cap" for c
  proof -
    have "cap \<le> cap - c + (now - start) div fill * q" using now(3) that by linarith
    then have "tb_adjust (?tb1 c) now = (tick tb now, tb\<lparr>tb_availTick := tick tb now\<rparr>)"
      using adjust_exact [OF ok1 [OF that] now(1) _ clim [OF that(2)]] that win
      by (simp add: tb tk in_window_def min_def)
    with wait_exact [OF ok1 [OF that] now(1) _ that(1)] lim [of c c] that win show ?thesis
      by (simp add: tb tk in_window_def)
  qed
  have twice: "fst (run_waits tb [(now, cap), (now, cap)]) = [(now, cap), (now, cap)]"
    using run_waits_step [OF step1 [of cap]] run_waits_step [OF step2 [of cap]] pos by simp
  have "bucket_ok (?tb2 1) 2 now"
    using ok pos win now tick_nonneg [of tb now] by (simp add: bucket_ok_def in_window_def tick_def tb)
  moreover have "(2 + int (nat (cap - 1)) + 1) * fill < tb_limit" using lim [of "cap" "1"] pos by simp
  ultimately have "fst (run_waits (?tb2 1) (replicate (nat (cap - 1)) (now, 1))) = replicate (nat (cap - 1)) (now, 1)"
    using pos by (intro spend_available [where L = 2]) (simp_all add: tb tk)
  moreover have "nat cap + 1 = Suc (Suc (nat (cap - 1)))" using pos by simp
  ultimately show ?thesis using twice run_waits_step [OF step1 [of 1]] run_waits_step [OF step2 [of 1]] pos by simp
qed

theorem idle_bucket_exceeds_capacity_witness:
  "\<exists>tb. NewBucketWithQuantum 0 200000000 10 1 = Ok tb \<and>
    fst (run_waits tb (replicate 11 (2000000000, 1))) = replicate 11 (2000000000, 1)"
proof -
  obtain tb where tb: "NewBucketWithQuantum 0 200000000 10 1 = Ok tb" by (simp add: NewBucketWithQuantum_def)
  with idle_bucket_exceeds_capacity [OF tb, of 2000000000] show ?thesis by simp
qed

text \<open>With the default flags (5 requests per second, burst 10) the first quantum fits: one token every 200 ms.\<close>

lemma default_throttle:
  assumes "interval 1 = 200000000" "\<And>tb. tb_quantum tb = 1 \<Longrightarrow> tb_fillInterval tb = 200000000 \<Longrightarrow> close tb"
  shows "NewTokenBucketRateLimiter interval close now 10 = NewBucketWithQuantum now 200000000 10 1"
  using assms by (simp add: NewTokenBucketRateLimiter_def NewBucketWithRate_def rate_loop.simps NewBucketWithQuantum_def)

end
