(* ===== verification/UrlBackoff.thy ===== *)
theory UrlBackoff
  imports Backoff
begin

text \<open>
  The backoff of the API client: \<open>pkg/util/backoff.go\<close> and \<open>pkg/client/restclient/urlbackoff.go\<close> (vendored).

  \<open>pkg/util/backoff.go\<close> is the original of which \<open>util/flowcontrol/backoff.go\<close> of the daemon is a copy: the
  struct and every method but \<open>Next\<close> have the same text, and the theory \<open>Backoff\<close> models them. The original \<open>Next\<close>
  doubles the window.

  \<open>BackoffManager\<close> is an interface: a record of its methods, with the laws that a request relies on in the
  locale \<open>backoff_manager\<close>. \<open>url.Parse(rawurl.String())\<close> of the standard library is the parameter \<open>reparse\<close>.
\<close>

section \<open>The original backoff table\<close>

definition Int64Min :: "int \<Rightarrow> int \<Rightarrow> int" where
  "Int64Min a b = (if b < a then b else a)"

definition kb_Next :: "Backoff \<Rightarrow> string \<Rightarrow> gotime \<Rightarrow> gotime \<Rightarrow> Backoff" where
  "kb_Next p ident eventTime now =
     (let (p1, entry1) =
        (case gm_get (bo_perItemBackoff p) ident of
           None \<Rightarrow> initEntryUnsafe p ident
         | Some entry \<Rightarrow>
             if hasExpired eventTime (be_lastUpdate entry) (bo_maxDuration p)
             then initEntryUnsafe p ident
             else
               (let delay = be_backoff entry * 2 in
                (p, entry\<lparr>be_backoff := word_of_int (Int64Min (sint delay) (sint (bo_maxDuration p)))\<rparr>)))
      in p1\<lparr>bo_perItemBackoff := gm_set ident (entry1\<lparr>be_lastUpdate := now\<rparr>) (bo_perItemBackoff p1)\<rparr>)"

definition kb_Get :: "Backoff \<Rightarrow> string \<Rightarrow> duration" where
  "kb_Get p ident =
     (case gm_get (bo_perItemBackoff p) ident of Some entry \<Rightarrow> be_backoff entry | None \<Rightarrow> 0)"

definition kb_Reset :: "Backoff \<Rightarrow> string \<Rightarrow> Backoff" where
  "kb_Reset p ident = p\<lparr>bo_perItemBackoff := gm_del ident (bo_perItemBackoff p)\<rparr>"

lemma kb_Next_abs:
  "bo_abs (kb_Next p ident t now) =
     (bo_abs p)(ident \<mapsto> \<lparr>be_backoff =
        (case bo_abs p ident of
           None \<Rightarrow> bo_defaultDuration p
         | Some entry \<Rightarrow> if hasExpired t (be_lastUpdate entry) (bo_maxDuration p) then bo_defaultDuration p
                         else word_of_int (Int64Min (sint (be_backoff entry * 2)) (sint (bo_maxDuration p)))),
        be_lastUpdate = now\<rparr>)"
  by (auto simp: kb_Next_def initEntryUnsafe_def Let_def gomap_simps split: option.splits)

lemma kb_Next_params [simp]:
  "bo_defaultDuration (kb_Next p ident t now) = bo_defaultDuration p"
  "bo_maxDuration (kb_Next p ident t now) = bo_maxDuration p"
  by (auto simp: kb_Next_def initEntryUnsafe_def Let_def split: option.splits)

section \<open>Backoff managers\<close>

record URL =
  u_Scheme :: string
  u_Host :: string
  u_Path :: string
  u_RawQuery :: string

record 'b backoffMgr =
  bm_UpdateBackoff :: "'b \<Rightarrow> URL \<Rightarrow> gerror option \<Rightarrow> int \<Rightarrow> gotime \<Rightarrow> 'b outcome"
  bm_CalculateBackoff :: "'b \<Rightarrow> URL \<Rightarrow> duration outcome"
  bm_Sleep :: "'b \<Rightarrow> gotime \<Rightarrow> duration \<Rightarrow> gotime"

text \<open>On the URLs of a client a manager never panics, and sleeping never turns the clock back.\<close>

locale backoff_manager =
  fixes B :: "'b backoffMgr"
    and good :: "URL \<Rightarrow> bool"
  assumes update_total: "good u \<Longrightarrow> \<exists>b'. bm_UpdateBackoff B b u err code now = Ok b'"
    and calculate_total: "good u \<Longrightarrow> \<exists>d. bm_CalculateBackoff B b u = Ok d"
    and sleep_forward: "now \<le> bm_Sleep B b now d"

text \<open>\<open>NoBackoff\<close>: the manager of a client without backoff settings in its environment.\<close>

definition NoBackoff :: "unit backoffMgr" where
  "NoBackoff = \<lparr>bm_UpdateBackoff = (\<lambda>b u err code now. Ok b), bm_CalculateBackoff = (\<lambda>b u. Ok 0),
                bm_Sleep = (\<lambda>b now d. now)\<rparr>"

definition serverIsOverloadedSet :: "int list" where
  "serverIsOverloadedSet = [429]"

definition maxResponseCode :: int where
  "maxResponseCode = 499"

definition baseUrlKey :: "(URL \<Rightarrow> URL option) \<Rightarrow> URL \<Rightarrow> string outcome" where
  "baseUrlKey reparse rawurl = (case reparse rawurl of None \<Rightarrow> Panic ''bad url!'' | Some host \<Rightarrow> Ok (u_Host host))"

definition ub_UpdateBackoff ::
  "(URL \<Rightarrow> URL option) \<Rightarrow> Backoff \<Rightarrow> URL \<Rightarrow> gerror option \<Rightarrow> int \<Rightarrow> gotime \<Rightarrow> Backoff outcome" where
  "ub_UpdateBackoff reparse b actualUrl err responseCode now =
     (if responseCode > maxResponseCode \<or> responseCode \<in> set serverIsOverloadedSet
      then (case baseUrlKey reparse actualUrl of
              Ok key \<Rightarrow> Ok (kb_Next b key now now)
            | Fail e \<Rightarrow> Fail e | Panic e \<Rightarrow> Panic e | Exit e \<Rightarrow> Exit e)
      else (case baseUrlKey reparse actualUrl of
              Ok key \<Rightarrow> Ok (kb_Reset b key)
            | Fail e \<Rightarrow> Fail e | Panic e \<Rightarrow> Panic e | Exit e \<Rightarrow> Exit e))"

definition ub_CalculateBackoff :: "(URL \<Rightarrow> URL option) \<Rightarrow> Backoff \<Rightarrow> URL \<Rightarrow> duration outcome" where
  "ub_CalculateBackoff reparse b actualUrl =
     (case baseUrlKey reparse actualUrl of
        Ok key \<Rightarrow> Ok (kb_Get b key) | Fail e \<Rightarrow> Fail e | Panic e \<Rightarrow> Panic e | Exit e \<Rightarrow> Exit e)"

text \<open>A sleep of a negative duration returns at once.\<close>

definition ub_Sleep :: "Backoff \<Rightarrow> gotime \<Rightarrow> duration \<Rightarrow> gotime" where
  "ub_Sleep b now d = now + max 0 (sint d)"

definition ub_Disable :: "Backoff \<Rightarrow> Backoff" where
  "ub_Disable b = NewBackOff 0 0"

definition URLBackoff :: "(URL \<Rightarrow> URL option) \<Rightarrow> Backoff backoffMgr" where
  "URLBackoff reparse =
     \<lparr>bm_UpdateBackoff = ub_UpdateBackoff reparse, bm_CalculateBackoff = ub_CalculateBackoff reparse, bm_Sleep = ub_Sleep\<rparr>"

interpretation nb: backoff_manager NoBackoff "\<lambda>u. True"
  by unfold_locales (simp_all add: NoBackoff_def)

interpretation ub: backoff_manager "URLBackoff reparse" "\<lambda>u. reparse u \<noteq> None"
  for reparse
  by unfold_locales
    (auto simp: URLBackoff_def ub_UpdateBackoff_def ub_CalculateBackoff_def ub_Sleep_def baseUrlKey_def split: option.splits)

section \<open>Windows double up to the maximum\<close>

lemma double_step:
  assumes "0 \<le> sint (mx :: duration)" "sint mx < 2 ^ 62" "0 \<le> w" "w \<le> sint mx"
  shows "sint (word_of_int (Int64Min (sint (word_of_int w * 2 :: duration)) (sint mx)) :: duration) = min (2 * w) (sint mx)"
proof -
  have w: "sint (word_of_int w :: duration) = w"
    using assms unfolding sint_sbintrunc' by (intro signed_take_bit_int_eq_self) auto
  then have "sint (word_of_int w * 2 :: duration) = 2 * w" using assms sint_double [of "word_of_int w"] by simp
  then have "Int64Min (sint (word_of_int w * 2 :: duration)) (sint mx) = min (2 * w) (sint mx)" by (simp add: Int64Min_def min_def)
  moreover have "sint (word_of_int (min (2 * w) (sint mx)) :: duration) = min (2 * w) (sint mx)"
    using assms unfolding sint_sbintrunc' by (intro signed_take_bit_int_eq_self) auto
  ultimately show ?thesis by simp
qed

text \<open>A run of failing exchanges with one host, at given times.\<close>

fun failures :: "(URL \<Rightarrow> URL option) \<Rightarrow> Backoff \<Rightarrow> URL \<Rightarrow> int \<Rightarrow> gotime list \<Rightarrow> Backoff outcome" where
  "failures reparse b u code [] = Ok b"
| "failures reparse b u code (now # ts) =
     (case ub_UpdateBackoff reparse b u None code now of Ok b' \<Rightarrow> failures reparse b' u code ts | failed \<Rightarrow> failed)"

fun close_together :: "int \<Rightarrow> gotime \<Rightarrow> gotime list \<Rightarrow> bool" where
  "close_together gap prev [] \<longleftrightarrow> True"
| "close_together gap prev (now # ts) \<longleftrightarrow> now - prev \<le> gap \<and> close_together gap now ts"

definition window_at :: "Backoff \<Rightarrow> string \<Rightarrow> int \<Rightarrow> gotime \<Rightarrow> bool" where
  "window_at b key w t \<longleftrightarrow> bo_abs b key = Some \<lparr>be_backoff = word_of_int w, be_lastUpdate = t\<rparr>"

lemma failures_double:
  assumes "0 \<le> sint (bo_maxDuration b)" "sint (bo_maxDuration b) < 2 ^ 62 - 1" "reparse u = Some h" "code > 499 \<or> code = 429"
    and "window_at b (u_Host h) w t" "0 \<le> w" "w \<le> sint (bo_maxDuration b)" "close_together (2 * sint (bo_maxDuration b)) t ts"
  shows "\<exists>b'. failures reparse b u code ts = Ok b' \<and>
    sint (kb_Get b' (u_Host h)) = min (w * 2 ^ length ts) (sint (bo_maxDuration b))"
  using assms
proof (induction ts arbitrary: b w t)
  case Nil
  have "sint (word_of_int w :: duration) = w"
    using Nil sint_range(2) [of "bo_maxDuration b"] unfolding sint_sbintrunc' by (intro signed_take_bit_int_eq_self) auto
  with Nil show ?case by (simp add: kb_Get_def gomap_simps window_at_def)
next
  case (Cons now ts)
  let ?k = "u_Host h" and ?mx = "sint (bo_maxDuration b)"
  let ?b = "kb_Next b ?k now now"
  have step: "ub_UpdateBackoff reparse b u None code now = Ok ?b"
    using Cons.prems(3,4) by (auto simp: ub_UpdateBackoff_def baseUrlKey_def maxResponseCode_def serverIsOverloadedSet_def)
  have "\<not> hasExpired now t (bo_maxDuration b)"
    using Cons.prems(1,2,8) by (simp add: hasExpired_iff)
  then have abs: "bo_abs ?b ?k = Some \<lparr>be_backoff = word_of_int (Int64Min (sint (word_of_int w * 2 :: duration)) ?mx), be_lastUpdate = now\<rparr>"
    using Cons.prems(5) by (simp add: kb_Next_abs window_at_def)
  have d: "sint (word_of_int (Int64Min (sint (word_of_int w * 2 :: duration)) ?mx) :: duration) = min (2 * w) ?mx"
    using Cons.prems by (intro double_step) auto
  have "word_of_int (Int64Min (sint (word_of_int w * 2 :: duration)) ?mx) = (word_of_int (min (2 * w) ?mx) :: duration)"
    using arg_cong [OF d, of "word_of_int :: int \<Rightarrow> duration"] by (simp only: of_int_sint scast_id)
  with abs have win: "window_at ?b ?k (min (2 * w) ?mx) now" by (simp add: window_at_def)
  obtain b' where b': "failures reparse ?b u code ts = Ok b'"
      "sint (kb_Get b' ?k) = min (min (2 * w) ?mx * 2 ^ length ts) ?mx"
    using Cons.IH [OF _ _ Cons.prems(3,4) win] Cons.prems by auto
  have "min (min (2 * w) ?mx * 2 ^ length ts) ?mx = min (w * 2 ^ length (now # ts)) ?mx"
  proof (cases "2 * w \<le> ?mx")
    case True
    then show ?thesis by (simp add: min_def algebra_simps)
  next
    case False
    have "(1 :: int) \<le> 2 ^ length ts" by simp
    then have "?mx \<le> ?mx * 2 ^ length ts" "2 * w \<le> 2 * w * 2 ^ length ts"
      using Cons.prems(1,6) by (simp_all add: mult_le_cancel_left1)
    with False show ?thesis by (simp add: min_def algebra_simps)
  qed
  with b' step show ?case by simp
qed

text \<open>The API client backs off exponentially: after a row of overload answers (429 or 5xx) of one host that are not
  too far apart the next exchange is delayed by the base duration, doubled with each further failure and capped at
  the maximum; an answer below 500 clears the delay. (The copy of this table in
  \<open>util/flowcontrol\<close> does not double.)\<close>

theorem api_backoff_doubles:
  assumes "0 \<le> sint (bo_defaultDuration b)" "sint (bo_defaultDuration b) \<le> sint (bo_maxDuration b)"
    "sint (bo_maxDuration b) < 2 ^ 62 - 1" "reparse u = Some h" "code > 499 \<or> code = 429"
    and "bo_abs b (u_Host h) = None" "close_together (2 * sint (bo_maxDuration b)) t ts"
  shows "\<exists>b' d. failures reparse b u code (t # ts) = Ok b' \<and> ub_CalculateBackoff reparse b' u = Ok d \<and>
    sint d = min (sint (bo_defaultDuration b) * 2 ^ length ts) (sint (bo_maxDuration b)) \<and>
    (\<exists>b''. ub_UpdateBackoff reparse b' u None 200 now = Ok b'' \<and> ub_CalculateBackoff reparse b'' u = Ok 0)"
proof -
  let ?b = "kb_Next b (u_Host h) t t"
  have step: "ub_UpdateBackoff reparse b u None code t = Ok ?b"
    using assms(4,5) by (auto simp: ub_UpdateBackoff_def baseUrlKey_def maxResponseCode_def serverIsOverloadedSet_def)
  have "window_at ?b (u_Host h) (sint (bo_defaultDuration b)) t"
    using assms(6) by (simp add: window_at_def kb_Next_abs)
  then obtain b' where b': "failures reparse ?b u code ts = Ok b'"
      "sint (kb_Get b' (u_Host h)) = min (sint (bo_defaultDuration b) * 2 ^ length ts) (sint (bo_maxDuration b))"
    using failures_double [of ?b reparse u h code "sint (bo_defaultDuration b)" t ts] assms by auto
  moreover have "ub_CalculateBackoff reparse b' u = Ok (kb_Get b' (u_Host h))"
    using assms(4) by (simp add: ub_CalculateBackoff_def baseUrlKey_def)
  moreover have "ub_UpdateBackoff reparse b' u None 200 now = Ok (kb_Reset b' (u_Host h))"
      "ub_CalculateBackoff reparse (kb_Reset b' (u_Host h)) u = Ok 0"
    using assms(4) by (simp_all add: ub_UpdateBackoff_def ub_CalculateBackoff_def baseUrlKey_def maxResponseCode_def
        serverIsOverloadedSet_def kb_Get_def kb_Reset_def gomap_simps)
  ultimately show ?thesis using step by auto
qed

theorem api_backoff_doubles_witness:
  "let u = \<lparr>u_Scheme = ''http'', u_Host = ''api:8080'', u_Path = ''/api'', u_RawQuery = ''''\<rparr> in
   \<exists>b' d. failures Some (NewBackOff second (120 * second)) u 503 [0, 1000000000, 3000000000] = Ok b' \<and>
    ub_CalculateBackoff Some b' u = Ok d \<and> sint d = 4000000000"
proof -
  let ?u = "\<lparr>u_Scheme = ''http'', u_Host = ''api:8080'', u_Path = ''/api'', u_RawQuery = ''''\<rparr>"
  let ?b = "NewBackOff second (120 * second)"
  have "sint (bo_defaultDuration ?b) = 1000000000" "sint (bo_maxDuration ?b) = 120000000000" "bo_abs ?b (u_Host ?u) = None"
    by (simp_all add: NewBackOff_def)
  with api_backoff_doubles [of ?b Some ?u ?u 503 0 "[1000000000, 3000000000]" 0] show ?thesis by auto
qed

end
