(* ===== verification/Request.thy ===== *)
theory Request
  imports Selector Strconv Bucket UrlBackoff
begin

text \<open>
  \<open>pkg/client/restclient\<close> (\<open>request.go\<close>, \<open>client.go\<close>) and \<open>pkg/client/cache/listwatch.go\<close> (vendored): how the
  reflectors talk to the API server. A request is built by a chain of setters that keep the first error, is
  turned into a URL, waits for the throttle and is sent, with retries when the server asks for them.

  Parameters, in the records \<open>lib\<close> and \<open>codec\<close>: printing of URLs and durations, validity of a request, media
  types and recognising a closed connection; the codec of the API objects. The HTTP client is a function from
  its state, the time, the verb, the URL and the headers to a response or error, the new state and the time at which it
  returns. A \<open>session\<close> holds the state that exchanges change: the clock, the HTTP client, the backoff manager, the
  throttle, and the log of the requests sent. Metrics and logging have no part in it. Request bodies are left out:
  the daemon only sends GET requests. Header names are used in their canonical form.
\<close>

section \<open>Paths and query strings\<close>

text \<open>\<open>path.Clean\<close> on the segments of a path; the accumulator holds the kept segments in reverse.\<close>

fun clean_segs :: "bool \<Rightarrow> string list \<Rightarrow> string list \<Rightarrow> string list" where
  "clean_segs rooted acc [] = rev acc"
| "clean_segs rooted acc (seg # segs) =
     (if seg = [] \<or> seg = ''.'' then clean_segs rooted acc segs
      else if seg = ''..'' then
        (case acc of
           [] \<Rightarrow> if rooted then clean_segs rooted [] segs else clean_segs rooted [''..''] segs
         | seg' # acc' \<Rightarrow> if seg' = ''..'' then clean_segs rooted (''..'' # acc) segs else clean_segs rooted acc' segs)
      else clean_segs rooted (seg # acc) segs)"

definition path_Clean :: "string \<Rightarrow> string" where
  "path_Clean p =
     (let rooted = (p \<noteq> [] \<and> hd p = CHR ''/''); segs = clean_segs rooted [] (strings_Split (CHR ''/'') p) in
      if rooted then ''/'' @ Join ''/'' segs else if segs = [] then ''.'' else Join ''/'' segs)"

definition path_Join :: "string list \<Rightarrow> string" where
  "path_Join elem =
     (case dropWhile (\<lambda>e. e = []) elem of [] \<Rightarrow> [] | elem' \<Rightarrow> path_Clean (Join ''/'' elem'))"

type_synonym Values = "(string, string list) gomap"

definition hex_upper :: "nat \<Rightarrow> char" where
  "hex_upper d = (if d < 10 then char_of (48 + d) else char_of (55 + d))"

definition QueryEscape :: "string \<Rightarrow> string" where
  "QueryEscape s = concat (map (\<lambda>c.
     let v = of_char c :: nat in
     if (48 \<le> v \<and> v \<le> 57) \<or> (65 \<le> v \<and> v \<le> 90) \<or> (97 \<le> v \<and> v \<le> 122) \<or> c \<in> set ''-_.~'' then [c]
     else if c = CHR '' '' then ''+''
     else [CHR ''%'', hex_upper (v div 16), hex_upper (v mod 16)]) s)"

definition Values_Encode :: "Values \<Rightarrow> string" where
  "Values_Encode v =
     Join ''&'' (concat (map (\<lambda>k. case map_of v k of
        Some vs \<Rightarrow> map (\<lambda>x. QueryEscape k @ ''='' @ QueryEscape x) vs | None \<Rightarrow> []) (sort (gm_keys v))))"

text \<open>\<open>strings.ToLower\<close> on ASCII text. The resource names that are lowered (\<open>services\<close>, \<open>endpoints\<close>) are ASCII; other
  characters are left as they are here, where Go also maps the letters of other scripts.\<close>

definition lower_of :: "char \<Rightarrow> char" where
  "lower_of c = (let v = of_char c :: nat in if 65 \<le> v \<and> v \<le> 90 then char_of (v + 32) else c)"

definition ToLower :: "string \<Rightarrow> string" where
  "ToLower s = map lower_of s"

definition TrimSpace :: "string \<Rightarrow> string" where
  "TrimSpace s =
     (let space = (\<lambda>c. c \<in> set [CHR '' '', CHR 0x09, CHR 0x0A, CHR 0x0B, CHR 0x0C, CHR 0x0D]) in
      rev (dropWhile space (rev (dropWhile space s))))"

section \<open>The request and its setters\<close>

record GroupVersion =
  gv_Group :: string
  gv_Version :: string

record ContentConfig =
  cc_ContentType :: string
  cc_GroupVersion :: GroupVersion

record Request =
  rq_verb :: string
  rq_baseURL :: "URL option"
  rq_content :: ContentConfig
  rq_pathPrefix :: string
  rq_subpath :: string
  rq_params :: Values
  rq_headers :: "(string, string) gomap"
  rq_namespace :: string
  rq_namespaceSet :: bool
  rq_resource :: string
  rq_resourceName :: string
  rq_subresource :: string
  rq_timeout :: duration
  rq_err :: "gerror option"

definition SetHeader :: "Request \<Rightarrow> string \<Rightarrow> string \<Rightarrow> Request" where
  "SetHeader r key v = r\<lparr>rq_headers := gm_set key v (rq_headers r)\<rparr>"

definition NewRequest :: "string \<Rightarrow> URL option \<Rightarrow> string \<Rightarrow> ContentConfig \<Rightarrow> Request" where
  "NewRequest verb baseURL versionedAPIPath content =
     (let pathPrefix = (case baseURL of None \<Rightarrow> ''/'' | Some base \<Rightarrow> path_Join [''/'', u_Path base]);
          r = \<lparr>rq_verb = verb, rq_baseURL = baseURL, rq_content = content,
               rq_pathPrefix = path_Join [pathPrefix, versionedAPIPath], rq_subpath = [], rq_params = [], rq_headers = [],
               rq_namespace = [], rq_namespaceSet = False, rq_resource = [], rq_resourceName = [], rq_subresource = [],
               rq_timeout = 0, rq_err = None\<rparr> in
      if cc_ContentType content \<noteq> [] then SetHeader r ''Accept'' (cc_ContentType content @ '', */*'') else r)"

definition Prefix :: "string list \<Rightarrow> Request \<Rightarrow> Request" where
  "Prefix segments r =
     (if rq_err r \<noteq> None then r else r\<lparr>rq_pathPrefix := path_Join [rq_pathPrefix r, path_Join segments]\<rparr>)"

definition Suffix :: "string list \<Rightarrow> Request \<Rightarrow> Request" where
  "Suffix segments r =
     (if rq_err r \<noteq> None then r else r\<lparr>rq_subpath := path_Join [rq_subpath r, path_Join segments]\<rparr>)"

definition NameMayNotBe :: "string list" where
  "NameMayNotBe = [''.'', ''..'']"

definition NameMayNotContain :: "string list" where
  "NameMayNotContain = [''/'', ''%'']"

definition IsValidPathSegmentName :: "string \<Rightarrow> bool" where
  "IsValidPathSegmentName name \<longleftrightarrow>
     name \<notin> set NameMayNotBe \<and> (\<forall>illegalContent \<in> set NameMayNotContain. \<not> sublist illegalContent name)"

definition Resource :: "string \<Rightarrow> Request \<Rightarrow> Request" where
  "Resource resource r =
     (if rq_err r \<noteq> None then r
      else if rq_resource r \<noteq> [] then r\<lparr>rq_err := Some (Errorf ''resource already set'')\<rparr>
      else if \<not> IsValidPathSegmentName resource then r\<lparr>rq_err := Some (Errorf ''invalid resource'')\<rparr>
      else r\<lparr>rq_resource := resource\<rparr>)"

definition SubResource :: "string list \<Rightarrow> Request \<Rightarrow> Request" where
  "SubResource subresources r =
     (if rq_err r \<noteq> None then r
      else if rq_subresource r \<noteq> [] then r\<lparr>rq_err := Some (Errorf ''subresource already set'')\<rparr>
      else if \<exists>s \<in> set subresources. \<not> IsValidPathSegmentName s then r\<lparr>rq_err := Some (Errorf ''invalid subresource'')\<rparr>
      else r\<lparr>rq_subresource := path_Join subresources\<rparr>)"

definition Name :: "string \<Rightarrow> Request \<Rightarrow> Request" where
  "Name resourceName r =
     (if rq_err r \<noteq> None then r
      else if resourceName = [] then r\<lparr>rq_err := Some (Errorf ''resource name may not be empty'')\<rparr>
      else if rq_resourceName r \<noteq> [] then r\<lparr>rq_err := Some (Errorf ''resource name already set'')\<rparr>
      else if \<not> IsValidPathSegmentName resourceName then r\<lparr>rq_err := Some (Errorf ''invalid resource name'')\<rparr>
      else r\<lparr>rq_resourceName := resourceName\<rparr>)"

definition Namespace :: "string \<Rightarrow> Request \<Rightarrow> Request" where
  "Namespace namespace r =
     (if rq_err r \<noteq> None then r
      else if rq_namespaceSet r then r\<lparr>rq_err := Some (Errorf ''namespace already set'')\<rparr>
      else if \<not> IsValidPathSegmentName namespace then r\<lparr>rq_err := Some (Errorf ''invalid namespace'')\<rparr>
      else r\<lparr>rq_namespaceSet := True, rq_namespace := namespace\<rparr>)"

definition NamespaceIfScoped :: "string \<Rightarrow> bool \<Rightarrow> Request \<Rightarrow> Request" where
  "NamespaceIfScoped namespace scoped r = (if scoped then Namespace namespace r else r)"

text \<open>\<open>AbsPath\<close> dereferences the base URL.\<close>

definition AbsPath :: "string list \<Rightarrow> Request \<Rightarrow> Request outcome" where
  "AbsPath segments r =
     (if rq_err r \<noteq> None then Ok r
      else
        (case rq_baseURL r of
           None \<Rightarrow> Panic ''nil pointer dereference''
         | Some base \<Rightarrow>
             (let p = path_Join [u_Path base, path_Join segments];
                  slash = (case segments of
                     [seg] \<Rightarrow> (length (u_Path base) > 1 \<or> length seg > 1) \<and> suffix ''/'' seg | _ \<Rightarrow> False) in
              Ok (r\<lparr>rq_pathPrefix := (if slash then p @ ''/'' else p)\<rparr>))))"

text \<open>\<open>locator\<close> is the result of \<open>url.Parse\<close>: an error, or the path and the query values.\<close>

definition RequestURI :: "(gerror + string \<times> Values) \<Rightarrow> Request \<Rightarrow> Request" where
  "RequestURI locator r =
     (if rq_err r \<noteq> None then r
      else
        (case locator of
           Inl err \<Rightarrow> r\<lparr>rq_err := Some err\<rparr>
         | Inr (path, query) \<Rightarrow>
             r\<lparr>rq_pathPrefix := path, rq_params := fold (\<lambda>(k, v). gm_set k v) query (rq_params r)\<rparr>))"

definition specialParams :: "string list" where
  "specialParams = [''timeout'']"

definition setParam :: "string \<Rightarrow> string \<Rightarrow> Request \<Rightarrow> Request" where
  "setParam paramName v r =
     (if paramName \<in> set specialParams then r\<lparr>rq_err := Some (Errorf ''must set through the corresponding function'')\<rparr>
      else r\<lparr>rq_params := gm_set paramName
             ((case gm_get (rq_params r) paramName of Some vs \<Rightarrow> vs | None \<Rightarrow> []) @ [v]) (rq_params r)\<rparr>)"

definition Param :: "string \<Rightarrow> string \<Rightarrow> Request \<Rightarrow> Request" where
  "Param paramName s r = (if rq_err r \<noteq> None then r else setParam paramName s r)"

definition UintParam :: "string \<Rightarrow> nat \<Rightarrow> Request \<Rightarrow> Request" where
  "UintParam paramName u r = (if rq_err r \<noteq> None then r else setParam paramName (FormatUint u) r)"

definition Timeout :: "duration \<Rightarrow> Request \<Rightarrow> Request" where
  "Timeout d r = (if rq_err r \<noteq> None then r else r\<lparr>rq_timeout := d\<rparr>)"

section \<open>Selectors as parameters\<close>

definition objectNameField :: string where "objectNameField = ''metadata.name''"

type_synonym fieldNames = "(string, string) gomap"

definition same_names :: "string list \<Rightarrow> fieldNames" where
  "same_names fs = map (\<lambda>f. (f, f)) fs"

definition clientFieldName_filterField :: "fieldNames \<Rightarrow> TransformFunc" where
  "clientFieldName_filterField c field v =
     (case gm_get c field of None \<Rightarrow> Inl (Errorf ''no field mapping defined'') | Some newFieldName \<Rightarrow> Inr (newFieldName, v))"

definition resourceType_filterField :: "(string, fieldNames) gomap \<Rightarrow> string \<Rightarrow> TransformFunc" where
  "resourceType_filterField r resourceType field v =
     (case gm_get r resourceType of
        None \<Rightarrow> Inl (Errorf ''no field mapping defined'')
      | Some fMapping \<Rightarrow> clientFieldName_filterField fMapping field v)"

definition version_filterField ::
  "(GroupVersion, (string, fieldNames) gomap) gomap \<Rightarrow> GroupVersion \<Rightarrow> string \<Rightarrow> TransformFunc" where
  "version_filterField vs groupVersion resourceType field v =
     (case gm_get vs groupVersion of
        None \<Rightarrow> Inr (field, v)
      | Some rMapping \<Rightarrow>
          (case resourceType_filterField rMapping resourceType field v of
             Inl err \<Rightarrow> Inr (field, v)
           | Inr (newField, newValue) \<Rightarrow> Inr (newField, newValue)))"

definition fieldMappings :: "(GroupVersion, (string, fieldNames) gomap) gomap" where
  "fieldMappings =
     [(\<lparr>gv_Group = '''', gv_Version = ''v1''\<rparr>,
       [(''nodes'', same_names [objectNameField, ''spec.unschedulable'']),
        (''pods'', same_names [''spec.nodeName'', ''status.phase'']),
        (''secrets'', same_names [''type'']),
        (''serviceAccounts'', same_names [objectNameField]),
        (''endpoints'', same_names [objectNameField]),
        (''events'', same_names [objectNameField, ''reason'', ''source'', ''type'', ''involvedObject.kind'',
           ''involvedObject.namespace'', ''involvedObject.name'', ''involvedObject.uid'', ''involvedObject.apiVersion'',
           ''involvedObject.resourceVersion'', ''involvedObject.fieldPath''])])]"

definition filter_for :: "Request \<Rightarrow> TransformFunc" where
  "filter_for r field v = version_filterField fieldMappings (cc_GroupVersion (rq_content r)) (rq_resource r) field v"

definition LabelSelectorQueryParam :: string where "LabelSelectorQueryParam = ''labelSelector''"

definition FieldSelectorQueryParam :: string where "FieldSelectorQueryParam = ''fieldSelector''"

text \<open>A \<open>nil\<close> selector is \<open>None\<close>. A label selector shows as its \<open>Empty\<close> and \<open>String\<close> results.\<close>

definition FieldsSelectorParam :: "Selector option \<Rightarrow> Request \<Rightarrow> Request" where
  "FieldsSelectorParam s r =
     (if rq_err r \<noteq> None then r
      else
        (case s of
           None \<Rightarrow> r
         | Some sel \<Rightarrow>
             if sel_Empty sel then r
             else
               (case sel_Transform (filter_for r) sel of
                  Inl err \<Rightarrow> r\<lparr>rq_err := Some err\<rparr>
                | Inr s2 \<Rightarrow> setParam FieldSelectorQueryParam (sel_String s2) r)))"

definition LabelsSelectorParam :: "(bool \<times> string) option \<Rightarrow> Request \<Rightarrow> Request" where
  "LabelsSelectorParam s r =
     (if rq_err r \<noteq> None then r
      else (case s of None \<Rightarrow> r | Some (isEmpty, text) \<Rightarrow> if isEmpty then r else setParam LabelSelectorQueryParam text r))"

text \<open>The loop of \<open>VersionedParams\<close> over the values of all parameters; it returns from the whole function at a field
  selector that cannot be read.\<close>

fun versioned_loop :: "(string \<times> string) list \<Rightarrow> Request \<Rightarrow> Request" where
  "versioned_loop [] r = r"
| "versioned_loop ((k, v) # rest) r =
     (if k = LabelSelectorQueryParam \<and> v = [] then versioned_loop rest r
      else if k = FieldSelectorQueryParam then
        (if v = [] then versioned_loop rest r
         else
           (case ParseSelector v of
              Inl err \<Rightarrow> r\<lparr>rq_err := Some (Errorf ''unparsable field selector'')\<rparr>
            | Inr selector \<Rightarrow>
                (case sel_Transform (filter_for r) selector of
                   Inl err \<Rightarrow> r\<lparr>rq_err := Some (Errorf ''untransformable field selector'')\<rparr>
                 | Inr filteredSelector \<Rightarrow> versioned_loop rest (setParam k (sel_String filteredSelector) r))))
      else versioned_loop rest (setParam k v r))"

definition VersionedParams :: "(gerror + Values) \<Rightarrow> Request \<Rightarrow> Request" where
  "VersionedParams encoded r =
     (if rq_err r \<noteq> None then r
      else
        (case encoded of
           Inl err \<Rightarrow> r\<lparr>rq_err := Some err\<rparr>
         | Inr params \<Rightarrow> versioned_loop (concat (map (\<lambda>(k, vs). map (\<lambda>v. (k, v)) vs) params)) r))"

section \<open>The URL\<close>

definition request_path :: "Request \<Rightarrow> string" where
  "request_path r =
     (let p = rq_pathPrefix r;
          p1 = (if rq_namespaceSet r \<and> rq_namespace r \<noteq> [] then path_Join [p, ''namespaces'', rq_namespace r] else p);
          p2 = (if rq_resource r \<noteq> [] then path_Join [p1, ToLower (rq_resource r)] else p1) in
      if rq_resourceName r \<noteq> [] \<or> rq_subpath r \<noteq> [] \<or> rq_subresource r \<noteq> []
      then path_Join [p2, rq_resourceName r, rq_subresource r, rq_subpath r] else p2)"

definition request_query :: "(duration \<Rightarrow> string) \<Rightarrow> Request \<Rightarrow> Values" where
  "request_query durString r =
     (if rq_timeout r \<noteq> 0 then gm_set ''timeout'' [durString (rq_timeout r)] (rq_params r) else rq_params r)"

definition request_URL :: "(duration \<Rightarrow> string) \<Rightarrow> Request \<Rightarrow> URL" where
  "request_URL durString r =
     (let base = (case rq_baseURL r of
            None \<Rightarrow> \<lparr>u_Scheme = [], u_Host = [], u_Path = [], u_RawQuery = []\<rparr> | Some base \<Rightarrow> base) in
      base\<lparr>u_Path := request_path r, u_RawQuery := Values_Encode (request_query durString r)\<rparr>)"

section \<open>Exchanges with the server\<close>

record lib =
  lb_durString :: "duration \<Rightarrow> string"
  lb_urlString :: "URL \<Rightarrow> string"
  lb_NewRequest :: "string \<Rightarrow> string \<Rightarrow> gerror option"
  lb_ParseMediaType :: "string \<Rightarrow> string option"
  lb_IsProbableEOF :: "gerror \<Rightarrow> bool"

text \<open>\<open>cd_status\<close>: the status text of a body that decodes to a \<open>Status\<close>, and \<open>errors.FromObject\<close> of it;
  \<open>cd_generic\<close>: \<open>errors.NewGenericServerResponse\<close>.\<close>

record 'o codec =
  cd_status :: "string \<Rightarrow> (string \<times> gerror) option"
  cd_decode :: "string \<Rightarrow> gerror + 'o"
  cd_generic :: "int \<Rightarrow> string \<Rightarrow> string \<Rightarrow> string \<Rightarrow> string \<Rightarrow> string \<Rightarrow> int \<Rightarrow> gerror"

record Response =
  rp_StatusCode :: int
  rp_Header :: "(string, string) gomap"
  rp_Body :: "gerror + string"

type_synonym 'w http_client =
  "'w \<Rightarrow> gotime \<Rightarrow> string \<Rightarrow> string \<Rightarrow> (string, string) gomap \<Rightarrow> (gerror + Response) \<times> 'w \<times> gotime"

record ('w, 'b) session =
  ss_now :: gotime
  ss_http :: 'w
  ss_backoff :: 'b
  ss_throttle :: "Bucket option"
  ss_sent :: "(gotime \<times> string \<times> string) list"

definition Header_Get :: "Response \<Rightarrow> string \<Rightarrow> string" where
  "Header_Get resp key = (case gm_get (rp_Header resp) key of Some v \<Rightarrow> v | None \<Rightarrow> [])"

definition retryAfterSeconds :: "Response \<Rightarrow> int \<times> bool" where
  "retryAfterSeconds resp =
     (let h = Header_Get resp ''Retry-After'' in
      if h \<noteq> [] then (case Atoi h of (i, None) \<Rightarrow> (i, True) | (_, Some _) \<Rightarrow> (0, False)) else (0, False))"

definition checkWait :: "Response \<Rightarrow> int \<times> bool" where
  "checkWait resp =
     (if rp_StatusCode resp = 429 \<or> rp_StatusCode resp \<ge> 500 then retryAfterSeconds resp else (0, False))"

definition tryThrottle :: "('w, 'b) session \<Rightarrow> ('w, 'b) session" where
  "tryThrottle s =
     (case ss_throttle s of
        None \<Rightarrow> s
      | Some tb \<Rightarrow> (case Accept tb (ss_now s) of (t, tb') \<Rightarrow> s\<lparr>ss_now := t, ss_throttle := Some tb'\<rparr>))"

definition do_sleep :: "'b backoffMgr \<Rightarrow> duration \<Rightarrow> ('w, 'b) session \<Rightarrow> ('w, 'b) session" where
  "do_sleep B d s = s\<lparr>ss_now := bm_Sleep B (ss_backoff s) (ss_now s) d\<rparr>"

text \<open>\<open>client.Do\<close>: the request goes on the log with the time it is sent at.\<close>

definition http_Do ::
  "'w http_client \<Rightarrow> string \<Rightarrow> string \<Rightarrow> (string, string) gomap \<Rightarrow> ('w, 'b) session \<Rightarrow> (gerror + Response) \<times> ('w, 'b) session" where
  "http_Do C verb url headers s =
     (case C (ss_http s) (ss_now s) verb url headers of
        (res, w, t) \<Rightarrow> (res, s\<lparr>ss_http := w, ss_now := t, ss_sent := ss_sent s @ [(ss_now s, verb, url)]\<rparr>))"

text \<open>The part that \<open>request\<close> and \<open>Watch\<close> share: wait as long as the backoff says, send, and tell the
  backoff manager about the outcome, under the URL given (\<open>None\<close>: not at all).\<close>

definition exchange ::
  "lib \<Rightarrow> 'b backoffMgr \<Rightarrow> 'w http_client \<Rightarrow> Request \<Rightarrow> (string, string) gomap \<Rightarrow> URL option \<Rightarrow> ('w, 'b) session
     \<Rightarrow> (gerror + Response) outcome \<times> ('w, 'b) session" where
  "exchange L B C r headers report s =
     (let u = request_URL (lb_durString L) r in
      case bm_CalculateBackoff B (ss_backoff s) u of
        Ok d \<Rightarrow>
          (case http_Do C (rq_verb r) (lb_urlString L u) headers (do_sleep B d s) of
             (res, s1) \<Rightarrow>
               (case report of
                  None \<Rightarrow> (Ok res, s1)
                | Some ru \<Rightarrow>
                    (case bm_UpdateBackoff B (ss_backoff s1) ru
                            (case res of Inl err \<Rightarrow> Some err | Inr _ \<Rightarrow> None)
                            (case res of Inl _ \<Rightarrow> 0 | Inr resp \<Rightarrow> rp_StatusCode resp) (ss_now s1) of
                       Ok b \<Rightarrow> (Ok res, s1\<lparr>ss_backoff := b\<rparr>)
                     | Fail e \<Rightarrow> (Fail e, s1) | Panic e \<Rightarrow> (Panic e, s1) | Exit e \<Rightarrow> (Exit e, s1))))
      | Fail e \<Rightarrow> (Fail e, s) | Panic e \<Rightarrow> (Panic e, s) | Exit e \<Rightarrow> (Exit e, s))"

definition maxRetries :: nat where
  "maxRetries = 10"

text \<open>The loop of \<open>request\<close>. It returns the response that the function it was given is called with, once.\<close>

function request_loop ::
  "lib \<Rightarrow> 'b backoffMgr \<Rightarrow> 'w http_client \<Rightarrow> Request \<Rightarrow> nat \<Rightarrow> ('w, 'b) session \<Rightarrow> Response outcome \<times> ('w, 'b) session" where
  "request_loop L B C r retries s =
     (let u = request_URL (lb_durString L) r in
      case lb_NewRequest L (rq_verb r) (lb_urlString L u) of
        Some err \<Rightarrow> (Fail err, s)
      | None \<Rightarrow>
          (case exchange L B C r (rq_headers r) (Some u) s of
             (Ok (Inl err), s1) \<Rightarrow> (Fail err, s1)
           | (Ok (Inr resp), s1) \<Rightarrow>
               (let retries' = retries + 1; (seconds, wait) = checkWait resp in
                if wait \<and> retries' < maxRetries
                then request_loop L B C r retries' (do_sleep B (word_of_int seconds * second) s1)
                else (Ok resp, s1))
           | (Fail e, s1) \<Rightarrow> (Fail e, s1) | (Panic e, s1) \<Rightarrow> (Panic e, s1) | (Exit e, s1) \<Rightarrow> (Exit e, s1)))"
  by pat_completeness auto

termination
  by (relation "measure (\<lambda>(_, _, _, _, retries, _). maxRetries - retries)") auto

declare request_loop.simps [simp del]

definition request ::
  "lib \<Rightarrow> 'b backoffMgr \<Rightarrow> 'w http_client \<Rightarrow> Request \<Rightarrow> ('w, 'b) session \<Rightarrow> Response outcome \<times> ('w, 'b) session" where
  "request L B C r s =
     (case rq_err r of
        Some err \<Rightarrow> (Fail err, s)
      | None \<Rightarrow>
          if rq_verb r \<in> {''GET'', ''PUT'', ''DELETE''} \<and> rq_namespaceSet r \<and> rq_resourceName r \<noteq> [] \<and> rq_namespace r = []
          then (Fail (Errorf ''an empty namespace may not be set when a resource name is provided''), s)
          else if rq_verb r = ''POST'' \<and> rq_namespaceSet r \<and> rq_namespace r = []
          then (Fail (Errorf ''an empty namespace may not be set during creation''), s)
          else request_loop L B C r 0 s)"

section \<open>Results\<close>

record Result =
  rs_body :: string
  rs_contentType :: string
  rs_err :: "gerror option"
  rs_statusCode :: int

definition error_result :: "gerror \<Rightarrow> Result" where
  "error_result err = \<lparr>rs_body = [], rs_contentType = [], rs_err = Some err, rs_statusCode = 0\<rparr>"

definition isTextResponse :: "lib \<Rightarrow> Response \<Rightarrow> bool" where
  "isTextResponse L resp =
     (let contentType = Header_Get resp ''Content-Type'' in
      if contentType = [] then True
      else (case lb_ParseMediaType L contentType of None \<Rightarrow> False | Some media \<Rightarrow> prefix ''text/'' media))"

definition transformUnstructuredResponseError :: "lib \<Rightarrow> 'o codec \<Rightarrow> Request \<Rightarrow> Response \<Rightarrow> string \<Rightarrow> gerror" where
  "transformUnstructuredResponseError L cd r resp body =
     (let message = (if isTextResponse L resp then TrimSpace body else ''unknown'');
          retryAfter = fst (retryAfterSeconds resp) in
      cd_generic cd (rp_StatusCode resp) (rq_verb r) (gv_Group (cc_GroupVersion (rq_content r))) (rq_resource r)
        (rq_resourceName r) message retryAfter)"

definition transformResponse :: "lib \<Rightarrow> 'o codec \<Rightarrow> Request \<Rightarrow> Response \<Rightarrow> Result" where
  "transformResponse L cd r resp =
     (let body = (case rp_Body resp of Inl err \<Rightarrow> [] | Inr data \<Rightarrow> data);
          status = (case cd_status cd body of Some (st, err) \<Rightarrow> if st \<noteq> [] then Some (st, err) else None | None \<Rightarrow> None);
          code = rp_StatusCode resp;
          success = (200 \<le> code \<and> code \<le> 206) in
      if code \<noteq> 101 \<and> (code < 200 \<or> code > 206) then
        (case status of
           None \<Rightarrow> error_result (transformUnstructuredResponseError L cd r resp body)
         | Some (_, err) \<Rightarrow> error_result err)
      else
        (case status of
           Some (st, err) \<Rightarrow>
             if st \<noteq> ''Success'' \<and> \<not> success then error_result err
             else \<lparr>rs_body = body, rs_contentType = Header_Get resp ''Content-Type'', rs_err = None, rs_statusCode = code\<rparr>
         | None \<Rightarrow> \<lparr>rs_body = body, rs_contentType = Header_Get resp ''Content-Type'', rs_err = None, rs_statusCode = code\<rparr>))"

definition Do_request ::
  "lib \<Rightarrow> 'o codec \<Rightarrow> 'b backoffMgr \<Rightarrow> 'w http_client \<Rightarrow> Request \<Rightarrow> ('w, 'b) session \<Rightarrow> Result outcome \<times> ('w, 'b) session" where
  "Do_request L cd B C r s =
     (case request L B C r (tryThrottle s) of
        (Ok resp, s1) \<Rightarrow> (Ok (transformResponse L cd r resp), s1)
      | (Fail err, s1) \<Rightarrow> (Ok (error_result err), s1)
      | (Panic e, s1) \<Rightarrow> (Panic e, s1) | (Exit e, s1) \<Rightarrow> (Exit e, s1))"

definition DoRaw ::
  "lib \<Rightarrow> 'b backoffMgr \<Rightarrow> 'w http_client \<Rightarrow> Request \<Rightarrow> ('w, 'b) session \<Rightarrow> string outcome \<times> ('w, 'b) session" where
  "DoRaw L B C r s =
     (case request L B C r (tryThrottle s) of
        (Ok resp, s1) \<Rightarrow> (case rp_Body resp of Inl err \<Rightarrow> (Fail err, s1) | Inr data \<Rightarrow> (Ok data, s1))
      | (Fail err, s1) \<Rightarrow> (Fail err, s1)
      | (Panic e, s1) \<Rightarrow> (Panic e, s1) | (Exit e, s1) \<Rightarrow> (Exit e, s1))"

definition Result_Get :: "'o codec \<Rightarrow> Result \<Rightarrow> gerror + 'o" where
  "Result_Get cd r = (case rs_err r of Some err \<Rightarrow> Inl err | None \<Rightarrow> cd_decode cd (rs_body r))"

definition Result_Raw :: "Result \<Rightarrow> string \<times> gerror option" where
  "Result_Raw r = (rs_body r, rs_err r)"

definition WasCreated :: "Result \<Rightarrow> bool" where
  "WasCreated r \<longleftrightarrow> rs_statusCode r = 201"

text \<open>\<open>Watch\<close> hands back a closed watch or one that reads the body of the response.\<close>

datatype watch_stream = EmptyWatch | StreamWatch "gerror + string"

definition Watch ::
  "lib \<Rightarrow> 'o codec \<Rightarrow> 'b backoffMgr \<Rightarrow> 'w http_client \<Rightarrow> Request \<Rightarrow> ('w, 'b) session \<Rightarrow> watch_stream outcome \<times> ('w, 'b) session" where
  "Watch L cd B C r s =
     (case rq_err r of
        Some err \<Rightarrow> (Fail err, s)
      | None \<Rightarrow>
          (case lb_NewRequest L (rq_verb r) (lb_urlString L (request_URL (lb_durString L) r)) of
             Some err \<Rightarrow> (Fail err, s)
           | None \<Rightarrow>
               (case exchange L B C r [] (rq_baseURL r) s of
                  (Ok (Inl err), s1) \<Rightarrow> if lb_IsProbableEOF L err then (Ok EmptyWatch, s1) else (Fail err, s1)
                | (Ok (Inr resp), s1) \<Rightarrow>
                    if rp_StatusCode resp \<noteq> 200 then
                      (case rs_err (transformResponse L cd r resp) of
                         Some err \<Rightarrow> (Fail err, s1)
                       | None \<Rightarrow> (Fail (Errorf ''got status''), s1))
                    else (Ok (StreamWatch (rp_Body resp)), s1)
                | (Fail e, s1) \<Rightarrow> (Fail e, s1) | (Panic e, s1) \<Rightarrow> (Panic e, s1) | (Exit e, s1) \<Rightarrow> (Exit e, s1))))"

section \<open>The client\<close>

record RESTClient =
  rc_base :: URL
  rc_versionedAPIPath :: string
  rc_contentConfig :: ContentConfig

text \<open>\<open>maxQPS > 0\<close> is a flag next to the floating point parameters of the token bucket.\<close>

definition NewRESTClient ::
  "URL \<Rightarrow> string \<Rightarrow> string \<Rightarrow> GroupVersion option \<Rightarrow> bool \<Rightarrow> (nat \<Rightarrow> int) \<Rightarrow> (Bucket \<Rightarrow> bool) \<Rightarrow> int \<Rightarrow> gotime
     \<Rightarrow> (RESTClient \<times> Bucket option) outcome" where
  "NewRESTClient baseURL versionedAPIPath contentType groupVersion limited interval close maxBurst now =
     (let base = baseURL\<lparr>u_Path := (if suffix ''/'' (u_Path baseURL) then u_Path baseURL else u_Path baseURL @ ''/''), u_RawQuery := []\<rparr>;
          config = \<lparr>cc_ContentType = (if contentType = [] then ''application/json'' else contentType),
                    cc_GroupVersion = (case groupVersion of None \<Rightarrow> \<lparr>gv_Group = [], gv_Version = []\<rparr> | Some gv \<Rightarrow> gv)\<rparr>;
          c = \<lparr>rc_base = base, rc_versionedAPIPath = versionedAPIPath, rc_contentConfig = config\<rparr> in
      if limited then
        (case NewTokenBucketRateLimiter interval close now maxBurst of
           Ok throttle \<Rightarrow> Ok (c, Some throttle) | Fail e \<Rightarrow> Fail e | Panic e \<Rightarrow> Panic e | Exit e \<Rightarrow> Exit e)
      else Ok (c, None))"

definition Verb :: "RESTClient \<Rightarrow> string \<Rightarrow> Request" where
  "Verb c verb = NewRequest verb (Some (rc_base c)) (rc_versionedAPIPath c) (rc_contentConfig c)"

definition client_Get :: "RESTClient \<Rightarrow> Request" where
  "client_Get c = Verb c ''GET''"

text \<open>The backoff manager of a client comes from two environment variables; without both, there is none.\<close>

definition readExpBackoffConfig :: "string \<Rightarrow> string \<Rightarrow> Backoff option" where
  "readExpBackoffConfig backoffBase backoffDuration =
     (case (ParseInt backoffBase 10, ParseInt backoffDuration 10) of
        ((base, None), (dur, None)) \<Rightarrow> Some (NewBackOff (word_of_int base * second) (word_of_int dur * second))
      | _ \<Rightarrow> None)"

section \<open>The list and watch functions of the reflectors\<close>

definition list_request :: "RESTClient \<Rightarrow> string \<Rightarrow> string \<Rightarrow> Selector \<Rightarrow> (gerror + Values) \<Rightarrow> Request" where
  "list_request c resource namespace fieldSelector encoded =
     FieldsSelectorParam (Some fieldSelector) (VersionedParams encoded (Resource resource (Namespace namespace (client_Get c))))"

definition watch_request :: "RESTClient \<Rightarrow> string \<Rightarrow> string \<Rightarrow> Selector \<Rightarrow> (gerror + Values) \<Rightarrow> Request" where
  "watch_request c resource namespace fieldSelector encoded =
     FieldsSelectorParam (Some fieldSelector)
       (VersionedParams encoded (Resource resource (Namespace namespace (Prefix [''watch''] (client_Get c)))))"

definition ListFunc ::
  "lib \<Rightarrow> 'o codec \<Rightarrow> 'b backoffMgr \<Rightarrow> 'w http_client \<Rightarrow> RESTClient \<Rightarrow> string \<Rightarrow> string \<Rightarrow> Selector \<Rightarrow> (gerror + Values)
     \<Rightarrow> ('w, 'b) session \<Rightarrow> 'o outcome \<times> ('w, 'b) session" where
  "ListFunc L cd B C c resource namespace fieldSelector encoded s =
     (case Do_request L cd B C (list_request c resource namespace fieldSelector encoded) s of
        (Ok result, s1) \<Rightarrow> (case Result_Get cd result of Inl err \<Rightarrow> (Fail err, s1) | Inr obj \<Rightarrow> (Ok obj, s1))
      | (Fail err, s1) \<Rightarrow> (Fail err, s1) | (Panic e, s1) \<Rightarrow> (Panic e, s1) | (Exit e, s1) \<Rightarrow> (Exit e, s1))"

definition WatchFunc ::
  "lib \<Rightarrow> 'o codec \<Rightarrow> 'b backoffMgr \<Rightarrow> 'w http_client \<Rightarrow> RESTClient \<Rightarrow> string \<Rightarrow> string \<Rightarrow> Selector \<Rightarrow> (gerror + Values)
     \<Rightarrow> ('w, 'b) session \<Rightarrow> watch_stream outcome \<times> ('w, 'b) session" where
  "WatchFunc L cd B C c resource namespace fieldSelector encoded s =
     Watch L cd B C (watch_request c resource namespace fieldSelector encoded) s"

end
