(* ===== verification/ApiClient.thy ===== *)
theory ApiClient
  imports Request
begin

text \<open>
  What the API client guarantees the reflectors: requests go to the paths they were built for and no
  name can leave its place in the path, the first error of a chain of setters is the one reported and nothing is
  sent, and every call ends after at most ten exchanges.
\<close>

section \<open>Paths made of segments\<close>

definition seg_ok :: "string \<Rightarrow> bool" where
  "seg_ok s \<longleftrightarrow> s \<noteq> [] \<and> CHR ''/'' \<notin> set s \<and> s \<noteq> ''.'' \<and> s \<noteq> ''..''"

definition abs_path :: "string list \<Rightarrow> string" where
  "abs_path segs = ''/'' @ Join ''/'' segs"

lemma Join_Cons: "ss \<noteq> [] \<Longrightarrow> Join sep (s # ss) = s @ sep @ Join sep ss"
  by (cases ss) simp_all

lemma split_not_Nil: "strings_Split sep s \<noteq> []"
  by (induction s) (auto split: list.splits)

lemma split_append_sep: "strings_Split sep (a @ sep # b) = strings_Split sep a @ strings_Split sep b"
proof (induction a)
  case (Cons x a)
  then show ?case using split_not_Nil [of sep a] by (cases "strings_Split sep a") auto
qed simp

lemma split_Join: "ss \<noteq> [] \<Longrightarrow> strings_Split c (Join [c] ss) = concat (map (strings_Split c) ss)"
proof (induction ss)
  case (Cons s ss)
  then show ?case by (cases "ss = []") (simp_all add: Join_Cons split_append_sep)
qed simp

text \<open>The segments of a path, and the paths all of whose segments are kept by \<open>path.Clean\<close>.\<close>

definition segs_of :: "string \<Rightarrow> string list" where
  "segs_of p = filter (\<lambda>s. s \<noteq> []) (strings_Split (CHR ''/'') p)"

definition path_ok :: "string \<Rightarrow> bool" where
  "path_ok p \<longleftrightarrow> (\<forall>s \<in> set (segs_of p). seg_ok s)"

lemma segs_of_Join: "segs_of (Join ''/'' ss) = concat (map segs_of ss)"
  by (cases "ss = []") (simp_all add: segs_of_def [abs_def] split_Join filter_concat comp_def)

lemma segs_of_Nil [simp]: "segs_of [] = []"
  by (simp add: segs_of_def)

lemma segs_of_seg: "seg_ok s \<Longrightarrow> segs_of s = [s]"
  by (simp add: segs_of_def seg_ok_def strings_Split_no_sep)

lemma seg_ok_nonempty [simp]: "\<not> seg_ok []"
  by (simp add: seg_ok_def)

lemma segs_of_slash: "segs_of (''/'' @ p) = segs_of p"
  by (simp add: segs_of_def)

lemma segs_of_end_slash: "segs_of (p @ ''/'') = segs_of p"
  using split_append_sep [of "CHR ''/''" p "[]"] by (simp add: segs_of_def)

lemma segs_of_abs_path: "\<forall>s \<in> set ps. seg_ok s \<Longrightarrow> segs_of (abs_path ps) = ps"
proof -
  assume "\<forall>s \<in> set ps. seg_ok s"
  then have "concat (map segs_of ps) = ps" by (induction ps) (simp_all add: segs_of_seg)
  then show ?thesis by (simp add: abs_path_def segs_of_Join segs_of_slash del: append_Cons)
qed

lemma clean_segs_plain:
  "\<forall>s \<in> set segs. s \<noteq> [] \<longrightarrow> seg_ok s \<Longrightarrow> clean_segs True acc segs = rev acc @ filter (\<lambda>s. s \<noteq> []) segs"
  by (induction segs arbitrary: acc) (auto simp: seg_ok_def)

text \<open>Joining an absolute path with further paths puts their segments behind it.\<close>

lemma path_Join_segs:
  assumes "\<forall>e \<in> set (p # es). path_ok e" "p \<noteq> []" "hd p = CHR ''/''"
  shows "path_Join (p # es) = abs_path (concat (map segs_of (p # es)))"
proof -
  let ?p = "Join ''/'' (p # es)"
  have p: "?p \<noteq> []" "hd ?p = CHR ''/''" using assms(2,3) by (cases es; simp)+
  have "\<forall>s \<in> set (strings_Split (CHR ''/'') ?p). s \<noteq> [] \<longrightarrow> seg_ok s"
  proof (intro ballI impI)
    fix s
    assume "s \<in> set (strings_Split (CHR ''/'') ?p)" "s \<noteq> []"
    then have "s \<in> set (segs_of ?p)" by (simp add: segs_of_def)
    then obtain e where "e \<in> set (p # es)" "s \<in> set (segs_of e)" unfolding segs_of_Join by auto
    with assms(1) show "seg_ok s" by (auto simp: path_ok_def)
  qed
  then have "path_Clean ?p = abs_path (segs_of ?p)"
    using p by (simp add: path_Clean_def abs_path_def clean_segs_plain segs_of_def)
  then show ?thesis using assms(2) segs_of_Join [of "p # es"] by (simp add: path_Join_def)
qed

lemma abs_path_start [simp]: "abs_path ps \<noteq> []" "hd (abs_path ps) = CHR ''/''"
  by (simp_all add: abs_path_def)

lemma path_ok_simps:
  "\<forall>s \<in> set ps. seg_ok s \<Longrightarrow> path_ok (abs_path ps)" "seg_ok s \<Longrightarrow> path_ok s" "path_ok []" "path_ok (p @ ''/'') = path_ok p"
  by (simp_all add: path_ok_def segs_of_abs_path segs_of_seg segs_of_end_slash)

lemma path_Join_abs:
  assumes "\<forall>s \<in> set ps. seg_ok s" "\<forall>s \<in> set segs. s = [] \<or> seg_ok s"
  shows "path_Join (abs_path ps # segs) = abs_path (ps @ filter (\<lambda>s. s \<noteq> []) segs)"
proof -
  have "concat (map segs_of segs) = filter (\<lambda>s. s \<noteq> []) segs"
    using assms(2) by (induction segs) (auto simp: segs_of_seg)
  moreover have "\<forall>e \<in> set (abs_path ps # segs). path_ok e" using assms by (auto simp: path_ok_simps)
  ultimately show ?thesis using assms(1) path_Join_segs [of "abs_path ps" segs] by (simp add: segs_of_abs_path)
qed

text \<open>A relative path of plain segments, and joining such paths.\<close>

definition rel_path :: "string \<Rightarrow> string list \<Rightarrow> bool" where
  "rel_path p segs \<longleftrightarrow> p = Join ''/'' segs \<and> (\<forall>s \<in> set segs. seg_ok s)"

lemma Join_start: "s \<noteq> [] \<Longrightarrow> Join sep (s # ss) \<noteq> [] \<and> hd (Join sep (s # ss)) = hd s"
  by (cases ss) simp_all

lemma seg_ok_hd:
  assumes "seg_ok s"
  shows "s \<noteq> []" "hd s \<noteq> CHR ''/''"
  using assms hd_in_set [of s] unfolding seg_ok_def by metis+

lemma rel_path_simps:
  assumes "rel_path p segs"
  shows "segs_of p = segs" "path_ok p" "p = [] \<longleftrightarrow> segs = []" "p \<noteq> [] \<Longrightarrow> hd p \<noteq> CHR ''/''"
proof -
  have "concat (map segs_of ss) = ss" if "\<forall>s \<in> set ss. seg_ok s" for ss using that by (induction ss) (simp_all add: segs_of_seg)
  then show s: "segs_of p = segs" using assms by (simp add: rel_path_def segs_of_Join)
  with assms show "path_ok p" by (simp add: path_ok_def rel_path_def)
  show "p = [] \<longleftrightarrow> segs = []"
    using assms Join_start seg_ok_hd(1) by (cases segs) (simp_all add: rel_path_def)
  show "p \<noteq> [] \<Longrightarrow> hd p \<noteq> CHR ''/''"
    using assms Join_start seg_ok_hd by (cases segs) (simp_all add: rel_path_def)
qed

lemma segs_of_start: "e \<noteq> [] \<Longrightarrow> hd e \<noteq> CHR ''/'' \<Longrightarrow> segs_of e \<noteq> []"
  by (cases e) (auto simp: segs_of_def split: list.splits)

lemma clean_segs_rel:
  "\<forall>s \<in> set segs. s \<noteq> [] \<longrightarrow> seg_ok s \<Longrightarrow> clean_segs False acc segs = rev acc @ filter (\<lambda>s. s \<noteq> []) segs"
  by (induction segs arbitrary: acc) (auto simp: seg_ok_def)

lemma path_Clean_rel:
  "p \<noteq> [] \<Longrightarrow> hd p \<noteq> CHR ''/'' \<Longrightarrow> clean_segs False [] (strings_Split (CHR ''/'') p) = segs \<Longrightarrow> segs \<noteq> [] \<Longrightarrow>
     path_Clean p = Join ''/'' segs"
  by (simp add: path_Clean_def)

lemma path_Join_rel:
  assumes "\<forall>e \<in> set es. path_ok e \<and> (e \<noteq> [] \<longrightarrow> hd e \<noteq> CHR ''/'')"
  shows "rel_path (path_Join es) (concat (map segs_of es))"
proof -
  define es' where "es' = dropWhile (\<lambda>e. e = []) es"
  have cat: "concat (map segs_of es) = concat (map segs_of es')"
    unfolding es'_def by (induction es) simp_all
  have ok: "\<forall>e \<in> set es'. path_ok e \<and> (e \<noteq> [] \<longrightarrow> hd e \<noteq> CHR ''/'')"
    unfolding es'_def using assms by (auto dest: set_dropWhileD)
  have all: "\<forall>s \<in> set (concat (map segs_of es')). seg_ok s" using ok by (auto simp: path_ok_def)
  show ?thesis
  proof (cases es')
    case Nil
    show ?thesis unfolding cat path_Join_def es'_def [symmetric] Nil by (simp add: rel_path_def)
  next
    case (Cons e rest)
    then have e: "e \<noteq> []" using hd_dropWhile [of "\<lambda>e. e = []" es] unfolding es'_def [symmetric] by simp
    with ok Cons have hd: "hd e \<noteq> CHR ''/''" by simp
    let ?p = "Join ''/'' es'"
    have start: "?p \<noteq> []" "hd ?p \<noteq> CHR ''/''" using Join_start [OF e] hd Cons by simp_all
    have segs: "segs_of ?p = concat (map segs_of es')" by (rule segs_of_Join)
    have "\<forall>s \<in> set (strings_Split (CHR ''/'') ?p). s \<noteq> [] \<longrightarrow> seg_ok s"
    proof (intro ballI impI)
      fix s assume "s \<in> set (strings_Split (CHR ''/'') ?p)" "s \<noteq> []"
      then have "s \<in> set (segs_of ?p)" by (simp add: segs_of_def)
      with all show "seg_ok s" unfolding segs by blast
    qed
    then have "clean_segs False [] (strings_Split (CHR ''/'') ?p) = concat (map segs_of es')"
      using clean_segs_rel segs by (simp add: segs_of_def)
    moreover have "concat (map segs_of es') \<noteq> []" using segs_of_start [OF e hd] Cons by simp
    moreover have "path_Join es = path_Clean ?p" using Cons by (simp add: path_Join_def es'_def [symmetric])
    ultimately have "path_Join es = Join ''/'' (concat (map segs_of es'))"
      using path_Clean_rel [OF start] by metis
    then show ?thesis using all cat by (simp add: rel_path_def)
  qed
qed

lemma path_Join_plain:
  assumes "\<forall>s \<in> set segs. s = [] \<or> seg_ok s"
  shows "rel_path (path_Join segs) (filter (\<lambda>s. s \<noteq> []) segs)"
proof -
  have "concat (map segs_of segs) = filter (\<lambda>s. s \<noteq> []) segs"
    using assms by (induction segs) (auto simp: segs_of_seg)
  moreover have "rel_path (path_Join segs) (concat (map segs_of segs))"
  proof (intro path_Join_rel ballI)
    fix e assume "e \<in> set segs"
    with assms consider "e = []" | "seg_ok e" by blast
    then show "path_ok e \<and> (e \<noteq> [] \<longrightarrow> hd e \<noteq> CHR ''/'')"
      by cases (simp_all add: path_ok_simps seg_ok_hd)
  qed
  ultimately show ?thesis by simp
qed

lemma path_Join_seg_ok:
  assumes "\<forall>s \<in> set segs. seg_ok s"
  shows "rel_path (path_Join segs) segs"
proof -
  have "filter (\<lambda>s. s \<noteq> []) segs = segs" using assms by (auto simp: filter_id_conv)
  then show ?thesis using path_Join_plain [of segs] assms by auto
qed

lemma sublist_single: "sublist [c] s \<longleftrightarrow> c \<in> set s"
proof
  assume "sublist [c] s"
  then show "c \<in> set s" by (auto simp: sublist_def)
next
  assume "c \<in> set s"
  then show "sublist [c] s" by (metis append_Cons append_Nil split_list sublist_appendI)
qed

lemma valid_seg: "IsValidPathSegmentName s \<Longrightarrow> s = [] \<or> seg_ok s"
  by (auto simp: IsValidPathSegmentName_def NameMayNotBe_def NameMayNotContain_def seg_ok_def sublist_single)

lemma ToLower_Nil [simp]: "ToLower s = [] \<longleftrightarrow> s = []"
  by (simp add: ToLower_def)

text \<open>Lower case letters are neither a slash nor a dot.\<close>

lemma lower_of_other:
  assumes "\<not> (97 \<le> (of_char d :: nat) \<and> (of_char d :: nat) \<le> 122)" "lower_of c = d"
  shows "c = d"
proof -
  have "of_char (char_of (of_char c + 32 :: nat)) = (of_char c + 32 :: nat)" if "(of_char c :: nat) \<le> 90"
    using that by (simp add: of_char_of)
  then show ?thesis using assms by (auto simp: lower_of_def Let_def split: if_splits)
qed

lemma ToLower_seg: "seg_ok s \<Longrightarrow> seg_ok (ToLower s)"
proof -
  assume s: "seg_ok s"
  have sl: "lower_of c = CHR ''/'' \<Longrightarrow> c = CHR ''/''" and d: "lower_of c = CHR ''.'' \<Longrightarrow> c = CHR ''.''" for c
    using lower_of_other [of "CHR ''/''" c] lower_of_other [of "CHR ''.''" c] by simp_all
  have "CHR ''/'' \<notin> set (ToLower s)" using s sl by (force simp: ToLower_def seg_ok_def)
  moreover have "ToLower s \<noteq> ''.''" "ToLower s \<noteq> ''..''"
    using s d by (auto simp: ToLower_def seg_ok_def map_eq_Cons_conv)
  ultimately show ?thesis using s by (simp add: seg_ok_def)
qed

lemma ToLower_valid: "IsValidPathSegmentName s \<Longrightarrow> ToLower s = [] \<or> seg_ok (ToLower s)"
  using valid_seg ToLower_seg by auto

section \<open>Requests built by setters\<close>

datatype setter =
    SPrefix "string list"
  | SSuffix "string list"
  | SResource string
  | SSubResource "string list"
  | SName string
  | SNamespace string
  | SNamespaceIf string bool
  | SAbsPath "string list"
  | SRequestURI "gerror + string \<times> Values"
  | SFields "Selector option"
  | SLabels "(bool \<times> string) option"
  | SUintParam string nat
  | SParam string string
  | SVersioned "gerror + Values"
  | STimeout duration

fun apply_setter :: "Request \<Rightarrow> setter \<Rightarrow> Request outcome" where
  "apply_setter r (SPrefix segs) = Ok (Prefix segs r)"
| "apply_setter r (SSuffix segs) = Ok (Suffix segs r)"
| "apply_setter r (SResource res) = Ok (Resource res r)"
| "apply_setter r (SSubResource ss) = Ok (SubResource ss r)"
| "apply_setter r (SName name) = Ok (Name name r)"
| "apply_setter r (SNamespace ns) = Ok (Namespace ns r)"
| "apply_setter r (SNamespaceIf ns scoped) = Ok (NamespaceIfScoped ns scoped r)"
| "apply_setter r (SAbsPath segs) = AbsPath segs r"
| "apply_setter r (SRequestURI locator) = Ok (RequestURI locator r)"
| "apply_setter r (SFields s) = Ok (FieldsSelectorParam s r)"
| "apply_setter r (SLabels s) = Ok (LabelsSelectorParam s r)"
| "apply_setter r (SUintParam k u) = Ok (UintParam k u r)"
| "apply_setter r (SParam k v) = Ok (Param k v r)"
| "apply_setter r (SVersioned enc) = Ok (VersionedParams enc r)"
| "apply_setter r (STimeout d) = Ok (Timeout d r)"

fun apply_setters :: "Request \<Rightarrow> setter list \<Rightarrow> Request outcome" where
  "apply_setters r [] = Ok r"
| "apply_setters r (op # ops) = (case apply_setter r op of Ok r' \<Rightarrow> apply_setters r' ops | panicked \<Rightarrow> panicked)"

lemma apply_setters_append:
  "apply_setters r (xs @ ys) = (case apply_setters r xs of Ok r' \<Rightarrow> apply_setters r' ys | panicked \<Rightarrow> panicked)"
  by (induction r xs rule: apply_setters.induct) (auto split: outcome.splits)

text \<open>The segments that a chain of setters puts before, inside and behind the named parts of the path.\<close>

definition prefix_segs :: "setter list \<Rightarrow> string list" where
  "prefix_segs ops = concat (map (\<lambda>op. case op of SPrefix segs \<Rightarrow> segs | _ \<Rightarrow> []) ops)"

definition suffix_segs :: "setter list \<Rightarrow> string list" where
  "suffix_segs ops = concat (map (\<lambda>op. case op of SSuffix segs \<Rightarrow> segs | _ \<Rightarrow> []) ops)"

definition sub_segs :: "setter list \<Rightarrow> string list" where
  "sub_segs ops = concat (map (\<lambda>op. case op of SSubResource ss \<Rightarrow> filter (\<lambda>s. s \<noteq> []) ss | _ \<Rightarrow> []) ops)"

lemma path_parts [simp]:
  "prefix_segs [] = []" "prefix_segs (op # ops) = (case op of SPrefix segs \<Rightarrow> segs | _ \<Rightarrow> []) @ prefix_segs ops"
  "prefix_segs (xs @ ys) = prefix_segs xs @ prefix_segs ys"
  "suffix_segs [] = []" "suffix_segs (op # ops) = (case op of SSuffix segs \<Rightarrow> segs | _ \<Rightarrow> []) @ suffix_segs ops"
  "suffix_segs (xs @ ys) = suffix_segs xs @ suffix_segs ys"
  "sub_segs [] = []"
  "sub_segs (op # ops) = (case op of SSubResource ss \<Rightarrow> filter (\<lambda>s. s \<noteq> []) ss | _ \<Rightarrow> []) @ sub_segs ops"
  "sub_segs (xs @ ys) = sub_segs xs @ sub_segs ys"
  by (simp_all add: prefix_segs_def suffix_segs_def sub_segs_def)

text \<open>\<open>Prefix\<close> and \<open>Suffix\<close> do not check what they are given, \<open>AbsPath\<close> and \<open>RequestURI\<close> replace the path.\<close>

fun plain_op :: "setter \<Rightarrow> bool" where
  "plain_op (SPrefix segs) \<longleftrightarrow> (\<forall>s \<in> set segs. seg_ok s)"
| "plain_op (SSuffix segs) \<longleftrightarrow> (\<forall>s \<in> set segs. seg_ok s)"
| "plain_op (SAbsPath segs) \<longleftrightarrow> False"
| "plain_op (SRequestURI locator) \<longleftrightarrow> False"
| "plain_op _ \<longleftrightarrow> True"

text \<open>The fields that make up the path.\<close>

definition same_path :: "Request \<Rightarrow> Request \<Rightarrow> bool" where
  "same_path r r' \<longleftrightarrow> rq_pathPrefix r' = rq_pathPrefix r \<and> rq_subpath r' = rq_subpath r \<and> rq_namespace r' = rq_namespace r \<and>
     rq_namespaceSet r' = rq_namespaceSet r \<and> rq_resource r' = rq_resource r \<and> rq_resourceName r' = rq_resourceName r \<and>
     rq_subresource r' = rq_subresource r"

lemma same_path_refl [simp]: "same_path r r"
  by (simp add: same_path_def)

lemma same_path_setParam [simp]: "same_path r (setParam k v r)"
  by (simp add: same_path_def setParam_def)

lemma same_path_trans: "same_path r r' \<Longrightarrow> same_path r' r'' \<Longrightarrow> same_path r r''"
  by (simp add: same_path_def)

lemma same_path_err [simp]: "same_path r (r\<lparr>rq_err := e\<rparr>)"
  by (simp add: same_path_def)

lemma same_path_versioned: "same_path r (versioned_loop kvs r)"
  by (induction kvs r rule: versioned_loop.induct)
    (auto split: sum.splits intro: same_path_trans [OF same_path_setParam])

lemma same_path_params:
  "same_path r (Param k v r)" "same_path r (UintParam k u r)" "same_path r (FieldsSelectorParam s r)"
  "same_path r (LabelsSelectorParam l r)" "same_path r (VersionedParams enc r)"
  by (auto simp: Param_def UintParam_def FieldsSelectorParam_def LabelsSelectorParam_def VersionedParams_def
      same_path_versioned split: option.splits sum.splits)

lemma same_path_Timeout: "same_path r (Timeout d r)"
  by (simp add: Timeout_def same_path_def)

text \<open>No setter works on a request that has an error.\<close>

lemma apply_setter_err: "rq_err r \<noteq> None \<Longrightarrow> apply_setter r op = Ok r"
  by (cases op) (auto simp: Prefix_def Suffix_def SubResource_def NamespaceIfScoped_def AbsPath_def RequestURI_def
      Namespace_def Resource_def Name_def Param_def UintParam_def Timeout_def FieldsSelectorParam_def
      LabelsSelectorParam_def VersionedParams_def)

lemma apply_setters_err: "rq_err r \<noteq> None \<Longrightarrow> apply_setters r ops = Ok r"
  by (induction ops) (simp_all add: apply_setter_err)

text \<open>A request without error has the path that its setters describe.\<close>

definition built_from :: "string list \<Rightarrow> setter list \<Rightarrow> Request \<Rightarrow> bool" where
  "built_from ps ops r \<longleftrightarrow> rq_err r = None \<longrightarrow>
     rq_pathPrefix r = abs_path (ps @ prefix_segs ops) \<and> rel_path (rq_subpath r) (suffix_segs ops) \<and>
     rel_path (rq_subresource r) (sub_segs ops) \<and> (rq_namespace r \<noteq> [] \<longrightarrow> rq_namespaceSet r) \<and>
     IsValidPathSegmentName (rq_namespace r) \<and> IsValidPathSegmentName (rq_resource r) \<and> IsValidPathSegmentName (rq_resourceName r) \<and>
     (\<forall>ns. SNamespace ns \<in> set ops \<or> SNamespaceIf ns True \<in> set ops \<longrightarrow> rq_namespaceSet r \<and> rq_namespace r = ns) \<and>
     (\<forall>res. SResource res \<in> set ops \<longrightarrow> res \<noteq> [] \<longrightarrow> rq_resource r = res) \<and>
     (\<forall>name. SName name \<in> set ops \<longrightarrow> name \<noteq> [] \<and> rq_resourceName r = name)"

definition path_op :: "setter \<Rightarrow> bool" where
  "path_op op \<longleftrightarrow> (case op of SPrefix _ \<Rightarrow> True | SSuffix _ \<Rightarrow> True | SSubResource _ \<Rightarrow> True | SNamespace _ \<Rightarrow> True |
     SNamespaceIf _ scoped \<Rightarrow> scoped | SResource _ \<Rightarrow> True | SName _ \<Rightarrow> True | _ \<Rightarrow> False)"

lemma built_from_same:
  assumes "built_from ps ops r" "same_path r r'" "rq_err r' = None \<Longrightarrow> rq_err r = None" "\<not> path_op op"
  shows "built_from ps (ops @ [op]) r'"
proof -
  have "prefix_segs [op] = []" "suffix_segs [op] = []" "sub_segs [op] = []"
    using assms(4) by (auto simp: path_op_def split: setter.splits)
  then have "prefix_segs (ops @ [op]) = prefix_segs ops" "suffix_segs (ops @ [op]) = suffix_segs ops" "sub_segs (ops @ [op]) = sub_segs ops"
    by simp_all
  with assms show ?thesis by (auto simp: built_from_def same_path_def path_op_def)
qed

lemma plain_prefix_segs: "\<forall>op \<in> set ops. plain_op op \<Longrightarrow> \<forall>s \<in> set (prefix_segs ops). seg_ok s"
  by (induction ops) (auto split: setter.splits)

lemma built_from_Prefix:
  assumes "built_from ps ops r" "\<forall>s \<in> set ps. seg_ok s" "\<forall>op \<in> set ops. plain_op op" "\<forall>s \<in> set segs. seg_ok s" "rq_err r = None"
  shows "built_from ps (ops @ [SPrefix segs]) (Prefix segs r)"
proof -
  have rel: "rel_path (path_Join segs) segs" using path_Join_seg_ok [OF assms(4)] .
  have seg: "\<forall>s \<in> set (ps @ prefix_segs ops). seg_ok s" using assms(2) plain_prefix_segs [OF assms(3)] by auto
  have "path_Join [abs_path (ps @ prefix_segs ops), path_Join segs] = abs_path ((ps @ prefix_segs ops) @ segs)"
    using path_Join_segs [of "abs_path (ps @ prefix_segs ops)" "[path_Join segs]"] rel_path_simps [OF rel] path_ok_simps(1) [OF seg]
    by (simp add: segs_of_abs_path [OF seg])
  with assms(1,5) show ?thesis by (simp add: Prefix_def built_from_def)
qed

lemma built_from_Suffix:
  assumes "built_from ps ops r" "\<forall>s \<in> set segs. seg_ok s" "rq_err r = None"
  shows "built_from ps (ops @ [SSuffix segs]) (Suffix segs r)"
proof -
  have rel: "rel_path (path_Join segs) segs" using path_Join_seg_ok [OF assms(2)] .
  have sub: "rel_path (rq_subpath r) (suffix_segs ops)" using assms(1,3) by (simp add: built_from_def)
  have "rel_path (path_Join [rq_subpath r, path_Join segs]) (suffix_segs ops @ segs)"
    using path_Join_rel [of "[rq_subpath r, path_Join segs]"] rel_path_simps [OF rel] rel_path_simps [OF sub] by simp
  with assms(1,3) show ?thesis by (simp add: Suffix_def built_from_def)
qed

lemma built_from_SubResource:
  assumes "built_from ps ops r" "rq_err r = None"
  shows "built_from ps (ops @ [SSubResource ss]) (SubResource ss r)"
proof (cases "rq_subresource r = [] \<and> (\<forall>s \<in> set ss. IsValidPathSegmentName s)")
  case True
  have "sub_segs ops = []" using assms True rel_path_simps(3) by (auto simp: built_from_def)
  moreover have "rel_path (path_Join ss) (filter (\<lambda>s. s \<noteq> []) ss)" using True valid_seg by (intro path_Join_plain) auto
  ultimately show ?thesis using assms True by (auto simp: SubResource_def built_from_def)
next
  case False
  with assms show ?thesis by (auto simp: SubResource_def built_from_def)
qed

lemma built_from_names:
  assumes "built_from ps ops r" "rq_err r = None"
  shows "built_from ps (ops @ [SNamespace ns]) (Namespace ns r)" "built_from ps (ops @ [SNamespaceIf ns True]) (Namespace ns r)"
    "built_from ps (ops @ [SResource res]) (Resource res r)" "built_from ps (ops @ [SName name]) (Name name r)"
  using assms by (auto simp: Namespace_def Resource_def Name_def built_from_def)

lemma built_from_step:
  assumes "built_from ps ops r" "\<forall>s \<in> set ps. seg_ok s" "\<forall>op \<in> set ops. plain_op op" "plain_op op"
  shows "\<exists>r'. apply_setter r op = Ok r' \<and> built_from ps (ops @ [op]) r'"
proof (cases "rq_err r = None")
  case False
  then show ?thesis by (auto simp: apply_setter_err built_from_def)
next
  case True
  show ?thesis
  proof (cases "path_op op")
    case True
    with assms \<open>rq_err r = None\<close> built_from_Prefix built_from_Suffix built_from_SubResource built_from_names show ?thesis
      by (cases op) (auto simp: path_op_def NamespaceIfScoped_def)
  next
    case False
    with assms(1,4) \<open>rq_err r = None\<close> same_path_params same_path_Timeout show ?thesis
      by (cases op) (auto simp: path_op_def NamespaceIfScoped_def intro!: built_from_same)
  qed
qed

lemma built_from_run:
  assumes "built_from ps [] r" "\<forall>s \<in> set ps. seg_ok s"
  shows "\<forall>op \<in> set ops. plain_op op \<Longrightarrow> \<exists>r'. apply_setters r ops = Ok r' \<and> built_from ps ops r'"
proof (induction ops rule: rev_induct)
  case Nil
  then show ?case using assms(1) by simp
next
  case (snoc op ops)
  then obtain r1 where "apply_setters r ops = Ok r1" "built_from ps ops r1" by auto
  with built_from_step [OF _ assms(2)] snoc.prems show ?case by (fastforce simp: apply_setters_append)
qed

lemma built_path:
  assumes "built_from ps ops r" "rq_err r = None" "\<forall>s \<in> set ps. seg_ok s" "\<forall>op \<in> set ops. plain_op op"
  shows "request_path r = abs_path ((ps @ prefix_segs ops) @ (if rq_namespace r = [] then [] else [''namespaces'', rq_namespace r]) @
    (if rq_resource r = [] then [] else [ToLower (rq_resource r)]) @ (if rq_resourceName r = [] then [] else [rq_resourceName r]) @
    sub_segs ops @ suffix_segs ops)"
proof -
  define P where "P = ps @ prefix_segs ops"
  have P: "\<forall>s \<in> set P. seg_ok s" using assms(3) plain_prefix_segs [OF assms(4)] by (auto simp: P_def)
  have valid: "IsValidPathSegmentName (rq_namespace r)" "IsValidPathSegmentName (rq_resource r)" "IsValidPathSegmentName (rq_resourceName r)"
    and p: "rq_pathPrefix r = abs_path P" "rel_path (rq_subpath r) (suffix_segs ops)" "rel_path (rq_subresource r) (sub_segs ops)"
      "rq_namespace r \<noteq> [] \<longrightarrow> rq_namespaceSet r"
    using assms(1,2) unfolding built_from_def P_def by blast+
  note v = valid_seg [OF valid(1)] ToLower_valid [OF valid(2)] valid_seg [OF valid(3)]
  note sub = rel_path_simps [OF p(2)] rel_path_simps [OF p(3)]
  have n: "seg_ok ''namespaces''" by (simp add: seg_ok_def)
  let ?ns = "if rq_namespace r = [] then [] else [''namespaces'', rq_namespace r]"
  let ?res = "if rq_resource r = [] then [] else [ToLower (rq_resource r)]"
  let ?name = "if rq_resourceName r = [] then [] else [rq_resourceName r]"
  have j1: "(if rq_namespaceSet r \<and> rq_namespace r \<noteq> [] then path_Join [abs_path P, ''namespaces'', rq_namespace r] else abs_path P) = abs_path (P @ ?ns)"
    using path_Join_abs [OF P, of "[''namespaces'', rq_namespace r]"] v(1) n p(4) by (cases "rq_namespace r = []") simp_all
  have s1: "\<forall>s \<in> set (P @ ?ns). seg_ok s" using P v(1) n by auto
  have j2: "(if rq_resource r \<noteq> [] then path_Join [abs_path (P @ ?ns), ToLower (rq_resource r)] else abs_path (P @ ?ns)) = abs_path ((P @ ?ns) @ ?res)"
    using path_Join_abs [OF s1, of "[ToLower (rq_resource r)]"] v(2) by (cases "rq_resource r = []") simp_all
  have s2: "\<forall>s \<in> set ((P @ ?ns) @ ?res). seg_ok s" using s1 v(2) by auto
  let ?q = "abs_path ((P @ ?ns) @ ?res)"
  have name: "segs_of (rq_resourceName r) = ?name" "path_ok (rq_resourceName r)" using v(3) by (auto simp: segs_of_seg path_ok_simps)
  have "\<forall>e \<in> set [?q, rq_resourceName r, rq_subresource r, rq_subpath r]. path_ok e"
    using path_ok_simps(1) [OF s2] name(2) sub by simp
  then have "path_Join [?q, rq_resourceName r, rq_subresource r, rq_subpath r] =
      abs_path (segs_of ?q @ segs_of (rq_resourceName r) @ segs_of (rq_subresource r) @ segs_of (rq_subpath r))"
    using path_Join_segs [of ?q "[rq_resourceName r, rq_subresource r, rq_subpath r]"] by simp
  then have j3: "path_Join [?q, rq_resourceName r, rq_subresource r, rq_subpath r] =
      abs_path (((P @ ?ns) @ ?res) @ ?name @ sub_segs ops @ suffix_segs ops)"
    unfolding segs_of_abs_path [OF s2] name sub(1,5) .
  have "request_path r = (if rq_resourceName r \<noteq> [] \<or> rq_subpath r \<noteq> [] \<or> rq_subresource r \<noteq> []
      then path_Join [?q, rq_resourceName r, rq_subresource r, rq_subpath r] else ?q)"
    unfolding request_path_def Let_def p(1) j1 j2 ..
  also have "\<dots> = abs_path (((P @ ?ns) @ ?res) @ ?name @ sub_segs ops @ suffix_segs ops)"
  proof (cases "rq_resourceName r \<noteq> [] \<or> rq_subpath r \<noteq> [] \<or> rq_subresource r \<noteq> []")
    case True
    show ?thesis by (rule trans [OF if_P [OF True] j3])
  next
    case False
    then have eq: "((P @ ?ns) @ ?res) @ ?name @ sub_segs ops @ suffix_segs ops = (P @ ?ns) @ ?res" using sub(3,7) by simp
    show ?thesis unfolding eq by (rule if_not_P [OF False])
  qed
  finally show ?thesis unfolding P_def by (simp only: append_assoc)
qed

lemma Verb_prefix:
  assumes "\<forall>s \<in> set bs. seg_ok s" "\<forall>s \<in> set vs. seg_ok s" "u_Path (rc_base c) = abs_path bs \<or> u_Path (rc_base c) = abs_path bs @ ''/''"
    "rc_versionedAPIPath c = abs_path vs"
  shows "rq_pathPrefix (Verb c verb) = abs_path (bs @ vs)"
    "rq_err (Verb c verb) = None" "rq_params (Verb c verb) = []" "rq_timeout (Verb c verb) = 0" "built_from (bs @ vs) [] (Verb c verb)"
proof -
  have one: "segs_of ''/'' = []" "path_ok ''/''" by (simp_all add: segs_of_def path_ok_def)
  have b: "path_Join [''/'', u_Path (rc_base c)] = abs_path bs"
    using path_Join_segs [of "''/''" "[u_Path (rc_base c)]"] assms(1,3)
    by (auto simp: one path_ok_simps segs_of_abs_path segs_of_end_slash)
  have "path_Join [abs_path bs, abs_path vs] = abs_path (bs @ vs)"
    using path_Join_segs [of "abs_path bs" "[abs_path vs]"] assms(1,2) by (simp add: path_ok_simps segs_of_abs_path)
  then show p: "rq_pathPrefix (Verb c verb) = abs_path (bs @ vs)"
    by (simp add: Verb_def NewRequest_def Let_def b assms(4) SetHeader_def)
  show "rq_err (Verb c verb) = None" "rq_params (Verb c verb) = []" "rq_timeout (Verb c verb) = 0"
    by (simp_all add: Verb_def NewRequest_def Let_def SetHeader_def)
  show "built_from (bs @ vs) [] (Verb c verb)"
    using p by (simp add: built_from_def rel_path_def Verb_def NewRequest_def Let_def SetHeader_def IsValidPathSegmentName_def
        NameMayNotBe_def NameMayNotContain_def sublist_single)
qed

text \<open>Parameters with ordinary names are passed on one to one.\<close>

definition plain_key :: "string \<Rightarrow> bool" where
  "plain_key k \<longleftrightarrow> k \<notin> {LabelSelectorQueryParam, FieldSelectorQueryParam} \<and> k \<notin> set specialParams"

lemma versioned_one_key:
  "plain_key k \<Longrightarrow> \<exists>r'. versioned_loop (map (\<lambda>v. (k, v)) vs @ rest) r = versioned_loop rest r' \<and> rq_err r' = rq_err r \<and>
     rq_timeout r' = rq_timeout r \<and>
     map_of (rq_params r') = (if vs = [] then map_of (rq_params r)
       else (map_of (rq_params r))(k \<mapsto> (case map_of (rq_params r) k of Some ws \<Rightarrow> ws | None \<Rightarrow> []) @ vs))"
proof (induction vs arbitrary: r)
  case (Cons v vs)
  have step: "versioned_loop (map (\<lambda>v. (k, v)) (v # vs) @ rest) r = versioned_loop (map (\<lambda>v. (k, v)) vs @ rest) (setParam k v r)"
    using Cons.prems by (simp add: plain_key_def)
  have p: "rq_err (setParam k v r) = rq_err r" "rq_timeout (setParam k v r) = rq_timeout r"
      "map_of (rq_params (setParam k v r)) = (map_of (rq_params r))(k \<mapsto> (case map_of (rq_params r) k of Some ws \<Rightarrow> ws | None \<Rightarrow> []) @ [v])"
    using Cons.prems by (simp_all add: setParam_def plain_key_def gomap_simps)
  from Cons.IH [OF Cons.prems, of "setParam k v r"] show ?case
    unfolding step p by (elim exE conjE) (rule exI, auto simp: fun_eq_iff split: if_splits)
qed auto

lemma versioned_plain:
  "gm_wf params \<Longrightarrow> \<forall>(k, vs) \<in> set params. plain_key k \<and> vs \<noteq> [] \<Longrightarrow> \<forall>(k, vs) \<in> set params. map_of (rq_params r) k = None \<Longrightarrow>
     rq_err (versioned_loop (concat (map (\<lambda>(k, vs). map (\<lambda>v. (k, v)) vs) params)) r) = rq_err r \<and>
     rq_timeout (versioned_loop (concat (map (\<lambda>(k, vs). map (\<lambda>v. (k, v)) vs) params)) r) = rq_timeout r \<and>
     map_of (rq_params (versioned_loop (concat (map (\<lambda>(k, vs). map (\<lambda>v. (k, v)) vs) params)) r)) = map_of (rq_params r) ++ map_of params"
proof (induction params arbitrary: r)
  case (Cons kvs params)
  obtain k vs where kvs: "kvs = (k, vs)" by (cases kvs)
  with Cons.prems have k: "plain_key k" "vs \<noteq> []" "map_of (rq_params r) k = None" "k \<notin> fst ` set params" by auto
  obtain r' where r': "versioned_loop (map (\<lambda>v. (k, v)) vs @ concat (map (\<lambda>(k, vs). map (\<lambda>v. (k, v)) vs) params)) r =
        versioned_loop (concat (map (\<lambda>(k, vs). map (\<lambda>v. (k, v)) vs) params)) r'"
      "rq_err r' = rq_err r" "rq_timeout r' = rq_timeout r" "map_of (rq_params r') = (map_of (rq_params r))(k \<mapsto> vs)"
    using versioned_one_key [OF k(1), of vs _ r] k(2,3) by fastforce
  have "\<forall>(k, vs) \<in> set params. map_of (rq_params r') k = None" using Cons.prems k(4) r'(4) by force
  with Cons r' k show ?case by (auto simp: kvs fun_eq_iff map_add_def split: option.splits)
qed simp

section \<open>Properties of requests\<close>

text \<open>C33: no name can leave its place. Take a client whose base and version paths are plain, and any chain of the setters
  \<open>Namespace\<close>, \<open>NamespaceIfScoped\<close>, \<open>Resource\<close>, \<open>Name\<close>, \<open>SubResource\<close> and of parameters, selectors and timeouts with
  whatever strings, and \<open>Prefix\<close> and \<open>Suffix\<close> with plain segments (they do not check them; \<open>AbsPath\<close> and
  \<open>RequestURI\<close>, which replace the path, are left out). The chain does not panic, and a request without error goes to exactly the
  base, the version, the prefixes, the namespace, the resource in lower case, the name, the subresources and the suffixes that were set,
  each name as one segment (so no \<open>..\<close> or slash in a name reaches another object).\<close>

theorem request_path_safe:
  assumes "\<forall>s \<in> set bs. seg_ok s" "\<forall>s \<in> set vs. seg_ok s" "u_Path (rc_base c) = abs_path bs \<or> u_Path (rc_base c) = abs_path bs @ ''/''"
    "rc_versionedAPIPath c = abs_path vs" "\<forall>op \<in> set ops. plain_op op"
  shows "\<exists>r. apply_setters (Verb c verb) ops = Ok r \<and> (rq_err r = None \<longrightarrow>
    segs_of (request_path r) = bs @ vs @ prefix_segs ops @ (if rq_namespace r = [] then [] else [''namespaces'', rq_namespace r]) @
      (if rq_resource r = [] then [] else [ToLower (rq_resource r)]) @ (if rq_resourceName r = [] then [] else [rq_resourceName r]) @
      sub_segs ops @ suffix_segs ops \<and>
    request_path r = abs_path (segs_of (request_path r)) \<and>
    (\<forall>ns. SNamespace ns \<in> set ops \<or> SNamespaceIf ns True \<in> set ops \<longrightarrow> rq_namespace r = ns) \<and>
    (\<forall>res. SResource res \<in> set ops \<longrightarrow> res \<noteq> [] \<longrightarrow> rq_resource r = res) \<and>
    (\<forall>name. SName name \<in> set ops \<longrightarrow> rq_resourceName r = name))"
proof -
  have s: "\<forall>s \<in> set (bs @ vs). seg_ok s" using assms(1,2) by auto
  obtain r where r: "apply_setters (Verb c verb) ops = Ok r" and b: "built_from (bs @ vs) ops r"
    using built_from_run [OF Verb_prefix(5) [OF assms(1-4)] s assms(5)] by blast
  let ?segs = "(bs @ vs @ prefix_segs ops) @ (if rq_namespace r = [] then [] else [''namespaces'', rq_namespace r]) @
      (if rq_resource r = [] then [] else [ToLower (rq_resource r)]) @ (if rq_resourceName r = [] then [] else [rq_resourceName r]) @
      sub_segs ops @ suffix_segs ops"
  have "request_path r = abs_path ?segs \<and> segs_of (abs_path ?segs) = ?segs" if e: "rq_err r = None"
  proof
    show "request_path r = abs_path ?segs" using built_path [OF b e s assms(5)] by simp
    have "rq_namespace r = [] \<or> seg_ok (rq_namespace r)" "ToLower (rq_resource r) = [] \<or> seg_ok (ToLower (rq_resource r))"
        "rq_resourceName r = [] \<or> seg_ok (rq_resourceName r)" "seg_ok ''namespaces''"
        "\<forall>s \<in> set (sub_segs ops). seg_ok s" "\<forall>s \<in> set (suffix_segs ops). seg_ok s"
      using b e valid_seg ToLower_valid by (auto simp: built_from_def seg_ok_def rel_path_def)
    then show "segs_of (abs_path ?segs) = ?segs" using s plain_prefix_segs [OF assms(5)] by (intro segs_of_abs_path) auto
  qed
  with r b show ?thesis by (intro exI [of _ r]) (auto simp: built_from_def)
qed

definition demo_client :: RESTClient where
  "demo_client = \<lparr>rc_base = \<lparr>u_Scheme = ''http'', u_Host = ''api:8080'', u_Path = ''/'', u_RawQuery = ''''\<rparr>, rc_versionedAPIPath = ''/api/v1'',
     rc_contentConfig = \<lparr>cc_ContentType = ''application/json'', cc_GroupVersion = \<lparr>gv_Group = '''', gv_Version = ''v1''\<rparr>\<rparr>\<rparr>"

lemma demo_client_paths: "u_Path (rc_base demo_client) = abs_path []" "rc_versionedAPIPath demo_client = abs_path [''api'', ''v1'']"
  by (simp_all add: demo_client_def abs_path_def)

theorem request_path_safe_witness:
  "\<exists>r. apply_setters (Verb demo_client ''GET'') [SPrefix [''watch''], SNamespace ''default'', SResource ''Services'', SName ''web'',
       SSubResource [''status'']] = Ok r \<and> rq_err r = None \<and> request_path r = ''/api/v1/watch/namespaces/default/services/web/status''"
proof -
  let ?ops = "[SPrefix [''watch''], SNamespace ''default'', SResource ''Services'', SName ''web'', SSubResource [''status'']]"
  have v: "IsValidPathSegmentName ''default''" "IsValidPathSegmentName ''Services''" "IsValidPathSegmentName ''web''" "IsValidPathSegmentName ''status''"
    by (simp_all add: IsValidPathSegmentName_def NameMayNotBe_def NameMayNotContain_def sublist_single)
  have plain: "\<forall>s \<in> set [''api'', ''v1'']. seg_ok s" "\<forall>op \<in> set ?ops. plain_op op" by (simp_all add: seg_ok_def)
  obtain r where r: "apply_setters (Verb demo_client ''GET'') ?ops = Ok r" "rq_err r = None"
    using v by (simp add: demo_client_def Verb_def NewRequest_def Let_def SetHeader_def Namespace_def Resource_def Name_def SubResource_def Prefix_def)
  have l: "ToLower ''Services'' = ''services''" by code_simp
  from request_path_safe [of "[]" "[''api'', ''v1'']" demo_client ?ops "''GET''", OF _ plain(1) _ demo_client_paths(2) plain(2)] r demo_client_paths(1)
  have n: "rq_namespace r = ''default''" "rq_resource r = ''Services''" "rq_resourceName r = ''web''"
    by (simp_all del: apply_setters.simps)
  from request_path_safe [of "[]" "[''api'', ''v1'']" demo_client ?ops "''GET''", OF _ plain(1) _ demo_client_paths(2) plain(2)] r demo_client_paths(1)
  have "\<exists>segs. segs_of (request_path r) = segs \<and> request_path r = abs_path (segs_of (request_path r)) \<and>
      segs = [''api'', ''v1'', ''watch'', ''namespaces'', ''default'', ''services'', ''web'', ''status'']"
    by (auto simp: n l simp del: apply_setters.simps)
  then have "request_path r = abs_path [''api'', ''v1'', ''watch'', ''namespaces'', ''default'', ''services'', ''web'', ''status'']"
    by metis
  with r show ?thesis by (simp add: abs_path_def del: apply_setters.simps)
qed

lemma reflector_request:
  assumes b: "built_from ps [] r0" "rq_err r0 = None" "rq_params r0 = []" "rq_timeout r0 = 0" "\<not> rq_namespaceSet r0"
      "rq_resource r0 = []" "rq_resourceName r0 = []"
    and ps: "\<forall>s \<in> set ps. seg_ok s" and res: "seg_ok resource" "IsValidPathSegmentName resource"
    and params: "gm_wf params" "\<forall>(k, vs) \<in> set params. plain_key k \<and> vs \<noteq> []"
    and r: "r = FieldsSelectorParam (Some Everything) (VersionedParams (Inr params) (Resource resource (Namespace [] r0)))"
  shows "rq_err r = None \<and> request_path r = abs_path (ps @ [ToLower resource]) \<and> map_of (request_query ds r) = map_of params"
proof -
  have v: "IsValidPathSegmentName []" by (simp add: IsValidPathSegmentName_def NameMayNotBe_def NameMayNotContain_def)
  let ?r1 = "r0\<lparr>rq_namespaceSet := True, rq_namespace := [], rq_resource := resource\<rparr>"
  let ?r2 = "versioned_loop (concat (map (\<lambda>(k, vs). map (\<lambda>v. (k, v)) vs) params)) ?r1"
  have r1: "Resource resource (Namespace [] r0) = ?r1" using b v res by (simp add: Namespace_def Resource_def)
  have r2: "rq_err ?r2 = None" "rq_timeout ?r2 = 0" "map_of (rq_params ?r2) = map_of params"
    using versioned_plain [OF params, of ?r1] b(2-4) by simp_all
  have rr: "r = ?r2"
    unfolding r r1 using r2(1) b(2) by (simp add: FieldsSelectorParam_def VersionedParams_def Everything_matches(2))
  let ?ops = "[SNamespace [], SResource resource, SVersioned (Inr params), SFields (Some Everything)]"
  have "apply_setters r0 ?ops = Ok r" by (simp add: r)
  then have bf: "built_from ps ?ops r" using built_from_run [OF b(1) ps, of ?ops] by simp
  have f: "rq_namespace r = []" "rq_resource r = resource" "rq_resourceName r = []"
    using same_path_versioned [of ?r1] b(7) unfolding rr by (simp_all add: same_path_def)
  have "resource \<noteq> []" using res(1) by auto
  then have "request_path r = abs_path (ps @ [ToLower resource])"
    using built_path [OF bf _ ps] r2(1)
    by (simp add: rr [symmetric] f)
  with r2 show ?thesis by (simp add: rr request_query_def)
qed

text \<open>The reflectors ask for what they should: with plain option parameters the list request of a resource over all
  namespaces goes to its collection below the API version, the watch request to the same collection below
  \<open>watch\<close>, both with exactly the given parameters and without a field selector.\<close>

theorem list_watch_requests:
  assumes "\<forall>s \<in> set bs. seg_ok s" "\<forall>s \<in> set vs. seg_ok s" "u_Path (rc_base c) = abs_path bs \<or> u_Path (rc_base c) = abs_path bs @ ''/''"
    "rc_versionedAPIPath c = abs_path vs" "seg_ok resource" "IsValidPathSegmentName resource"
    and "gm_wf params" "\<forall>(k, vs) \<in> set params. plain_key k \<and> vs \<noteq> []"
  shows "rq_err (list_request c resource [] Everything (Inr params)) = None \<and>
    request_path (list_request c resource [] Everything (Inr params)) = abs_path (bs @ vs @ [ToLower resource]) \<and>
    map_of (request_query ds (list_request c resource [] Everything (Inr params))) = map_of params \<and>
    rq_err (watch_request c resource [] Everything (Inr params)) = None \<and>
    request_path (watch_request c resource [] Everything (Inr params)) = abs_path (bs @ vs @ [''watch'', ToLower resource]) \<and>
    map_of (request_query ds (watch_request c resource [] Everything (Inr params))) = map_of params"
proof -
  let ?v = "Verb c ''GET''" and ?w = "Prefix [''watch''] (Verb c ''GET'')"
  note V = Verb_prefix [OF assms(1-4), of "''GET''"]
  have f: "\<not> rq_namespaceSet ?v" "rq_resource ?v = []" "rq_resourceName ?v = []"
    by (simp_all add: Verb_def NewRequest_def Let_def SetHeader_def)
  have s: "\<forall>s \<in> set (bs @ vs). seg_ok s" "seg_ok ''watch''" using assms(1,2) by (auto simp: seg_ok_def)
  have "path_Join [''watch''] = ''watch''" by (simp add: path_Join_def path_Clean_def)
  then have "?w = ?v\<lparr>rq_pathPrefix := abs_path ((bs @ vs) @ [''watch''])\<rparr>"
    using path_Join_abs [OF s(1), of "[''watch'']"] V(1,2) s(2) by (simp add: Prefix_def)
  then have w: "built_from ((bs @ vs) @ [''watch'']) [] ?w" "rq_err ?w = None" "rq_params ?w = []" "rq_timeout ?w = 0"
      "\<not> rq_namespaceSet ?w" "rq_resource ?w = []" "rq_resourceName ?w = []"
    using V f by (simp_all add: built_from_def)
  have s3: "\<forall>s \<in> set ((bs @ vs) @ [''watch'']). seg_ok s" using s by auto
  from reflector_request [OF V(5) V(2-4) f s(1) assms(5-8), of _ ds] reflector_request [OF w s3 assms(5-8), of _ ds]
  show ?thesis by (simp add: list_request_def watch_request_def client_Get_def)
qed

theorem list_watch_requests_witness:
  "request_path (list_request demo_client ''services'' [] Everything (Inr [(''resourceVersion'', [''0''])])) = ''/api/v1/services'' \<and>
   request_path (watch_request demo_client ''services'' [] Everything (Inr [(''resourceVersion'', [''0''])])) = ''/api/v1/watch/services''"
proof -
  have v: "IsValidPathSegmentName ''services''" "seg_ok ''services''" "ToLower ''services'' = ''services''"
    by (simp add: IsValidPathSegmentName_def NameMayNotBe_def NameMayNotContain_def sublist_single, simp add: seg_ok_def, code_simp)
  have k: "plain_key ''resourceVersion''"
    by (simp add: plain_key_def LabelSelectorQueryParam_def FieldSelectorQueryParam_def specialParams_def)
  from list_watch_requests [of "[]" "[''api'', ''v1'']" demo_client "''services''" "[(''resourceVersion'', [''0''])]", OF _ _ _ demo_client_paths(2) v(2,1)]
  show ?thesis by (simp add: demo_client_paths v k seg_ok_def abs_path_def)
qed

section \<open>Every call ends\<close>

text \<open>How a call of the retry loop can end: an answer that does not ask to wait, or the tenth one.\<close>

definition ends_properly :: "nat \<Rightarrow> ('w, 'b) session \<Rightarrow> Response outcome \<times> ('w, 'b) session \<Rightarrow> bool" where
  "ends_properly n s result \<longleftrightarrow>
     (\<exists>sent. ss_sent (snd result) = ss_sent s @ sent \<and> length sent \<le> n \<and>
       (case fst result of
          Ok resp \<Rightarrow> snd (checkWait resp) \<longrightarrow> length sent = n
        | Fail _ \<Rightarrow> True
        | _ \<Rightarrow> False))"

context backoff_manager
begin

lemma exchange_total:
  assumes "good (request_URL (lb_durString L) r)" "report = None \<or> (\<exists>u. report = Some u \<and> good u)"
  obtains res s1 t where "exchange L B C r hs report s = (Ok res, s1)"
    "ss_sent s1 = ss_sent s @ [(t, rq_verb r, lb_urlString L (request_URL (lb_durString L) r))]" "ss_throttle s1 = ss_throttle s"
proof -
  let ?u = "request_URL (lb_durString L) r"
  obtain d where d: "bm_CalculateBackoff B (ss_backoff s) ?u = Ok d" using calculate_total [OF assms(1)] by blast
  obtain res s1 where h: "http_Do C (rq_verb r) (lb_urlString L ?u) hs (do_sleep B d s) = (res, s1)"
    by (cases "http_Do C (rq_verb r) (lb_urlString L ?u) hs (do_sleep B d s)")
  have s1: "ss_sent s1 = ss_sent s @ [(ss_now (do_sleep B d s), rq_verb r, lb_urlString L ?u)]" "ss_throttle s1 = ss_throttle s"
    using h by (auto simp: http_Do_def do_sleep_def split: prod.splits)
  show thesis
  proof (cases report)
    case None
    then show thesis using that [of res s1] d h s1 by (simp add: exchange_def)
  next
    case (Some ru)
    let ?err = "case res of Inl err \<Rightarrow> Some err | Inr _ \<Rightarrow> None" and ?code = "case res of Inl _ \<Rightarrow> 0 | Inr resp \<Rightarrow> rp_StatusCode resp"
    obtain b where "bm_UpdateBackoff B (ss_backoff s1) ru ?err ?code (ss_now s1) = Ok b"
      using update_total [of ru] assms(2) Some by blast
    then show thesis using that [of res "s1\<lparr>ss_backoff := b\<rparr>"] d h s1 Some by (simp add: exchange_def)
  qed
qed

lemma request_loop_ends:
  assumes "good (request_URL (lb_durString L) r)" "retries < maxRetries"
  shows "ends_properly (maxRetries - retries) s (request_loop L B C r retries s)"
  using assms
proof (induction "maxRetries - retries" arbitrary: retries s rule: less_induct)
  case less
  let ?u = "request_URL (lb_durString L) r"
  show ?case
  proof (cases "lb_NewRequest L (rq_verb r) (lb_urlString L ?u)")
    case (Some err)
    then show ?thesis by (subst request_loop.simps) (simp add: ends_properly_def)
  next
    case None
    obtain res s1 t where ex: "exchange L B C r (rq_headers r) (Some ?u) s = (Ok res, s1)"
        "ss_sent s1 = ss_sent s @ [(t, rq_verb r, lb_urlString L ?u)]"
      using exchange_total [OF less.prems(1), of "Some ?u" C "rq_headers r" s] less.prems(1) by blast
    show ?thesis
    proof (cases res)
      case (Inl err)
      then show ?thesis using None ex less.prems(2) by (subst request_loop.simps) (simp add: ends_properly_def)
    next
      case (Inr resp)
      obtain seconds w where w: "checkWait resp = (seconds, w)" by (cases "checkWait resp")
      let ?s2 = "do_sleep B (word_of_int seconds * second) s1"
      show ?thesis
      proof (cases "w \<and> retries + 1 < maxRetries")
        case True
        have step: "request_loop L B C r retries s = request_loop L B C r (retries + 1) ?s2"
          using None ex Inr w True by (subst request_loop.simps) simp
        have "ends_properly (maxRetries - (retries + 1)) ?s2 (request_loop L B C r (retries + 1) ?s2)"
          by (rule less.hyps) (use less.prems True in auto)
        then obtain sent where sent: "ss_sent (snd (request_loop L B C r (retries + 1) ?s2)) = ss_sent ?s2 @ sent"
            "length sent \<le> maxRetries - (retries + 1)"
            "case fst (request_loop L B C r (retries + 1) ?s2) of Ok resp \<Rightarrow> snd (checkWait resp) \<longrightarrow> length sent = maxRetries - (retries + 1)
               | Fail _ \<Rightarrow> True | _ \<Rightarrow> False"
          unfolding ends_properly_def by blast
        show ?thesis
          unfolding ends_properly_def step
          using sent ex(2) less.prems(2) True
          by (intro exI [of _ "(t, rq_verb r, lb_urlString L ?u) # sent"]) (auto simp: do_sleep_def split: outcome.splits)
      next
        case False
        have "request_loop L B C r retries s = (Ok resp, s1)" using None ex Inr w False by (subst request_loop.simps) auto
        then show ?thesis using ex(2) w False less.prems(2) by (simp add: ends_properly_def) linarith
      qed
    qed
  qed
qed

lemma request_ends:
  assumes "good (request_URL (lb_durString L) r)"
  shows "ends_properly maxRetries s (request L B C r s)"
  using request_loop_ends [OF assms, of 0 s C]
  by (auto simp: request_def ends_properly_def maxRetries_def split: option.splits)

end

text \<open>C32: a call of the API client ends: on a URL that can be parsed again a request of a client with exponential backoff
  never panics and makes at most ten exchanges; it hands back an error, an answer that does not ask to wait, or the
  tenth answer.\<close>

theorem api_request_ends:
  assumes "reparse (request_URL (lb_durString L) r) \<noteq> None"
  shows "ends_properly 10 s (request L (URLBackoff reparse) C r s)"
  using ub.request_ends [of reparse L r s C] assms by (simp add: maxRetries_def)

definition demo_lib :: lib where
  "demo_lib = \<lparr>lb_durString = (\<lambda>d. []), lb_urlString = (\<lambda>u. u_Scheme u @ ''://'' @ u_Host u @ u_Path u), lb_NewRequest = (\<lambda>v u. None),
     lb_ParseMediaType = Some, lb_IsProbableEOF = (\<lambda>e. False)\<rparr>"

definition busy_response :: Response where
  "busy_response = \<lparr>rp_StatusCode = 503, rp_Header = [(''Retry-After'', ''5'')], rp_Body = Inr ''''\<rparr>"

definition demo_session :: "'b \<Rightarrow> (unit, 'b) session" where
  "demo_session b = \<lparr>ss_now = 0, ss_http = (), ss_backoff = b, ss_throttle = None, ss_sent = []\<rparr>"

lemma busy_waits: "checkWait busy_response = (5, True)"
  by (simp add: checkWait_def busy_response_def retryAfterSeconds_def Header_Get_def gm_get_def Atoi_def ParseInt_def ParseUint_def digit_of_def)

theorem api_request_ends_witness:
  "ends_properly 10 (demo_session (NewBackOff second (30 * second)))
     (request demo_lib (URLBackoff Some) (\<lambda>w now v u h. (Inr busy_response, w, now + 1)) (Verb demo_client ''GET'') (demo_session (NewBackOff second (30 * second))))"
  by (rule api_request_ends) simp

lemma first_error_reported:
  assumes "rq_err r = Some err"
  shows "apply_setters r ops = Ok r" "request L B C r s = (Fail err, s)" "Watch L cd B C r s = (Fail err, s)"
    "\<exists>s'. Do_request L cd B C r s = (Ok (error_result err), s') \<and> ss_sent s' = ss_sent s"
proof -
  show "apply_setters r ops = Ok r" using assms by (simp add: apply_setters_err)
  show "request L B C r s = (Fail err, s)" "Watch L cd B C r s = (Fail err, s)"
    using assms by (simp_all add: request_def Watch_def)
  show "\<exists>s'. Do_request L cd B C r s = (Ok (error_result err), s') \<and> ss_sent s' = ss_sent s"
    using assms by (simp add: Do_request_def request_def tryThrottle_def split: option.splits prod.splits)
qed

lemma retries_at_once:
  assumes "\<And>w now v u h. C w now v u h = (Inr resp, w, now)" "checkWait resp = (n, True)" "lb_NewRequest L (rq_verb r) url = None"
    "url = lb_urlString L (request_URL (lb_durString L) r)" "retries < maxRetries"
  shows "request_loop L NoBackoff C r retries s =
    (Ok resp, s\<lparr>ss_sent := ss_sent s @ replicate (maxRetries - retries) (ss_now s, rq_verb r, url)\<rparr>)"
  using assms(5)
proof (induction "maxRetries - retries" arbitrary: retries s rule: less_induct)
  case less
  let ?s1 = "s\<lparr>ss_sent := ss_sent s @ [(ss_now s, rq_verb r, url)]\<rparr>"
  have ex: "exchange L NoBackoff C r (rq_headers r) (Some (request_URL (lb_durString L) r)) s = (Ok (Inr resp), ?s1)"
    by (simp add: exchange_def NoBackoff_def http_Do_def do_sleep_def assms(1,4) Let_def)
  have z: "do_sleep NoBackoff d ?s1 = ?s1" for d by (simp add: do_sleep_def NoBackoff_def)
  show ?case
  proof (cases "retries + 1 < maxRetries")
    case True
    then have step: "request_loop L NoBackoff C r retries s = request_loop L NoBackoff C r (retries + 1) ?s1"
      using assms(2-4) ex z by (subst request_loop.simps) simp
    have "request_loop L NoBackoff C r (retries + 1) ?s1 =
        (Ok resp, ?s1\<lparr>ss_sent := ss_sent ?s1 @ replicate (maxRetries - (retries + 1)) (ss_now ?s1, rq_verb r, url)\<rparr>)"
      by (rule less.hyps) (use less.prems True in auto)
    moreover have "maxRetries - retries = Suc (maxRetries - (retries + 1))" using less.prems by simp
    ultimately show ?thesis using step by simp
  next
    case False
    then have "maxRetries - retries = 1" using less.prems by simp
    then show ?thesis using assms(2-4) ex False by (subst request_loop.simps) simp
  qed
qed

text \<open>The wait a busy server asks for is not observed by a client without backoff settings (the default): the \<open>Sleep\<close>
  of \<open>NoBackoff\<close> returns at once, so a server that answers 503 with a \<open>Retry-After\<close> header gets the request ten times
  in a row, whatever number of seconds it names.\<close>

theorem retry_after_ignored:
  assumes "\<And>w now v u h. C w now v u h = (Inr resp, w, now)" "checkWait resp = (n, True)"
    and "rq_err r = None" "rq_verb r = ''GET''" "rq_resourceName r = []" "lb_NewRequest L ''GET'' (lb_urlString L (request_URL (lb_durString L) r)) = None"
  shows "request L NoBackoff C r s = (Ok resp, s\<lparr>ss_sent := ss_sent s @
    replicate 10 (ss_now s, ''GET'', lb_urlString L (request_URL (lb_durString L) r))\<rparr>)"
  using retries_at_once [of C resp n L r "lb_urlString L (request_URL (lb_durString L) r)" 0 s, OF assms(1,2)] assms(3-6) by (simp add: request_def maxRetries_def)

theorem retry_after_ignored_witness:
  "ss_sent (snd (request demo_lib NoBackoff (\<lambda>w now v u h. (Inr busy_response, w, now)) (list_request demo_client ''services'' [] Everything (Inr [])) (demo_session ()))) =
     replicate 10 (0, ''GET'', ''http://api:8080/api/v1/services'')"
proof -
  let ?r = "list_request demo_client ''services'' [] Everything (Inr [])"
  have v: "IsValidPathSegmentName ''services''" "IsValidPathSegmentName ''''"
    by (simp_all add: IsValidPathSegmentName_def NameMayNotBe_def NameMayNotContain_def sublist_single)
  have r: "rq_err ?r = None" "rq_verb ?r = ''GET''" "rq_resourceName ?r = []" "rq_baseURL ?r = Some (rc_base demo_client)"
    using v by (simp_all add: list_request_def FieldsSelectorParam_def VersionedParams_def Resource_def Namespace_def client_Get_def
        Verb_def NewRequest_def Let_def SetHeader_def Everything_matches)
  have p: "request_path ?r = ''/api/v1/services''"
  proof -
    have "seg_ok ''services''" "ToLower ''services'' = ''services''" by (simp add: seg_ok_def, code_simp)
    moreover have sv: "\<forall>s \<in> set ([] @ [''api'', ''v1'']). seg_ok s" by (simp add: seg_ok_def)
    moreover have V: "rq_err (Verb demo_client ''GET'') = None" "rq_params (Verb demo_client ''GET'') = []" "rq_timeout (Verb demo_client ''GET'') = 0"
        "built_from ([] @ [''api'', ''v1'']) [] (Verb demo_client ''GET'')"
      using Verb_prefix [of "[]" "[''api'', ''v1'']" demo_client "''GET''"] demo_client_paths sv by simp_all
    ultimately show ?thesis
      using reflector_request [OF V(4) V(1-3), of "''services''" "[]" ?r] v(1)
      by (simp add: list_request_def client_Get_def abs_path_def Verb_def NewRequest_def Let_def SetHeader_def)
  qed
  have u: "lb_urlString demo_lib (request_URL (lb_durString demo_lib) ?r) = ''http://api:8080/api/v1/services''"
    using r(4) p by (simp add: demo_lib_def request_URL_def Let_def demo_client_def)
  show ?thesis
    using retry_after_ignored [of "\<lambda>w now v u h. (Inr busy_response, w, now)" busy_response 5 ?r demo_lib "demo_session ()"] r u
    by (simp add: busy_waits demo_session_def demo_lib_def)
qed

end
