(* ===== verification/StreamWatch.thy ===== *)
theory StreamWatch
  imports EventQueue "HOL-Library.Sublist"
begin

text \<open>
  \<open>pkg/watch/iowatcher.go\<close> and \<open>pkg/watch/json/decoder.go\<close> (vendored): the goroutine that turns the body of a watch
  response into the events the reflector receives.

  The goroutine, the consumer, the callers of \<open>Stop\<close> and the connection run concurrently: \<open>sw_step\<close> is their interleaving, one
  rule for each thing that can happen next. The result channel is unbuffered, so an event is sent and received in one
  step. The connection delivers frames in order until it ends; a closed reader may still hand out frames it has
  buffered, but gets no new ones. Decoding an object is the parameter \<open>codec\<close> (\<open>None\<close> is a panic, which the goroutine recovers
  from).
\<close>

section \<open>Decoding a frame\<close>

datatype frame = Garbled gerror | WatchEvent string string

definition event_type :: "string \<Rightarrow> EventType option" where
  "event_type t =
     (if t = ''ADDED'' then Some Added else if t = ''MODIFIED'' then Some Modified else if t = ''DELETED'' then Some Deleted
      else if t = ''ERROR'' then Some Error else None)"

type_synonym 'o frame_codec = "string \<Rightarrow> (gerror + 'o) option"

definition Decode :: "'o frame_codec \<Rightarrow> frame \<Rightarrow> (gerror + EventType \<times> 'o) option" where
  "Decode codec f =
     (case f of
        Garbled err \<Rightarrow> Some (Inl err)
      | WatchEvent t raw \<Rightarrow>
          (case event_type t of
             None \<Rightarrow> Some (Inl (Errorf ''got invalid watch event type''))
           | Some action \<Rightarrow>
               (case codec raw of
                  None \<Rightarrow> None
                | Some (Inl err) \<Rightarrow> Some (Inl (Errorf ''unable to decode watch event''))
                | Some (Inr obj) \<Rightarrow> Some (Inr (action, obj)))))"

section \<open>The watcher\<close>

text \<open>Where the goroutine is: in \<open>Decode\<close>, at the send, behind an error, and at its deferred calls.\<close>

datatype 'o rpc = Decoding | Sending EventType 'o | Failed gerror | Returning | Closing | Finished

text \<open>\<open>sw_buffered\<close> are the frames that have arrived and are not decoded yet; \<open>sw_read\<close> and \<open>sw_arrived\<close> record the frames
  that became events and all that arrived, and \<open>sw_taken\<close> what the consumer has received.\<close>

record 'o StreamWatcher =
  sw_buffered :: "frame list"
  sw_hungup :: bool
  sw_closes :: nat
  sw_stopped :: bool
  sw_open :: bool
  sw_pc :: "'o rpc"
  sw_arrived :: "frame list"
  sw_read :: "frame list"
  sw_taken :: "(EventType \<times> 'o) list"

definition NewStreamWatcher :: "'o StreamWatcher" where
  "NewStreamWatcher = \<lparr>sw_buffered = [], sw_hungup = False, sw_closes = 0, sw_stopped = False, sw_open = True, sw_pc = Decoding,
     sw_arrived = [], sw_read = [], sw_taken = []\<rparr>"

definition sw_Stop :: "'o StreamWatcher \<Rightarrow> 'o StreamWatcher" where
  "sw_Stop sw = (if \<not> sw_stopped sw then sw\<lparr>sw_stopped := True, sw_closes := Suc (sw_closes sw)\<rparr> else sw)"

datatype sw_label = Arrive frame | Hangup | CallStop | Run | Take

text \<open>The rules with label \<open>Run\<close> are those of \<open>receive\<close>. Behind an error it returns, whether or not it is stopping (the two
  cases differ in what is logged).\<close>

inductive sw_step :: "'o frame_codec \<Rightarrow> 'o StreamWatcher \<Rightarrow> sw_label \<Rightarrow> 'o StreamWatcher \<Rightarrow> bool"
  for codec :: "'o frame_codec" where
  arrive: "\<not> sw_hungup sw \<Longrightarrow> sw_closes sw = 0 \<Longrightarrow>
     sw_step codec sw (Arrive f) (sw\<lparr>sw_buffered := sw_buffered sw @ [f], sw_arrived := sw_arrived sw @ [f]\<rparr>)"
| hangup: "sw_step codec sw Hangup (sw\<lparr>sw_hungup := True\<rparr>)"
| stop: "sw_step codec sw CallStop (sw_Stop sw)"
| decode_event: "sw_pc sw = Decoding \<Longrightarrow> sw_buffered sw = f # fs \<Longrightarrow> Decode codec f = Some (Inr (action, obj)) \<Longrightarrow>
     sw_step codec sw Run (sw\<lparr>sw_buffered := fs, sw_read := sw_read sw @ [f], sw_pc := Sending action obj\<rparr>)"
| decode_error: "sw_pc sw = Decoding \<Longrightarrow> sw_buffered sw = f # fs \<Longrightarrow> Decode codec f = Some (Inl err) \<Longrightarrow>
     sw_step codec sw Run (sw\<lparr>sw_buffered := fs, sw_pc := Failed err\<rparr>)"
| decode_panic: "sw_pc sw = Decoding \<Longrightarrow> sw_buffered sw = f # fs \<Longrightarrow> Decode codec f = None \<Longrightarrow>
     sw_step codec sw Run (sw\<lparr>sw_buffered := fs, sw_pc := Returning\<rparr>)"
| decode_eof: "sw_pc sw = Decoding \<Longrightarrow> sw_buffered sw = [] \<Longrightarrow> sw_hungup sw \<Longrightarrow>
     sw_step codec sw Run (sw\<lparr>sw_pc := Failed (Errorf ''EOF'')\<rparr>)"
| decode_closed: "sw_pc sw = Decoding \<Longrightarrow> sw_closes sw > 0 \<Longrightarrow>
     sw_step codec sw Run (sw\<lparr>sw_pc := Failed (Errorf ''read on closed body'')\<rparr>)"
| give_up: "sw_pc sw = Failed err \<Longrightarrow> sw_step codec sw Run (sw\<lparr>sw_pc := Returning\<rparr>)"
| deferred_stop: "sw_pc sw = Returning \<Longrightarrow> sw_step codec sw Run (sw_Stop (sw\<lparr>sw_pc := Closing\<rparr>))"
| close_result: "sw_pc sw = Closing \<Longrightarrow> sw_step codec sw Run (sw\<lparr>sw_open := False, sw_pc := Finished\<rparr>)"
| send: "sw_pc sw = Sending action obj \<Longrightarrow>
     sw_step codec sw Take (sw\<lparr>sw_taken := sw_taken sw @ [(action, obj)], sw_pc := Decoding\<rparr>)"

code_pred sw_step .

inductive sw_run :: "'o frame_codec \<Rightarrow> 'o StreamWatcher \<Rightarrow> sw_label list \<Rightarrow> 'o StreamWatcher \<Rightarrow> bool"
  for codec :: "'o frame_codec" where
  run_done: "sw_run codec sw [] sw"
| run_step: "sw_step codec sw l sw' \<Longrightarrow> sw_run codec sw' ls sw'' \<Longrightarrow> sw_run codec sw (l # ls) sw''"

inductive_cases sw_step_Run: "sw_step codec sw Run sw'"
inductive_cases sw_step_Take: "sw_step codec sw Take sw'"

inductive_simps sw_run_Nil: "sw_run codec sw [] sw'"
inductive_simps sw_run_Cons: "sw_run codec sw (l # ls) sw'"

section \<open>What holds in every state\<close>

fun in_flight :: "'o rpc \<Rightarrow> (EventType \<times> 'o) list" where
  "in_flight (Sending action obj) = [(action, obj)]"
| "in_flight _ = []"

definition reading :: "'o rpc \<Rightarrow> bool" where
  "reading pc \<longleftrightarrow> (case pc of Decoding \<Rightarrow> True | Sending _ _ \<Rightarrow> True | _ \<Rightarrow> False)"

definition sw_ok :: "'o frame_codec \<Rightarrow> 'o StreamWatcher \<Rightarrow> bool" where
  "sw_ok codec sw \<longleftrightarrow>
     sw_closes sw = (if sw_stopped sw then 1 else 0) \<and>
     (sw_open sw \<longleftrightarrow> sw_pc sw \<noteq> Finished) \<and> (sw_pc sw = Closing \<or> sw_pc sw = Finished \<longrightarrow> sw_stopped sw) \<and>
     map (Decode codec) (sw_read sw) = map (Some \<circ> Inr) (sw_taken sw @ in_flight (sw_pc sw)) \<and>
     (if reading (sw_pc sw) then sw_arrived sw = sw_read sw @ sw_buffered sw else prefix (sw_read sw) (sw_arrived sw))"

lemma NewStreamWatcher_ok: "sw_ok codec NewStreamWatcher"
  by (simp add: sw_ok_def NewStreamWatcher_def reading_def)

lemma sw_Stop_simps [simp]:
  "sw_buffered (sw_Stop sw) = sw_buffered sw" "sw_hungup (sw_Stop sw) = sw_hungup sw" "sw_stopped (sw_Stop sw)"
  "sw_open (sw_Stop sw) = sw_open sw" "sw_pc (sw_Stop sw) = sw_pc sw" "sw_arrived (sw_Stop sw) = sw_arrived sw"
  "sw_read (sw_Stop sw) = sw_read sw" "sw_taken (sw_Stop sw) = sw_taken sw"
  by (simp_all add: sw_Stop_def)

lemma sw_Stop_ok: "sw_ok codec sw \<Longrightarrow> sw_ok codec (sw_Stop sw)"
  by (cases "sw_stopped sw") (simp_all add: sw_ok_def sw_Stop_def)

lemma sw_step_ok: "sw_step codec sw l sw' \<Longrightarrow> sw_ok codec sw \<Longrightarrow> sw_ok codec sw'"
proof (induction rule: sw_step.induct)
  case (arrive sw f)
  then show ?case by (auto simp: sw_ok_def prefix_def)
next
  case (hangup sw)
  then show ?case by (simp add: sw_ok_def)
next
  case (stop sw)
  then show ?case by (simp add: sw_Stop_ok)
next
  case (deferred_stop sw)
  have "map (Decode codec) (sw_read sw) = map (Some \<circ> Inr) (sw_taken sw)" "sw_open sw" "prefix (sw_read sw) (sw_arrived sw)"
      "sw_closes sw = (if sw_stopped sw then 1 else 0)"
    using deferred_stop by (simp_all add: sw_ok_def reading_def)
  then show ?case by (simp add: sw_ok_def reading_def sw_Stop_def)
qed (simp_all add: sw_ok_def reading_def prefix_def)

lemma sw_run_ok: "sw_run codec sw ls sw' \<Longrightarrow> sw_ok codec sw \<Longrightarrow> sw_ok codec sw'"
  by (induction rule: sw_run.induct) (auto intro: sw_step_ok)

text \<open>C31: in every interleaving the consumer receives the decoded frames of the connection in their order, without gap or
  repetition, the body is closed at most once and exactly when the watcher is stopped, and the result channel is closed only
  after that.\<close>

theorem stream_in_order:
  assumes "sw_run codec NewStreamWatcher ls sw"
  shows "\<exists>read. prefix read (sw_arrived sw) \<and> map (Decode codec) read = map (Some \<circ> Inr) (sw_taken sw @ in_flight (sw_pc sw)) \<and>
    sw_closes sw = (if sw_stopped sw then 1 else 0) \<and> (\<not> sw_open sw \<longrightarrow> sw_stopped sw \<and> sw_pc sw = Finished)"
proof -
  have ok: "sw_ok codec sw" by (rule sw_run_ok [OF assms NewStreamWatcher_ok])
  then have "prefix (sw_read sw) (sw_arrived sw)" by (auto simp: sw_ok_def split: if_splits)
  with ok show ?thesis by (intro exI [of _ "sw_read sw"]) (auto simp: sw_ok_def)
qed

definition demo_codec :: "string frame_codec" where
  "demo_codec raw = Some (Inr raw)"

definition added :: "string \<Rightarrow> frame" where
  "added raw = WatchEvent ''ADDED'' raw"

lemma Decode_added [simp]: "Decode demo_codec (added raw) = Some (Inr (Added, raw))"
  by (simp add: Decode_def added_def event_type_def demo_codec_def)

text \<open>Two events arrive, one is received and the other decoded, then the watcher is stopped.\<close>

definition demo_labels :: "sw_label list" where
  "demo_labels = [Arrive (added ''a''), Arrive (added ''b''), Run, Take, Run, CallStop]"

definition demo_stopped :: "string StreamWatcher" where
  "demo_stopped = \<lparr>sw_buffered = [], sw_hungup = False, sw_closes = 1, sw_stopped = True, sw_open = True, sw_pc = Sending Added ''b'',
     sw_arrived = [added ''a'', added ''b''], sw_read = [added ''a'', added ''b''], sw_taken = [(Added, ''a'')]\<rparr>"

lemma demo_stopped_run: "sw_run demo_codec NewStreamWatcher demo_labels demo_stopped"
proof -
  let ?s0 = "NewStreamWatcher :: string StreamWatcher"
  let ?s1 = "?s0\<lparr>sw_buffered := [added ''a''], sw_arrived := [added ''a'']\<rparr>"
  let ?s2 = "?s1\<lparr>sw_buffered := [added ''a'', added ''b''], sw_arrived := [added ''a'', added ''b'']\<rparr>"
  let ?s3 = "?s2\<lparr>sw_buffered := [added ''b''], sw_read := [added ''a''], sw_pc := Sending Added ''a''\<rparr>"
  let ?s4 = "?s3\<lparr>sw_taken := [(Added, ''a'')], sw_pc := Decoding\<rparr>"
  let ?s5 = "?s4\<lparr>sw_buffered := [], sw_read := [added ''a'', added ''b''], sw_pc := Sending Added ''b''\<rparr>"
  note N = NewStreamWatcher_def [simp]
  have "sw_step demo_codec ?s0 (Arrive (added ''a'')) ?s1" using arrive [of ?s0 demo_codec "added ''a''"] by simp
  moreover have "sw_step demo_codec ?s1 (Arrive (added ''b'')) ?s2" using arrive [of ?s1 demo_codec "added ''b''"] by simp
  moreover have "sw_step demo_codec ?s2 Run ?s3" using decode_event [of ?s2 "added ''a''" "[added ''b'']" demo_codec Added "''a''"] by simp
  moreover have "sw_step demo_codec ?s3 Take ?s4" using send [of ?s3 Added "''a''" demo_codec] by simp
  moreover have "sw_step demo_codec ?s4 Run ?s5" using decode_event [of ?s4 "added ''b''" "[]" demo_codec Added "''b''"] by simp
  moreover have "sw_step demo_codec ?s5 CallStop demo_stopped" using stop [of demo_codec ?s5] by (simp add: sw_Stop_def demo_stopped_def)
  ultimately show ?thesis unfolding demo_labels_def by (meson run_step run_done)
qed

theorem stream_in_order_witness:
  "\<exists>read. prefix read [added ''a'', added ''b''] \<and> map (Decode demo_codec) read = [Some (Inr (Added, ''a'')), Some (Inr (Added, ''b''))]"
  using stream_in_order [OF demo_stopped_run] by (simp add: demo_stopped_def)

section \<open>Stopping a watcher\<close>

text \<open>How far the goroutine is from its end when no more frames arrive.\<close>

fun pc_rank :: "'o rpc \<Rightarrow> nat" where
  "pc_rank Decoding = 4"
| "pc_rank (Sending _ _) = 5"
| "pc_rank (Failed _) = 3"
| "pc_rank Returning = 2"
| "pc_rank Closing = 1"
| "pc_rank Finished = 0"

definition sw_left :: "'o StreamWatcher \<Rightarrow> nat" where
  "sw_left sw = 2 * length (sw_buffered sw) + pc_rank (sw_pc sw)"

definition moving :: "sw_label \<Rightarrow> bool" where
  "moving l \<longleftrightarrow> l = Run \<or> l = Take"

lemma stopped_step:
  "sw_step codec sw l sw' \<Longrightarrow> sw_closes sw > 0 \<Longrightarrow> sw_closes sw' > 0 \<and> sw_left sw' + (if moving l then 1 else 0) \<le> sw_left sw"
  by (induction rule: sw_step.induct) (simp_all add: sw_left_def moving_def sw_Stop_def)

lemma stopped_run:
  "sw_run codec sw ls sw' \<Longrightarrow> sw_closes sw > 0 \<Longrightarrow> sw_left sw' + length (filter moving ls) \<le> sw_left sw"
proof (induction rule: sw_run.induct)
  case (run_step sw l sw' ls sw'')
  from stopped_step [OF run_step(1,4)] run_step(3) show ?case by (cases "moving l") auto
qed simp

lemma stopped_enabled:
  assumes "sw_closes sw > 0" "sw_pc sw \<noteq> Finished"
  shows "\<exists>l sw'. moving l \<and> sw_step codec sw l sw'"
proof -
  have "\<exists>sw'. sw_step codec sw Run sw' \<or> sw_step codec sw Take sw'"
    using assms by (cases "sw_pc sw") (blast intro: sw_step.intros)+
  then show ?thesis by (auto simp: moving_def)
qed

text \<open>After \<open>Stop\<close> the goroutine ends if the consumer keeps receiving: it and the consumer make at most two steps for each
  buffered event and five more, one of them can always go on until the result channel is closed, and it is closed when
  neither can.\<close>

theorem drained_stop_closes:
  assumes "sw_run codec NewStreamWatcher ls sw" "sw_stopped sw" "sw_run codec sw ls' sw'"
  shows "length (filter moving ls') \<le> 2 * length (sw_buffered sw) + 5 \<and>
    (if \<exists>l sw''. moving l \<and> sw_step codec sw' l sw'' then sw_open sw' else \<not> sw_open sw')"
proof -
  have ok: "sw_ok codec sw" by (rule sw_run_ok [OF assms(1) NewStreamWatcher_ok])
  then have ok': "sw_ok codec sw'" using sw_run_ok [OF assms(3)] by blast
  have c: "sw_closes sw > 0" using ok assms(2) by (simp add: sw_ok_def)
  have "pc_rank pc \<le> 5" for pc :: "'a rpc" by (cases pc) simp_all
  with stopped_run [OF assms(3) c] have b: "length (filter moving ls') \<le> 2 * length (sw_buffered sw) + 5"
    unfolding sw_left_def by (smt (verit) add_leD2 le_trans nat_add_left_cancel_le)
  have c': "sw_closes sw' > 0" using assms(3) c by (induction rule: sw_run.induct) (auto dest: stopped_step)
  have fin: "\<not> sw_step codec sw' l sw''" if "sw_pc sw' = Finished" "moving l" for l sw''
    using that by (auto simp: moving_def elim: sw_step_Run sw_step_Take)
  show ?thesis
  proof (cases "sw_pc sw' = Finished")
    case True
    then show ?thesis using b fin ok' by (auto simp: sw_ok_def)
  next
    case False
    then show ?thesis using b stopped_enabled [OF c' False, of codec] ok' by (simp add: sw_ok_def)
  qed
qed

theorem drained_stop_closes_witness:
  "length (filter moving []) \<le> (5::nat) \<and> (\<exists>l sw. moving l \<and> sw_step demo_codec demo_stopped l sw) \<and> sw_open demo_stopped"
proof -
  have "sw_stopped demo_stopped" "sw_open demo_stopped" "sw_buffered demo_stopped = []" by (simp_all add: demo_stopped_def)
  with drained_stop_closes [OF demo_stopped_run _ run_done] show ?thesis by (auto split: if_splits)
qed

text \<open>A watcher that is stopped while an event is on its way to a consumer that no longer receives is never cleaned up:
  whatever happens, the goroutine stays at its send and the result channel open, although \<open>Stop\<close> is documented to close it. The
  reflector does this when it stops a watch to list again.\<close>

theorem undrained_stop_leaks:
  assumes "sw_run codec NewStreamWatcher ls sw" "sw_pc sw = Sending action obj" "sw_run codec sw ls' sw'" "Take \<notin> set ls'"
  shows "sw_pc sw' = Sending action obj \<and> sw_open sw'"
proof -
  have ok: "sw_ok codec sw" by (rule sw_run_ok [OF assms(1) NewStreamWatcher_ok])
  have "sw_pc sw' = Sending action obj" using assms(3,2,4)
  proof (induction rule: sw_run.induct)
    case (run_step sw l sw' ls sw'')
    then have "l \<noteq> Take" "sw_pc sw = Sending action obj" by auto
    with run_step(1) have "sw_pc sw' = Sending action obj" by (induction rule: sw_step.induct) simp_all
    with run_step show ?case by simp
  qed
  with sw_run_ok [OF assms(3) ok] show ?thesis by (simp add: sw_ok_def)
qed

theorem undrained_stop_leaks_witness:
  "\<exists>sw. sw_run demo_codec demo_stopped [Hangup, CallStop] sw \<and> sw_stopped sw \<and> sw_pc sw = Sending Added ''b'' \<and> sw_open sw"
proof -
  let ?sw = "demo_stopped\<lparr>sw_hungup := True\<rparr>"
  have "sw_step demo_codec demo_stopped Hangup ?sw" by (rule hangup)
  moreover have "sw_step demo_codec ?sw CallStop ?sw" using stop [of demo_codec ?sw] by (simp add: sw_Stop_def demo_stopped_def)
  ultimately have r: "sw_run demo_codec demo_stopped [Hangup, CallStop] ?sw" by (meson run_step run_done)
  have "sw_pc demo_stopped = Sending Added ''b''" by (simp add: demo_stopped_def)
  from undrained_stop_leaks [OF demo_stopped_run this r] r show ?thesis by (auto simp: demo_stopped_def)
qed

end
