(* ===== verification/Wait.thy ===== *)
theory Wait
  imports Prelude
begin

text \<open>
  \<open>pkg/util/wait/wait.go\<close> and \<open>pkg/util/runtime/runtime.go\<close> (vendored): the loops the daemon's goroutines run in, and waiting
  for a condition.

  A function works on a world \<open>'w\<close> and ends with an outcome. What the \<open>select\<close> of a loop sees is a list: whether the stop channel
  was closed each time; the channel of a poller is the number of ticks it delivers before it is closed. Waiting times are recorded
  where the code computes them; random amounts and floating point factors are parameters.
\<close>

section \<open>Loops that survive panics\<close>

text \<open>\<open>HandleCrash\<close>, deferred: it recovers a panic (whose handlers log it) unless \<open>ReallyCrash\<close> is set.\<close>

definition HandleCrash :: "bool \<Rightarrow> 'w \<times> unit outcome \<Rightarrow> 'w \<times> unit outcome" where
  "HandleCrash ReallyCrash r =
     (if ReallyCrash then r else (case snd r of Panic _ \<Rightarrow> (fst r, Ok ()) | _ \<Rightarrow> r))"

text \<open>How a loop stands: waiting for its next period, returned, or ended with the process.\<close>

datatype loop_state = LoopWaiting | LoopReturned | LoopDied "unit outcome"

fun until_loop :: "bool \<Rightarrow> ('w \<Rightarrow> 'w \<times> unit outcome) \<Rightarrow> bool list \<Rightarrow> 'w \<Rightarrow> 'w \<times> loop_state" where
  "until_loop ReallyCrash f stops w =
     (case HandleCrash ReallyCrash (f w) of
        (w', Ok _) \<Rightarrow>
          (case stops of
             [] \<Rightarrow> (w', LoopWaiting)
           | True # _ \<Rightarrow> (w', LoopReturned)
           | False # stops' \<Rightarrow> until_loop ReallyCrash f stops' w')
      | (w', died) \<Rightarrow> (w', LoopDied died))"

declare until_loop.simps [simp del]

text \<open>The first element is what the \<open>select\<close> before the loop sees. The function has no error result: \<open>f\<close> answers with
  \<open>Ok\<close>, a panic or the end of the process.\<close>

definition JitterUntil :: "bool \<Rightarrow> ('w \<Rightarrow> 'w \<times> unit outcome) \<Rightarrow> bool \<Rightarrow> bool list \<Rightarrow> 'w \<Rightarrow> 'w \<times> loop_state" where
  "JitterUntil ReallyCrash f stopped stops w = (if stopped then (w, LoopReturned) else until_loop ReallyCrash f stops w)"

definition Until :: "bool \<Rightarrow> ('w \<Rightarrow> 'w \<times> unit outcome) \<Rightarrow> bool \<Rightarrow> bool list \<Rightarrow> 'w \<Rightarrow> 'w \<times> loop_state" where
  "Until ReallyCrash f stopped stops w = JitterUntil ReallyCrash f stopped stops w"

text \<open>The stop channel of \<open>Forever\<close> is never closed: \<open>n\<close> periods pass.\<close>

definition Forever :: "bool \<Rightarrow> ('w \<Rightarrow> 'w \<times> unit outcome) \<Rightarrow> nat \<Rightarrow> 'w \<Rightarrow> 'w \<times> loop_state" where
  "Forever ReallyCrash f n w = Until ReallyCrash f False (replicate n False) w"

section \<open>Waiting for a condition\<close>

definition ErrWaitTimeout :: gerror where
  "ErrWaitTimeout = Errorf ''timed out waiting for the condition''"

type_synonym 'w ConditionFunc = "'w \<Rightarrow> 'w \<times> (gerror + bool)"

record wait_Backoff =
  wb_Duration :: int
  wb_Factor :: "int \<Rightarrow> int"
  wb_Jitter :: "(nat \<Rightarrow> int \<Rightarrow> int) option"
  wb_Steps :: int

text \<open>\<open>wb_Factor\<close> multiplies a duration with the factor, \<open>wb_Jitter\<close> (present if the jitter is positive) is the random duration
  that is slept in step \<open>i\<close>. The loop returns the world, the error and the durations it slept.\<close>

function backoff_loop :: "wait_Backoff \<Rightarrow> 'w ConditionFunc \<Rightarrow> nat \<Rightarrow> int \<Rightarrow> int list \<Rightarrow> 'w \<Rightarrow> 'w \<times> gerror option \<times> int list" where
  "backoff_loop backoff condition i duration slept w =
     (if int i < wb_Steps backoff then
        (let adjusted = (case wb_Jitter backoff of Some j \<Rightarrow> j i duration | None \<Rightarrow> duration);
             slept' = (if i \<noteq> 0 then slept @ [adjusted] else slept);
             duration' = (if i \<noteq> 0 then wb_Factor backoff duration else duration) in
         case condition w of
           (w', Inl err) \<Rightarrow> (w', Some err, slept')
         | (w', Inr True) \<Rightarrow> (w', None, slept')
         | (w', Inr False) \<Rightarrow> backoff_loop backoff condition (Suc i) duration' slept' w')
      else (w, Some ErrWaitTimeout, slept))"
  by pat_completeness auto

termination
  by (relation "measure (\<lambda>(backoff, _, i, _). nat (wb_Steps backoff - int i))") auto

declare backoff_loop.simps [simp del]

definition ExponentialBackoff :: "wait_Backoff \<Rightarrow> 'w ConditionFunc \<Rightarrow> 'w \<Rightarrow> 'w \<times> gerror option \<times> int list" where
  "ExponentialBackoff backoff condition w = backoff_loop backoff condition 0 (wb_Duration backoff) [] w"

text \<open>The channel of a \<open>WaitFunc\<close>: the ticks that are received before it is closed.\<close>

fun WaitFor :: "nat \<Rightarrow> 'w ConditionFunc \<Rightarrow> 'w \<Rightarrow> 'w \<times> gerror option" where
  "WaitFor ticks fn w =
     (case fn w of
        (w', Inl err) \<Rightarrow> (w', Some err)
      | (w', Inr True) \<Rightarrow> (w', None)
      | (w', Inr False) \<Rightarrow> (case ticks of 0 \<Rightarrow> (w', Some ErrWaitTimeout) | Suc n \<Rightarrow> WaitFor n fn w'))"

declare WaitFor.simps [simp del]

definition pollInternal :: "nat \<Rightarrow> 'w ConditionFunc \<Rightarrow> 'w \<Rightarrow> 'w \<times> gerror option" where
  "pollInternal ticks condition w = WaitFor ticks condition w"

definition pollImmediateInternal :: "nat \<Rightarrow> 'w ConditionFunc \<Rightarrow> 'w \<Rightarrow> 'w \<times> gerror option" where
  "pollImmediateInternal ticks condition w =
     (case condition w of
        (w', Inl err) \<Rightarrow> (w', Some err)
      | (w', Inr True) \<Rightarrow> (w', None)
      | (w', Inr False) \<Rightarrow> pollInternal ticks condition w')"

section \<open>What the loops do\<close>

text \<open>A function that only returns or panics.\<close>

definition lives :: "('w \<Rightarrow> 'w \<times> unit outcome) \<Rightarrow> bool" where
  "lives f \<longleftrightarrow> (\<forall>w. case snd (f w) of Ok _ \<Rightarrow> True | Panic _ \<Rightarrow> True | _ \<Rightarrow> False)"

lemma HandleCrash_lives: "lives f \<Longrightarrow> HandleCrash False (f w) = (fst (f w), Ok ())"
proof -
  assume "lives f"
  then have "case snd (f w) of Ok _ \<Rightarrow> True | Panic _ \<Rightarrow> True | _ \<Rightarrow> False" by (simp add: lives_def)
  then show ?thesis by (cases "f w") (auto simp: HandleCrash_def split: outcome.splits)
qed

lemma until_loop_step:
  assumes "lives f"
  shows "until_loop False f stops w =
    (case stops of [] \<Rightarrow> (fst (f w), LoopWaiting) | True # _ \<Rightarrow> (fst (f w), LoopReturned) | False # stops' \<Rightarrow> until_loop False f stops' (fst (f w)))"
  by (subst until_loop.simps) (simp add: HandleCrash_lives [OF assms])

lemma until_loop_runs:
  assumes "lives f"
  shows "until_loop False f (replicate n False) w = (((\<lambda>w. fst (f w)) ^^ Suc n) w, LoopWaiting) \<and>
    until_loop False f (replicate n False @ True # rest) w = (((\<lambda>w. fst (f w)) ^^ Suc n) w, LoopReturned)"
proof (induction n arbitrary: w)
  case 0
  show ?case by (simp add: until_loop_step [OF assms])
next
  case (Suc n)
  have "((\<lambda>w. fst (f w)) ^^ Suc (Suc n)) w = ((\<lambda>w. fst (f w)) ^^ Suc n) (fst (f w))" by (simp only: funpow_Suc_right o_apply)
  with Suc [of "fst (f w)"] show ?case
    by (simp add: until_loop_step [OF assms, of "False # _"] del: funpow.simps)
qed

text \<open>A goroutine in \<open>wait.Until\<close> outlives the panics of its function: it runs once at the start and once in every period, whether
  or not the runs panic, until the stop channel is closed; with the channel closed from the start it never runs. (With
  \<open>ReallyCrash\<close> the first panic ends the process.)\<close>

theorem until_survives_panics:
  assumes "lives f"
  shows "Forever False f n w = (((\<lambda>w. fst (f w)) ^^ Suc n) w, LoopWaiting) \<and>
    Until False f False (replicate n False @ True # rest) w = (((\<lambda>w. fst (f w)) ^^ Suc n) w, LoopReturned) \<and>
    Until False f True stops w = (w, LoopReturned) \<and>
    (snd (f w) = Panic e \<longrightarrow> Until True f False stops w = (fst (f w), LoopDied (Panic e)))"
proof -
  have "until_loop True f stops w = (fst (f w), LoopDied (Panic e))" if "snd (f w) = Panic e"
    using that by (cases "f w") (simp add: until_loop.simps [of True f stops w] HandleCrash_def)
  then show ?thesis by (simp add: Forever_def Until_def JitterUntil_def until_loop_runs [OF assms])
qed

definition counting :: "nat \<Rightarrow> nat \<times> unit outcome" where
  "counting n = (Suc n, if even n then Panic ''even'' else Ok ())"

theorem until_survives_panics_witness: "Forever False counting 2 0 = (3, LoopWaiting)"
proof -
  have "lives counting" by (simp add: lives_def counting_def)
  from until_survives_panics [OF this, of 2 0] show ?thesis by (simp add: counting_def numeral_2_eq_2)
qed

text \<open>The checks of a condition: the first that succeeds or fails within the given number.\<close>

fun first_answer :: "'w ConditionFunc \<Rightarrow> nat \<Rightarrow> 'w \<Rightarrow> ('w \<times> gerror option) option" where
  "first_answer fn 0 w = None"
| "first_answer fn (Suc n) w =
     (case fn w of
        (w', Inl err) \<Rightarrow> Some (w', Some err)
      | (w', Inr True) \<Rightarrow> Some (w', None)
      | (w', Inr False) \<Rightarrow> first_answer fn n w')"

definition after_checks :: "'w ConditionFunc \<Rightarrow> nat \<Rightarrow> 'w \<Rightarrow> 'w" where
  "after_checks fn n w = ((\<lambda>w. fst (fn w)) ^^ n) w"

lemma after_checks_Suc: "after_checks fn (Suc n) w = after_checks fn n (fst (fn w))"
  by (simp only: after_checks_def funpow_Suc_right o_apply)

text \<open>One check: an answer ends the wait, otherwise the rest goes on from the new world.\<close>

definition checked :: "'w ConditionFunc \<Rightarrow> nat \<Rightarrow> 'w \<Rightarrow> 'w \<times> gerror option" where
  "checked fn n w = (case first_answer fn n w of Some r \<Rightarrow> r | None \<Rightarrow> (after_checks fn n w, Some ErrWaitTimeout))"

lemma checked_Suc:
  "checked fn (Suc n) w =
     (case fn w of (w', Inl err) \<Rightarrow> (w', Some err) | (w', Inr True) \<Rightarrow> (w', None) | (w', Inr False) \<Rightarrow> checked fn n w')"
  by (cases "fn w") (auto simp: checked_def after_checks_Suc split: sum.splits bool.splits option.splits)

lemma checked_0: "checked fn 0 w = (w, Some ErrWaitTimeout)"
  by (simp add: checked_def after_checks_def)

lemma WaitFor_checks: "WaitFor ticks fn w = checked fn (Suc ticks) w"
proof (induction ticks arbitrary: w)
  case 0
  then show ?case by (simp add: WaitFor.simps [of 0] checked_Suc checked_0 split: prod.splits sum.splits bool.splits)
next
  case (Suc ticks)
  then show ?case unfolding WaitFor.simps [of "Suc ticks"] checked_Suc [of fn "Suc ticks"] by simp
qed

lemma backoff_checks:
  assumes "int i + int n = wb_Steps backoff"
  shows "(case backoff_loop backoff fn i d slept w of (w', err, _) \<Rightarrow> (w', err)) = checked fn n w"
  using assms
proof (induction n arbitrary: i d slept w)
  case 0
  then show ?case by (simp add: backoff_loop.simps [of backoff fn i] checked_0)
next
  case (Suc n)
  then have i: "int i < wb_Steps backoff" "int (Suc i) + int n = wb_Steps backoff" by simp_all
  obtain w' r where w': "fn w = (w', r)" by (cases "fn w")
  show ?case using i(1) Suc.IH [OF i(2)] w'
    by (cases r) (auto simp: backoff_loop.simps [of backoff fn i] checked_Suc Let_def split: bool.splits)
qed

text \<open>Polling, polling at once and backing off differ only in how often they check the condition.\<close>

lemma pollImmediate_checks: "pollImmediateInternal ticks fn w = checked fn (Suc (Suc ticks)) w"
proof -
  have "pollInternal ticks fn = checked fn (Suc ticks)" by (simp add: fun_eq_iff pollInternal_def WaitFor_checks)
  then show ?thesis unfolding pollImmediateInternal_def checked_Suc [of fn "Suc ticks"] by simp
qed

lemma ExponentialBackoff_checks:
  "wb_Steps backoff = int n \<Longrightarrow> (case ExponentialBackoff backoff fn w of (w', err, _) \<Rightarrow> (w', err)) = checked fn n w"
  using backoff_checks [of 0 n backoff fn "wb_Duration backoff" "[]" w] by (simp add: ExponentialBackoff_def)

end
