(* ===== verification/Pflag.thy ===== *)
theory Pflag
  imports Selector
begin

text \<open>
  \<open>github.com/spf13/pflag\<close> (\<open>flag.go\<close>, \<open>golangflag.go\<close>) and \<open>pkg/util/flags.go\<close> (vendored): the command line parser
  of the daemon.

  Flags are shared by pointer between the maps of a flag set, so the set keeps its flags in a list and the maps
  hold positions in it. A flag's \<open>Value\<close> is its \<open>Set\<close> method: it reads a text and writes the variables
  \<open>'s\<close> that the flags of the set are bound to, which it does even when it reports an error. Texts printed to the
  terminal (usage, deprecation notes) have no part in the state. The normalize function takes no account of the
  flag set it is given.
\<close>

section \<open>Flags and flag sets\<close>

datatype ErrorHandling = ContinueOnError | ExitOnError | PanicOnError

record 's Flag =
  fl_Name :: string
  fl_Shorthand :: string
  fl_Usage :: string
  fl_Set :: "string \<Rightarrow> 's \<Rightarrow> 's \<times> gerror option"
  fl_Changed :: bool
  fl_NoOptDefVal :: string
  fl_Deprecated :: string
  fl_Hidden :: bool
  fl_ShorthandDeprecated :: string

record 's FlagSet =
  fs_vars :: 's
  fs_flags :: "'s Flag list"
  fs_parsed :: bool
  fs_actual :: "(string, nat) gomap"
  fs_formal :: "(string, nat) gomap"
  fs_shorthands :: "(char, nat) gomap"
  fs_args :: "string list"
  fs_argsLenAtDash :: int
  fs_errorHandling :: ErrorHandling
  fs_interspersed :: bool
  fs_normalizeNameFunc :: "(string \<Rightarrow> string) option"

definition NewFlagSet :: "'s \<Rightarrow> ErrorHandling \<Rightarrow> 's FlagSet" where
  "NewFlagSet vars errorHandling =
     \<lparr>fs_vars = vars, fs_flags = [], fs_parsed = False, fs_actual = [], fs_formal = [], fs_shorthands = [], fs_args = [],
      fs_argsLenAtDash = -1, fs_errorHandling = errorHandling, fs_interspersed = True, fs_normalizeNameFunc = None\<rparr>"

definition SetInterspersed :: "bool \<Rightarrow> 's FlagSet \<Rightarrow> 's FlagSet" where
  "SetInterspersed interspersed f = f\<lparr>fs_interspersed := interspersed\<rparr>"

definition FlagSet_Init :: "ErrorHandling \<Rightarrow> 's FlagSet \<Rightarrow> 's FlagSet" where
  "FlagSet_Init errorHandling f = f\<lparr>fs_errorHandling := errorHandling, fs_argsLenAtDash := -1\<rparr>"

definition GetNormalizeFunc :: "'s FlagSet \<Rightarrow> string \<Rightarrow> string" where
  "GetNormalizeFunc f = (case fs_normalizeNameFunc f of Some n \<Rightarrow> n | None \<Rightarrow> (\<lambda>name. name))"

definition normalizeFlagName :: "'s FlagSet \<Rightarrow> string \<Rightarrow> string" where
  "normalizeFlagName f name = GetNormalizeFunc f name"

text \<open>The loop of \<open>SetNormalizeFunc\<close> over the entries the map has at its start. (A name that is visited again after its
  normalization stays what it is, as long as normalizing twice changes nothing more.)\<close>

fun renormalize :: "(string \<times> nat) list \<Rightarrow> 's FlagSet \<Rightarrow> 's FlagSet" where
  "renormalize [] f = f"
| "renormalize ((k, v) # rest) f =
     (let nname = normalizeFlagName f k in
      renormalize rest (f\<lparr>fs_formal := gm_set nname v (gm_del k (fs_formal f)),
                          fs_flags := (fs_flags f)[v := (fs_flags f ! v)\<lparr>fl_Name := nname\<rparr>]\<rparr>))"

definition SetNormalizeFunc :: "(string \<Rightarrow> string) \<Rightarrow> 's FlagSet \<Rightarrow> 's FlagSet" where
  "SetNormalizeFunc n f = renormalize (fs_formal f) (f\<lparr>fs_normalizeNameFunc := Some n\<rparr>)"

definition Lookup :: "'s FlagSet \<Rightarrow> string \<Rightarrow> nat option" where
  "Lookup f name = gm_get (fs_formal f) (normalizeFlagName f name)"

definition HasFlags :: "'s FlagSet \<Rightarrow> bool" where
  "HasFlags f \<longleftrightarrow> fs_formal f \<noteq> []"

definition HasAvailableFlags :: "'s FlagSet \<Rightarrow> bool" where
  "HasAvailableFlags f \<longleftrightarrow> list_ex (\<lambda>(_, p). \<not> fl_Hidden (fs_flags f ! p) \<and> fl_Deprecated (fs_flags f ! p) = []) (fs_formal f)"

definition FlagSet_Changed :: "'s FlagSet \<Rightarrow> string \<Rightarrow> bool" where
  "FlagSet_Changed f name = (case Lookup f name of None \<Rightarrow> False | Some p \<Rightarrow> fl_Changed (fs_flags f ! p))"

definition MarkDeprecated :: "string \<Rightarrow> string \<Rightarrow> 's FlagSet \<Rightarrow> 's FlagSet \<times> gerror option" where
  "MarkDeprecated name usageMessage f =
     (case Lookup f name of
        None \<Rightarrow> (f, Some (Errorf ''flag does not exist''))
      | Some p \<Rightarrow>
          if usageMessage = [] then (f, Some (Errorf ''deprecated message for flag must be set''))
          else (f\<lparr>fs_flags := (fs_flags f)[p := (fs_flags f ! p)\<lparr>fl_Deprecated := usageMessage\<rparr>]\<rparr>, None))"

definition MarkShorthandDeprecated :: "string \<Rightarrow> string \<Rightarrow> 's FlagSet \<Rightarrow> 's FlagSet \<times> gerror option" where
  "MarkShorthandDeprecated name usageMessage f =
     (case Lookup f name of
        None \<Rightarrow> (f, Some (Errorf ''flag does not exist''))
      | Some p \<Rightarrow>
          if usageMessage = [] then (f, Some (Errorf ''deprecated message for flag must be set''))
          else (f\<lparr>fs_flags := (fs_flags f)[p := (fs_flags f ! p)\<lparr>fl_ShorthandDeprecated := usageMessage\<rparr>]\<rparr>, None))"

definition MarkHidden :: "string \<Rightarrow> 's FlagSet \<Rightarrow> 's FlagSet \<times> gerror option" where
  "MarkHidden name f =
     (case Lookup f name of
        None \<Rightarrow> (f, Some (Errorf ''flag does not exist''))
      | Some p \<Rightarrow> (f\<lparr>fs_flags := (fs_flags f)[p := (fs_flags f ! p)\<lparr>fl_Hidden := True\<rparr>]\<rparr>, None))"

definition NFlag :: "'s FlagSet \<Rightarrow> nat" where
  "NFlag f = length (fs_actual f)"

definition Arg :: "'s FlagSet \<Rightarrow> int \<Rightarrow> string" where
  "Arg f i = (if i < 0 \<or> i \<ge> int (length (fs_args f)) then [] else fs_args f ! nat i)"

definition NArg :: "'s FlagSet \<Rightarrow> nat" where
  "NArg f = length (fs_args f)"

section \<open>Defining flags\<close>

definition AddFlag :: "'s Flag \<Rightarrow> 's FlagSet \<Rightarrow> 's FlagSet outcome" where
  "AddFlag flag f =
     (let normalizedFlagName = normalizeFlagName f (fl_Name flag) in
      if gm_get (fs_formal f) normalizedFlagName \<noteq> None then Panic ''flag redefined''
      else
        (let p = length (fs_flags f);
             f1 = f\<lparr>fs_flags := fs_flags f @ [flag\<lparr>fl_Name := normalizedFlagName\<rparr>],
                    fs_formal := gm_set normalizedFlagName p (fs_formal f)\<rparr> in
         case fl_Shorthand flag of
           [] \<Rightarrow> Ok f1
         | [c] \<Rightarrow>
             if gm_get (fs_shorthands f1) c \<noteq> None then Panic ''shorthand redefinition''
             else Ok (f1\<lparr>fs_shorthands := gm_set c p (fs_shorthands f1)\<rparr>)
         | _ \<Rightarrow> Panic ''shorthand is more than one character''))"

definition VarPF :: "(string \<Rightarrow> 's \<Rightarrow> 's \<times> gerror option) \<Rightarrow> string \<Rightarrow> string \<Rightarrow> string \<Rightarrow> string \<Rightarrow> 's FlagSet \<Rightarrow> 's FlagSet outcome" where
  "VarPF setter name shorthand usage noOptDefVal f =
     AddFlag \<lparr>fl_Name = name, fl_Shorthand = shorthand, fl_Usage = usage, fl_Set = setter, fl_Changed = False,
              fl_NoOptDefVal = noOptDefVal, fl_Deprecated = [], fl_Hidden = False, fl_ShorthandDeprecated = []\<rparr> f"

text \<open>Flags of Go's own \<open>flag\<close> package: a name, usage, \<open>Set\<close>, and whether it is a boolean flag.\<close>

record 's goflag =
  gf_Name :: string
  gf_Usage :: string
  gf_Set :: "string \<Rightarrow> 's \<Rightarrow> 's \<times> gerror option"
  gf_IsBoolFlag :: bool

definition PFlagFromGoFlag :: "'s goflag \<Rightarrow> 's Flag" where
  "PFlagFromGoFlag g =
     \<lparr>fl_Name = gf_Name g, fl_Shorthand = (if length (gf_Name g) = 1 then gf_Name g else []), fl_Usage = gf_Usage g,
      fl_Set = gf_Set g, fl_Changed = False, fl_NoOptDefVal = (if gf_IsBoolFlag g then ''true'' else []),
      fl_Deprecated = [], fl_Hidden = False, fl_ShorthandDeprecated = []\<rparr>"

definition AddGoFlag :: "'s goflag \<Rightarrow> 's FlagSet \<Rightarrow> 's FlagSet outcome" where
  "AddGoFlag g f = (if Lookup f (gf_Name g) \<noteq> None then Ok f else AddFlag (PFlagFromGoFlag g) f)"

fun AddGoFlagSet :: "'s goflag list \<Rightarrow> 's FlagSet \<Rightarrow> 's FlagSet outcome" where
  "AddGoFlagSet [] f = Ok f"
| "AddGoFlagSet (g # newSet) f = (case AddGoFlag g f of Ok f' \<Rightarrow> AddGoFlagSet newSet f' | failed \<Rightarrow> failed)"

section \<open>Setting flags\<close>

definition set_value :: "nat \<Rightarrow> string \<Rightarrow> 's FlagSet \<Rightarrow> 's FlagSet \<times> gerror option" where
  "set_value p v f = (case fl_Set (fs_flags f ! p) v (fs_vars f) of (vars, err) \<Rightarrow> (f\<lparr>fs_vars := vars\<rparr>, err))"

definition mark_set :: "string \<Rightarrow> nat \<Rightarrow> 's FlagSet \<Rightarrow> 's FlagSet" where
  "mark_set name p f =
     f\<lparr>fs_actual := gm_set name p (fs_actual f), fs_flags := (fs_flags f)[p := (fs_flags f ! p)\<lparr>fl_Changed := True\<rparr>]\<rparr>"

definition FlagSet_Set :: "string \<Rightarrow> string \<Rightarrow> 's FlagSet \<Rightarrow> 's FlagSet \<times> gerror option" where
  "FlagSet_Set name v f =
     (let normalName = normalizeFlagName f name in
      case gm_get (fs_formal f) normalName of
        None \<Rightarrow> (f, Some (Errorf ''no such flag''))
      | Some p \<Rightarrow>
          (case set_value p v f of
             (f1, Some err) \<Rightarrow> (f1, Some err)
           | (f1, None) \<Rightarrow> (mark_set normalName p f1, None)))"

definition setFlag :: "nat \<Rightarrow> string \<Rightarrow> 's FlagSet \<Rightarrow> 's FlagSet \<times> gerror option" where
  "setFlag p v f =
     (case set_value p v f of
        (f1, Some err) \<Rightarrow> (f1, Some (Errorf ''invalid argument''))
      | (f1, None) \<Rightarrow> (mark_set (normalizeFlagName f1 (fl_Name (fs_flags f1 ! p))) p f1, None))"

section \<open>Parsing\<close>

definition ErrHelp :: gerror where
  "ErrHelp = Errorf ''pflag: help requested''"

text \<open>\<open>strings.SplitN(name, "=", 2)\<close>: the text before the first equals sign, and the rest if there is one.\<close>

fun split_eq :: "string \<Rightarrow> string \<times> string option" where
  "split_eq [] = ([], None)"
| "split_eq (c # cs) = (if c = CHR ''='' then ([], Some cs) else (case split_eq cs of (a, b) \<Rightarrow> (c # a, b)))"

definition parseLongArg :: "string \<Rightarrow> string list \<Rightarrow> 's FlagSet \<Rightarrow> string list \<times> gerror option \<times> 's FlagSet" where
  "parseLongArg s args f =
     (let name0 = drop 2 s in
      if name0 = [] \<or> hd name0 = CHR ''-'' \<or> hd name0 = CHR ''='' then (args, Some (Errorf ''bad flag syntax''), f)
      else
        (let (name, val) = split_eq name0 in
         case gm_get (fs_formal f) (normalizeFlagName f name) of
           None \<Rightarrow> (args, Some (if name = ''help'' then ErrHelp else Errorf ''unknown flag''), f)
         | Some p \<Rightarrow>
             (case val of
                Some v \<Rightarrow> (case setFlag p v f of (f1, err) \<Rightarrow> (args, err, f1))
              | None \<Rightarrow>
                  if fl_NoOptDefVal (fs_flags f ! p) \<noteq> []
                  then (case setFlag p (fl_NoOptDefVal (fs_flags f ! p)) f of (f1, err) \<Rightarrow> (args, err, f1))
                  else
                    (case args of
                       v # rest \<Rightarrow> (case setFlag p v f of (f1, err) \<Rightarrow> (rest, err, f1))
                     | [] \<Rightarrow> (args, Some (Errorf ''flag needs an argument''), f)))))"

text \<open>\<open>parseSingleShortArg\<close> is only called with a text that is not empty. An argument that starts with \<open>test.\<close> is
  skipped by returning the zero values of all results.\<close>

definition parseSingleShortArg ::
  "string \<Rightarrow> string list \<Rightarrow> 's FlagSet \<Rightarrow> string \<times> string list \<times> gerror option \<times> 's FlagSet" where
  "parseSingleShortArg shorthands args f =
     (if prefix ''test.'' shorthands then ([], [], None, f)
      else
        (let c = hd shorthands; outShorts = tl shorthands in
         case gm_get (fs_shorthands f) c of
           None \<Rightarrow> (outShorts, args, Some (if c = CHR ''h'' then ErrHelp else Errorf ''unknown shorthand flag''), f)
         | Some p \<Rightarrow>
             if length shorthands > 2 \<and> shorthands ! 1 = CHR ''=''
             then (case setFlag p (drop 2 shorthands) f of (f1, err) \<Rightarrow> ([], args, err, f1))
             else if fl_NoOptDefVal (fs_flags f ! p) \<noteq> []
             then (case setFlag p (fl_NoOptDefVal (fs_flags f ! p)) f of (f1, err) \<Rightarrow> (outShorts, args, err, f1))
             else if length shorthands > 1
             then (case setFlag p (tl shorthands) f of (f1, err) \<Rightarrow> ([], args, err, f1))
             else
               (case args of
                  v # rest \<Rightarrow> (case setFlag p v f of (f1, err) \<Rightarrow> (outShorts, rest, err, f1))
                | [] \<Rightarrow> (outShorts, args, Some (Errorf ''flag needs an argument''), f))))"

lemma parseSingleShortArg_shorter:
  "shorthands \<noteq> [] \<Longrightarrow> parseSingleShortArg shorthands args f = (outShorts, a, err, f1) \<Longrightarrow> length outShorts < length shorthands"
  by (cases shorthands) (auto simp: parseSingleShortArg_def Let_def split: if_splits option.splits prod.splits list.splits)

lemma parseSingleShortArg_args: "parseSingleShortArg shorthands args f = (outShorts, a, err, f1) \<Longrightarrow> length a \<le> length args"
  by (auto simp: parseSingleShortArg_def Let_def split: if_splits option.splits prod.splits list.splits)

text \<open>The loop of \<open>parseShortArg\<close> hands the arguments it was called with to every step.\<close>

function short_loop :: "string \<Rightarrow> string list \<Rightarrow> string list \<Rightarrow> 's FlagSet \<Rightarrow> string list \<times> gerror option \<times> 's FlagSet" where
  "short_loop shorthands a args f =
     (if shorthands = [] then (a, None, f)
      else
        (case parseSingleShortArg shorthands args f of
           (shorthands', a', Some err, f1) \<Rightarrow> (a', Some err, f1)
         | (shorthands', a', None, f1) \<Rightarrow> short_loop shorthands' a' args f1))"
  by pat_completeness auto

termination
  by (relation "measure (\<lambda>(shorthands, _, _, _). length shorthands)") (auto dest: parseSingleShortArg_shorter [OF _ sym])

declare short_loop.simps [simp del]

definition parseShortArg :: "string \<Rightarrow> string list \<Rightarrow> 's FlagSet \<Rightarrow> string list \<times> gerror option \<times> 's FlagSet" where
  "parseShortArg s args f = short_loop (tl s) args args f"

lemma parseLongArg_args: "parseLongArg s args f = (a, err, f1) \<Longrightarrow> length a \<le> length args"
  by (auto simp: parseLongArg_def Let_def split: if_splits option.splits prod.splits list.splits)

lemma short_loop_args: "length a \<le> length args \<Longrightarrow> short_loop shorthands a args f = (b, err, f1) \<Longrightarrow> length b \<le> length args"
proof (induction shorthands a args f rule: short_loop.induct)
  case (1 shorthands a args f)
  obtain s' a' e f' where p: "parseSingleShortArg shorthands args f = (s', a', e, f')" by (cases "parseSingleShortArg shorthands args f") auto
  from 1 p parseSingleShortArg_args [OF p] show ?case
    by (subst (asm) short_loop.simps) (auto split: if_splits option.splits)
qed

lemma parseShortArg_args: "parseShortArg s args f = (a, err, f1) \<Longrightarrow> length a \<le> length args"
  using short_loop_args [of args args] by (auto simp: parseShortArg_def)

function parseArgs :: "string list \<Rightarrow> 's FlagSet \<Rightarrow> gerror option \<times> 's FlagSet" where
  "parseArgs [] f = (None, f)"
| "parseArgs (s # args) f =
     (if s = [] \<or> hd s \<noteq> CHR ''-'' \<or> length s = 1 then
        (if \<not> fs_interspersed f then (None, f\<lparr>fs_args := fs_args f @ [s] @ args\<rparr>)
         else parseArgs args (f\<lparr>fs_args := fs_args f @ [s]\<rparr>))
      else if s ! 1 = CHR ''-'' then
        (if length s = 2 then (None, f\<lparr>fs_argsLenAtDash := int (length (fs_args f)), fs_args := fs_args f @ args\<rparr>)
         else
           (case parseLongArg s args f of
              (args', Some err, f1) \<Rightarrow> (Some err, f1)
            | (args', None, f1) \<Rightarrow> parseArgs args' f1))
      else
        (case parseShortArg s args f of
           (args', Some err, f1) \<Rightarrow> (Some err, f1)
         | (args', None, f1) \<Rightarrow> parseArgs args' f1))"
  by pat_completeness auto

termination
  by (relation "measure (\<lambda>(args, _). length args)")
    (auto dest: parseLongArg_args [OF sym] parseShortArg_args [OF sym] simp: less_Suc_eq_le)

declare parseArgs.simps(2) [simp del]

definition Parse :: "string list \<Rightarrow> 's FlagSet \<Rightarrow> 's FlagSet outcome" where
  "Parse arguments f =
     (case parseArgs arguments (f\<lparr>fs_parsed := True, fs_args := []\<rparr>) of
        (None, f1) \<Rightarrow> Ok f1
      | (Some err, f1) \<Rightarrow>
          (case fs_errorHandling f1 of
             ContinueOnError \<Rightarrow> Fail err
           | ExitOnError \<Rightarrow> Exit ''2''
           | PanicOnError \<Rightarrow> Panic ''Parse''))"

section \<open>Word separators\<close>

definition WordSepNormalizeFunc :: "string \<Rightarrow> string" where
  "WordSepNormalizeFunc name =
     (if CHR ''_'' \<in> set name then map (\<lambda>c. if c = CHR ''_'' then CHR ''-'' else c) name else name)"

text \<open>The last statement of \<open>InitFlags\<close>, \<open>goflag.CommandLine.Parse([]string{})\<close>, parses an empty list of arguments: it sets no variable
  and only marks that set as parsed, which is not part of the model.\<close>

definition InitFlags :: "'s goflag list \<Rightarrow> string list \<Rightarrow> 's FlagSet \<Rightarrow> 's FlagSet outcome" where
  "InitFlags goflags arguments commandLine =
     (case AddGoFlagSet goflags (SetNormalizeFunc WordSepNormalizeFunc commandLine) of
        Ok f \<Rightarrow> Parse arguments f
      | failed \<Rightarrow> failed)"

section \<open>The variables that a name sets\<close>

text \<open>The \<open>Set\<close> method behind a flag name, which parsing never changes.\<close>

definition setter_of :: "'s FlagSet \<Rightarrow> string \<Rightarrow> (string \<Rightarrow> 's \<Rightarrow> 's \<times> gerror option) option" where
  "setter_of f name = map_option (\<lambda>p. fl_Set (fs_flags f ! p)) (Lookup f name)"

definition same_flags :: "'s FlagSet \<Rightarrow> 's FlagSet \<Rightarrow> bool" where
  "same_flags f f' \<longleftrightarrow> fs_formal f' = fs_formal f \<and> fs_shorthands f' = fs_shorthands f \<and>
     fs_normalizeNameFunc f' = fs_normalizeNameFunc f \<and> fs_errorHandling f' = fs_errorHandling f \<and> fs_interspersed f' = fs_interspersed f \<and>
     map fl_Set (fs_flags f') = map fl_Set (fs_flags f) \<and> map fl_NoOptDefVal (fs_flags f') = map fl_NoOptDefVal (fs_flags f)"

lemma same_flags_refl [simp]: "same_flags f f"
  by (simp add: same_flags_def)

lemma same_flags_trans: "same_flags f f' \<Longrightarrow> same_flags f' f'' \<Longrightarrow> same_flags f f''"
  by (simp add: same_flags_def)

text \<open>Every pointer of the set points to one of its flags.\<close>

definition pointers_ok :: "'s FlagSet \<Rightarrow> bool" where
  "pointers_ok f \<longleftrightarrow> (\<forall>p \<in> snd ` set (fs_formal f) \<union> snd ` set (fs_shorthands f). p < length (fs_flags f))"

lemma Lookup_pointer: "pointers_ok f \<Longrightarrow> Lookup f name = Some p \<Longrightarrow> p < length (fs_flags f)"
  by (force simp: pointers_ok_def Lookup_def gm_get_def dest: map_of_SomeD)

lemma same_flags_length: "same_flags f f' \<Longrightarrow> length (fs_flags f') = length (fs_flags f)"
  by (metis length_map same_flags_def)

lemma same_flags_pointers: "same_flags f f' \<Longrightarrow> pointers_ok f \<Longrightarrow> pointers_ok f'"
  using same_flags_length [of f f'] by (simp add: pointers_ok_def same_flags_def)

lemma same_flags_Lookup: "same_flags f f' \<Longrightarrow> Lookup f' name = Lookup f name"
  by (simp add: same_flags_def Lookup_def normalizeFlagName_def GetNormalizeFunc_def)

lemma same_flags_nth: "same_flags f f' \<Longrightarrow> p < length (fs_flags f) \<Longrightarrow> fl_Set (fs_flags f' ! p) = fl_Set (fs_flags f ! p)"
proof -
  assume sf: "same_flags f f'" and p: "p < length (fs_flags f)"
  then have "map fl_Set (fs_flags f') ! p = map fl_Set (fs_flags f) ! p" by (simp add: same_flags_def)
  with p same_flags_length [OF sf] show ?thesis by simp
qed

lemma setter_of_same: "same_flags f f' \<Longrightarrow> pointers_ok f \<Longrightarrow> setter_of f' name = setter_of f name"
  by (cases "Lookup f name") (auto simp: setter_of_def same_flags_Lookup same_flags_nth dest: Lookup_pointer)

lemma mark_set_same: "same_flags f (mark_set name p f)"
proof -
  have "map fl_Set ((fs_flags f)[p := (fs_flags f ! p)\<lparr>fl_Changed := True\<rparr>]) = map fl_Set (fs_flags f)"
      "map fl_NoOptDefVal ((fs_flags f)[p := (fs_flags f ! p)\<lparr>fl_Changed := True\<rparr>]) = map fl_NoOptDefVal (fs_flags f)"
    by (intro nth_equalityI; cases "p < length (fs_flags f)"; simp add: nth_list_update)+
  then show ?thesis by (simp add: same_flags_def mark_set_def)
qed

lemma setFlag_cases:
  assumes "fl_Set (fs_flags f ! p) v (fs_vars f) = (s, e)"
  shows "e = None \<Longrightarrow> \<exists>f1. setFlag p v f = (f1, None) \<and> same_flags f f1 \<and> fs_vars f1 = s \<and> fs_args f1 = fs_args f"
    and "e \<noteq> None \<Longrightarrow> \<exists>f1. setFlag p v f = (f1, Some (Errorf ''invalid argument'')) \<and> same_flags f f1"
proof -
  have sv: "set_value p v f = (f\<lparr>fs_vars := s\<rparr>, e)" using assms by (simp add: set_value_def)
  have sf: "same_flags f (f\<lparr>fs_vars := s\<rparr>)" by (simp add: same_flags_def)
  {
    assume "e = None"
    then show "\<exists>f1. setFlag p v f = (f1, None) \<and> same_flags f f1 \<and> fs_vars f1 = s \<and> fs_args f1 = fs_args f"
      using sv same_flags_trans [OF sf mark_set_same] by (simp add: setFlag_def mark_set_def)
  next
    assume "e \<noteq> None"
    then show "\<exists>f1. setFlag p v f = (f1, Some (Errorf ''invalid argument'')) \<and> same_flags f f1"
      using sv sf by (auto simp: setFlag_def)
  }
qed

section \<open>Parsing assignments\<close>

text \<open>A name as it can be written after two dashes.\<close>

definition long_name :: "string \<Rightarrow> bool" where
  "long_name n \<longleftrightarrow> n \<noteq> [] \<and> hd n \<noteq> CHR ''-'' \<and> CHR ''='' \<notin> set n"

lemma split_eq_name: "CHR ''='' \<notin> set n \<Longrightarrow> split_eq n = (n, None)"
  by (induction n) auto

lemma split_eq_assign: "CHR ''='' \<notin> set n \<Longrightarrow> split_eq (n @ ''='' @ v) = (n, Some v)"
  by (induction n) auto

text \<open>An assignment as one argument.\<close>

definition long_arg :: "string \<times> string \<Rightarrow> string" where
  "long_arg a = ''--'' @ fst a @ ''='' @ snd a"

lemma parse_assign:
  assumes "long_name n"
  shows "parseArgs (long_arg (n, v) # args) f =
    (case Lookup f n of
       None \<Rightarrow> (Some (if n = ''help'' then ErrHelp else Errorf ''unknown flag''), f)
     | Some p \<Rightarrow> (case setFlag p v f of (f1, Some err) \<Rightarrow> (Some err, f1) | (f1, None) \<Rightarrow> parseArgs args f1))"
proof -
  obtain c cs where c: "n = c # cs" "c \<noteq> CHR ''-''" "c \<noteq> CHR ''=''" "CHR ''='' \<notin> set n"
    using assms by (cases n) (auto simp: long_name_def)
  then have n: "n @ CHR ''='' # v \<noteq> []" "hd (n @ CHR ''='' # v) \<noteq> CHR ''-''" "hd (n @ CHR ''='' # v) \<noteq> CHR ''=''"
    "split_eq (n @ CHR ''='' # v) = (n, Some v)"
    using split_eq_assign [OF c(4), of v] by simp_all
  show ?thesis
    using n by (simp add: long_arg_def parseArgs.simps(2) parseLongArg_def Lookup_def split: option.splits prod.splits)
qed

fun apply_sets ::
  "(string \<Rightarrow> (string \<Rightarrow> 's \<Rightarrow> 's \<times> gerror option) option) \<Rightarrow> (string \<times> string) list \<Rightarrow> 's \<Rightarrow> 's option" where
  "apply_sets L [] s = Some s"
| "apply_sets L ((n, v) # rest) s =
     (case L n of
        None \<Rightarrow> None
      | Some setter \<Rightarrow> (case setter v s of (s', None) \<Rightarrow> apply_sets L rest s' | (s', Some _) \<Rightarrow> None))"

lemma apply_sets_cong:
  "\<forall>a \<in> set asg. L (fst a) = L' (fst a) \<Longrightarrow> apply_sets L asg s = apply_sets L' asg s"
proof (induction asg arbitrary: s)
  case (Cons a asg)
  then have "L (fst a) = L' (fst a)" "apply_sets L asg t = apply_sets L' asg t" for t by auto
  then show ?case by (cases a) (simp split: option.splits)
qed simp

lemma parse_assigns:
  assumes "pointers_ok f" "\<forall>a \<in> set asg. long_name (fst a)"
  shows "case apply_sets (setter_of f) asg (fs_vars f) of
      Some s \<Rightarrow> \<exists>f1. parseArgs (map long_arg asg @ rest) f = parseArgs rest f1 \<and> same_flags f f1 \<and> fs_vars f1 = s \<and> fs_args f1 = fs_args f
    | None \<Rightarrow> \<exists>err f1. parseArgs (map long_arg asg @ rest) f = (Some err, f1) \<and> same_flags f f1"
  using assms
proof (induction asg arbitrary: f)
  case Nil
  then show ?case by auto
next
  case (Cons a asg)
  obtain n v where a: "a = (n, v)" by (cases a)
  then have n: "long_name n" using Cons.prems by auto
  let ?args = "map long_arg asg @ rest"
  note step = parse_assign [OF n, of v ?args f]
  show ?case
  proof (cases "Lookup f n")
    case None
    then show ?thesis using step by (simp add: a setter_of_def)
  next
    case (Some p)
    obtain s e where se: "fl_Set (fs_flags f ! p) v (fs_vars f) = (s, e)" by (cases "fl_Set (fs_flags f ! p) v (fs_vars f)")
    have st: "setter_of f n = Some (fl_Set (fs_flags f ! p))" using Some by (simp add: setter_of_def)
    show ?thesis
    proof (cases e)
      case (Some err)
      then obtain f1 where "setFlag p v f = (f1, Some (Errorf ''invalid argument''))" "same_flags f f1"
        using setFlag_cases(2) [OF se] by auto
      then show ?thesis using step \<open>Lookup f n = Some p\<close> se st Some by (simp add: a)
    next
      case None
      then obtain f1 where f1: "setFlag p v f = (f1, None)" "same_flags f f1" "fs_vars f1 = s" "fs_args f1 = fs_args f"
        using setFlag_cases(1) [OF se] by auto
      have L: "setter_of f1 = setter_of f" using setter_of_same [OF f1(2) Cons.prems(1)] by blast
      have ap: "apply_sets (setter_of f) (a # asg) (fs_vars f) = apply_sets (setter_of f1) asg (fs_vars f1)"
        using st se None by (simp add: a L f1(3))
      have pa: "parseArgs (map long_arg (a # asg) @ rest) f = parseArgs ?args f1"
        using step \<open>Lookup f n = Some p\<close> f1(1) by (simp add: a)
      have IH: "case apply_sets (setter_of f1) asg (fs_vars f1) of
          Some s \<Rightarrow> \<exists>f2. parseArgs ?args f1 = parseArgs rest f2 \<and> same_flags f1 f2 \<and> fs_vars f2 = s \<and> fs_args f2 = fs_args f1
        | None \<Rightarrow> \<exists>err f2. parseArgs ?args f1 = (Some err, f2) \<and> same_flags f1 f2"
        using Cons.IH [OF same_flags_pointers [OF f1(2) Cons.prems(1)]] Cons.prems(2) by simp
      show ?thesis
      proof (cases "apply_sets (setter_of f1) asg (fs_vars f1)")
        case None
        with IH ap pa show ?thesis using same_flags_trans [OF f1(2)] by auto
      next
        case (Some s2)
        with IH obtain f2 where "parseArgs ?args f1 = parseArgs rest f2" "same_flags f1 f2" "fs_vars f2 = s2" "fs_args f2 = fs_args f1" by auto
        with Some ap pa f1 show ?thesis using same_flags_trans [OF f1(2)] by auto
      qed
    qed
  qed
qed

lemma parse_separate:
  assumes "long_name n" "Lookup f n = Some p" "fl_NoOptDefVal (fs_flags f ! p) = []"
  shows "parseArgs ((''--'' @ n) # v # args) f = parseArgs (long_arg (n, v) # args) f"
proof -
  obtain c cs where c: "n = c # cs" "c \<noteq> CHR ''-''" "c \<noteq> CHR ''=''" "CHR ''='' \<notin> set n"
    using assms by (cases n) (auto simp: long_name_def)
  have "split_eq n = (n, None)" by (rule split_eq_name [OF c(4)])
  with c assms(2,3) have "parseArgs ((''--'' @ n) # v # args) f =
      (case setFlag p v f of (f1, Some err) \<Rightarrow> (Some err, f1) | (f1, None) \<Rightarrow> parseArgs args f1)"
    by (simp add: parseArgs.simps(2) parseLongArg_def Lookup_def split: option.splits prod.splits)
  with parse_assign [OF assms(1), of v args f] assms(2) show ?thesis by simp
qed

lemma parse_normalized:
  assumes "long_name n" "long_name n'" "normalizeFlagName f n = normalizeFlagName f n'" "Lookup f n = Some p"
  shows "parseArgs (long_arg (n', v) # args) f = parseArgs (long_arg (n, v) # args) f"
proof -
  have "Lookup f n' = Some p" using assms(3,4) by (simp add: Lookup_def)
  with assms show ?thesis by (simp add: parse_assign)
qed

text \<open>The ways to write a flag are equivalent: a value can follow the name after an equals sign or as the next argument
  (for flags that need a value), and with the word separator rule of the daemon underscores in the name are
  dashes.\<close>

theorem flag_spellings:
  assumes "long_name n" "long_name n'" "fs_normalizeNameFunc f = Some WordSepNormalizeFunc" "WordSepNormalizeFunc n' = WordSepNormalizeFunc n"
    and "Lookup f n = Some p" "fl_NoOptDefVal (fs_flags f ! p) = []"
  shows "parseArgs ((''--'' @ n') # v # args) f = parseArgs ((''--'' @ n @ ''='' @ v) # args) f \<and>
    parseArgs ((''--'' @ n' @ ''='' @ v) # args) f = parseArgs ((''--'' @ n @ ''='' @ v) # args) f"
proof -
  have nn: "normalizeFlagName f n = normalizeFlagName f n'" using assms(3,4) by (simp add: normalizeFlagName_def GetNormalizeFunc_def)
  then have "Lookup f n' = Some p" using assms(5) by (simp add: Lookup_def)
  from parse_separate [OF assms(2) this assms(6), of v args] parse_normalized [OF assms(1,2) nn assms(5), of v args]
  show ?thesis by (simp add: long_arg_def)
qed

text \<open>A flag set with one string flag, for examples.\<close>

definition demo_flags :: "string FlagSet" where
  "demo_flags = (NewFlagSet '''' ExitOnError)\<lparr>fs_flags := [\<lparr>fl_Name = ''log-dir'', fl_Shorthand = '''', fl_Usage = '''',
     fl_Set = (\<lambda>v s. (v, None)), fl_Changed = False, fl_NoOptDefVal = '''', fl_Deprecated = '''', fl_Hidden = False, fl_ShorthandDeprecated = ''''\<rparr>],
     fs_formal := [(''log-dir'', 0)], fs_normalizeNameFunc := Some WordSepNormalizeFunc\<rparr>"

theorem flag_spellings_witness:
  "parseArgs [''--log_dir'', ''/tmp''] demo_flags = parseArgs [''--log-dir=/tmp''] demo_flags"
proof -
  have "fs_normalizeNameFunc demo_flags = Some WordSepNormalizeFunc" "Lookup demo_flags ''log-dir'' = Some 0"
      "fl_NoOptDefVal (fs_flags demo_flags ! 0) = []"
    by (simp_all add: demo_flags_def Lookup_def normalizeFlagName_def GetNormalizeFunc_def WordSepNormalizeFunc_def gm_get_def)
  with flag_spellings [of "''log-dir''" "''log_dir''" demo_flags 0 "''/tmp''" "[]"] show ?thesis
    by (simp add: long_name_def WordSepNormalizeFunc_def)
qed

text \<open>An argument that starts with \<open>-test.\<close> makes the parser drop every argument after it without an error: flags and
  values that follow it on the command line have no effect.\<close>

theorem test_argument_drops_rest:
  assumes "\<forall>a \<in> set asg. long_name (fst a)"
  shows "Parse (map long_arg asg @ (''-test.'' @ x) # args) f = Parse (map long_arg asg) f"
proof -
  have t: "parseArgs ((''-test.'' @ x) # args) g = (None, g)" for g :: "'a FlagSet"
    by (simp add: parseArgs.simps(2) parseShortArg_def short_loop.simps parseSingleShortArg_def)
  have "parseArgs (map long_arg asg @ (''-test.'' @ x) # args) g = parseArgs (map long_arg asg) g" for g :: "'a FlagSet"
    using assms
  proof (induction asg arbitrary: g)
    case Nil
    then show ?case using t by simp
  next
    case (Cons a asg)
    then show ?case by (cases a) (simp add: parse_assign split: option.splits prod.splits)
  qed
  then show ?thesis by (simp add: Parse_def)
qed

theorem test_argument_drops_rest_witness:
  "Parse [''--log-dir=/var'', ''-test.v'', ''--log-dir=/tmp'', ''--unknown''] demo_flags = Parse [''--log-dir=/var''] demo_flags"
  using test_argument_drops_rest [of "[(''log-dir'', ''/var'')]" "''v''" "[''--log-dir=/tmp'', ''--unknown'']" demo_flags]
  by (simp add: long_name_def long_arg_def)

end
