(* ===== verification/Healthz.thy ===== *)
theory Healthz
  imports Strconv "HOL-Library.Sublist"
begin

text \<open>
  \<open>pkg/healthz/healthz.go\<close> (vendored) and the HTTP endpoints of \<open>Run\<close> in \<open>app/server.go\<close>.

  A handler maps a request to the status and the body it answers with. The request router of \<open>net/http\<close> keeps the
  registered patterns; a pattern that ends with a slash also answers for the paths below it, and the longest
  matching pattern is chosen. The handlers of the profiler and of the metrics library are parameters.
\<close>

section \<open>The request router\<close>

record http_request =
  hr_Path :: string
  hr_Query :: "(string, string list) gomap"

record http_response =
  re_Status :: int
  re_Body :: string

type_synonym handler = "http_request \<Rightarrow> http_response"

datatype route = Explicit handler | RedirectTo string

type_synonym mux = "(string, route) gomap"

definition StatusOK :: int where
  "StatusOK = 200"

definition StatusInternalServerError :: int where
  "StatusInternalServerError = 500"

text \<open>\<open>http.Error\<close>: the text and a newline.\<close>

definition http_Error :: "string \<Rightarrow> int \<Rightarrow> http_response" where
  "http_Error msg code = \<lparr>re_Status = code, re_Body = msg @ [CHR 0x0A]\<rparr>"

fun explicit :: "route option \<Rightarrow> bool" where
  "explicit (Some (Explicit _)) = True"
| "explicit _ = False"

text \<open>\<open>ServeMux.Handle\<close>: a pattern is registered once; \<open>/tree/\<close> also redirects \<open>/tree\<close>.\<close>

definition mux_Handle :: "string \<Rightarrow> handler \<Rightarrow> mux \<Rightarrow> mux outcome" where
  "mux_Handle pattern h m =
     (if pattern = [] then Panic ''http: invalid pattern''
      else if explicit (gm_get m pattern) then Panic ''http: multiple registrations''
      else
        (let m1 = gm_set pattern (Explicit h) m; tree = butlast pattern in
         if last pattern = CHR ''/'' \<and> tree \<noteq> [] \<and> \<not> explicit (gm_get m1 tree)
         then Ok (gm_set tree (RedirectTo pattern) m1) else Ok m1))"

definition pathMatch :: "string \<Rightarrow> string \<Rightarrow> bool" where
  "pathMatch pattern path \<longleftrightarrow> pattern \<noteq> [] \<and> (if last pattern \<noteq> CHR ''/'' then pattern = path else prefix pattern path)"

fun mux_match :: "mux \<Rightarrow> string \<Rightarrow> (string \<times> route) option" where
  "mux_match [] path = None"
| "mux_match ((pattern, h) # m) path =
     (case mux_match m path of
        None \<Rightarrow> if pathMatch pattern path then Some (pattern, h) else None
      | Some (best, h') \<Rightarrow> if pathMatch pattern path \<and> length pattern \<ge> length best then Some (pattern, h) else Some (best, h'))"

definition mux_serve :: "mux \<Rightarrow> handler" where
  "mux_serve m r =
     (case mux_match m (hr_Path r) of
        Some (_, Explicit h) \<Rightarrow> h r
      | Some (_, RedirectTo url) \<Rightarrow> \<lparr>re_Status = 301, re_Body = url\<rparr>
      | None \<Rightarrow> http_Error ''404 page not found'' 404)"

section \<open>Health checks\<close>

record HealthzChecker =
  hc_Name :: string
  hc_Check :: "http_request \<Rightarrow> gerror option"

definition PingHealthz :: HealthzChecker where
  "PingHealthz = \<lparr>hc_Name = ''ping'', hc_Check = (\<lambda>_. None)\<rparr>"

definition NamedCheck :: "string \<Rightarrow> (http_request \<Rightarrow> gerror option) \<Rightarrow> HealthzChecker" where
  "NamedCheck name check = \<lparr>hc_Name = name, hc_Check = check\<rparr>"

text \<open>The text of an error is the parameter \<open>err_text\<close>.\<close>

definition check_line :: "(gerror \<Rightarrow> string) \<Rightarrow> http_request \<Rightarrow> HealthzChecker \<Rightarrow> string" where
  "check_line err_text r check =
     (case hc_Check check r of
        Some err \<Rightarrow> ''[-]'' @ hc_Name check @ '' failed: '' @ err_text err @ [CHR 0x0A]
      | None \<Rightarrow> ''[+]'' @ hc_Name check @ '' ok'' @ [CHR 0x0A])"

fun run_checks :: "(gerror \<Rightarrow> string) \<Rightarrow> http_request \<Rightarrow> HealthzChecker list \<Rightarrow> bool \<Rightarrow> string \<Rightarrow> bool \<times> string" where
  "run_checks err_text r [] failed verboseOut = (failed, verboseOut)"
| "run_checks err_text r (check # checks) failed verboseOut =
     run_checks err_text r checks (failed \<or> hc_Check check r \<noteq> None) (verboseOut @ check_line err_text r check)"

definition handleRootHealthz :: "(gerror \<Rightarrow> string) \<Rightarrow> HealthzChecker list \<Rightarrow> handler" where
  "handleRootHealthz err_text checks r =
     (let (failed, verboseOut) = run_checks err_text r checks False [] in
      if failed then http_Error (verboseOut @ ''healthz check failed'') StatusInternalServerError
      else if gm_get (hr_Query r) ''verbose'' = None then \<lparr>re_Status = StatusOK, re_Body = ''ok''\<rparr>
      else \<lparr>re_Status = StatusOK, re_Body = verboseOut @ ''healthz check passed'' @ [CHR 0x0A]\<rparr>)"

definition adaptCheckToHandler :: "(gerror \<Rightarrow> string) \<Rightarrow> (http_request \<Rightarrow> gerror option) \<Rightarrow> handler" where
  "adaptCheckToHandler err_text c r =
     (case c r of
        Some err \<Rightarrow> http_Error (''Internal server error: '' @ err_text err) StatusInternalServerError
      | None \<Rightarrow> \<lparr>re_Status = StatusOK, re_Body = ''ok''\<rparr>)"

definition check_path :: "HealthzChecker \<Rightarrow> string" where
  "check_path check = ''/healthz/'' @ hc_Name check"

fun install_checks :: "(gerror \<Rightarrow> string) \<Rightarrow> HealthzChecker list \<Rightarrow> mux \<Rightarrow> mux outcome" where
  "install_checks err_text [] m = Ok m"
| "install_checks err_text (check # checks) m =
     (case mux_Handle (check_path check) (adaptCheckToHandler err_text (hc_Check check)) m of
        Ok m' \<Rightarrow> install_checks err_text checks m' | failed \<Rightarrow> failed)"

definition InstallHandler :: "(gerror \<Rightarrow> string) \<Rightarrow> HealthzChecker list \<Rightarrow> mux \<Rightarrow> mux outcome" where
  "InstallHandler err_text checks m =
     (let checks' = (if checks = [] then [PingHealthz] else checks) in
      case mux_Handle ''/healthz'' (handleRootHealthz err_text checks') m of
        Ok m' \<Rightarrow> install_checks err_text checks' m' | failed \<Rightarrow> failed)"

section \<open>What a registration changes\<close>

lemma check_path_simps [simp]: "check_path c = check_path d \<longleftrightarrow> hc_Name c = hc_Name d" "check_path c \<noteq> []" "check_path c \<noteq> ''/healthz''"
  by (simp_all add: check_path_def)

lemma run_checks_exact:
  "run_checks err_text r checks failed out =
     (failed \<or> list_ex (\<lambda>c. hc_Check c r \<noteq> None) checks, out @ concat (map (check_line err_text r) checks))"
  by (induction checks arbitrary: failed out) auto

text \<open>The route of a path that is registered itself is its own: no pattern that matches a path is longer than it.\<close>

lemma mux_match_exact: "gm_wf m \<Longrightarrow> gm_get m path = Some h \<Longrightarrow> path \<noteq> [] \<Longrightarrow> mux_match m path = Some (path, h)"
proof (induction m)
  case (Cons a m)
  obtain pattern h' where a: "a = (pattern, h')" by (cases a)
  have self: "pathMatch path path" using Cons.prems(3) by (simp add: pathMatch_def)
  have shorter: "pathMatch q path \<Longrightarrow> length q \<le> length path \<and> (length q = length path \<longrightarrow> q = path)" for q
    by (auto simp: pathMatch_def prefix_def split: if_splits)
  have match: "mux_match m path = Some (q, h'') \<Longrightarrow> pathMatch q path" for q h'' m
    by (induction m) (auto split: option.splits if_splits)
  show ?case
  proof (cases "pattern = path")
    case True
    with Cons.prems(2) a have "h' = h" by (simp add: gm_get_def)
    with True a self show ?thesis using match shorter by (auto split: option.splits)
  next
    case False
    with Cons a have IH: "mux_match m path = Some (path, h)" by (simp add: gm_get_def)
    then show ?thesis using shorter [of pattern] False a by auto
  qed
qed (simp add: gm_get_def)

lemma mux_Handle_ok:
  assumes "gm_wf m" "pattern \<noteq> []" "\<not> explicit (gm_get m pattern)"
  obtains m' where "mux_Handle pattern h m = Ok m'" "gm_wf m'" "gm_get m' pattern = Some (Explicit h)"
    "\<And>q. explicit (gm_get m q) \<Longrightarrow> gm_get m' q = gm_get m q" "\<And>q. explicit (gm_get m' q) \<longleftrightarrow> q = pattern \<or> explicit (gm_get m q)"
proof -
  let ?m1 = "gm_set pattern (Explicit h) m" and ?tree = "butlast pattern"
  have tree: "?tree \<noteq> pattern" using assms(2) by (metis append_butlast_last_id not_Cons_self2 self_append_conv)
  have m1: "gm_wf ?m1" "gm_get ?m1 pattern = Some (Explicit h)" "\<And>q. explicit (gm_get m q) \<Longrightarrow> gm_get ?m1 q = gm_get m q"
      "\<And>q. explicit (gm_get ?m1 q) \<longleftrightarrow> q = pattern \<or> explicit (gm_get m q)"
    using assms by (auto simp: gomap_simps)
  show thesis
  proof (cases "last pattern = CHR ''/'' \<and> ?tree \<noteq> [] \<and> \<not> explicit (gm_get ?m1 ?tree)")
    case False
    then have "mux_Handle pattern h m = Ok ?m1" using assms unfolding mux_Handle_def Let_def by (simp only: if_False)
    from that [OF this m1] show thesis .
  next
    case True
    let ?m2 = "gm_set ?tree (RedirectTo pattern) ?m1"
    have ok: "mux_Handle pattern h m = Ok ?m2" using True assms unfolding mux_Handle_def Let_def by simp
    have g: "gm_get ?m2 = (gm_get ?m1)(?tree \<mapsto> RedirectTo pattern)" by (simp add: gomap_simps)
    have nt: "\<not> explicit (gm_get m ?tree)" using True m1(4) by blast
    show thesis
    proof (rule that [OF ok])
      show "gm_wf ?m2" using m1(1) by simp
      show "gm_get ?m2 pattern = Some (Explicit h)" using m1(2) tree unfolding g by simp
      show "gm_get ?m2 q = gm_get m q" if "explicit (gm_get m q)" for q using m1(3) [OF that] that nt unfolding g by auto
      show "explicit (gm_get ?m2 q) \<longleftrightarrow> q = pattern \<or> explicit (gm_get m q)" for q using m1(4) [of q] nt tree unfolding g by auto
    qed
  qed
qed

text \<open>Checks can be installed exactly when their names differ; each then answers under its own path.\<close>

lemma install_checks_ok:
  assumes "gm_wf m" "distinct (map hc_Name checks)" "\<forall>c \<in> set checks. \<not> explicit (gm_get m (check_path c))"
  shows "\<exists>m'. install_checks err_text checks m = Ok m' \<and> gm_wf m' \<and> (\<forall>q. explicit (gm_get m q) \<longrightarrow> gm_get m' q = gm_get m q) \<and>
    (\<forall>c \<in> set checks. gm_get m' (check_path c) = Some (Explicit (adaptCheckToHandler err_text (hc_Check c))))"
  using assms
proof (induction checks arbitrary: m)
  case (Cons c checks)
  let ?p = "check_path c" and ?h = "adaptCheckToHandler err_text (hc_Check c)"
  have "\<not> explicit (gm_get m ?p)" "?p \<noteq> []" using Cons.prems(3) by simp_all
  then obtain m1 where m1: "mux_Handle ?p ?h m = Ok m1" "gm_wf m1" "gm_get m1 ?p = Some (Explicit ?h)"
    and keep: "\<And>q. explicit (gm_get m q) \<Longrightarrow> gm_get m1 q = gm_get m q" and ex: "\<And>q. explicit (gm_get m1 q) \<longleftrightarrow> q = ?p \<or> explicit (gm_get m q)"
    using mux_Handle_ok [OF Cons.prems(1), of ?p ?h] by blast
  have "\<forall>d \<in> set checks. hc_Name d \<noteq> hc_Name c" using Cons.prems(2) by (auto simp: rev_image_eqI)
  then have "\<forall>c \<in> set checks. \<not> explicit (gm_get m1 (check_path c))"
    using Cons.prems(3) by (simp add: ex)
  with Cons.IH [OF m1(2)] Cons.prems(2) obtain m' where m': "install_checks err_text checks m1 = Ok m'" "gm_wf m'"
      "\<forall>q. explicit (gm_get m1 q) \<longrightarrow> gm_get m' q = gm_get m1 q"
      "\<forall>c \<in> set checks. gm_get m' (check_path c) = Some (Explicit (adaptCheckToHandler err_text (hc_Check c)))"
    by auto
  have "gm_get m' ?p = Some (Explicit ?h)" using m'(3) m1(3) by simp
  moreover have "explicit (gm_get m q) \<longrightarrow> gm_get m' q = gm_get m q" for q using m'(3) keep ex by metis
  ultimately show ?case using m1(1) m'(1,2,4) by auto
qed simp

lemma install_checks_clash:
  assumes "gm_wf m" "\<not> distinct (map hc_Name checks) \<or> (\<exists>c \<in> set checks. explicit (gm_get m (check_path c)))"
  shows "install_checks err_text checks m = Panic ''http: multiple registrations''"
  using assms
proof (induction checks arbitrary: m)
  case (Cons c checks)
  let ?p = "check_path c" and ?h = "adaptCheckToHandler err_text (hc_Check c)"
  show ?case
  proof (cases "explicit (gm_get m ?p)")
    case True
    then show ?thesis by (simp add: mux_Handle_def)
  next
    case False
    have "\<exists>m1. mux_Handle ?p ?h m = Ok m1 \<and> gm_wf m1 \<and> (\<forall>q. explicit (gm_get m1 q) \<longleftrightarrow> q = ?p \<or> explicit (gm_get m q))"
      by (rule mux_Handle_ok [OF Cons.prems(1) check_path_simps(2) False, of ?h]) blast
    then obtain m1 where m1: "mux_Handle ?p ?h m = Ok m1" "gm_wf m1" and ex: "\<forall>q. explicit (gm_get m1 q) \<longleftrightarrow> q = ?p \<or> explicit (gm_get m q)" by blast
    have "\<not> distinct (map hc_Name checks) \<or> (\<exists>c \<in> set checks. explicit (gm_get m1 (check_path c)))"
      using Cons.prems(2) False by (auto simp: ex)
    from Cons.IH [OF m1(2) this] m1(1) show ?thesis by simp
  qed
qed simp

lemma serve_exact: "gm_wf m \<Longrightarrow> gm_get m (hr_Path r) = Some (Explicit h) \<Longrightarrow> hr_Path r \<noteq> [] \<Longrightarrow> mux_serve m r = h r"
  by (simp add: mux_serve_def mux_match_exact)

text \<open>Health checks are installed exactly when their names differ (otherwise the router panics). Then the
  root path answers 200 if all checks pass and otherwise 500 with a line for every check, and each check has a path of its own
  that answers for it alone.\<close>

theorem healthz_reports:
  assumes "checks \<noteq> []"
  shows "if distinct (map hc_Name checks)
    then \<exists>m. InstallHandler err_text checks [] = Ok m \<and>
      (\<forall>r. hr_Path r = ''/healthz'' \<longrightarrow>
         (if list_all (\<lambda>c. hc_Check c r = None) checks then re_Status (mux_serve m r) = 200
          else mux_serve m r = \<lparr>re_Status = 500, re_Body = concat (map (check_line err_text r) checks) @ ''healthz check failed'' @ [CHR 0x0A]\<rparr>)) \<and>
      (\<forall>r c. c \<in> set checks \<longrightarrow> hr_Path r = check_path c \<longrightarrow> re_Status (mux_serve m r) = (if hc_Check c r = None then 200 else 500))
    else InstallHandler err_text checks [] = Panic ''http: multiple registrations''"
proof -
  let ?root = "handleRootHealthz err_text checks"
  obtain m1 where m1: "mux_Handle ''/healthz'' ?root [] = Ok m1" "gm_wf m1" "gm_get m1 ''/healthz'' = Some (Explicit ?root)"
    and ex: "\<And>q. explicit (gm_get m1 q) \<longleftrightarrow> q = ''/healthz''"
    using mux_Handle_ok [of "[]" "''/healthz''" ?root] by (simp add: gm_get_def) blast
  have I: "InstallHandler err_text checks [] = install_checks err_text checks m1" using assms m1(1) by (simp add: InstallHandler_def)
  show ?thesis
  proof (cases "distinct (map hc_Name checks)")
    case False
    then show ?thesis using install_checks_clash [OF m1(2)] I by auto
  next
    case True
    have "\<forall>c \<in> set checks. \<not> explicit (gm_get m1 (check_path c))" by (simp add: ex)
    then obtain m where m: "install_checks err_text checks m1 = Ok m" "gm_wf m" "\<forall>q. explicit (gm_get m1 q) \<longrightarrow> gm_get m q = gm_get m1 q"
        "\<forall>c \<in> set checks. gm_get m (check_path c) = Some (Explicit (adaptCheckToHandler err_text (hc_Check c)))"
      using install_checks_ok [OF m1(2) True] by blast
    have "gm_get m ''/healthz'' = Some (Explicit ?root)" using m(3) m1(3) by simp
    then have root: "hr_Path r = ''/healthz'' \<Longrightarrow> mux_serve m r = ?root r" for r using serve_exact [OF m(2)] by simp
    have each: "c \<in> set checks \<Longrightarrow> hr_Path r = check_path c \<Longrightarrow> mux_serve m r = adaptCheckToHandler err_text (hc_Check c) r" for c r
      using serve_exact [OF m(2)] m(4) by simp
    have rs: "if list_all (\<lambda>c. hc_Check c r = None) checks then re_Status (?root r) = 200
        else ?root r = \<lparr>re_Status = 500, re_Body = concat (map (check_line err_text r) checks) @ ''healthz check failed'' @ [CHR 0x0A]\<rparr>" for r
      by (simp add: handleRootHealthz_def run_checks_exact http_Error_def StatusOK_def StatusInternalServerError_def list_all_iff list_ex_iff)
    have es: "re_Status (adaptCheckToHandler err_text (hc_Check c) r) = (if hc_Check c r = None then 200 else 500)" for c r
      by (cases "hc_Check c r") (simp_all add: adaptCheckToHandler_def http_Error_def StatusOK_def StatusInternalServerError_def)
    have "\<forall>r. hr_Path r = ''/healthz'' \<longrightarrow>
        (if list_all (\<lambda>c. hc_Check c r = None) checks then re_Status (mux_serve m r) = 200
         else mux_serve m r = \<lparr>re_Status = 500, re_Body = concat (map (check_line err_text r) checks) @ ''healthz check failed'' @ [CHR 0x0A]\<rparr>)"
      using rs by (intro allI impI) (simp only: root)
    moreover have "\<forall>r c. c \<in> set checks \<longrightarrow> hr_Path r = check_path c \<longrightarrow>
        re_Status (mux_serve m r) = (if hc_Check c r = None then 200 else 500)"
      by (intro allI impI) (simp only: each es)
    ultimately show ?thesis using True m(1) I by (simp only: if_True) blast
  qed
qed

theorem healthz_reports_witness:
  "\<exists>m. InstallHandler (\<lambda>_. ''down'') [PingHealthz, NamedCheck ''disk'' (\<lambda>_. Some (Errorf ''down''))] [] = Ok m \<and>
     mux_serve m \<lparr>hr_Path = ''/healthz'', hr_Query = []\<rparr> =
       \<lparr>re_Status = 500, re_Body = ''[+]ping ok'' @ [CHR 0x0A] @ ''[-]disk failed: down'' @ [CHR 0x0A] @ ''healthz check failed'' @ [CHR 0x0A]\<rparr>"
proof -
  let ?checks = "[PingHealthz, NamedCheck ''disk'' (\<lambda>_. Some (Errorf ''down''))]"
  let ?r = "\<lparr>hr_Path = ''/healthz'', hr_Query = []\<rparr>"
  have d: "distinct (map hc_Name ?checks)" and n: "\<not> list_all (\<lambda>c. hc_Check c ?r = None) ?checks" by (simp_all add: PingHealthz_def NamedCheck_def)
  obtain m where m: "InstallHandler (\<lambda>_. ''down'') ?checks [] = Ok m"
    and s: "\<forall>r. hr_Path r = ''/healthz'' \<longrightarrow>
         (if list_all (\<lambda>c. hc_Check c r = None) ?checks then re_Status (mux_serve m r) = 200
          else mux_serve m r = \<lparr>re_Status = 500, re_Body = concat (map (check_line (\<lambda>_. ''down'') r) ?checks) @ ''healthz check failed'' @ [CHR 0x0A]\<rparr>)"
    using healthz_reports [of ?checks "\<lambda>_. ''down''"] unfolding if_P [OF d] by blast
  from s have "mux_serve m ?r = \<lparr>re_Status = 500, re_Body = concat (map (check_line (\<lambda>_. ''down'') ?r) ?checks) @ ''healthz check failed'' @ [CHR 0x0A]\<rparr>"
    by (auto simp: PingHealthz_def NamedCheck_def)
  with m show ?thesis by (simp add: PingHealthz_def NamedCheck_def check_line_def)
qed

end
