(* ===== verification/Cli.thy ===== *)
theory Cli
  imports Server Pflag Healthz
begin

text \<open>
  \<open>main.go\<close>, the registration of the flags of \<open>app/options/options.go\<close> with the flag library, and the HTTP endpoints
  of \<open>app/server.go\<close>.

  The flags of the daemon write to its configuration, those of the logging library (the parameter \<open>goflags\<close>, Go's own
  flag set) to a state \<open>'g\<close> of their own; the variables of the command line are the pair. Reading floating
  point numbers and durations is the parameter \<open>conv\<close>.
\<close>

section \<open>Values as text\<close>

record conv =
  cv_ParseFloat :: "string \<Rightarrow> rat \<times> gerror option"
  cv_ParseDuration :: "string \<Rightarrow> duration \<times> gerror option"
  cv_FormatFloat :: "rat \<Rightarrow> string"
  cv_FormatDuration :: "duration \<Rightarrow> string"

datatype kind = StringK | IntK | Float32K | BoolK | DurationK

fun var_kind :: "flag_var \<Rightarrow> kind" where
  "var_kind PortV = IntK"
| "var_kind KubeAPIBurstV = IntK"
| "var_kind KubeAPIQPSV = Float32K"
| "var_kind SyncPeriodV = DurationK"
| "var_kind KeepalivedReloadIntervalV = DurationK"
| "var_kind HaproxyReloadIntervalV = DurationK"
| "var_kind EnableProfilingV = BoolK"
| "var_kind _ = StringK"

definition num_err :: "num_error option \<Rightarrow> gerror option" where
  "num_err e = map_option (\<lambda>_. Errorf ''strconv'') e"

text \<open>The \<open>Set\<close> methods of the flag values: the value that is stored, and the error. All but the string store what
  the reader hands back even when it reports an error.\<close>

definition stringValue_Set :: "string \<Rightarrow> flag_value \<times> gerror option" where
  "stringValue_Set val = (StringVal val, None)"

definition intValue_Set :: "string \<Rightarrow> flag_value \<times> gerror option" where
  "intValue_Set s = (case ParseInt s 0 of (v, err) \<Rightarrow> (IntVal v, num_err err))"

definition float32Value_Set :: "conv \<Rightarrow> string \<Rightarrow> flag_value \<times> gerror option" where
  "float32Value_Set cv s = (case cv_ParseFloat cv s of (v, err) \<Rightarrow> (Float32Val v, err))"

definition boolValue_Set :: "string \<Rightarrow> flag_value \<times> gerror option" where
  "boolValue_Set s = (case ParseBool s of (v, err) \<Rightarrow> (BoolVal v, num_err err))"

definition durationValue_Set :: "conv \<Rightarrow> string \<Rightarrow> flag_value \<times> gerror option" where
  "durationValue_Set cv s = (case cv_ParseDuration cv s of (v, err) \<Rightarrow> (DurationVal v, err))"

fun read_value :: "conv \<Rightarrow> kind \<Rightarrow> string \<Rightarrow> flag_value \<times> gerror option" where
  "read_value cv StringK s = stringValue_Set s"
| "read_value cv IntK s = intValue_Set s"
| "read_value cv Float32K s = float32Value_Set cv s"
| "read_value cv BoolK s = boolValue_Set s"
| "read_value cv DurationK s = durationValue_Set cv s"

definition set_var :: "conv \<Rightarrow> flag_var \<Rightarrow> string \<Rightarrow> ProxyServerConfig \<times> 'g \<Rightarrow> (ProxyServerConfig \<times> 'g) \<times> gerror option" where
  "set_var cv var s st =
     (case read_value cv (var_kind var) s of
        (v, err) \<Rightarrow> ((case store_var var v (fst st) of Some config \<Rightarrow> config | None \<Rightarrow> fst st, snd st), err))"

text \<open>\<open>StringVar\<close>, \<open>IntVar\<close>, \<open>Float32Var\<close>, \<open>BoolVar\<close> and \<open>DurationVar\<close>: a flag without shorthand; the value of a boolean flag
  may be left out.\<close>

definition FlagVar :: "conv \<Rightarrow> string \<Rightarrow> flag_var \<Rightarrow> (ProxyServerConfig \<times> 'g) FlagSet \<Rightarrow> (ProxyServerConfig \<times> 'g) FlagSet outcome" where
  "FlagVar cv name var f = VarPF (set_var cv var) name [] [] (if var_kind var = BoolK then ''true'' else []) f"

fun register_flags ::
  "conv \<Rightarrow> (string \<times> flag_var) list \<Rightarrow> (ProxyServerConfig \<times> 'g) FlagSet \<Rightarrow> (ProxyServerConfig \<times> 'g) FlagSet outcome" where
  "register_flags cv [] f = Ok f"
| "register_flags cv ((name, var) # rest) f =
     (case FlagVar cv name var f of Ok f' \<Rightarrow> register_flags cv rest f' | failed \<Rightarrow> failed)"

section \<open>The HTTP endpoints and main\<close>

text \<open>\<open>version/version.go\<close>; nothing prints it.\<close>

definition Version :: string where
  "Version = ''1.0.0+git''"

definition JoinHostPort :: "string \<Rightarrow> string \<Rightarrow> string" where
  "JoinHostPort host port =
     (if CHR '':'' \<in> set host \<or> CHR ''%'' \<in> set host then ''['' @ host @ '']:'' @ port else host @ '':'' @ port)"

text \<open>What \<open>Run\<close> serves over HTTP: nothing, or an address and a router. The handlers of the profiler and of the metrics are
  parameters, as is the text of an error.\<close>

record endpoints =
  ep_err_text :: "gerror \<Rightarrow> string"
  ep_Index :: handler
  ep_Profile :: handler
  ep_Symbol :: handler
  ep_prometheus :: handler

definition profiling_routes :: "endpoints \<Rightarrow> mux \<Rightarrow> mux outcome" where
  "profiling_routes H m =
     (case mux_Handle ''/debug/pprof/'' (ep_Index H) m of
        Ok m1 \<Rightarrow>
          (case mux_Handle ''/debug/pprof/profile'' (ep_Profile H) m1 of
             Ok m2 \<Rightarrow> mux_Handle ''/debug/pprof/symbol'' (ep_Symbol H) m2
           | failed \<Rightarrow> failed)
      | failed \<Rightarrow> failed)"

definition server_mux :: "endpoints \<Rightarrow> ProxyServerConfig \<Rightarrow> mux outcome" where
  "server_mux H config =
     (case InstallHandler (ep_err_text H) [] [] of
        Ok m1 \<Rightarrow>
          (case (if cf_EnableProfiling config then profiling_routes H m1 else Ok m1) of
             Ok m2 \<Rightarrow> mux_Handle ''/metrics'' (ep_prometheus H) m2
           | failed \<Rightarrow> failed)
      | failed \<Rightarrow> failed)"

definition http_server :: "endpoints \<Rightarrow> ProxyServerConfig \<Rightarrow> (string \<times> mux outcome) option" where
  "http_server H config =
     (if cf_Port config > 0 then Some (JoinHostPort (cf_Address config) (Itoa (cf_Port config)), server_mux H config) else None)"

definition main_go ::
  "conv \<Rightarrow> endpoints \<Rightarrow> (string \<Rightarrow> string \<Rightarrow> 'cfg outcome) \<Rightarrow> ('cfg \<Rightarrow> rat \<Rightarrow> int \<Rightarrow> 'c outcome) \<Rightarrow> os_env \<Rightarrow> machine \<Rightarrow> 'k netlink \<Rightarrow> 'k
     \<Rightarrow> (ProxyServerConfig \<times> 'g) goflag list \<Rightarrow> string list \<Rightarrow> 'g \<Rightarrow> ('c ProxyServer \<times> (string \<times> mux outcome) option) outcome" where
  "main_go cv H ClientConfig kubeclient_New E m N k goflags arguments g =
     (case register_flags cv AddFlags (NewFlagSet (NewProxyServerConfig, g) ExitOnError) of
        Ok f0 \<Rightarrow>
          (case InitFlags goflags arguments f0 of
             Ok f1 \<Rightarrow>
               (let config = fst (fs_vars f1) in
                case NewProxyServerDefault ClientConfig kubeclient_New E m N k config of
                  Ok s \<Rightarrow> Ok (s, http_server H config)
                | Fail err \<Rightarrow> Exit ''1''
                | Panic e \<Rightarrow> Panic e
                | Exit e \<Rightarrow> Exit e)
           | Fail e \<Rightarrow> Fail e | Panic e \<Rightarrow> Panic e | Exit e \<Rightarrow> Exit e)
      | Fail e \<Rightarrow> Fail e | Panic e \<Rightarrow> Panic e | Exit e \<Rightarrow> Exit e)"

section \<open>Registered flags stay what they are\<close>

lemma AddFlag_Ok:
  assumes "AddFlag fl f = Ok f'"
  obtains sh where "f' = f\<lparr>fs_flags := fs_flags f @ [fl\<lparr>fl_Name := normalizeFlagName f (fl_Name fl)\<rparr>],
        fs_formal := gm_set (normalizeFlagName f (fl_Name fl)) (length (fs_flags f)) (fs_formal f), fs_shorthands := sh\<rparr>"
    "snd ` set sh \<subseteq> insert (length (fs_flags f)) (snd ` set (fs_shorthands f))"
    "gm_get (fs_formal f) (normalizeFlagName f (fl_Name fl)) = None"
proof -
  have snd_set: "snd ` set (gm_set k v m) \<subseteq> insert v (snd ` set m)" for k :: char and v :: nat and m
    by (induction m) (auto simp: gm_set_def)
  have new: "gm_get (fs_formal f) (normalizeFlagName f (fl_Name fl)) = None"
    using assms by (auto simp: AddFlag_def Let_def split: if_splits)
  note AddFlag_def [unfolded Let_def, simp]
  show thesis
  proof (cases "fl_Shorthand fl")
    case Nil
    with assms new have "f' = f\<lparr>fs_flags := fs_flags f @ [fl\<lparr>fl_Name := normalizeFlagName f (fl_Name fl)\<rparr>],
        fs_formal := gm_set (normalizeFlagName f (fl_Name fl)) (length (fs_flags f)) (fs_formal f), fs_shorthands := fs_shorthands f\<rparr>"
      by auto
    then show thesis by (rule that [OF _ _ new]) blast
  next
    case (Cons c cs)
    have "cs = []" using assms new Cons by (cases cs) simp_all
    moreover have "gm_get (fs_shorthands f) c = None" using assms new Cons \<open>cs = []\<close> by (simp split: if_splits)
    ultimately show thesis
      using assms new Cons that [of "gm_set c (length (fs_flags f)) (fs_shorthands f)"] snd_set by simp
  qed
qed

lemma AddFlag_setters:
  assumes "AddFlag fl f = Ok f'" "pointers_ok f"
  shows "pointers_ok f'" "fs_normalizeNameFunc f' = fs_normalizeNameFunc f" "fs_vars f' = fs_vars f" "fs_errorHandling f' = fs_errorHandling f"
    "setter_of f' n = (if normalizeFlagName f n = normalizeFlagName f (fl_Name fl) then Some (fl_Set fl) else setter_of f n)"
proof -
  let ?nn = "normalizeFlagName f (fl_Name fl)" and ?p = "length (fs_flags f)"
  from assms(1) obtain sh where f': "f' = f\<lparr>fs_flags := fs_flags f @ [fl\<lparr>fl_Name := ?nn\<rparr>], fs_formal := gm_set ?nn ?p (fs_formal f), fs_shorthands := sh\<rparr>"
    and sh: "snd ` set sh \<subseteq> insert ?p (snd ` set (fs_shorthands f))"
    by (rule AddFlag_Ok)
  show "fs_normalizeNameFunc f' = fs_normalizeNameFunc f" "fs_vars f' = fs_vars f" "fs_errorHandling f' = fs_errorHandling f"
    by (simp_all add: f')
  have snd_set: "snd ` set (gm_set ?nn ?p m) \<subseteq> insert ?p (snd ` set m)" for m
    by (induction m) (auto simp: gm_set_def)
  have fm: "snd ` set (fs_formal f') \<subseteq> insert ?p (snd ` set (fs_formal f))" using snd_set [of "fs_formal f"] by (simp add: f')
  have old: "\<forall>p \<in> snd ` set (fs_formal f). p < ?p" "\<forall>p \<in> snd ` set (fs_shorthands f). p < ?p"
    using assms(2) by (auto simp: pointers_ok_def)
  have "\<forall>p \<in> snd ` set (fs_formal f'). p < Suc ?p"
  proof
    fix p assume "p \<in> snd ` set (fs_formal f')"
    with fm have "p = ?p \<or> p \<in> snd ` set (fs_formal f)" by blast
    with old(1) less_SucI show "p < Suc ?p" by blast
  qed
  moreover have "\<forall>p \<in> snd ` set sh. p < Suc ?p"
  proof
    fix p assume "p \<in> snd ` set sh"
    with sh have "p = ?p \<or> p \<in> snd ` set (fs_shorthands f)" by blast
    with old(2) less_SucI show "p < Suc ?p" by blast
  qed
  ultimately have "\<forall>p \<in> snd ` set (fs_formal f') \<union> snd ` set sh. p < Suc ?p" by blast
  then show "pointers_ok f'" by (simp add: pointers_ok_def f')
  have "setter_of f n = map_option (\<lambda>p. fl_Set ((fs_flags f @ [fl\<lparr>fl_Name := ?nn\<rparr>]) ! p)) (Lookup f n)"
    using Lookup_pointer [OF assms(2), of n] by (cases "Lookup f n") (simp_all add: setter_of_def nth_append)
  then show "setter_of f' n = (if normalizeFlagName f n = ?nn then Some (fl_Set fl) else setter_of f n)"
    by (simp add: setter_of_def Lookup_def f' normalizeFlagName_def GetNormalizeFunc_def gomap_simps)
qed

text \<open>Registering the flags of the daemon: each name sets its variable.\<close>

definition bound :: "conv \<Rightarrow> (string \<times> flag_var) list \<Rightarrow> string \<Rightarrow> (string \<Rightarrow> ProxyServerConfig \<times> 'g \<Rightarrow> (ProxyServerConfig \<times> 'g) \<times> gerror option) option" where
  "bound cv fls n = map_option (set_var cv) (map_of fls n)"

text \<open>What the steps of \<open>InitFlags\<close> before parsing keep of a flag set.\<close>

definition keeps :: "'s FlagSet \<Rightarrow> 's FlagSet \<Rightarrow> bool" where
  "keeps f f' \<longleftrightarrow> fs_vars f' = fs_vars f \<and> fs_errorHandling f' = fs_errorHandling f \<and>
     (\<forall>n setter. setter_of f n = Some setter \<longrightarrow> setter_of f' n = Some setter)"

lemma keeps_refl [simp]: "keeps f f"
  by (simp add: keeps_def)

lemma keeps_trans: "keeps f f' \<Longrightarrow> keeps f' f'' \<Longrightarrow> keeps f f''"
  by (simp add: keeps_def)

lemma FlagVar_ok:
  assumes "pointers_ok f" "gm_wf (fs_formal f)" "fs_normalizeNameFunc f = None" "gm_get (fs_formal f) name = None"
  obtains f' where "FlagVar cv name var f = Ok f'" "pointers_ok f'" "gm_wf (fs_formal f')" "fs_normalizeNameFunc f' = None"
    "fs_vars f' = fs_vars f" "fs_errorHandling f' = fs_errorHandling f" "fs_shorthands f' = fs_shorthands f"
    "gm_get (fs_formal f') = (gm_get (fs_formal f))(name \<mapsto> length (fs_flags f))"
    "\<And>n. setter_of f' n = (if n = name then Some (set_var cv var) else setter_of f n)"
proof -
  have nn: "normalizeFlagName f n = n" for n using assms(3) by (simp add: normalizeFlagName_def GetNormalizeFunc_def)
  let ?fl = "\<lparr>fl_Name = name, fl_Shorthand = [], fl_Usage = [], fl_Set = set_var cv var, fl_Changed = False,
    fl_NoOptDefVal = (if var_kind var = BoolK then ''true'' else []), fl_Deprecated = [], fl_Hidden = False, fl_ShorthandDeprecated = []\<rparr>"
  let ?f' = "f\<lparr>fs_flags := fs_flags f @ [?fl], fs_formal := gm_set name (length (fs_flags f)) (fs_formal f)\<rparr>"
  have a: "AddFlag ?fl f = Ok ?f'" using assms(4) by (simp add: AddFlag_def nn)
  show thesis
  proof (rule that [of ?f'])
    show "FlagVar cv name var f = Ok ?f'" using a by (simp add: FlagVar_def VarPF_def)
    show "pointers_ok ?f'" by (rule AddFlag_setters(1) [OF a assms(1)])
    show "setter_of ?f' n = (if n = name then Some (set_var cv var) else setter_of f n)" for n
      using AddFlag_setters(5) [OF a assms(1), of n] by (simp add: nn)
    show "gm_get (fs_formal ?f') = (gm_get (fs_formal f))(name \<mapsto> length (fs_flags f))"
      by (simp add: gomap_simps)
  qed (use assms in simp_all)
qed

lemma register_flags_ok:
  assumes "pointers_ok f" "gm_wf (fs_formal f)" "fs_normalizeNameFunc f = None" "distinct (map fst fls)" "\<forall>n \<in> fst ` set fls. gm_get (fs_formal f) n = None"
  shows "\<exists>f'. register_flags cv fls f = Ok f' \<and> pointers_ok f' \<and> gm_wf (fs_formal f') \<and> fs_normalizeNameFunc f' = None \<and> fs_vars f' = fs_vars f \<and>
    fs_errorHandling f' = fs_errorHandling f \<and> fs_shorthands f' = fs_shorthands f \<and>
    (\<forall>n. setter_of f' n = (case bound cv fls n of None \<Rightarrow> setter_of f n | Some s \<Rightarrow> Some s)) \<and>
    dom (gm_get (fs_formal f')) = fst ` set fls \<union> dom (gm_get (fs_formal f))"
  using assms
proof (induction fls arbitrary: f)
  case Nil
  then show ?case by (simp add: bound_def)
next
  case (Cons a fls)
  obtain name var where a: "a = (name, var)" by (cases a)
  have new: "gm_get (fs_formal f) name = None" using Cons.prems(5) a by simp
  obtain f1 where f1: "FlagVar cv name var f = Ok f1" "pointers_ok f1" "gm_wf (fs_formal f1)" "fs_normalizeNameFunc f1 = None"
    "fs_vars f1 = fs_vars f" "fs_errorHandling f1 = fs_errorHandling f" "fs_shorthands f1 = fs_shorthands f"
    and g1: "gm_get (fs_formal f1) = (gm_get (fs_formal f))(name \<mapsto> length (fs_flags f))"
    and s1: "setter_of f1 n = (if n = name then Some (set_var cv var) else setter_of f n)" for n
    using FlagVar_ok [OF Cons.prems(1,2,3) new, of cv var] by blast
  have "\<forall>n \<in> fst ` set fls. gm_get (fs_formal f1) n = None" using Cons.prems(4,5) a by (auto simp: g1)
  with Cons.IH [OF f1(2-4)] Cons.prems(4) obtain f' where f': "register_flags cv fls f1 = Ok f'" "pointers_ok f'" "gm_wf (fs_formal f')"
      "fs_normalizeNameFunc f' = None" "fs_vars f' = fs_vars f1" "fs_errorHandling f' = fs_errorHandling f1" "fs_shorthands f' = fs_shorthands f1"
      "dom (gm_get (fs_formal f')) = fst ` set fls \<union> dom (gm_get (fs_formal f1))"
    and s': "\<forall>n. setter_of f' n = (case bound cv fls n of None \<Rightarrow> setter_of f1 n | Some s \<Rightarrow> Some s)"
    by auto
  have "map_of fls name = None" using Cons.prems(4) a by (simp add: map_of_eq_None_iff)
  then have "setter_of f' n = (case bound cv (a # fls) n of None \<Rightarrow> setter_of f n | Some s \<Rightarrow> Some s)" for n
    using s' s1 [of n] by (cases "n = name"; cases "map_of fls n") (simp_all add: a bound_def)
  moreover have "dom (gm_get (fs_formal f')) = fst ` set (a # fls) \<union> dom (gm_get (fs_formal f))"
    using f'(8) by (auto simp: g1 a)
  ultimately show ?case using f1 f' by (simp add: a)
qed

text \<open>Normalizing names that are normal already changes no flag.\<close>

lemma renormalize_same:
  assumes "\<forall>(k, v) \<in> set es. normalizeFlagName f k = k \<and> gm_get (fs_formal f) k = Some v \<and> v < length (fs_flags f)"
  shows "gm_get (fs_formal (renormalize es f)) = gm_get (fs_formal f) \<and> map fl_Set (fs_flags (renormalize es f)) = map fl_Set (fs_flags f) \<and>
    snd ` set (fs_formal (renormalize es f)) \<subseteq> snd ` set (fs_formal f) \<union> snd ` set es \<and>
    fs_vars (renormalize es f) = fs_vars f \<and> fs_errorHandling (renormalize es f) = fs_errorHandling f \<and>
    fs_shorthands (renormalize es f) = fs_shorthands f \<and> fs_normalizeNameFunc (renormalize es f) = fs_normalizeNameFunc f"
  using assms
proof (induction es f rule: renormalize.induct)
  case (1 f)
  then show ?case by simp
next
  case (2 k v rest f)
  from 2(2) have kv: "normalizeFlagName f k = k" "gm_get (fs_formal f) k = Some v" "v < length (fs_flags f)" by simp_all
  let ?f1 = "f\<lparr>fs_formal := gm_set k v (gm_del k (fs_formal f)), fs_flags := (fs_flags f)[v := (fs_flags f ! v)\<lparr>fl_Name := k\<rparr>]\<rparr>"
  have r: "renormalize ((k, v) # rest) f = renormalize rest ?f1" using kv by (simp add: Let_def)
  have g: "gm_get (fs_formal ?f1) = gm_get (fs_formal f)" using kv(2) by (auto simp: gomap_simps)
  have m: "map fl_Set (fs_flags ?f1) = map fl_Set (fs_flags f)" using kv(3) by (simp add: map_update list_update_same_conv)
  have set_snd: "snd ` set (gm_set k v m) \<subseteq> insert v (snd ` set m)" for m by (induction m) (auto simp: gm_set_def)
  have "set (gm_del k (fs_formal f)) \<subseteq> set (fs_formal f)" by (auto simp: gm_del_def AList.delete_eq)
  with set_snd [of "gm_del k (fs_formal f)"] have sn: "snd ` set (fs_formal ?f1) \<subseteq> insert v (snd ` set (fs_formal f))" by auto
  have l: "length (fs_flags ?f1) = length (fs_flags f)" "normalizeFlagName ?f1 = normalizeFlagName f"
    by (simp_all add: normalizeFlagName_def GetNormalizeFunc_def fun_eq_iff)
  have "\<forall>(k, v) \<in> set rest. normalizeFlagName ?f1 k = k \<and> gm_get (fs_formal ?f1) k = Some v \<and> v < length (fs_flags ?f1)"
    using 2(2) unfolding g l by simp
  note IH = 2(1) [OF refl, unfolded kv(1), OF this]
  then have "snd ` set (fs_formal (renormalize rest ?f1)) \<subseteq> snd ` set (fs_formal ?f1) \<union> snd ` set rest" by blast
  also have "\<dots> \<subseteq> snd ` set (fs_formal f) \<union> snd ` set ((k, v) # rest)"
    using Un_mono [OF sn order_refl, of "snd ` set rest"] by simp
  finally show ?case using IH unfolding r g m by simp
qed

lemma SetNormalizeFunc_keeps:
  assumes "pointers_ok f" "gm_wf (fs_formal f)" "fs_normalizeNameFunc f = None" "\<forall>n \<in> dom (gm_get (fs_formal f)). nf n = n"
  shows "keeps f (SetNormalizeFunc nf f)" "pointers_ok (SetNormalizeFunc nf f)" "fs_normalizeNameFunc (SetNormalizeFunc nf f) = Some nf"
    "fs_shorthands (SetNormalizeFunc nf f) = fs_shorthands f"
proof -
  let ?g = "f\<lparr>fs_normalizeNameFunc := Some nf\<rparr>"
  have nn: "normalizeFlagName ?g k = nf k" for k by (simp add: normalizeFlagName_def GetNormalizeFunc_def)
  have "\<forall>(k, v) \<in> set (fs_formal f). normalizeFlagName ?g k = k \<and> gm_get (fs_formal ?g) k = Some v \<and> v < length (fs_flags ?g)"
    using assms by (auto simp: nn gomap_simps pointers_ok_def dom_map_of_conv_image_fst rev_image_eqI)
  note R = renormalize_same [OF this, folded SetNormalizeFunc_def]
  let ?f' = "SetNormalizeFunc nf f"
  have len: "length (fs_flags ?f') = length (fs_flags f)" using R by (metis FlagSet.select_convs(2) FlagSet.surjective FlagSet.update_convs(11) length_map)
  show "fs_normalizeNameFunc ?f' = Some nf" "fs_shorthands ?f' = fs_shorthands f" using R by simp_all
  have sub: "snd ` set (fs_formal ?f') \<subseteq> snd ` set (fs_formal f)" and sh: "fs_shorthands ?f' = fs_shorthands f" using R by simp_all
  show "pointers_ok ?f'" unfolding pointers_ok_def len sh using assms(1) [unfolded pointers_ok_def] sub by blast
  have "setter_of ?f' n = Some setter" if st: "setter_of f n = Some setter" for n setter
  proof -
    from st obtain p where p: "gm_get (fs_formal f) n = Some p" "setter = fl_Set (fs_flags f ! p)"
      by (auto simp: setter_of_def Lookup_def normalizeFlagName_def GetNormalizeFunc_def assms(3))
    then have "nf n = n" "p < length (fs_flags f)" using assms(1,4) Lookup_pointer [of f n p]
      by (auto simp: Lookup_def normalizeFlagName_def GetNormalizeFunc_def assms(3))
    moreover from this R have "fl_Set (fs_flags ?f' ! p) = fl_Set (fs_flags f ! p)"
      by (metis FlagSet.select_convs(2) FlagSet.surjective FlagSet.update_convs(11) len nth_map)
    ultimately show ?thesis using R p by (simp add: setter_of_def Lookup_def normalizeFlagName_def GetNormalizeFunc_def)
  qed
  then show "keeps f ?f'" using R by (simp add: keeps_def)
qed

text \<open>A flag of Go's flag package is only added under a name that is still free, and its shorthand is its name, so
  nothing is redefined.\<close>

definition shorts_named :: "'s FlagSet \<Rightarrow> bool" where
  "shorts_named f \<longleftrightarrow> (\<forall>c. gm_get (fs_shorthands f) c \<noteq> None \<longrightarrow> Lookup f [c] \<noteq> None)"

lemma AddGoFlag_ok:
  assumes "pointers_ok f" "shorts_named f"
  obtains f' where "AddGoFlag g f = Ok f'" "pointers_ok f'" "shorts_named f'" "keeps f f'"
proof (cases "Lookup f (gf_Name g)")
  case (Some p)
  then show thesis using that [of f] assms by (simp add: AddGoFlag_def)
next
  case None
  let ?fl = "PFlagFromGoFlag g" and ?nn = "normalizeFlagName f (gf_Name g)" and ?p = "length (fs_flags f)"
  have nn: "fl_Name ?fl = gf_Name g" by (simp add: PFlagFromGoFlag_def)
  have new: "gm_get (fs_formal f) ?nn = None" using None by (simp add: Lookup_def)
  let ?f1 = "f\<lparr>fs_flags := fs_flags f @ [?fl\<lparr>fl_Name := ?nn\<rparr>], fs_formal := gm_set ?nn ?p (fs_formal f)\<rparr>"
  have L1: "Lookup f n \<noteq> None \<Longrightarrow> Lookup ?f1 n \<noteq> None" "Lookup ?f1 (gf_Name g) \<noteq> None" for n
    by (auto simp: Lookup_def normalizeFlagName_def GetNormalizeFunc_def gomap_simps)
  have "\<exists>f'. AddFlag ?fl f = Ok f' \<and> shorts_named f'"
  proof (cases "length (gf_Name g) = 1")
    case False
    have "AddFlag ?fl f = Ok ?f1" using new False by (simp add: AddFlag_def Let_def nn PFlagFromGoFlag_def)
    moreover have "shorts_named ?f1" using assms(2) L1(1) by (auto simp: shorts_named_def)
    ultimately show ?thesis by blast
  next
    case True
    then obtain c where c: "gf_Name g = [c]" by (cases "gf_Name g") auto
    then have "gm_get (fs_shorthands f) c = None" using None assms(2) by (auto simp: shorts_named_def)
    then have "AddFlag ?fl f = Ok (?f1\<lparr>fs_shorthands := gm_set c ?p (fs_shorthands f)\<rparr>)"
      using new c by (simp add: AddFlag_def Let_def nn PFlagFromGoFlag_def)
    moreover have "shorts_named (?f1\<lparr>fs_shorthands := gm_set c ?p (fs_shorthands f)\<rparr>)"
      using assms(2) L1 c by (auto simp: shorts_named_def Lookup_def normalizeFlagName_def GetNormalizeFunc_def gomap_simps split: if_splits)
    ultimately show ?thesis by blast
  qed
  then obtain f' where f': "AddFlag ?fl f = Ok f'" "shorts_named f'" by blast
  note S = AddFlag_setters [OF f'(1) assms(1)]
  have "setter_of f' n = Some setter" if "setter_of f n = Some setter" for n setter
    using S(5) [of n] that None by (auto simp: nn setter_of_def Lookup_def)
  with S(3,4) have "keeps f f'" by (simp add: keeps_def)
  with that [OF _ S(1) f'(2)] show thesis using f'(1) None by (simp add: AddGoFlag_def)
qed

lemma AddGoFlagSet_ok:
  assumes "pointers_ok f" "shorts_named f"
  shows "\<exists>f'. AddGoFlagSet gs f = Ok f' \<and> pointers_ok f' \<and> keeps f f'"
  using assms
proof (induction gs arbitrary: f)
  case (Cons g gs)
  obtain f1 where f1: "AddGoFlag g f = Ok f1" "pointers_ok f1" "shorts_named f1" "keeps f f1"
    using AddGoFlag_ok [OF Cons.prems] by blast
  with Cons.IH [OF f1(2,3)] keeps_trans [OF f1(4)] show ?case by auto
qed simp

section \<open>A written configuration is read back\<close>

definition flag_text :: "conv \<Rightarrow> flag_value \<Rightarrow> string" where
  "flag_text cv v =
     (case v of StringVal x \<Rightarrow> x | IntVal i \<Rightarrow> Itoa i | Float32Val x \<Rightarrow> cv_FormatFloat cv x | BoolVal b \<Rightarrow> FormatBool b
      | DurationVal d \<Rightarrow> cv_FormatDuration cv d)"

text \<open>Integers fit into 64 bits, and the texts of floating point numbers and durations read back as what they print.\<close>

definition readable :: "conv \<Rightarrow> flag_value \<Rightarrow> bool" where
  "readable cv v \<longleftrightarrow>
     (case v of IntVal i \<Rightarrow> - (2 ^ 63) \<le> i \<and> i < 2 ^ 63
      | Float32Val x \<Rightarrow> cv_ParseFloat cv (cv_FormatFloat cv x) = (x, None)
      | DurationVal d \<Rightarrow> cv_ParseDuration cv (cv_FormatDuration cv d) = (d, None)
      | _ \<Rightarrow> True)"

lemmas Set_defs = stringValue_Set_def intValue_Set_def float32Value_Set_def boolValue_Set_def durationValue_Set_def

lemma set_var_text:
  assumes "store_var var v s = Some s'" "readable cv v"
  shows "set_var cv var (flag_text cv v) (s, g) = ((s', g), None)"
proof -
  have "read_value cv (var_kind var) (flag_text cv v) = (v, None)"
    using assms by (cases var; cases v)
      (simp_all add: Set_defs flag_text_def readable_def num_err_def ParseInt_Itoa ParseBool_FormatBool)
  with assms(1) show ?thesis by (simp add: set_var_def)
qed

lemma apply_sets_flags:
  assumes "parse_flags asg s = Inr config" "\<forall>a \<in> set asg. readable cv (snd a)"
    and "\<And>n var. map_of AddFlags n = Some var \<Longrightarrow> L n = Some (set_var cv var)"
  shows "apply_sets L (map (map_prod id (flag_text cv)) asg) (s, g) = Some (config, g)"
  using assms(1,2)
proof (induction asg arbitrary: s)
  case (Cons a asg)
  obtain n v where a: "a = (n, v)" by (cases a)
  from Cons.prems(1) a obtain var s' where "map_of AddFlags n = Some var" "store_var var v s = Some s'" "parse_flags asg s' = Inr config"
    by (auto simp: parse_flag_def split: option.splits)
  with Cons a assms(3) set_var_text [of var v s s' cv g] show ?case by simp
qed simp

lemma flag_names: "\<forall>n \<in> fst ` set AddFlags. long_name n \<and> WordSepNormalizeFunc n = n"
  by (simp add: AddFlags_def long_name_def WordSepNormalizeFunc_def)

lemma parse_flags_names: "parse_flags asg s = Inr config \<Longrightarrow> a \<in> set asg \<Longrightarrow> fst a \<in> fst ` set AddFlags"
proof (induction asg arbitrary: s)
  case (Cons b asg)
  from Cons.prems(1) obtain var s' where "map_of AddFlags (fst b) = Some var" "parse_flags asg s' = Inr config"
    by (auto simp: parse_flag_def split: option.splits)
  with Cons show ?case by (auto dest: map_of_SomeD intro: rev_image_eqI)
qed simp

text \<open>The flag set that \<open>main\<close> hands to \<open>InitFlags\<close>.\<close>

lemma registered_flags:
  obtains f0 where "register_flags cv AddFlags (NewFlagSet (NewProxyServerConfig, g) ExitOnError) = Ok f0" "pointers_ok f0" "gm_wf (fs_formal f0)"
    "fs_normalizeNameFunc f0 = None" "fs_vars f0 = (NewProxyServerConfig, g)" "fs_shorthands f0 = []"
    "\<forall>n \<in> dom (gm_get (fs_formal f0)). WordSepNormalizeFunc n = n" "\<And>n var. map_of AddFlags n = Some var \<Longrightarrow> setter_of f0 n = Some (set_var cv var)"
proof -
  let ?f = "NewFlagSet (NewProxyServerConfig, g) ExitOnError"
  have "distinct (map fst AddFlags)" by (simp add: AddFlags_def)
  then have "\<exists>f'. register_flags cv AddFlags ?f = Ok f' \<and> pointers_ok f' \<and> gm_wf (fs_formal f') \<and> fs_normalizeNameFunc f' = None \<and> fs_vars f' = fs_vars ?f \<and>
      fs_errorHandling f' = fs_errorHandling ?f \<and> fs_shorthands f' = fs_shorthands ?f \<and>
      (\<forall>n. setter_of f' n = (case bound cv AddFlags n of None \<Rightarrow> setter_of ?f n | Some s \<Rightarrow> Some s)) \<and>
      dom (gm_get (fs_formal f')) = fst ` set AddFlags \<union> dom (gm_get (fs_formal ?f))"
    by (intro register_flags_ok) (simp_all add: NewFlagSet_def pointers_ok_def gm_get_def)
  then obtain f' where f': "register_flags cv AddFlags ?f = Ok f'" "pointers_ok f'" "gm_wf (fs_formal f')" "fs_normalizeNameFunc f' = None"
      "fs_vars f' = fs_vars ?f" "fs_shorthands f' = fs_shorthands ?f" "dom (gm_get (fs_formal f')) = fst ` set AddFlags \<union> dom (gm_get (fs_formal ?f))"
    and st: "\<forall>n. setter_of f' n = (case bound cv AddFlags n of None \<Rightarrow> setter_of ?f n | Some s \<Rightarrow> Some s)"
    by blast
  have "dom (gm_get (fs_formal ?f)) = {}" by (simp add: NewFlagSet_def gm_get_def dom_def)
  with f'(7) flag_names have "\<forall>n \<in> dom (gm_get (fs_formal f')). WordSepNormalizeFunc n = n" by simp
  moreover have "setter_of f' n = Some (set_var cv var)" if "map_of AddFlags n = Some var" for n var using st that by (simp add: bound_def)
  ultimately show thesis using f' by (intro that [of f']) (simp_all add: NewFlagSet_def)
qed

text \<open>C22: a configuration that is written on the command line is the one the daemon starts with: whatever flags Go's own
  flag set adds, \<open>main\<close> reads the texts of the values back and builds the server from exactly those values.\<close>

theorem command_line_roundtrip:
  assumes "parse_flags asg NewProxyServerConfig = Inr config" "\<forall>a \<in> set asg. readable cv (snd a)"
  shows "main_go cv H ClientConfig kubeclient_New E m N k goflags (map (\<lambda>(name, v). ''--'' @ name @ ''='' @ flag_text cv v) asg) g =
    (case NewProxyServerDefault ClientConfig kubeclient_New E m N k config of
       Ok s \<Rightarrow> Ok (s, http_server H config) | Fail err \<Rightarrow> Exit ''1'' | Panic e \<Rightarrow> Panic e | Exit e \<Rightarrow> Exit e)"
proof -
  obtain f0 where f0: "register_flags cv AddFlags (NewFlagSet (NewProxyServerConfig, g) ExitOnError) = Ok f0" "pointers_ok f0" "gm_wf (fs_formal f0)"
    "fs_normalizeNameFunc f0 = None" "fs_vars f0 = (NewProxyServerConfig, g)" "fs_shorthands f0 = []"
    "\<forall>n \<in> dom (gm_get (fs_formal f0)). WordSepNormalizeFunc n = n" and s0: "\<And>n var. map_of AddFlags n = Some var \<Longrightarrow> setter_of f0 n = Some (set_var cv var)"
    using registered_flags [of cv g] by blast
  let ?f1 = "SetNormalizeFunc WordSepNormalizeFunc f0"
  note f1 = SetNormalizeFunc_keeps [OF f0(2,3,4,7)]
  have "shorts_named ?f1" using f1(4) f0(6) by (simp add: shorts_named_def gm_get_def)
  with AddGoFlagSet_ok [OF f1(2)] obtain f2 where f2: "AddGoFlagSet goflags ?f1 = Ok f2" "pointers_ok f2" "keeps ?f1 f2" by blast
  have k: "keeps f0 f2" by (rule keeps_trans [OF f1(1) f2(3)])
  let ?f3 = "f2\<lparr>fs_parsed := True, fs_args := []\<rparr>" and ?asg = "map (map_prod id (flag_text cv)) asg"
  have st: "setter_of ?f3 n = setter_of f2 n" for n
    by (simp add: setter_of_def Lookup_def normalizeFlagName_def GetNormalizeFunc_def)
  have "setter_of ?f3 n = Some (set_var cv var)" if "map_of AddFlags n = Some var" for n var
    using s0 [OF that] k st by (simp add: keeps_def)
  then have "apply_sets (setter_of ?f3) ?asg (NewProxyServerConfig, g) = Some (config, g)"
    by (rule apply_sets_flags [OF assms])
  moreover have "fs_vars ?f3 = (NewProxyServerConfig, g)" using k f0(5) by (simp add: keeps_def)
  moreover have "pointers_ok ?f3" using f2(2) by (simp add: pointers_ok_def)
  moreover have "\<forall>a \<in> set ?asg. long_name (fst a)" using parse_flags_names [OF assms(1)] flag_names by force
  ultimately obtain f4 where f4: "parseArgs (map long_arg ?asg) ?f3 = (None, f4)" "fs_vars f4 = (config, g)"
    using parse_assigns [of ?f3 ?asg "[]"] by auto
  have args: "map long_arg ?asg = map (\<lambda>(name, v). ''--'' @ name @ ''='' @ flag_text cv v) asg"
    by (auto simp: long_arg_def)
  have "InitFlags goflags (map (\<lambda>(name, v). ''--'' @ name @ ''='' @ flag_text cv v) asg) f0 = Ok f4"
    using f2(1) f4(1) unfolding args [symmetric] by (simp add: InitFlags_def Parse_def)
  with f0(1) f4(2) show ?thesis by (simp add: main_go_def)
qed

lemma server_mux_eq:
  "server_mux H config =
     (let h = [(''/healthz'', Explicit (handleRootHealthz (ep_err_text H) [PingHealthz])),
               (''/healthz/ping'', Explicit (adaptCheckToHandler (ep_err_text H) (hc_Check PingHealthz)))] in
      Ok (h @ (if cf_EnableProfiling config
               then [(''/debug/pprof/'', Explicit (ep_Index H)), (''/debug/pprof'', RedirectTo ''/debug/pprof/''),
                     (''/debug/pprof/profile'', Explicit (ep_Profile H)), (''/debug/pprof/symbol'', Explicit (ep_Symbol H))]
               else []) @ [(''/metrics'', Explicit (ep_prometheus H))]))"
  by (simp add: server_mux_def InstallHandler_def profiling_routes_def mux_Handle_def gm_set_def gm_get_def check_path_def PingHealthz_def Let_def)

lemma mux_match_append:
  "mux_match (m @ m') path =
     (case mux_match m' path of None \<Rightarrow> mux_match m path
      | Some (best, h') \<Rightarrow> (case mux_match m path of None \<Rightarrow> Some (best, h')
          | Some (q, h) \<Rightarrow> if length q \<ge> length best then Some (q, h) else Some (best, h')))"
  by (induction m) (auto split: option.splits if_splits)

text \<open>With a port, the daemon serves on the given address: health is always answered with 200 (no check is installed but the
  one that always passes), metrics by the metrics library, and the profiler is reached exactly when profiling is enabled.\<close>

theorem daemon_endpoints:
  assumes "cf_Port config > 0"
  shows "\<exists>m. http_server H config = Some (JoinHostPort (cf_Address config) (Itoa (cf_Port config)), Ok m) \<and>
    (\<forall>r. (hr_Path r = ''/healthz'' \<longrightarrow> re_Status (mux_serve m r) = 200) \<and> (hr_Path r = ''/metrics'' \<longrightarrow> mux_serve m r = ep_prometheus H r) \<and>
      (prefix ''/debug/pprof/'' (hr_Path r) \<longrightarrow>
        mux_serve m r =
          (if \<not> cf_EnableProfiling config then http_Error ''404 page not found'' 404
           else if hr_Path r = ''/debug/pprof/profile'' then ep_Profile H r
           else if hr_Path r = ''/debug/pprof/symbol'' then ep_Symbol H r
           else ep_Index H r)))"
proof -
  let ?root = "handleRootHealthz (ep_err_text H) [PingHealthz]" and ?ping = "adaptCheckToHandler (ep_err_text H) (hc_Check PingHealthz)"
  let ?h = "[(''/healthz'', Explicit ?root), (''/healthz/ping'', Explicit ?ping)]"
  let ?p = "[(''/debug/pprof/'', Explicit (ep_Index H)), (''/debug/pprof'', RedirectTo ''/debug/pprof/''),
    (''/debug/pprof/profile'', Explicit (ep_Profile H)), (''/debug/pprof/symbol'', Explicit (ep_Symbol H))]"
  let ?m = "?h @ (if cf_EnableProfiling config then ?p else []) @ [(''/metrics'', Explicit (ep_prometheus H))]"
  have mux: "server_mux H config = Ok ?m" by (simp only: server_mux_eq Let_def)
  have wf: "gm_wf ?m" by (cases "cf_EnableProfiling config") simp_all
  have "re_Status (mux_serve ?m r) = 200" if "hr_Path r = ''/healthz''" for r
  proof -
    have "mux_serve ?m r = ?root r" using that by (intro serve_exact [OF wf]) (simp_all add: gm_get_def)
    then show ?thesis by (simp add: handleRootHealthz_def PingHealthz_def StatusOK_def)
  qed
  moreover have "mux_serve ?m r = ep_prometheus H r" if "hr_Path r = ''/metrics''" for r
    using that by (intro serve_exact [OF wf]) (simp_all add: gm_get_def)
  moreover have "mux_serve ?m r =
      (if \<not> cf_EnableProfiling config then http_Error ''404 page not found'' 404
       else if hr_Path r = ''/debug/pprof/profile'' then ep_Profile H r
       else if hr_Path r = ''/debug/pprof/symbol'' then ep_Symbol H r
       else ep_Index H r)" if "prefix ''/debug/pprof/'' (hr_Path r)" for r
  proof -
    from that obtain rest where path: "hr_Path r = ''/debug/pprof/'' @ rest" by (auto simp: prefix_def)
    have "mux_match ?h (hr_Path r) = None" "mux_match [(''/metrics'', Explicit (ep_prometheus H))] (hr_Path r) = None"
      by (simp_all add: path pathMatch_def)
    then have "mux_match ?m (hr_Path r) = mux_match (if cf_EnableProfiling config then ?p else []) (hr_Path r)"
      unfolding mux_match_append by (simp del: mux_match.simps(2) append_Cons split: option.split)
    moreover have "mux_match ?p (hr_Path r) =
        (if rest = ''profile'' then Some (''/debug/pprof/profile'', Explicit (ep_Profile H))
         else if rest = ''symbol'' then Some (''/debug/pprof/symbol'', Explicit (ep_Symbol H))
         else Some (''/debug/pprof/'', Explicit (ep_Index H)))"
      by (simp add: path pathMatch_def)
    ultimately show ?thesis by (simp add: mux_serve_def path del: mux_match.simps(2))
  qed
  ultimately show ?thesis using assms mux by (intro exI [of _ ?m]) (simp add: http_server_def)
qed

text \<open>Texts of floating point numbers and durations for examples: as many characters as the number says.\<close>

definition demo_conv :: conv where
  "demo_conv = \<lparr>cv_ParseFloat = (\<lambda>s. (of_nat (length s), None)), cv_ParseDuration = (\<lambda>s. (of_nat (length s), None)),
     cv_FormatFloat = (\<lambda>x. replicate (nat \<lfloor>x\<rfloor>) CHR ''1''), cv_FormatDuration = (\<lambda>d. replicate (unat d) CHR ''s'')\<rparr>"

definition demo_handlers :: endpoints where
  "demo_handlers =
     (let h = (\<lambda>_. \<lparr>re_Status = 200, re_Body = ''''\<rparr>) in
      \<lparr>ep_err_text = (\<lambda>_. ''''), ep_Index = h, ep_Profile = h, ep_Symbol = h, ep_prometheus = h\<rparr>)"

lemma port_80: "Itoa 80 = ''80''"
  by code_simp

theorem daemon_endpoints_witness:
  "\<exists>m. http_server demo_handlers (NewProxyServerConfig\<lparr>cf_Port := 80\<rparr>) = Some ('':80'', Ok m) \<and>
     mux_serve m \<lparr>hr_Path = ''/debug/pprof/heap'', hr_Query = []\<rparr> = http_Error ''404 page not found'' 404"
proof -
  let ?config = "NewProxyServerConfig\<lparr>cf_Port := 80\<rparr>" and ?r = "\<lparr>hr_Path = ''/debug/pprof/heap'', hr_Query = []\<rparr>"
  have "cf_Port ?config > 0" "prefix ''/debug/pprof/'' (hr_Path ?r)" "\<not> cf_EnableProfiling ?config" by (simp_all add: NewProxyServerConfig_def)
  with daemon_endpoints [of ?config demo_handlers] obtain m where
    "http_server demo_handlers ?config = Some (JoinHostPort (cf_Address ?config) (Itoa (cf_Port ?config)), Ok m)"
    "mux_serve m ?r = http_Error ''404 page not found'' 404"
    by metis
  moreover have "JoinHostPort (cf_Address ?config) (Itoa (cf_Port ?config)) = '':80''"
    using port_80 by (simp add: NewProxyServerConfig_def JoinHostPort_def)
  ultimately show ?thesis by simp
qed

theorem command_line_roundtrip_witness:
  "main_go demo_conv demo_handlers (\<lambda>_ _. Ok ()) (\<lambda>_ _ _. Ok ()) friendly_env \<lparr>files = (\<lambda>_. Some ''''), scripts_run = []\<rparr> (h_netlink demo_host) []
      [] [''--device=eth1'', ''--sync-period=sss'', ''--profiling=true''] () =
    (case NewProxyServerDefault (\<lambda>_ _. Ok ()) (\<lambda>_ _ _. Ok ()) friendly_env \<lparr>files = (\<lambda>_. Some ''''), scripts_run = []\<rparr> (h_netlink demo_host) []
        (NewProxyServerConfig\<lparr>cf_Device := ''eth1'', cf_SyncPeriod := 3, cf_EnableProfiling := True\<rparr>) of
       Ok s \<Rightarrow> Ok (s, None) | Fail err \<Rightarrow> Exit ''1'' | Panic e \<Rightarrow> Panic e | Exit e \<Rightarrow> Exit e)"
proof -
  let ?asg = "[(''device'', StringVal ''eth1''), (''sync-period'', DurationVal 3), (''profiling'', BoolVal True)]"
  let ?config = "NewProxyServerConfig\<lparr>cf_Device := ''eth1'', cf_SyncPeriod := 3, cf_EnableProfiling := True\<rparr>"
  have p: "parse_flags ?asg NewProxyServerConfig = Inr ?config" by (simp add: parse_flag_def AddFlags_def)
  have r: "\<forall>a \<in> set ?asg. readable demo_conv (snd a)" by (simp add: readable_def demo_conv_def)
  have "replicate (unat (3 :: duration)) CHR ''s'' = ''sss''" by code_simp
  then have t: "map (\<lambda>(name, v). ''--'' @ name @ ''='' @ flag_text demo_conv v) ?asg = [''--device=eth1'', ''--sync-period=sss'', ''--profiling=true'']"
    by (simp only: list.map prod.case flag_text_def flag_value.case demo_conv_def conv.select_convs FormatBool_def if_True append_Cons append_Nil)
  have h: "http_server demo_handlers ?config = None" by (simp add: http_server_def NewProxyServerConfig_def)
  show ?thesis
    using command_line_roundtrip [OF p r, of demo_handlers "\<lambda>_ _. Ok ()" "\<lambda>_ _ _. Ok ()" friendly_env
        "\<lparr>files = (\<lambda>_. Some ''''), scripts_run = []\<rparr>" "h_netlink demo_host" "[]" "[]" "()"] unfolding t h .
qed

end
