(* ===== verification/TextTemplate.thy ===== *)
theory TextTemplate
  imports Template Strconv "HOL-Library.List_Lexorder" "HOL-Library.Char_ord" "HOL-Library.Sublist"
begin

text \<open>
  The part of Go's \<open>text/template\<close> that the templates of the daemon use: text, trim markers, actions with pipelines,
  \<open>range\<close> over maps (in the order of their keys) and slices, \<open>if\<close>, variables, fields and the functions of
  \<open>util/template/template.go\<close>. A text outside this part (string constants, \<open>else\<close>, \<open>with\<close>, nested templates, the built-in
  functions) does not parse here; the theorems on commits are about any engine, this one is for the shipped templates.
\<close>

section \<open>Lexing\<close>

datatype seg = SText string | SAction string

definition is_space :: "char \<Rightarrow> bool" where
  "is_space c \<longleftrightarrow> c = CHR '' '' \<or> c = CHR 0x09 \<or> c = CHR 0x0D \<or> c = CHR 0x0A"

definition trim_left :: "string \<Rightarrow> string" where
  "trim_left s = dropWhile is_space s"

definition trim_right :: "string \<Rightarrow> string" where
  "trim_right s = rev (dropWhile is_space (rev s))"

fun find_sub :: "string \<Rightarrow> string \<Rightarrow> (string \<times> string) option" where
  "find_sub p [] = (if p = [] then Some ([], []) else None)"
| "find_sub p (c # cs) =
     (if prefix p (c # cs) then Some ([], drop (length p) (c # cs))
      else (case find_sub p cs of None \<Rightarrow> None | Some (a, b) \<Rightarrow> Some (c # a, b)))"

lemma find_sub_length: "find_sub p s = Some (a, b) \<Longrightarrow> length b + length p \<le> length s"
  by (induction s arbitrary: a b) (auto split: if_splits option.splits dest: prefix_length_le)

lemma lex_shorter:
  assumes "find_sub ''{{'' (if t then trim_left s else s) = Some (txt, rest)" "find_sub ''}}'' (if lt then drop 2 rest else rest) = Some (body, after)"
  shows "length after < length s"
proof -
  have "length (if t then trim_left s else s) \<le> length s" by (simp add: trim_left_def length_dropWhile_le)
  moreover have "length (if lt then drop 2 rest else rest) \<le> length rest" by simp
  ultimately show ?thesis using find_sub_length [OF assms(1)] find_sub_length [OF assms(2)] by simp
qed

function lex :: "bool \<Rightarrow> string \<Rightarrow> seg list option" where
  "lex trimmed s =
     (let s1 = (if trimmed then trim_left s else s) in
      case find_sub ''{{'' s1 of
        None \<Rightarrow> Some [SText s1]
      | Some (txt, rest) \<Rightarrow>
          (let lt = prefix ''- '' rest;
               txt1 = (if lt then trim_right txt else txt);
               rest1 = (if lt then drop 2 rest else rest) in
           case find_sub ''}}'' rest1 of
             None \<Rightarrow> None
           | Some (body, after) \<Rightarrow>
               (let rt = suffix '' -'' body;
                    body1 = (if rt then take (length body - 2) body else body) in
                case lex rt after of
                  None \<Rightarrow> None
                | Some segs \<Rightarrow> Some (SText txt1 # SAction body1 # segs))))"
  by pat_completeness auto

termination
  by (relation "measure (\<lambda>(_, s). length s)") (auto intro: lex_shorter)

declare lex.simps [simp del]

fun flush :: "string \<Rightarrow> string list" where
  "flush [] = []"
| "flush w = [w]"

fun toks :: "string \<Rightarrow> string \<Rightarrow> string list" where
  "toks w [] = flush w"
| "toks w (c # cs) =
     (if is_space c then flush w @ toks [] cs
      else if c = CHR ''|'' \<or> c = CHR '','' then flush w @ [c] # toks [] cs
      else if c = CHR '':'' \<and> cs \<noteq> [] \<and> hd cs = CHR ''='' then flush w @ '':='' # toks [] (tl cs)
      else toks (w @ [c]) cs)"

section \<open>Parsing\<close>

datatype operand = Dot | FieldOp "string list" | VarOp string "string list" | FuncOp string

type_synonym command = "operand list"
type_synonym pipeline = "command list"

datatype node =
    TextNode string
  | ActionNode "string list" pipeline
  | RangeNode "string list" pipeline "node list"
  | IfNode "string list" pipeline "node list"

fun split_dots :: "string \<Rightarrow> string \<Rightarrow> string list" where
  "split_dots w [] = [w]"
| "split_dots w (c # cs) = (if c = CHR ''.'' then w # split_dots [] cs else split_dots (w @ [c]) cs)"

definition is_alnum :: "char \<Rightarrow> bool" where
  "is_alnum c = (let n = of_char c :: nat in 48 \<le> n \<and> n \<le> 57 \<or> 65 \<le> n \<and> n \<le> 90 \<or> 97 \<le> n \<and> n \<le> 122 \<or> n = 95)"

definition is_ident :: "string \<Rightarrow> bool" where
  "is_ident w \<longleftrightarrow> w \<noteq> [] \<and> list_all is_alnum w \<and> \<not> (48 \<le> (of_char (hd w) :: nat) \<and> (of_char (hd w) :: nat) \<le> 57)"

definition parse_operand :: "string \<Rightarrow> operand option" where
  "parse_operand w =
     (case w of
        [] \<Rightarrow> None
      | c # cs \<Rightarrow>
          if w = ''.'' then Some Dot
          else if c = CHR ''.'' then (let fs = split_dots [] cs in if list_all is_ident fs then Some (FieldOp fs) else None)
          else if c = CHR ''$'' then
            (case split_dots [] cs of
               v # fs \<Rightarrow> if is_ident v \<and> list_all is_ident fs then Some (VarOp (CHR ''$'' # v) fs) else None
             | [] \<Rightarrow> None)
          else if is_ident w then Some (FuncOp w) else None)"

fun sequence_opt :: "'a option list \<Rightarrow> 'a list option" where
  "sequence_opt [] = Some []"
| "sequence_opt (None # xs) = None"
| "sequence_opt (Some x # xs) = (case sequence_opt xs of None \<Rightarrow> None | Some ys \<Rightarrow> Some (x # ys))"

fun split_pipes :: "string list \<Rightarrow> string list \<Rightarrow> string list list" where
  "split_pipes cur [] = [cur]"
| "split_pipes cur (w # ws) = (if w = ''|'' then cur # split_pipes [] ws else split_pipes (cur @ [w]) ws)"

definition parse_command :: "string list \<Rightarrow> command option" where
  "parse_command ws = (if ws = [] then None else sequence_opt (map parse_operand ws))"

definition parse_pipeline :: "string list \<Rightarrow> pipeline option" where
  "parse_pipeline ws = sequence_opt (map parse_command (split_pipes [] ws))"

definition is_var :: "string \<Rightarrow> bool" where
  "is_var w \<longleftrightarrow> w \<noteq> [] \<and> hd w = CHR ''$'' \<and> is_ident (tl w)"

text \<open>Declarations in front of a pipeline: one variable, or two in a \<open>range\<close>.\<close>

definition parse_decls :: "bool \<Rightarrow> string list \<Rightarrow> (string list \<times> pipeline) option" where
  "parse_decls two ws =
     (case ws of
        v # a # rest \<Rightarrow>
          if is_var v \<and> a = '':='' then map_option (\<lambda>p. ([v], p)) (parse_pipeline rest)
          else
            (case rest of
               v2 # b # rest2 \<Rightarrow>
                 if two \<and> is_var v \<and> a = '','' \<and> is_var v2 \<and> b = '':='' then map_option (\<lambda>p. ([v, v2], p)) (parse_pipeline rest2)
                 else map_option (\<lambda>p. ([], p)) (parse_pipeline ws)
             | _ \<Rightarrow> map_option (\<lambda>p. ([], p)) (parse_pipeline ws))
      | _ \<Rightarrow> map_option (\<lambda>p. ([], p)) (parse_pipeline ws))"

datatype act = End | Open "node list \<Rightarrow> node" | Act node

definition parse_action :: "string \<Rightarrow> act option" where
  "parse_action body =
     (case toks [] body of
        [] \<Rightarrow> None
      | w # ws \<Rightarrow>
          if w = ''end'' then (if ws = [] then Some End else None)
          else if w = ''range'' then map_option (\<lambda>(ds, p). Open (RangeNode ds p)) (parse_decls True ws)
          else if w = ''if'' then map_option (\<lambda>(ds, p). Open (IfNode ds p)) (parse_decls False ws)
          else map_option (\<lambda>(ds, p). Act (ActionNode ds p)) (parse_decls False (w # ws)))"

text \<open>The blocks that are open, innermost first, each with the nodes before it (in reverse).\<close>

fun build :: "seg list \<Rightarrow> node list \<Rightarrow> ((node list \<Rightarrow> node) \<times> node list) list \<Rightarrow> node list option" where
  "build [] cur [] = Some (rev cur)"
| "build [] cur (_ # _) = None"
| "build (SText t # segs) cur open_blocks = build segs (if t = [] then cur else TextNode t # cur) open_blocks"
| "build (SAction a # segs) cur open_blocks =
     (case parse_action a of
        None \<Rightarrow> None
      | Some (Act n) \<Rightarrow> build segs (n # cur) open_blocks
      | Some (Open h) \<Rightarrow> build segs [] ((h, cur) # open_blocks)
      | Some End \<Rightarrow> (case open_blocks of [] \<Rightarrow> None | (h, outer) # rest \<Rightarrow> build segs (h (rev cur) # outer) rest))"

text \<open>Parsing also checks that variables are declared and functions known.\<close>

fun operand_ok :: "string list \<Rightarrow> string list \<Rightarrow> operand \<Rightarrow> bool" where
  "operand_ok fns vars (VarOp v _) \<longleftrightarrow> v \<in> set vars"
| "operand_ok fns vars (FuncOp f) \<longleftrightarrow> f \<in> set fns"
| "operand_ok fns vars _ \<longleftrightarrow> True"

definition pipeline_ok :: "string list \<Rightarrow> string list \<Rightarrow> pipeline \<Rightarrow> bool" where
  "pipeline_ok fns vars p \<longleftrightarrow> list_all (list_all (operand_ok fns vars)) p"

fun nodes_ok :: "string list \<Rightarrow> string list \<Rightarrow> node list \<Rightarrow> bool" where
  "nodes_ok fns vars [] \<longleftrightarrow> True"
| "nodes_ok fns vars (TextNode _ # ns) \<longleftrightarrow> nodes_ok fns vars ns"
| "nodes_ok fns vars (ActionNode ds p # ns) \<longleftrightarrow> pipeline_ok fns vars p \<and> nodes_ok fns (ds @ vars) ns"
| "nodes_ok fns vars (RangeNode ds p body # ns) \<longleftrightarrow> pipeline_ok fns vars p \<and> nodes_ok fns (ds @ vars) body \<and> nodes_ok fns vars ns"
| "nodes_ok fns vars (IfNode ds p body # ns) \<longleftrightarrow> pipeline_ok fns vars p \<and> nodes_ok fns (ds @ vars) body \<and> nodes_ok fns vars ns"

definition func_names :: "funcMap option \<Rightarrow> string list" where
  "func_names fm = (case fm of None \<Rightarrow> [] | Some _ \<Rightarrow> [''hasIP'', ''ToLower''])"

definition template_Parse :: "funcMap option \<Rightarrow> string \<Rightarrow> node list option" where
  "template_Parse fm content =
     (case lex False content of
        None \<Rightarrow> None
      | Some segs \<Rightarrow>
          (case build segs [] [] of
             None \<Rightarrow> None
           | Some ns \<Rightarrow> if nodes_ok (func_names fm) [''$''] ns then Some ns else None))"

section \<open>Executing\<close>

datatype val =
    VStr string
  | VInt int
  | VBool bool
  | VMap "(string \<times> val) list"
  | VSlice "val list"
  | VStruct "(string \<times> val) list"
  | VNone

definition field_of :: "val \<Rightarrow> string \<Rightarrow> gerror + val" where
  "field_of v f =
     (case v of
        VStruct fs \<Rightarrow> (case map_of fs f of Some x \<Rightarrow> Inr x | None \<Rightarrow> Inl (Errorf ''can't evaluate field''))
      | VMap m \<Rightarrow> Inr (case map_of m f of Some x \<Rightarrow> x | None \<Rightarrow> VNone)
      | _ \<Rightarrow> Inl (Errorf ''can't evaluate field''))"

fun fields_of :: "val \<Rightarrow> string list \<Rightarrow> gerror + val" where
  "fields_of v [] = Inr v"
| "fields_of v (f # fs) = (case field_of v f of Inl e \<Rightarrow> Inl e | Inr x \<Rightarrow> fields_of x fs)"

fun bool_map :: "(string \<times> val) list \<Rightarrow> (string, bool) gomap option" where
  "bool_map [] = Some []"
| "bool_map ((k, VBool b) # m) = map_option (\<lambda>r. (k, b) # r) (bool_map m)"
| "bool_map _ = None"

definition call :: "funcMap option \<Rightarrow> string \<Rightarrow> val list \<Rightarrow> gerror + val" where
  "call fm f args =
     (case fm of
        None \<Rightarrow> Inl (Errorf ''not a defined function'')
      | Some F \<Rightarrow>
          if f = ''hasIP'' then
            (case args of
               [VMap m, VStr ip] \<Rightarrow>
                 (case bool_map m of Some ips \<Rightarrow> Inr (VBool (fm_hasIP F ips ip)) | None \<Rightarrow> Inl (Errorf ''wrong type for value''))
             | _ \<Rightarrow> Inl (Errorf ''wrong arguments''))
          else if f = ''ToLower'' then (case args of [VStr s] \<Rightarrow> Inr (VStr (fm_ToLower F s)) | _ \<Rightarrow> Inl (Errorf ''wrong arguments''))
          else Inl (Errorf ''not a defined function''))"

definition eval_operand :: "funcMap option \<Rightarrow> val \<Rightarrow> (string \<times> val) list \<Rightarrow> operand \<Rightarrow> gerror + val" where
  "eval_operand fm dot vars x =
     (case x of
        Dot \<Rightarrow> Inr dot
      | FieldOp fs \<Rightarrow> fields_of dot fs
      | VarOp v fs \<Rightarrow> (case map_of vars v of Some u \<Rightarrow> fields_of u fs | None \<Rightarrow> Inl (Errorf ''undefined variable''))
      | FuncOp f \<Rightarrow> call fm f [])"

fun eval_args :: "funcMap option \<Rightarrow> val \<Rightarrow> (string \<times> val) list \<Rightarrow> operand list \<Rightarrow> gerror + val list" where
  "eval_args fm dot vars [] = Inr []"
| "eval_args fm dot vars (x # xs) =
     (case eval_operand fm dot vars x of
        Inl e \<Rightarrow> Inl e
      | Inr v \<Rightarrow> (case eval_args fm dot vars xs of Inl e \<Rightarrow> Inl e | Inr vs \<Rightarrow> Inr (v # vs)))"

text \<open>A command gets the value of the command before it as its last argument.\<close>

fun eval_command :: "funcMap option \<Rightarrow> val \<Rightarrow> (string \<times> val) list \<Rightarrow> command \<Rightarrow> val list \<Rightarrow> gerror + val" where
  "eval_command fm dot vars (FuncOp f # xs) final =
     (case eval_args fm dot vars xs of Inl e \<Rightarrow> Inl e | Inr vs \<Rightarrow> call fm f (vs @ final))"
| "eval_command fm dot vars [x] [] = eval_operand fm dot vars x"
| "eval_command fm dot vars _ _ = Inl (Errorf ''can't give argument to non-function'')"

fun eval_pipeline :: "funcMap option \<Rightarrow> val \<Rightarrow> (string \<times> val) list \<Rightarrow> pipeline \<Rightarrow> val list \<Rightarrow> gerror + val" where
  "eval_pipeline fm dot vars [] final = (case final of [v] \<Rightarrow> Inr v | _ \<Rightarrow> Inl (Errorf ''missing value for command''))"
| "eval_pipeline fm dot vars (c # cs) final =
     (case eval_command fm dot vars c final of Inl e \<Rightarrow> Inl e | Inr v \<Rightarrow> eval_pipeline fm dot vars cs [v])"

definition val_truth :: "val \<Rightarrow> bool" where
  "val_truth v =
     (case v of VStr s \<Rightarrow> s \<noteq> [] | VInt i \<Rightarrow> i \<noteq> 0 | VBool b \<Rightarrow> b | VMap m \<Rightarrow> m \<noteq> [] | VSlice xs \<Rightarrow> xs \<noteq> [] | VStruct _ \<Rightarrow> True | VNone \<Rightarrow> False)"

text \<open>The text of a value; maps, slices and structs are not printed by the shipped templates and have none here.\<close>

definition val_text :: "val \<Rightarrow> gerror + string" where
  "val_text v =
     (case v of VStr s \<Rightarrow> Inr s | VInt i \<Rightarrow> Inr (Itoa i) | VBool b \<Rightarrow> Inr (FormatBool b) | VNone \<Rightarrow> Inr ''<no value>''
      | _ \<Rightarrow> Inl (Errorf ''composite value''))"

text \<open>The elements a \<open>range\<close> visits, with their keys.\<close>

definition range_items :: "val \<Rightarrow> gerror + (val \<times> val) list" where
  "range_items v =
     (case v of
        VMap m \<Rightarrow> Inr (map (\<lambda>(k, x). (VStr k, x)) (sort_key fst m))
      | VSlice xs \<Rightarrow> Inr (zip (map (\<lambda>i. VInt (int i)) [0..<length xs]) xs)
      | VNone \<Rightarrow> Inr []
      | _ \<Rightarrow> Inl (Errorf ''range can't iterate over value''))"

fun bind_range :: "string list \<Rightarrow> val \<times> val \<Rightarrow> (string \<times> val) list" where
  "bind_range [v] (k, x) = [(v, x)]"
| "bind_range [v, w] (k, x) = [(w, x), (v, k)]"
| "bind_range _ _ = []"

fun bind_one :: "string list \<Rightarrow> val \<Rightarrow> (string \<times> val) list" where
  "bind_one [v] x = [(v, x)]"
| "bind_one _ _ = []"

function exec_nodes :: "funcMap option \<Rightarrow> val \<Rightarrow> (string \<times> val) list \<Rightarrow> node list \<Rightarrow> gerror + string"
  and exec_range :: "funcMap option \<Rightarrow> (string \<times> val) list \<Rightarrow> string list \<Rightarrow> node list \<Rightarrow> (val \<times> val) list \<Rightarrow> gerror + string" where
  "exec_nodes fm dot vars [] = Inr []"
| "exec_nodes fm dot vars (TextNode t # ns) =
     (case exec_nodes fm dot vars ns of Inl e \<Rightarrow> Inl e | Inr out \<Rightarrow> Inr (t @ out))"
| "exec_nodes fm dot vars (ActionNode ds p # ns) =
     (case eval_pipeline fm dot vars p [] of
        Inl e \<Rightarrow> Inl e
      | Inr v \<Rightarrow>
          (case (if ds = [] then val_text v else Inr []) of
             Inl e \<Rightarrow> Inl e
           | Inr t \<Rightarrow> (case exec_nodes fm dot (bind_one ds v @ vars) ns of Inl e \<Rightarrow> Inl e | Inr out \<Rightarrow> Inr (t @ out))))"
| "exec_nodes fm dot vars (RangeNode ds p body # ns) =
     (case eval_pipeline fm dot vars p [] of
        Inl e \<Rightarrow> Inl e
      | Inr v \<Rightarrow>
          (case range_items v of
             Inl e \<Rightarrow> Inl e
           | Inr xs \<Rightarrow>
               (case exec_range fm vars ds body xs of
                  Inl e \<Rightarrow> Inl e
                | Inr t \<Rightarrow> (case exec_nodes fm dot vars ns of Inl e \<Rightarrow> Inl e | Inr out \<Rightarrow> Inr (t @ out)))))"
| "exec_nodes fm dot vars (IfNode ds p body # ns) =
     (case eval_pipeline fm dot vars p [] of
        Inl e \<Rightarrow> Inl e
      | Inr v \<Rightarrow>
          (case (if val_truth v then exec_nodes fm dot (bind_one ds v @ vars) body else Inr []) of
             Inl e \<Rightarrow> Inl e
           | Inr t \<Rightarrow> (case exec_nodes fm dot vars ns of Inl e \<Rightarrow> Inl e | Inr out \<Rightarrow> Inr (t @ out))))"
| "exec_range fm vars ds body [] = Inr []"
| "exec_range fm vars ds body (x # xs) =
     (case exec_nodes fm (snd x) (bind_range ds x @ vars) body of
        Inl e \<Rightarrow> Inl e
      | Inr t \<Rightarrow> (case exec_range fm vars ds body xs of Inl e \<Rightarrow> Inl e | Inr out \<Rightarrow> Inr (t @ out)))"
  by pat_completeness auto

termination
  by (relation "measures [case_sum (\<lambda>(_, _, _, ns). size_list size ns) (\<lambda>(_, _, _, ns, _). size_list size ns),
      case_sum (\<lambda>_. 0) (\<lambda>(_, _, _, _, xs). Suc (length xs))]") auto

text \<open>The engine for data that \<open>to_val\<close> presents to a template.\<close>

definition text_template :: "('d \<Rightarrow> val) \<Rightarrow> 'd engine" where
  "text_template to_val =
     \<lparr>en_parses = (\<lambda>fm content. template_Parse fm content \<noteq> None),
      en_execute = (\<lambda>fm content d.
        case template_Parse fm content of
          None \<Rightarrow> Inl (Errorf ''not parsed'')
        | Some ns \<Rightarrow> exec_nodes fm (to_val d) [(''$'', to_val d)] ns)\<rparr>"

end
