(* ===== verification/Shipped.thy ===== *)
theory Shipped
  imports TextTemplate
begin

text \<open>
  The templates that are shipped with the daemon (\<open>templates/\<close>), and what the engine makes of them: the text of the HAProxy and of the
  Keepalived configuration as a function of the tables.
\<close>

section \<open>The templates\<close>

definition unlines :: "string list \<Rightarrow> string" where
  "unlines ls = concat (map (\<lambda>l. l @ [CHR 0x0A]) ls)"

definition haproxy_cfg_template :: string where
  "haproxy_cfg_template = unlines
     [
      ''global'',
      ''  maxconn 4096'',
      '''',
      ''defaults'',
      ''  log global'',
      ''  timeout connect 300000'',
      ''  timeout client 300000'',
      ''  timeout server 300000'',
      ''  maxconn 2000'',
      '''',
      ''{{ $ips := .IPs }}'',
      ''{{ range $name, $service := .RouteTable -}} {{ if hasIP $ips $service.ServiceInfo.ClusterIP }}'',
      ''frontend {{ $name }}'',
      ''    bind {{ $service.ServiceInfo.ClusterIP }}:{{ $service.ServiceInfo.Port }}'',
      ''    mode {{ $service.ServiceInfo.Protocol | ToLower }}'',
      ''    default_backend {{ $name }}_backend'',
      '''',
      ''backend {{ $name }}_backend'',
      ''    {{ range $index, $endpoints := $service.Endpoints }} '',
      ''    server server{{ $index }} {{ $endpoints.IP }}:{{ $endpoints.Port }}'',
      ''    {{ end -}}'',
      ''{{ end }}'',
      ''{{ end -}}'']"

definition keepalived_master_template :: string where
  "keepalived_master_template = unlines
     [
      ''! Configuration File for keepalived'',
      '''',
      ''global_defs {'',
      ''    router_id haproxy-10-0-0.2               '',
      ''}'',
      '''',
      ''vrrp_script chk_haproxy {'',
      ''    script '' @ [CHR 0x22] @ ''/etc/keepalived/check_haproxy.sh'' @ [CHR 0x22] @ ''    '',
      ''    interval 4                                   '',
      ''}'',
      '''',
      ''vrrp_instance kube-haproxy {'',
      ''    state BACKUP            '',
      ''    interface eth0    '',
      ''    virtual_router_id 89     '',
      ''    priority 101            '',
      ''    nopreempt               '',
      ''    advert_int 1            '',
      ''    authentication {        '',
      ''        auth_type PASS'',
      ''        auth_pass PaaS-HAproxy'',
      ''    }'',
      '''',
      ''    track_script {          '',
      ''        chk_haproxy'',
      ''    }'',
      '''',
      ''    virtual_ipaddress {     '',
      ''    }'',
      '''',
      ''    virtual_ipaddress_excluded {  '',
      ''        {{ range $ip, $value := . -}}'',
      ''        {{ $ip }} dev eth0 '',
      ''        {{ end -}}'',
      ''    }'',
      ''}'']"

definition keepalived_backup_template :: string where
  "keepalived_backup_template = unlines
     [
      ''! Configuration File for keepalived'',
      '''',
      ''global_defs {'',
      ''    router_id haproxy-10-0-0.1              '',
      ''}'',
      '''',
      ''vrrp_script chk_haproxy {'',
      ''    script '' @ [CHR 0x22] @ ''/etc/keepalived/check_haproxy.sh'' @ [CHR 0x22] @ ''    '',
      ''    interval 4                        '',
      ''}'',
      '''',
      ''vrrp_instance kube-haproxy {'',
      ''    state BACKUP            '',
      ''    interface eth0    '',
      ''    virtual_router_id 89    '',
      ''    priority 100            '',
      ''    nopreempt              '',
      ''    advert_int 1            '',
      ''    authentication {        '',
      ''        auth_type PASS'',
      ''        auth_pass PaaS-HAproxy'',
      ''    }'',
      '''',
      ''    track_script {          '',
      ''        chk_haproxy'',
      ''    }'',
      '''',
      ''    virtual_ipaddress {     '',
      ''    }'',
      '''',
      ''    virtual_ipaddress_excluded {    '',
      ''        {{ range $ip, $value := . -}}'',
      ''        {{ $ip }} dev eth0 '',
      ''        {{ end -}}'',
      ''    }'',
      ''}'']"

section \<open>The data of a template\<close>

definition endpoint_val :: "Endpoint \<Rightarrow> val" where
  "endpoint_val e = VStruct [(''IP'', VStr (e_IP e)), (''Port'', VInt (e_Port e))]"

definition service_val :: "Service \<Rightarrow> val" where
  "service_val s = VStruct [(''ClusterIP'', VStr (s_ClusterIP s)), (''Port'', VInt (s_Port s)), (''Protocol'', VStr (s_Protocol s))]"

definition unit_val :: "ServiceUnit \<Rightarrow> val" where
  "unit_val u = VStruct [(''Name'', VStr (su_Name u)), (''ServiceInfo'', service_val (su_ServiceInfo u)),
     (''Endpoints'', VSlice (map endpoint_val (su_Endpoints u)))]"

definition ips_val :: "(string, bool) gomap \<Rightarrow> val" where
  "ips_val ips = VMap (map (\<lambda>(ip, b). (ip, VBool b)) ips)"

definition data_val :: "TemplateData \<Rightarrow> val" where
  "data_val d = VStruct [(''IPs'', ips_val (td_IPs d)), (''RouteTable'', VMap (map (\<lambda>(name, u). (name, unit_val u)) (td_RouteTable d)))]"

section \<open>The templates, parsed\<close>

abbreviation nl :: string where
  "nl \<equiv> [CHR 0x0A]"

definition haproxy_head :: string where
  "haproxy_head = unlines [''global'', ''  maxconn 4096'', '''', ''defaults'', ''  log global'', ''  timeout connect 300000'', ''  timeout client 300000'',
     ''  timeout server 300000'', ''  maxconn 2000'', '''']"

definition server_nodes :: "node list" where
  "server_nodes =
     [TextNode ('' '' @ nl @ ''    server server''), ActionNode [] [[VarOp ''$index'' []]], TextNode '' '',
      ActionNode [] [[VarOp ''$endpoints'' [''IP'']]], TextNode '':'', ActionNode [] [[VarOp ''$endpoints'' [''Port'']]], TextNode (nl @ ''    '')]"

definition service_nodes :: "node list" where
  "service_nodes =
     [TextNode (nl @ ''frontend ''), ActionNode [] [[VarOp ''$name'' []]], TextNode (nl @ ''    bind ''),
      ActionNode [] [[VarOp ''$service'' [''ServiceInfo'', ''ClusterIP'']]], TextNode '':'',
      ActionNode [] [[VarOp ''$service'' [''ServiceInfo'', ''Port'']]], TextNode (nl @ ''    mode ''),
      ActionNode [] [[VarOp ''$service'' [''ServiceInfo'', ''Protocol'']], [FuncOp ''ToLower'']],
      TextNode (nl @ ''    default_backend ''), ActionNode [] [[VarOp ''$name'' []]], TextNode (''_backend'' @ nl @ nl @ ''backend ''),
      ActionNode [] [[VarOp ''$name'' []]], TextNode (''_backend'' @ nl @ ''    ''),
      RangeNode [''$index'', ''$endpoints''] [[VarOp ''$service'' [''Endpoints'']]] server_nodes]"

definition haproxy_nodes :: "node list" where
  "haproxy_nodes =
     [TextNode haproxy_head, ActionNode [''$ips''] [[FieldOp [''IPs'']]], TextNode nl,
      RangeNode [''$name'', ''$service''] [[FieldOp [''RouteTable'']]]
        [IfNode [] [[FuncOp ''hasIP'', VarOp ''$ips'' [], VarOp ''$service'' [''ServiceInfo'', ''ClusterIP'']]] service_nodes,
         TextNode nl]]"

lemma haproxy_template_parsed: "template_Parse (Some F) haproxy_cfg_template = Some haproxy_nodes"
proof -
  have "(case lex False haproxy_cfg_template of None \<Rightarrow> None | Some segs \<Rightarrow> build segs [] []) = Some haproxy_nodes"
    by code_simp
  moreover have "nodes_ok [''hasIP'', ''ToLower''] [''$''] haproxy_nodes" by code_simp
  ultimately show ?thesis by (auto simp: template_Parse_def func_names_def split: option.splits)
qed

text \<open>Between the two Keepalived templates only the identification, the priority and some trailing blanks differ.\<close>

definition keepalived_head :: "string \<Rightarrow> string" where
  "keepalived_head content = (case find_sub ''{{'' content of Some (txt, _) \<Rightarrow> txt | None \<Rightarrow> [])"

definition vip_nodes :: "node list" where
  "vip_nodes = [ActionNode [] [[VarOp ''$ip'' []]], TextNode ('' dev eth0 '' @ nl @ ''        '')]"

definition keepalived_nodes :: "string \<Rightarrow> node list" where
  "keepalived_nodes content =
     [TextNode (keepalived_head content), RangeNode [''$ip'', ''$value''] [[Dot]] vip_nodes, TextNode (''}'' @ nl @ ''}'' @ nl)]"

lemma keepalived_master_parsed: "template_Parse None keepalived_master_template = Some (keepalived_nodes keepalived_master_template)"
  by code_simp

lemma keepalived_backup_parsed: "template_Parse None keepalived_backup_template = Some (keepalived_nodes keepalived_backup_template)"
  by code_simp

section \<open>The text of the configurations\<close>

definition server_line :: "nat \<Rightarrow> Endpoint \<Rightarrow> string" where
  "server_line i e = '' '' @ nl @ ''    server server'' @ Itoa (int i) @ '' '' @ e_IP e @ '':'' @ Itoa (e_Port e) @ nl @ ''    ''"

definition service_block :: "string \<Rightarrow> ServiceUnit \<Rightarrow> string" where
  "service_block name u =
     nl @ ''frontend '' @ name @
     nl @ ''    bind '' @ s_ClusterIP (su_ServiceInfo u) @ '':'' @ Itoa (s_Port (su_ServiceInfo u)) @
     nl @ ''    mode '' @ ToLower (s_Protocol (su_ServiceInfo u)) @
     nl @ ''    default_backend '' @ name @ ''_backend'' @ nl @
     nl @ ''backend '' @ name @ ''_backend'' @
     nl @ ''    '' @ concat (map (\<lambda>(i, e). server_line i e) (enumerate 0 (su_Endpoints u)))"

definition haproxy_config :: "TemplateData \<Rightarrow> string" where
  "haproxy_config d =
     haproxy_head @ nl @
     concat (map (\<lambda>(name, u). (if hasIP (td_IPs d) (s_ClusterIP (su_ServiceInfo u)) then service_block name u else []) @ nl)
       (sort_key fst (td_RouteTable d)))"

definition keepalived_config :: "string \<Rightarrow> (string, bool) gomap \<Rightarrow> string" where
  "keepalived_config content vips =
     keepalived_head content @ concat (map (\<lambda>(ip, _). ip @ '' dev eth0 '' @ nl @ ''        '') (sort_key fst vips)) @ ''}'' @ nl @ ''}'' @ nl"

lemma insort_key_map_snd: "insort_key fst (k, f x) (map (\<lambda>(k, x). (k, f x)) ys) = map (\<lambda>(k, x). (k, f x)) (insort_key fst (k, x) ys)"
  by (induction ys) auto

lemma sort_key_map_snd: "sort_key fst (map (\<lambda>(k, x). (k, f x)) xs) = map (\<lambda>(k, x). (k, f x)) (sort_key fst xs)"
  by (induction xs) (auto simp: insort_key_map_snd)

lemma range_items_map: "range_items (VMap (map (\<lambda>(k, x). (k, f x)) m)) = Inr (map (\<lambda>(k, x). (VStr k, f x)) (sort_key fst m))"
  by (simp add: range_items_def sort_key_map_snd case_prod_beta comp_def)

lemma bool_map_ips: "bool_map (map (\<lambda>(ip, b). (ip, VBool b)) ips) = Some ips"
  by (induction ips) auto

lemmas eval_simps = eval_operand_def call_def val_text_def field_of_def

lemma servers_text:
  "exec_range fm vars [''$index'', ''$endpoints''] server_nodes (zip (map (\<lambda>i. VInt (int i)) [n..<n + length es]) (map endpoint_val es)) =
     Inr (concat (map (\<lambda>(i, e). server_line i e) (enumerate n es)))"
proof (induction es arbitrary: n)
  case (Cons e es)
  have "[n..<n + length (e # es)] = n # [Suc n..<Suc n + length es]" by (subst upt_conv_Cons) simp_all
  with Cons [of "Suc n"] show ?case by (simp add: server_nodes_def eval_simps endpoint_val_def server_line_def)
qed simp

lemma service_text:
  assumes "map_of vars ''$name'' = Some (VStr name)" "map_of vars ''$service'' = Some (unit_val u)" "fm = Some F" "fm_ToLower F = ToLower"
  shows "exec_nodes fm dot vars service_nodes = Inr (service_block name u)"
proof -
  have "range_items (VSlice (map endpoint_val (su_Endpoints u))) =
      Inr (zip (map (\<lambda>i. VInt (int i)) [0..<0 + length (su_Endpoints u)]) (map endpoint_val (su_Endpoints u)))"
    by (simp add: range_items_def)
  with assms servers_text [of fm vars 0 "su_Endpoints u"] show ?thesis
    by (simp add: service_nodes_def eval_simps unit_val_def service_val_def service_block_def)
qed

lemma routes_text:
  assumes "fm = Some F" "fm_hasIP F = hasIP" "fm_ToLower F = ToLower" "map_of vars ''$ips'' = Some (ips_val ips)"
  shows "exec_range fm vars [''$name'', ''$service'']
      [IfNode [] [[FuncOp ''hasIP'', VarOp ''$ips'' [], VarOp ''$service'' [''ServiceInfo'', ''ClusterIP'']]] service_nodes, TextNode nl]
      (map (\<lambda>(name, u). (VStr name, unit_val u)) rts) =
    Inr (concat (map (\<lambda>(name, u). (if hasIP ips (s_ClusterIP (su_ServiceInfo u)) then service_block name u else []) @ nl) rts))"
proof (induction rts)
  case (Cons a rts)
  obtain name u where a: "a = (name, u)" by (cases a)
  let ?vars = "(''$service'', unit_val u) # (''$name'', VStr name) # vars"
  have s: "exec_nodes fm (unit_val u) ?vars service_nodes = Inr (service_block name u)"
    by (rule service_text [OF _ _ assms(1,3)]) simp_all
  have "eval_pipeline fm (unit_val u) ?vars [[FuncOp ''hasIP'', VarOp ''$ips'' [], VarOp ''$service'' [''ServiceInfo'', ''ClusterIP'']]] [] =
      Inr (VBool (hasIP ips (s_ClusterIP (su_ServiceInfo u))))"
    using assms by (simp add: eval_simps ips_val_def bool_map_ips unit_val_def service_val_def)
  with s Cons a show ?case by (simp add: val_truth_def)
qed simp

lemma vips_text:
  "exec_range fm vars [''$ip'', ''$value''] vip_nodes (map (\<lambda>(ip, b). (VStr ip, VBool b)) vs) =
     Inr (concat (map (\<lambda>(ip, _). ip @ '' dev eth0 '' @ nl @ ''        '') vs))"
  by (induction vs) (auto simp: vip_nodes_def eval_simps)

text \<open>The block of a route whose address is bound stands in the configuration.\<close>

lemma bound_route_in_config:
  assumes "(name, u) \<in> set (td_RouteTable d)" "hasIP (td_IPs d) (s_ClusterIP (su_ServiceInfo u))"
  shows "\<exists>pre post. haproxy_config d = pre @ service_block name u @ post"
proof -
  from assms(1) have "(name, u) \<in> set (sort_key fst (td_RouteTable d))" by simp
  then obtain xs ys where "sort_key fst (td_RouteTable d) = xs @ (name, u) # ys" by (meson split_list)
  moreover define F where "F = (\<lambda>(name, u). (if hasIP (td_IPs d) (s_ClusterIP (su_ServiceInfo u)) then service_block name u else []) @ nl)"
  ultimately have "haproxy_config d = (haproxy_head @ nl @ concat (map F xs)) @ service_block name u @ (nl @ concat (map F ys))"
    using assms(2) by (simp add: haproxy_config_def F_def [symmetric]) (simp add: F_def)
  then show ?thesis by blast
qed

lemma rendered_haproxy:
  "RenderTemplateWithFuncs (text_template data_val) templateName haproxy_cfg_template d = Ok (haproxy_config d)"
proof -
  let ?F = "\<lparr>fm_hasIP = hasIP, fm_ToLower = ToLower\<rparr>" and ?d = "data_val d"
  let ?vars = "[(''$ips'', ips_val (td_IPs d)), (''$'', ?d)]"
  have "exec_nodes (Some ?F) ?d [(''$'', ?d)] haproxy_nodes = Inr (haproxy_config d)"
    using routes_text [of "Some ?F" ?F ?vars "td_IPs d" "sort_key fst (td_RouteTable d)"]
    by (simp add: haproxy_nodes_def eval_simps data_val_def haproxy_config_def range_items_map)
  then show ?thesis by (simp add: RenderTemplateWithFuncs_def text_template_def haproxy_template_parsed Let_def)
qed

lemma rendered_keepalived:
  assumes "template_Parse None content = Some (keepalived_nodes content)"
  shows "RenderTemplate (text_template ips_val) templateName content vs = Ok (keepalived_config content vs)"
proof -
  have "exec_nodes None (ips_val vs) [(''$'', ips_val vs)] (keepalived_nodes content) = Inr (keepalived_config content vs)"
    using vips_text [of None "[(''$'', ips_val vs)]" "sort_key fst vs"] range_items_map [of VBool vs]
    by (simp add: keepalived_nodes_def keepalived_config_def eval_operand_def ips_val_def)
  with assms show ?thesis by (simp add: RenderTemplate_def text_template_def)
qed

text \<open>C19: the shipped templates render, whatever the tables hold. The HAProxy configuration has, in the order of their names, one
  frontend and one backend for each route whose cluster IP is bound to the device, with one server line for each endpoint
  in order, and nothing for other routes; the Keepalived configuration announces every virtual IP.\<close>

theorem shipped_configurations:
  "RenderTemplateWithFuncs (text_template data_val) templateName haproxy_cfg_template d = Ok (haproxy_config d) \<and>
   RenderTemplate (text_template ips_val) templateName keepalived_master_template vs = Ok (keepalived_config keepalived_master_template vs) \<and>
   RenderTemplate (text_template ips_val) templateName keepalived_backup_template vs = Ok (keepalived_config keepalived_backup_template vs)"
  by (simp add: rendered_haproxy rendered_keepalived keepalived_master_parsed keepalived_backup_parsed)

end
