(* ===== verification/Daemon.thy ===== *)
theory Daemon
  imports Resync Shipped
begin

text \<open>
  The daemon at work on HAProxy: the two goroutines of \<open>proxy/controller/controller.go\<close> and the goroutine of
  \<open>util/ratelimiter/ratelimiter.go\<close> that runs \<open>commitAndReloadHaproxy\<close> of \<open>proxy/template/proxier.go\<close>, interleaved.

  The goroutine of the commits is a sequence of steps, with its place in \<open>dm_stage\<close>: it pops a request (\<open>Take\<close>), looks
  at the backoff (\<open>Decide\<close>), reads the template and the addresses of the device, renders the tables under the
  proxier's lock (\<open>Render\<close>), and hands the bytes to HAProxy's instance and records the time (\<open>Install\<close>). The
  controller's steps may come between any two of them. The invariant \<open>synced\<close> says that whenever the
  controller has nothing left to do, the file holds the rendering of the route table, or a commit that will bring
  it there is queued or under way.
\<close>

section \<open>Three goroutines\<close>

text \<open>What the goroutine of the commits holds: nothing, in \<open>Pop\<close>; the popped request, before the backoff is checked;
  inside the handler nothing yet, the template, the template and the addresses, or the result of the rendering (also
  the error of one of the two reads).\<close>

datatype commit_stage =
  Waiting | Popped string | Firing | TemplateRead string | Loaded string "(string, bool) gomap" | Rendered "string outcome"

record daemon =
  dm_sys :: ctl_sys
  dm_machine :: machine
  dm_stage :: commit_stage

datatype daemon_label =
  Work ctl_label | Take | Decide gotime | ReadTemplate | ReadAddrs | Render | Install gotime gotime

abbreviation dm_px :: "daemon \<Rightarrow> Proxier" where
  "dm_px d \<equiv> ct_Proxier (ctl (dm_sys d))"

definition with_px :: "daemon \<Rightarrow> Proxier \<Rightarrow> daemon" where
  "with_px d p = d\<lparr>dm_sys := (dm_sys d)\<lparr>ctl := (ctl (dm_sys d))\<lparr>ct_Proxier := p\<rparr>\<rparr>\<rparr>"

text \<open>A panic while the template is rendered leaves the lock taken.\<close>

definition rendered_lock :: "string outcome \<Rightarrow> Proxier \<Rightarrow> Proxier" where
  "rendered_lock out p = (case out of Panic _ \<Rightarrow> p\<lparr>px_lock := True\<rparr> | Exit _ \<Rightarrow> p\<lparr>px_lock := True\<rparr> | _ \<Rightarrow> p)"

text \<open>The rest of it, and what \<open>handleOne\<close> does when the handler returns.\<close>

definition commit_install :: "'k host \<Rightarrow> Proxier \<Rightarrow> machine \<Rightarrow> string outcome \<Rightarrow> machine \<times> unit outcome" where
  "commit_install H p m out =
     (case out of
        Ok cfgBytes \<Rightarrow> haproxy_Reload (h_os H) m (px_haproxyInstance p) cfgBytes
      | Fail err \<Rightarrow> (m, Fail err)
      | Panic msg \<Rightarrow> (m, Panic msg)
      | Exit msg \<Rightarrow> (m, Exit msg))"

fun daemon_step :: "'k host \<Rightarrow> 'k \<Rightarrow> daemon \<Rightarrow> daemon_label \<Rightarrow> daemon option" where
  "daemon_step H k d (Work l) = map_option (\<lambda>s. d\<lparr>dm_sys := s\<rparr>) (ctl_step (dm_sys d) l)"
| "daemon_step H k d Take =
     (let p = dm_px d; rlf = px_commitHaproxy p in
      case (dm_stage d, kq_Pop (rl_Q haproxy_key) (rl_queue rlf)) of
        (Waiting, q, Some resource) \<Rightarrow>
          Some (with_px d (p\<lparr>px_commitHaproxy := rlf\<lparr>rl_queue := q\<rparr>\<rparr>)\<lparr>dm_stage := Popped resource\<rparr>)
      | _ \<Rightarrow> None)"
| "daemon_step H k d (Decide t1) =
     (let p = dm_px d; rlf = px_commitHaproxy p in
      case dm_stage d of
        Popped resource \<Rightarrow>
          Some (if IsInBackOffSinceUpdate (rl_backOff rlf) (rl_backOffKey rlf) t1
                then with_px d (p\<lparr>px_commitHaproxy := rl_Invoke (rl_Q haproxy_key) rlf resource\<rparr>)\<lparr>dm_stage := Waiting\<rparr>
                else d\<lparr>dm_stage := Firing\<rparr>)
      | _ \<Rightarrow> None)"
| "daemon_step H k d ReadTemplate =
     (case dm_stage d of
        Firing \<Rightarrow>
          Some (d\<lparr>dm_stage := (case ReadFile (h_os H) (dm_machine d) (TemplatePath (pc_HaproxyConfig (px_config (dm_px d)))) of
                                Inl err \<Rightarrow> Rendered (Fail err)
                              | Inr templateContent \<Rightarrow> TemplateRead templateContent)\<rparr>)
      | _ \<Rightarrow> None)"
| "daemon_step H k d ReadAddrs =
     (case dm_stage d of
        TemplateRead templateContent \<Rightarrow>
          Some (d\<lparr>dm_stage := (case GetAddrs (h_netlink H) k (px_ip (dm_px d)) of
                                Inl err \<Rightarrow> Rendered (Fail err)
                              | Inr ips \<Rightarrow> Loaded templateContent ips)\<rparr>)
      | _ \<Rightarrow> None)"
| "daemon_step H k d Render =
     (case dm_stage d of
        Loaded templateContent ips \<Rightarrow>
          if px_lock (dm_px d) then None
          else (let out = RenderTemplateWithFuncs (h_route_engine H) ''haproxy_tpl'' templateContent
                      \<lparr>td_IPs = ips, td_RouteTable = px_routeTable (dm_px d)\<rparr>
                in Some (with_px d (rendered_lock out (dm_px d))\<lparr>dm_stage := Rendered out\<rparr>))
      | _ \<Rightarrow> None)"
| "daemon_step H k d (Install t2 t3) =
     (case dm_stage d of
        Rendered out \<Rightarrow>
          (let p = dm_px d; rlf = px_commitHaproxy p; (m, res) = commit_install H p (dm_machine d) out in
           case res of
             Panic _ \<Rightarrow> Some (d\<lparr>dm_machine := m, dm_stage := Waiting\<rparr>)
           | Exit _ \<Rightarrow> None
           | _ \<Rightarrow> Some (with_px d (p\<lparr>px_commitHaproxy := rlf\<lparr>rl_backOff := bo_Next (rl_backOff rlf) (rl_backOffKey rlf) t2 t3\<rparr>\<rparr>)
               \<lparr>dm_machine := m, dm_stage := Waiting\<rparr>))
      | _ \<Rightarrow> None)"

lemma with_px_simps [simp]:
  "dm_px (with_px d p) = p" "dm_machine (with_px d p) = dm_machine d" "dm_stage (with_px d p) = dm_stage d"
  by (simp_all add: with_px_def)

lemma commit_step_cases:
  "daemon_step H k d Take = Some d' \<Longrightarrow> \<exists>q resource. dm_stage d = Waiting \<and>
     kq_Pop (rl_Q haproxy_key) (rl_queue (px_commitHaproxy (dm_px d))) = (q, Some resource) \<and>
     d' = with_px d ((dm_px d)\<lparr>px_commitHaproxy := (px_commitHaproxy (dm_px d))\<lparr>rl_queue := q\<rparr>\<rparr>)\<lparr>dm_stage := Popped resource\<rparr>"
  "daemon_step H k d (Decide t1) = Some d' \<Longrightarrow> \<exists>resource. dm_stage d = Popped resource \<and>
     (d' = with_px d ((dm_px d)\<lparr>px_commitHaproxy := rl_Invoke (rl_Q haproxy_key) (px_commitHaproxy (dm_px d)) resource\<rparr>)\<lparr>dm_stage := Waiting\<rparr> \<or>
      d' = d\<lparr>dm_stage := Firing\<rparr>)"
  "daemon_step H k d ReadTemplate = Some d' \<Longrightarrow> dm_stage d = Firing"
  "daemon_step H k d ReadAddrs = Some d' \<Longrightarrow> \<exists>c. dm_stage d = TemplateRead c"
  "daemon_step H k d Render = Some d' \<Longrightarrow> \<exists>c a. dm_stage d = Loaded c a"
  "daemon_step H k d (Install t2 t3) = Some d' \<Longrightarrow> \<exists>out. dm_stage d = Rendered out"
  by (auto simp: Let_def split: commit_stage.split_asm prod.split_asm option.split_asm if_splits)

section \<open>What a step of the controller keeps\<close>

definition px_static :: "Proxier \<Rightarrow> Proxier \<Rightarrow> bool" where
  "px_static p p' \<longleftrightarrow> px_config p' = px_config p \<and> px_master p' = px_master p \<and> px_ip p' = px_ip p \<and>
     px_haproxyInstance p' = px_haproxyInstance p"

lemma px_static_refl [simp]: "px_static p p"
  by (simp add: px_static_def)

lemma px_static_trans: "px_static p q \<Longrightarrow> px_static q r \<Longrightarrow> px_static p r"
  by (simp add: px_static_def)

lemma effect_static: "effect (SetSkipCommit p b) r V kc hc p' \<Longrightarrow> px_static p p'"
  by (simp add: effect_def same_frame_def px_static_def SetSkipCommit_def split: if_splits)

lemma take_service_shape:
  assumes "resync r0 svcs epss s" "ctl_step s TakeService = Some t"
  shows "\<exists>q h. t = s\<lparr>ctl := (ctl s)\<lparr>ct_services := q\<rparr>, svc_hand := Some h\<rparr>"
proof -
  from assms(1) obtain handled ss es where h: "resync_at r0 svcs epss s handled ss es" by (auto simp: resync_def)
  have q: "svc_hand s = None" "eq_queue (ct_services (ctl s)) \<noteq> []"
    using assms(2) by (auto simp: NextService_def split: option.splits if_splits)
  with holds_empty [OF resync_atD(2) [OF h]] obtain x ss' where "ss = x # ss'" by (cases ss) auto
  with holds_pop resync_atD(2) [OF h] q assms(2) show ?thesis by (fastforce simp: NextService_def)
qed

lemma take_endpoints_shape:
  assumes "resync r0 svcs epss s" "ctl_step s TakeEndpoints = Some t"
  shows "\<exists>q h. t = s\<lparr>ctl := (ctl s)\<lparr>ct_endpoints := q\<rparr>, eps_hand := Some h\<rparr>"
proof -
  from assms(1) obtain handled ss es where h: "resync_at r0 svcs epss s handled ss es" by (auto simp: resync_def)
  have q: "eps_hand s = None" "eq_queue (ct_endpoints (ctl s)) \<noteq> []"
    using assms(2) by (auto simp: NextEndpoints_def split: option.splits if_splits)
  with holds_empty [OF resync_atD(3) [OF h]] obtain x es' where "es = x # es'" by (cases es) auto
  with holds_pop resync_atD(3) [OF h] q assms(2) show ?thesis by (fastforce simp: NextEndpoints_def)
qed

lemma put_service_shape:
  assumes "resync r0 svcs epss s" "ctl_step s PutService = Some t"
  shows "\<exists>x p'. x \<in> set svcs \<and> svc_hand s = Some (Modified, x) \<and>
    t = s\<lparr>ctl := (ctl s)\<lparr>ct_serviceListConsumed := eq_ListConsumed (ct_services (ctl s)), ct_Proxier := p'\<rparr>, svc_hand := None\<rparr> \<and>
    px_static (ct_Proxier (ctl s)) p' \<and>
    pending_haproxy p' = (pending_haproxy (ct_Proxier (ctl s)) \<or> ab_IsSet (px_master p') \<and> IsServiceIPSet x \<and>
      eq_ListConsumed (ct_services (ctl s)) \<and> ct_endpointsListConsumed (ctl s))"
proof -
  from assms(1) obtain handled ss es where h: "resync_at r0 svcs epss s handled ss es" by (auto simp: resync_def)
  obtain ev x where x: "svc_hand s = Some (ev, x)" using assms(2) by (auto split: option.splits)
  have "SvcEvent ev x \<in> set (map (SvcEvent Modified) svcs)"
    unfolding resync_atD(5) [OF h, symmetric] using x by (simp add: in_svc_hand_def)
  then have "ev = Modified" "x \<in> set svcs" by auto
  moreover from service_section_effect [OF resync_atD(1) [OF h], of ev x] obtain p' where
    "service_section (ctl s) ev x = Some ((ctl s)\<lparr>ct_serviceListConsumed := eq_ListConsumed (ct_services (ctl s)), ct_Proxier := p'\<rparr>, Ok ())"
    and p': "effect (SetSkipCommit (ct_Proxier (ctl s)) (\<not> (ct_endpointsListConsumed (ctl s) \<and> eq_ListConsumed (ct_services (ctl s)))))
      (spec_service ev x (routes_of (ct_Proxier (ctl s)))) (spec_vips ev x (vips (ct_Proxier (ctl s))))
      (fst (service_commits ev x (vips (ct_Proxier (ctl s))))) (snd (service_commits ev x (vips (ct_Proxier (ctl s))))) p'"
    by blast
  ultimately show ?thesis using assms(2) x effect_static [OF p']
    by (intro exI [of _ x] exI [of _ p']) (auto simp: effect_def active_def px_static_def)
qed

lemma put_endpoints_shape:
  assumes "resync r0 svcs epss s" "ctl_step s PutEndpoints = Some t"
  shows "\<exists>p'. t = s\<lparr>ctl := (ctl s)\<lparr>ct_endpointsListConsumed := eq_ListConsumed (ct_endpoints (ctl s)), ct_Proxier := p'\<rparr>, eps_hand := None\<rparr> \<and>
    px_static (ct_Proxier (ctl s)) p' \<and>
    pending_haproxy p' = (pending_haproxy (ct_Proxier (ctl s)) \<or> ab_IsSet (px_master p') \<and>
      eq_ListConsumed (ct_endpoints (ctl s)) \<and> ct_serviceListConsumed (ctl s))"
proof -
  from assms(1) obtain handled ss es where h: "resync_at r0 svcs epss s handled ss es" by (auto simp: resync_def)
  obtain ev x where x: "eps_hand s = Some (ev, x)" using assms(2) by (auto split: option.splits)
  have "EpsEvent ev x \<in> set (map (EpsEvent Modified) epss)"
    unfolding resync_atD(6) [OF h, symmetric] using x by (simp add: in_eps_hand_def)
  then have "ev = Modified" by auto
  moreover from endpoints_section_effect [OF resync_atD(1) [OF h], of ev x] obtain p' where
    "endpoints_section (ctl s) ev x = Some ((ctl s)\<lparr>ct_endpointsListConsumed := eq_ListConsumed (ct_endpoints (ctl s)), ct_Proxier := p'\<rparr>, Ok ())"
    and p': "effect (SetSkipCommit (ct_Proxier (ctl s)) (\<not> (eq_ListConsumed (ct_endpoints (ctl s)) \<and> ct_serviceListConsumed (ctl s))))
      (spec_endpoints ev x (routes_of (ct_Proxier (ctl s)))) (vips (ct_Proxier (ctl s))) False (endpoints_commits ev x) p'"
    by blast
  ultimately show ?thesis using assms(2) x effect_static [OF p']
    by (intro exI [of _ p']) (auto simp: effect_def active_def px_static_def)
qed

lemmas step_shapes = take_service_shape take_endpoints_shape put_service_shape put_endpoints_shape

lemma step_static: "resync r0 svcs epss s \<Longrightarrow> ctl_step s l = Some t \<Longrightarrow> px_static (ct_Proxier (ctl s)) (ct_Proxier (ctl t))"
  using step_shapes [of r0 svcs epss s t] by (cases l) (auto simp del: ctl_step.simps)

text \<open>A list that has been read and handled is marked as consumed.\<close>

definition lists_marked :: "APIService list \<Rightarrow> APIEndpoints list \<Rightarrow> ctl_sys \<Rightarrow> bool" where
  "lists_marked svcs epss s \<longleftrightarrow>
     (svcs \<noteq> [] \<and> eq_queue (ct_services (ctl s)) = [] \<and> svc_hand s = None \<longrightarrow> ct_serviceListConsumed (ctl s)) \<and>
     (epss \<noteq> [] \<and> eq_queue (ct_endpoints (ctl s)) = [] \<and> eps_hand s = None \<longrightarrow> ct_endpointsListConsumed (ctl s))"

lemma resync_consumed:
  assumes "resync r0 svcs epss s"
  shows "eq_queue (ct_services (ctl s)) = [] \<Longrightarrow> eq_ListConsumed (ct_services (ctl s))"
    and "eq_queue (ct_endpoints (ctl s)) = [] \<Longrightarrow> eq_ListConsumed (ct_endpoints (ctl s))"
  using assms by (auto simp: resync_def resync_at_def holds_def eq_ListConsumed_def)

lemma lists_marked_step:
  assumes "resync r0 svcs epss s" "lists_marked svcs epss s" "ctl_step s l = Some t"
  shows "lists_marked svcs epss t"
proof (cases l)
  case TakeService
  with assms take_service_shape [OF assms(1), of t] show ?thesis by (auto simp: lists_marked_def simp del: ctl_step.simps)
next
  case PutService
  with assms put_service_shape [OF assms(1), of t] resync_consumed(1) [OF assms(1)] show ?thesis
    by (auto simp: lists_marked_def simp del: ctl_step.simps)
next
  case TakeEndpoints
  with assms take_endpoints_shape [OF assms(1), of t] show ?thesis by (auto simp: lists_marked_def simp del: ctl_step.simps)
next
  case PutEndpoints
  with assms put_endpoints_shape [OF assms(1), of t] resync_consumed(2) [OF assms(1)] show ?thesis
    by (auto simp: lists_marked_def simp del: ctl_step.simps)
qed

text \<open>The step that finishes the work queues a commit.\<close>

lemma last_step_commits:
  assumes "resync r0 svcs epss s" "lists_marked svcs epss s" "ctl_step s l = Some t" "idle t"
    and "svcs \<noteq> []" "epss \<noteq> []" "list_all IsServiceIPSet svcs" "ab_IsSet (px_master (ct_Proxier (ctl t)))"
  shows "pending_haproxy (ct_Proxier (ctl t))"
proof (cases l)
  case TakeService
  with assms(3,4) take_service_shape [OF assms(1), of t] show ?thesis by (auto simp: idle_def simp del: ctl_step.simps)
next
  case PutService
  with assms(2-) put_service_shape [OF assms(1), of t] resync_consumed(1) [OF assms(1)] show ?thesis
    by (auto simp: lists_marked_def idle_def list_all_iff simp del: ctl_step.simps)
next
  case TakeEndpoints
  with assms(3,4) take_endpoints_shape [OF assms(1), of t] show ?thesis by (auto simp: idle_def simp del: ctl_step.simps)
next
  case PutEndpoints
  with assms(2-) put_endpoints_shape [OF assms(1), of t] resync_consumed(2) [OF assms(1)] show ?thesis
    by (auto simp: lists_marked_def idle_def simp del: ctl_step.simps)
qed

lemma idle_stops: "idle s \<Longrightarrow> ctl_step s l = None"
  by (cases l) (auto simp: idle_def NextService_def NextEndpoints_def)

section \<open>The file and the table\<close>

definition cfg_path :: "Proxier \<Rightarrow> string" where
  "cfg_path p = configFilePath (in_configurer (px_haproxyInstance p))"

definition cfg_text :: "(string, bool) gomap \<Rightarrow> Proxier \<Rightarrow> string" where
  "cfg_text ips p = haproxy_config \<lparr>td_IPs = ips, td_RouteTable = px_routeTable p\<rparr>"

text \<open>A host on which commits go through: the shipped template is in place, and not at a path that a commit
  writes; the addresses of the device are \<open>ips\<close>; and the operating system accepts the new file.\<close>

definition serves :: "'k host \<Rightarrow> 'k \<Rightarrow> (string, bool) gomap \<Rightarrow> Proxier \<Rightarrow> machine \<Rightarrow> bool" where
  "serves H k ips p m \<longleftrightarrow> lets_through (h_os H) m (px_haproxyInstance p) \<and>
     h_route_engine H = text_template data_val \<and> GetAddrs (h_netlink H) k (px_ip p) = Inr ips \<and>
     ReadFile (h_os H) m (TemplatePath (pc_HaproxyConfig (px_config p))) = Inr haproxy_cfg_template \<and>
     TemplatePath (pc_HaproxyConfig (px_config p)) \<notin>
       {cfg_path p, backup_path (in_configurer (px_haproxyInstance p)), tmp_path (in_configurer (px_haproxyInstance p))}"

fun loaded_ok :: "(string, bool) gomap \<Rightarrow> commit_stage \<Rightarrow> bool" where
  "loaded_ok ips (TemplateRead c) \<longleftrightarrow> c = haproxy_cfg_template"
| "loaded_ok ips (Loaded c a) \<longleftrightarrow> c = haproxy_cfg_template \<and> a = ips"
| "loaded_ok ips (Rendered out) \<longleftrightarrow> (\<exists>bs. out = Ok bs)"
| "loaded_ok ips _ \<longleftrightarrow> True"

fun synced_at :: "(string, bool) gomap \<Rightarrow> Proxier \<Rightarrow> machine \<Rightarrow> commit_stage \<Rightarrow> bool" where
  "synced_at ips p m Waiting \<longleftrightarrow> files m (cfg_path p) = Some (cfg_text ips p)"
| "synced_at ips p m (Rendered out) \<longleftrightarrow> out = Ok (cfg_text ips p)"
| "synced_at ips p m _ \<longleftrightarrow> True"

definition synced :: "(string, bool) gomap \<Rightarrow> daemon \<Rightarrow> bool" where
  "synced ips d \<longleftrightarrow> pending_haproxy (dm_px d) \<or> synced_at ips (dm_px d) (dm_machine d) (dm_stage d)"

definition daemon_inv ::
  "'k host \<Rightarrow> 'k \<Rightarrow> (string, bool) gomap \<Rightarrow> routes \<Rightarrow> APIService list \<Rightarrow> APIEndpoints list \<Rightarrow> daemon \<Rightarrow> bool" where
  "daemon_inv H k ips r0 svcs epss d \<longleftrightarrow> resync r0 svcs epss (dm_sys d) \<and> lists_marked svcs epss (dm_sys d) \<and>
     serves H k ips (dm_px d) (dm_machine d) \<and> ab_IsSet (px_master (dm_px d)) \<and> loaded_ok ips (dm_stage d) \<and>
     (idle (dm_sys d) \<longrightarrow> synced ips d)"

lemma serves_static: "px_static p p' \<Longrightarrow> serves H k ips p m \<Longrightarrow> serves H k ips p' m"
  by (simp add: px_static_def serves_def cfg_path_def)

lemma serves_render:
  "serves H k ips p m \<Longrightarrow>
     RenderTemplateWithFuncs (h_route_engine H) ''haproxy_tpl'' haproxy_cfg_template \<lparr>td_IPs = ips, td_RouteTable = px_routeTable p\<rparr> =
       Ok (cfg_text ips p)"
  by (simp add: serves_def cfg_text_def rendered_haproxy)

lemma serves_reload:
  assumes "serves H k ips p m"
  shows "serves H k ips p (fst (haproxy_Reload (h_os H) m (px_haproxyInstance p) bs))"
proof -
  let ?i = "px_haproxyInstance p" and ?m = "fst (haproxy_Reload (h_os H) m (px_haproxyInstance p) bs)"
  let ?t = "TemplatePath (pc_HaproxyConfig (px_config p))"
  have "files ?m ?t = files m ?t" using assms by (intro hp.reload_frame) (simp add: serves_def cfg_path_def)
  then have "ReadFile (h_os H) ?m ?t = ReadFile (h_os H) m ?t" by (simp add: ReadFile_def)
  moreover have "lets_through (h_os H) ?m ?i"
    using assms hp.reload_cfg [of "h_os H" m ?i bs] by (auto simp: serves_def lets_through_def)
  ultimately show ?thesis using assms by (simp add: serves_def)
qed

text \<open>The goroutine of the commits touches only the queue and the backoff of the rate limited function.\<close>

definition commit_only :: "daemon \<Rightarrow> daemon \<Rightarrow> bool" where
  "commit_only d d' \<longleftrightarrow> (\<exists>f. ff_one_key haproxy_key (rl_queue f) \<and>
     dm_sys d' = dm_sys (with_px d ((dm_px d)\<lparr>px_commitHaproxy := f\<rparr>)))"

lemma commit_only_keeps:
  assumes "commit_only d d'" "resync r0 svcs epss (dm_sys d)"
  shows "resync r0 svcs epss (dm_sys d')" "lists_marked svcs epss (dm_sys d') = lists_marked svcs epss (dm_sys d)"
    "idle (dm_sys d') = idle (dm_sys d)" "px_static (dm_px d) (dm_px d')" "px_routeTable (dm_px d') = px_routeTable (dm_px d)"
proof -
  from assms(1) obtain f where f: "ff_one_key haproxy_key (rl_queue f)" "dm_sys d' = dm_sys (with_px d ((dm_px d)\<lparr>px_commitHaproxy := f\<rparr>))"
    by (auto simp: commit_only_def)
  from assms(2) obtain handled ss es where "resync_at r0 svcs epss (dm_sys d) handled ss es" by (auto simp: resync_def)
  with f have "resync_at r0 svcs epss (dm_sys d') handled ss es"
    by (simp add: resync_at_def with_px_def px_ready_defs in_svc_hand_def in_eps_hand_def)
  then show "resync r0 svcs epss (dm_sys d')" by (auto simp: resync_def)
  show "lists_marked svcs epss (dm_sys d') = lists_marked svcs epss (dm_sys d)" "idle (dm_sys d') = idle (dm_sys d)"
    "px_static (dm_px d) (dm_px d')" "px_routeTable (dm_px d') = px_routeTable (dm_px d)"
    using f(2) by (simp_all add: with_px_def lists_marked_def idle_def px_static_def)
qed

lemma resync_ready: "resync r0 svcs epss s \<Longrightarrow> px_ready (ct_Proxier (ctl s))"
  by (auto simp: resync_def resync_at_def)

lemma commit_only_refl: "px_ready (dm_px d) \<Longrightarrow> dm_sys d' = dm_sys d \<Longrightarrow> commit_only d d'"
  by (auto simp: commit_only_def with_px_def px_ready_defs intro!: exI [of _ "px_commitHaproxy (dm_px d)"])

lemma commit_onlyI:
  "ff_one_key haproxy_key (rl_queue f) \<Longrightarrow> dm_sys d' = dm_sys (with_px d ((dm_px d)\<lparr>px_commitHaproxy := f\<rparr>)) \<Longrightarrow> commit_only d d'"
  by (auto simp: commit_only_def)

text \<open>What each step of the commit goroutine keeps.\<close>

definition stage_kept :: "'k host \<Rightarrow> 'k \<Rightarrow> (string, bool) gomap \<Rightarrow> daemon \<Rightarrow> daemon \<Rightarrow> bool" where
  "stage_kept H k ips d d' \<longleftrightarrow> commit_only d d' \<and> serves H k ips (dm_px d) (dm_machine d') \<and>
     loaded_ok ips (dm_stage d') \<and> (synced ips d \<longrightarrow> synced ips d')"

lemma take_step:
  assumes "px_ready (dm_px d)" "serves H k ips (dm_px d) (dm_machine d)" "daemon_step H k d Take = Some d'"
  shows "stage_kept H k ips d d'" "dm_stage d = Waiting" "\<exists>r. dm_stage d' = Popped r" "\<not> pending_haproxy (dm_px d')"
proof -
  let ?f = "px_commitHaproxy (dm_px d)"
  obtain q r where d: "dm_stage d = Waiting" and q: "kq_Pop (rl_Q haproxy_key) (rl_queue ?f) = (q, Some r)"
    and d': "d' = with_px d ((dm_px d)\<lparr>px_commitHaproxy := ?f\<lparr>rl_queue := q\<rparr>\<rparr>)\<lparr>dm_stage := Popped r\<rparr>"
    using commit_step_cases(1) [OF assms(3)] by blast
  have one: "ff_one_key haproxy_key (rl_queue ?f)" using assms(1) by (simp add: px_ready_defs)
  with slot.pop_slot [OF this, folded rl_Q_const] q have "ff_one_key haproxy_key q" "ff_slot haproxy_key q = None" by simp_all
  then have "commit_only d d'" by (intro commit_onlyI [of "?f\<lparr>rl_queue := q\<rparr>"]) (simp_all add: d' with_px_def)
  then show "stage_kept H k ips d d'" using assms(2) by (simp add: stage_kept_def d' synced_def)
  show "dm_stage d = Waiting" "\<exists>r. dm_stage d' = Popped r" "\<not> pending_haproxy (dm_px d')"
    using d \<open>ff_slot haproxy_key q = None\<close> by (simp_all add: d' pending_haproxy_def)
qed

lemma decide_step:
  assumes "px_ready (dm_px d)" "serves H k ips (dm_px d) (dm_machine d)" "daemon_step H k d (Decide t1) = Some d'"
  shows "stage_kept H k ips d d'"
proof -
  let ?f = "px_commitHaproxy (dm_px d)"
  from commit_step_cases(2) [OF assms(3)] obtain r where
    "d' = with_px d ((dm_px d)\<lparr>px_commitHaproxy := rl_Invoke (rl_Q haproxy_key) ?f r\<rparr>)\<lparr>dm_stage := Waiting\<rparr> \<or> d' = d\<lparr>dm_stage := Firing\<rparr>" by blast
  then show ?thesis
  proof
    assume d': "d' = with_px d ((dm_px d)\<lparr>px_commitHaproxy := rl_Invoke (rl_Q haproxy_key) ?f r\<rparr>)\<lparr>dm_stage := Waiting\<rparr>"
    have one: "ff_one_key haproxy_key (rl_queue ?f)" using assms(1) by (simp add: px_ready_defs)
    note add = slot.add_slot [folded rl_Q_const, OF one, of r] slot.add_inv [folded rl_Q_const, OF one, of r]
    then have "commit_only d d'" by (intro commit_onlyI [of "rl_Invoke (rl_Q haproxy_key) ?f r"]) (simp_all add: d' with_px_def rl_Invoke_def)
    with add assms(2) show ?thesis by (auto simp: stage_kept_def d' synced_def pending_haproxy_def rl_Invoke_def)
  qed (use assms(1,2) in \<open>simp add: stage_kept_def synced_def commit_only_refl\<close>)
qed

lemma read_steps:
  assumes "px_ready (dm_px d)" "serves H k ips (dm_px d) (dm_machine d)" "loaded_ok ips (dm_stage d)"
  shows "daemon_step H k d ReadTemplate = Some d' \<Longrightarrow> stage_kept H k ips d d'"
    and "daemon_step H k d ReadAddrs = Some d' \<Longrightarrow> stage_kept H k ips d d'"
  using assms commit_step_cases(3,4) [of H k d d']
  by (auto simp: serves_def stage_kept_def synced_def commit_only_refl)

lemma render_step:
  assumes "px_ready (dm_px d)" "serves H k ips (dm_px d) (dm_machine d)" "loaded_ok ips (dm_stage d)"
    and "daemon_step H k d Render = Some d'"
  shows "stage_kept H k ips d d'"
proof -
  from commit_step_cases(5) [OF assms(4)] assms(3) have "dm_stage d = Loaded haproxy_cfg_template ips" by auto
  with assms(4) serves_render [OF assms(2)] have d': "d' = d\<lparr>dm_stage := Rendered (Ok (cfg_text ips (dm_px d)))\<rparr>"
    by (auto simp: rendered_lock_def with_px_def split: if_splits)
  with assms(1,2) show ?thesis by (simp add: stage_kept_def synced_def commit_only_refl)
qed

lemma install_step:
  assumes "px_ready (dm_px d)" "serves H k ips (dm_px d) (dm_machine d)" "dm_stage d = Rendered (Ok bs)"
  shows "\<exists>d'. daemon_step H k d (Install t2 t3) = Some d' \<and> stage_kept H k ips d d' \<and> dm_stage d' = Waiting \<and>
    pending_haproxy (dm_px d') = pending_haproxy (dm_px d)"
proof -
  let ?p = "dm_px d"
  let ?f = "(px_commitHaproxy ?p)\<lparr>rl_backOff := bo_Next (rl_backOff (px_commitHaproxy ?p)) (rl_backOffKey (px_commitHaproxy ?p)) t2 t3\<rparr>"
  obtain m where r: "haproxy_Reload (h_os H) (dm_machine d) (px_haproxyInstance ?p) bs = (m, Ok ())"
    using haproxy_lets_through [of "h_os H" "dm_machine d" "px_haproxyInstance ?p" bs] assms(2)
    by (cases "haproxy_Reload (h_os H) (dm_machine d) (px_haproxyInstance ?p) bs") (simp add: serves_def)
  with hp.reload_installs [of "h_os H" "dm_machine d" "px_haproxyInstance ?p" bs] have f: "files m (cfg_path ?p) = Some bs" by (simp add: cfg_path_def)
  let ?d = "with_px d (?p\<lparr>px_commitHaproxy := ?f\<rparr>)\<lparr>dm_machine := m, dm_stage := Waiting\<rparr>"
  have "ff_one_key haproxy_key (rl_queue ?f)" using assms(1) by (simp add: px_ready_defs)
  then have "commit_only d ?d" by (rule commit_onlyI) (simp add: with_px_def)
  moreover have "serves H k ips ?p m" using serves_reload [OF assms(2), of bs] r by simp
  moreover have "synced ips d \<longrightarrow> synced ips ?d" using f assms(3) by (auto simp: synced_def pending_haproxy_def cfg_text_def cfg_path_def)
  ultimately show ?thesis using r assms(3) by (intro exI [of _ ?d]) (simp add: stage_kept_def commit_install_def pending_haproxy_def Let_def)
qed

lemma commit_goroutine_step:
  assumes "px_ready (dm_px d)" "serves H k ips (dm_px d) (dm_machine d)" "loaded_ok ips (dm_stage d)"
    and "daemon_step H k d l = Some d'" "\<forall>w. l \<noteq> Work w"
  shows "stage_kept H k ips d d'"
proof (cases l)
  case (Install t2 t3)
  with commit_step_cases(6) assms(3,4) obtain bs where "dm_stage d = Rendered (Ok bs)" by fastforce
  from install_step [OF assms(1,2) this, of t2 t3] Install assms(4) show ?thesis by auto
qed (use assms take_step(1) decide_step read_steps render_step in \<open>auto simp del: daemon_step.simps\<close>)

lemma daemon_inv_step:
  assumes inv: "daemon_inv H k ips r0 svcs epss d" and step: "daemon_step H k d l = Some d'"
    and lists: "svcs \<noteq> []" "epss \<noteq> []" "list_all IsServiceIPSet svcs"
  shows "daemon_inv H k ips r0 svcs epss d'"
proof -
  from inv have r: "resync r0 svcs epss (dm_sys d)" and lm: "lists_marked svcs epss (dm_sys d)" and sv: "serves H k ips (dm_px d) (dm_machine d)"
    and ms: "ab_IsSet (px_master (dm_px d))" and ld: "loaded_ok ips (dm_stage d)" and sy: "idle (dm_sys d) \<longrightarrow> synced ips d" by (simp_all add: daemon_inv_def)
  show ?thesis
  proof (cases "\<exists>w. l = Work w")
    case True
    then obtain w s where s: "ctl_step (dm_sys d) w = Some s" "d' = d\<lparr>dm_sys := s\<rparr>" using step by auto
    note st = step_static [OF r s(1)]
    then have m: "ab_IsSet (px_master (ct_Proxier (ctl s)))" using ms by (simp add: px_static_def)
    with last_step_commits [OF r lm s(1) _ lists] have "idle s \<longrightarrow> synced ips d'" by (simp add: synced_def s(2))
    with resync_step [OF r s(1)] lists_marked_step [OF r lm s(1)] serves_static [OF st sv] m ld show ?thesis
      by (simp add: daemon_inv_def s(2))
  next
    case False
    with commit_goroutine_step [OF resync_ready [OF r] sv ld step] have kept: "stage_kept H k ips d d'" by blast
    then have only: "commit_only d d'" by (simp add: stage_kept_def)
    from commit_only_keeps [OF only r] kept serves_static [of "dm_px d" "dm_px d'" H k ips "dm_machine d'"] lm ms sy
    show ?thesis by (simp add: daemon_inv_def px_static_def stage_kept_def)
  qed
qed

lemma daemon_inv_run:
  assumes "svcs \<noteq> []" "epss \<noteq> []" "list_all IsServiceIPSet svcs"
  shows "daemon_inv H k ips r0 svcs epss d \<Longrightarrow> run_steps (daemon_step H k) d ls = Some d' \<Longrightarrow> daemon_inv H k ips r0 svcs epss d'"
proof (induction ls arbitrary: d)
  case (Cons l ls)
  from Cons.prems(2) obtain u where u: "daemon_step H k d l = Some u" "run_steps (daemon_step H k) u ls = Some d'"
    by (cases "daemon_step H k d l") auto
  show ?case by (rule Cons.IH [OF daemon_inv_step [OF Cons.prems(1) u(1) assms] u(2)])
qed simp

section \<open>Catching up\<close>

definition quiet :: "daemon \<Rightarrow> bool" where
  "quiet d \<longleftrightarrow> idle (dm_sys d) \<and> \<not> pending_haproxy (dm_px d) \<and> dm_stage d = Waiting"

lemma quiet_in_sync: "daemon_inv H k ips r0 svcs epss d \<Longrightarrow> quiet d \<Longrightarrow>
    files (dm_machine d) (cfg_path (dm_px d)) = Some (cfg_text ips (dm_px d))"
  by (simp add: daemon_inv_def quiet_def synced_def)

text \<open>Clock readings that are not before \<open>now\<close>.\<close>

fun late :: "gotime \<Rightarrow> daemon_label \<Rightarrow> bool" where
  "late now (Work l) = True"
| "late now (Decide t1) = (now \<le> t1)"
| "late now (Install t2 t3) = (now \<le> t2 \<and> t2 \<le> t3)"
| "late now _ = True"

text \<open>A backoff ends.\<close>

lemma backoff_over: "\<exists>t \<ge> now. \<not> IsInBackOffSinceUpdate b ident t"
proof (cases "gm_get (bo_perItemBackoff b) ident")
  case None
  then show ?thesis by (auto simp: IsInBackOffSinceUpdate_def)
next
  case (Some e)
  let ?t = "max now (be_lastUpdate e + sint (be_backoff e))"
  have "sint (be_backoff e) \<le> sint (time_Sub ?t (be_lastUpdate e))"
    using sint_range [of "be_backoff e"] by (auto simp: sint_time_Sub)
  with Some show ?thesis by (intro exI [of _ ?t]) (simp add: IsInBackOffSinceUpdate_def)
qed

lemma works_off:
  "run_steps ctl_step (dm_sys d) ls = Some s \<Longrightarrow> run_steps (daemon_step H k) d (map Work ls) = Some (d\<lparr>dm_sys := s\<rparr>)"
proof (induction ls arbitrary: d)
  case (Cons l ls)
  from Cons.prems obtain u where "ctl_step (dm_sys d) l = Some u" "run_steps ctl_step u ls = Some s"
    by (cases "ctl_step (dm_sys d) l") auto
  with Cons.IH [of "d\<lparr>dm_sys := u\<rparr>"] show ?case by simp
qed simp

text \<open>The commit goroutine never blocks while it is at work, and gets closer to \<open>Pop\<close> with each step once its backoff
  is over.\<close>

fun stage_rank :: "commit_stage \<Rightarrow> nat" where
  "stage_rank Waiting = 0"
| "stage_rank (Rendered _) = 1"
| "stage_rank (Loaded _ _) = 2"
| "stage_rank (TemplateRead _) = 3"
| "stage_rank Firing = 4"
| "stage_rank (Popped _) = 5"

lemma stage_progress:
  assumes "px_ready (dm_px d)" "serves H k ips (dm_px d) (dm_machine d)" "loaded_ok ips (dm_stage d)" "dm_stage d \<noteq> Waiting"
  shows "\<exists>l d'. daemon_step H k d l = Some d' \<and> late now l \<and> (\<forall>w. l \<noteq> Work w) \<and>
    stage_rank (dm_stage d') < stage_rank (dm_stage d) \<and> pending_haproxy (dm_px d') = pending_haproxy (dm_px d)"
proof (cases "dm_stage d")
  case (Popped res)
  obtain t1 where "now \<le> t1" "\<not> IsInBackOffSinceUpdate (rl_backOff (px_commitHaproxy (dm_px d))) (rl_backOffKey (px_commitHaproxy (dm_px d))) t1"
    using backoff_over by blast
  with Popped show ?thesis by (intro exI [of _ "Decide t1"]) simp
next
  case Firing
  with assms(2) show ?thesis by (intro exI [of _ ReadTemplate]) (simp add: serves_def)
next
  case (TemplateRead c)
  with assms(2) show ?thesis by (intro exI [of _ ReadAddrs]) (simp add: serves_def)
next
  case (Loaded c a)
  moreover have "\<not> px_lock (dm_px d)" using assms(1) by (simp add: px_ready_defs)
  ultimately show ?thesis using assms(3) serves_render [OF assms(2)] by (intro exI [of _ Render]) (simp add: rendered_lock_def)
next
  case (Rendered out)
  then obtain bs where "dm_stage d = Rendered (Ok bs)" using assms(3) by auto
  from install_step [OF assms(1,2) this, of now now] Rendered show ?thesis by (intro exI [of _ "Install now now"]) auto
qed (use assms(4) in simp)

lemma stage_finishes:
  assumes lists: "svcs \<noteq> []" "epss \<noteq> []" "list_all IsServiceIPSet svcs"
  shows "daemon_inv H k ips r0 svcs epss d \<Longrightarrow> \<exists>ls d'. run_steps (daemon_step H k) d ls = Some d' \<and> list_all (late now) ls \<and>
    dm_stage d' = Waiting \<and> idle (dm_sys d') = idle (dm_sys d) \<and> pending_haproxy (dm_px d') = pending_haproxy (dm_px d)"
proof (induction "stage_rank (dm_stage d)" arbitrary: d rule: less_induct)
  case less
  from less.prems have r: "resync r0 svcs epss (dm_sys d)" and sv: "serves H k ips (dm_px d) (dm_machine d)" and ld: "loaded_ok ips (dm_stage d)"
    by (simp_all add: daemon_inv_def)
  show ?case
  proof (cases "dm_stage d = Waiting")
    case True
    then show ?thesis by (intro exI [of _ "[]"]) simp
  next
    case False
    from stage_progress [OF resync_ready [OF r] sv ld False, of now] obtain l e where e: "daemon_step H k d l = Some e" "late now l" "\<forall>w. l \<noteq> Work w"
      "stage_rank (dm_stage e) < stage_rank (dm_stage d)" "pending_haproxy (dm_px e) = pending_haproxy (dm_px d)" by blast
    have i: "idle (dm_sys e) = idle (dm_sys d)"
      using commit_only_keeps(3) [OF _ r] commit_goroutine_step [OF resync_ready [OF r] sv ld e(1,3)] by (simp add: stage_kept_def)
    from less.hyps [OF e(4) daemon_inv_step [OF less.prems e(1) lists]] obtain ls d' where "run_steps (daemon_step H k) e ls = Some d'"
      "list_all (late now) ls" "dm_stage d' = Waiting" "idle (dm_sys d') = idle (dm_sys e)" "pending_haproxy (dm_px d') = pending_haproxy (dm_px e)" by blast
    with e i show ?thesis by (intro exI [of _ "l # ls"] exI [of _ d']) (simp del: daemon_step.simps)
  qed
qed

lemma can_take:
  assumes "px_ready (dm_px d)" "pending_haproxy (dm_px d)" "dm_stage d = Waiting"
  shows "\<exists>d'. daemon_step H k d Take = Some d'"
proof -
  let ?q = "rl_queue (px_commitHaproxy (dm_px d))"
  have q: "ff_one_key haproxy_key ?q" using assms(1) by (simp add: px_ready_defs)
  with slot.pop_slot [OF q, folded rl_Q_const] assms show ?thesis
    by (cases "kq_Pop (rl_Q haproxy_key) ?q") (auto simp: pending_haproxy_def Let_def)
qed

lemma drains:
  assumes inv: "daemon_inv H k ips r0 svcs epss d" and idle: "idle (dm_sys d)" "dm_stage d = Waiting"
    and lists: "svcs \<noteq> []" "epss \<noteq> []" "list_all IsServiceIPSet svcs"
  shows "\<exists>ls d'. run_steps (daemon_step H k) d ls = Some d' \<and> quiet d' \<and> list_all (late now) ls"
proof (cases "pending_haproxy (dm_px d)")
  case False
  with idle show ?thesis by (intro exI [of _ "[]"]) (simp add: quiet_def)
next
  case True
  from inv have r: "resync r0 svcs epss (dm_sys d)" and sv: "serves H k ips (dm_px d) (dm_machine d)" by (simp_all add: daemon_inv_def)
  from can_take [OF resync_ready [OF r] True idle(2), of H k] obtain e where e: "daemon_step H k d Take = Some e" by blast
  note t = take_step [OF resync_ready [OF r] sv e]
  have "idle (dm_sys e)" using commit_only_keeps(3) [OF _ r] t(1) idle(1) by (simp add: stage_kept_def)
  with stage_finishes [OF lists daemon_inv_step [OF inv e lists], of now] t(4) obtain ls d' where
    "run_steps (daemon_step H k) e ls = Some d'" "list_all (late now) ls" "quiet d'" by (auto simp: quiet_def)
  with e show ?thesis by (intro exI [of _ "Take # ls"] exI [of _ d']) (simp del: daemon_step.simps)
qed

lemma catches_up:
  assumes inv: "daemon_inv H k ips r0 svcs epss d" and lists: "svcs \<noteq> []" "epss \<noteq> []" "list_all IsServiceIPSet svcs"
  shows "\<exists>ls d'. run_steps (daemon_step H k) d ls = Some d' \<and> quiet d' \<and> list_all (late now) ls"
proof -
  obtain ws s where w: "run_steps ctl_step (dm_sys d) ws = Some s" "idle s"
    using inv resync_finishes unfolding daemon_inv_def by blast
  let ?e = "d\<lparr>dm_sys := s\<rparr>"
  note run = works_off [OF w(1), of H k]
  have e: "daemon_inv H k ips r0 svcs epss ?e" by (rule daemon_inv_run [OF lists inv run])
  from stage_finishes [OF lists e, of now] w(2) obtain ls f where f: "run_steps (daemon_step H k) ?e ls = Some f" "list_all (late now) ls"
    "dm_stage f = Waiting" "idle (dm_sys f)" by auto
  from drains [OF daemon_inv_run [OF lists e f(1)] f(4,3) lists, of now] obtain ls' d' where
    "run_steps (daemon_step H k) f ls' = Some d'" "quiet d'" "list_all (late now) ls'" by blast
  moreover have "list_all (late now) (map Work ws)" by (simp add: list_all_iff)
  ultimately show ?thesis using run f(1,2)
    by (intro exI [of _ "map Work ws @ ls @ ls'"] exI [of _ d']) (simp add: run_steps_append del: daemon_step.simps)
qed

section \<open>Properties\<close>

text \<open>The steps of a commit are one iteration of the rate limiter. Run one after the other, they
  leave the queue, the backoff, the proxier and the machine as an iteration of the \<open>RunUntil\<close> loop does that calls
  \<open>commitAndReloadHaproxy\<close>; in backoff \<open>Take\<close> and \<open>Decide\<close> do.\<close>

theorem commit_steps_are_iteration:
  assumes "px_ready (dm_px d)" "pending_haproxy (dm_px d)" "dm_stage d = Waiting"
    and "commitAndReloadHaproxy H k (dm_px d) (dm_machine d) = Some (p', m', out)" "goes_on out"
  shows "(let rlf = px_commitHaproxy (dm_px d);
       (f, (p, m), _) = rl_iteration (rl_Q haproxy_key) (\<lambda>_. ((p', m'), out)) rlf (dm_px d, dm_machine d) t1 t2 t3
     in \<exists>reads. set reads \<subseteq> {ReadTemplate, ReadAddrs, Render} \<and> run_steps (daemon_step H k) d
          (Take # Decide t1 # (if IsInBackOffSinceUpdate (rl_backOff rlf) (rl_backOffKey rlf) t1 then [] else reads @ [Install t2 t3])) =
        Some (with_px d (p\<lparr>px_commitHaproxy := f\<rparr>)\<lparr>dm_machine := m\<rparr>))"
proof -
  let ?p = "dm_px d"
  let ?q = "rl_queue (px_commitHaproxy ?p)"
  let ?tpl = "ReadFile (h_os H) (dm_machine d) (TemplatePath (pc_HaproxyConfig (px_config ?p)))"
  let ?ips = "GetAddrs (h_netlink H) k (px_ip ?p)"
  have q: "ff_one_key haproxy_key ?q" and lock: "\<not> px_lock ?p" using assms(1) by (simp_all add: px_ready_defs)
  obtain q' r where q': "kq_Pop (rl_Q haproxy_key) ?q = (q', Some r)"
    using slot.pop_slot [OF q, folded rl_Q_const] assms(2) by (cases "kq_Pop (rl_Q haproxy_key) ?q") (auto simp: pending_haproxy_def)
  have p': "p' = ?p" using commitAndReloadHaproxy_proxier [OF assms(4)] assms(5) by blast
  show ?thesis
  proof (cases "IsInBackOffSinceUpdate (rl_backOff (px_commitHaproxy ?p)) (rl_backOffKey (px_commitHaproxy ?p)) t1")
    case True
    with q' assms(3) show ?thesis by (auto simp: rl_iteration_def handleOne_def Let_def with_px_def rl_Invoke_def intro!: exI [of _ "[]"])
  next
    case False
    note eval = False q' assms(3) p' lock
    show ?thesis
    proof (cases ?tpl)
      case (Inl err)
      with eval assms(4) show ?thesis
        by (auto simp: rl_iteration_def handleOne_def Let_def with_px_def commitAndReloadHaproxy_def commit_install_def intro!: exI [of _ "[ReadTemplate]"])
    next
      case tpl: (Inr c)
      show ?thesis
      proof (cases ?ips)
        case (Inl err)
        with eval tpl assms(4) show ?thesis
          by (auto simp: rl_iteration_def handleOne_def Let_def with_px_def commitAndReloadHaproxy_def commit_install_def
              intro!: exI [of _ "[ReadTemplate, ReadAddrs]"])
      next
        case (Inr ips)
        with eval tpl assms(4,5) show ?thesis
          by (auto simp: rl_iteration_def handleOne_def Let_def with_px_def commitAndReloadHaproxy_def commit_install_def rendered_lock_def
              goes_on_def split: outcome.splits prod.splits intro!: exI [of _ "[ReadTemplate, ReadAddrs, Render]"])
      qed
    qed
  qed
qed

theorem commit_steps_are_iteration_witness:
  "\<exists>reads p' m' d'. let d = \<lparr>dm_sys = \<lparr>ctl = controller_New (commitHaproxy demo_proxier), svc_hand = None, eps_hand = None\<rparr>,
        dm_machine = demo_machine ''tpl'', dm_stage = Waiting\<rparr>
     in commitAndReloadHaproxy demo_host [] (dm_px d) (dm_machine d) = Some (p', m', Ok ()) \<and>
        run_steps (daemon_step demo_host []) d (Take # Decide 1 # reads @ [Install 2 3]) = Some d' \<and> dm_machine d' = m' \<and> files m' ''c'' = Some ''tpl''"
proof -
  let ?p = "commitHaproxy demo_proxier"
  let ?d = "\<lparr>dm_sys = \<lparr>ctl = controller_New ?p, svc_hand = None, eps_hand = None\<rparr>, dm_machine = demo_machine ''tpl'', dm_stage = Waiting\<rparr>"
  have px: "dm_px ?d = ?p" by (simp add: controller_New_def)
  have act: "active demo_proxier" by (simp add: active_def demo_proxier_def)
  have "effect demo_proxier (routes_of demo_proxier) (vips demo_proxier) False True ?p"
    by (rule effect_commitHaproxy [OF effect_refl [OF demo_ready]])
  with act have ready: "px_ready (dm_px ?d)" "pending_haproxy (dm_px ?d)" unfolding px by (simp_all add: effect_def)
  obtain m' where m': "commitAndReloadHaproxy demo_host [] (dm_px ?d) (dm_machine ?d) = Some (?p, m', Ok ())" "files m' ''c'' = Some ''tpl''"
    unfolding px by (simp add: demo_defs commit_eval commitHaproxy_def)
  have b: "\<not> IsInBackOffSinceUpdate (rl_backOff (px_commitHaproxy (dm_px ?d))) (rl_backOffKey (px_commitHaproxy (dm_px ?d))) 1"
    unfolding px by (simp add: commitHaproxy_def demo_proxier_def rl_eval)
  have it: "fst (snd (rl_iteration (rl_Q haproxy_key) (\<lambda>_. ((?p, m'), Ok ())) (px_commitHaproxy (dm_px ?d)) (dm_px ?d, dm_machine ?d) 1 2 3)) = (?p, m')"
    unfolding px by (simp add: commitHaproxy_def demo_proxier_def rl_eval keepalived_key_def haproxy_key_def)
  from commit_steps_are_iteration [OF ready _ m'(1), of 1 2 3] b it m' obtain reads where
    "run_steps (daemon_step demo_host []) ?d (Take # Decide 1 # reads @ [Install 2 3]) =
      Some (with_px ?d (?p\<lparr>px_commitHaproxy := fst (rl_iteration (rl_Q haproxy_key) (\<lambda>_. ((?p, m'), Ok ())) (px_commitHaproxy (dm_px ?d)) (dm_px ?d, dm_machine ?d) 1 2 3)\<rparr>)
        \<lparr>dm_machine := m'\<rparr>)"
    by (auto simp: Let_def goes_on_def simp del: daemon_step.simps run_steps.simps split: prod.splits if_splits)
  with m' show ?thesis
    by (intro exI [of _ reads] exI [of _ ?p] exI [of _ m']) (simp add: Let_def del: daemon_step.simps run_steps.simps)
qed

lemma service_queue_unread:
  assumes "resync r0 svcs epss s" "list_all (\<lambda>x. svc_Name x \<noteq> '''') svcs" "eq_queue (ct_services (ctl s)) \<noteq> []"
  shows "\<not> eq_ListConsumed (ct_services (ctl s))"
proof -
  from assms(1) obtain handled ss es where h: "resync_at r0 svcs epss s handled ss es" by (auto simp: resync_def)
  have "set (map (SvcEvent Modified) ss) \<subseteq> set (map (SvcEvent Modified) svcs)" unfolding resync_atD(5) [OF h, symmetric] by auto
  then have sub: "set ss \<subseteq> set svcs" by auto
  obtain ks where ks: "obj_keys ServiceKey ss = Some ks" "eq_queue (ct_services (ctl s)) = ks"
    "eq_lastReplaceKey (ct_services (ctl s)) = last ks" using resync_atD(2) [OF h] assms(3) by (auto simp: holds_def)
  have "obj_keys ServiceKey xs = Some ls \<Longrightarrow> k \<in> set ls \<Longrightarrow> \<exists>x \<in> set xs. ServiceKey x = Inr k" for xs ls k
    by (induction xs arbitrary: ls) (auto split: sum.splits option.splits)
  from this [OF ks(1), of "last ks"] assms(3) ks(2) obtain x where "x \<in> set ss" "ServiceKey x = Inr (last ks)" by auto
  with sub assms(2) have "last ks \<noteq> ''''"
    by (auto simp: ServiceKey_def MetaNamespaceKeyFunc_def list_all_iff split: if_splits)
  with ks(3) show ?thesis by (simp add: eq_ListConsumed_def)
qed

definition uncommitted :: "ctl_sys \<Rightarrow> bool" where
  "uncommitted s \<longleftrightarrow> (\<not> pending_haproxy (ct_Proxier (ctl s)) \<and> \<not> ct_serviceListConsumed (ctl s)) \<or>
     eq_queue (ct_services (ctl s)) = [] \<and> svc_hand s = None"

lemma uncommitted_step:
  assumes "resync r0 svcs epss s" "list_all (\<lambda>x. svc_Name x \<noteq> '''') svcs" "uncommitted s" "ctl_step s l = Some t"
  shows "uncommitted t"
proof (cases l)
  case TakeService
  then have "eq_queue (ct_services (ctl s)) \<noteq> []" using assms(4) by (auto simp: NextService_def split: option.splits if_splits)
  with TakeService assms take_service_shape [OF assms(1), of t] show ?thesis by (auto simp: uncommitted_def simp del: ctl_step.simps)
next
  case PutService
  with assms put_service_shape [OF assms(1), of t] service_queue_unread [OF assms(1,2)] show ?thesis
    by (auto simp: uncommitted_def simp del: ctl_step.simps)
next
  case TakeEndpoints
  with assms take_endpoints_shape [OF assms(1), of t] show ?thesis by (auto simp: uncommitted_def simp del: ctl_step.simps)
next
  case PutEndpoints
  with assms put_endpoints_shape [OF assms(1), of t] show ?thesis by (auto simp: uncommitted_def simp del: ctl_step.simps)
qed

lemma uncommitted_run:
  assumes "list_all (\<lambda>x. svc_Name x \<noteq> '''') svcs"
  shows "resync r0 svcs epss s \<Longrightarrow> uncommitted s \<Longrightarrow> run_steps ctl_step s ls = Some t \<Longrightarrow> resync r0 svcs epss t \<and> uncommitted t"
proof (induction ls arbitrary: s)
  case (Cons l ls)
  from Cons.prems(3) obtain u where u: "ctl_step s l = Some u" "run_steps ctl_step u ls = Some t" by (cases "ctl_step s l") auto
  show ?case
    by (rule Cons.IH [OF conjunct1 [OF resync_step [OF Cons.prems(1) u(1)]] uncommitted_step [OF Cons.prems(1) assms Cons.prems(2) u(1)] u(2)])
qed simp

lemma headless_last:
  assumes "resync r0 (svcs @ [x]) epss s" "uncommitted s" "list_all (\<lambda>x. svc_Name x \<noteq> '''') (svcs @ [x])" "\<not> IsServiceIPSet x"
    and "run_steps ctl_step s (ls @ [PutService]) = Some t" "idle t"
  shows "\<not> pending_haproxy (ct_Proxier (ctl t))"
proof -
  from assms(5) obtain u where u: "run_steps ctl_step s ls = Some u" "ctl_step u PutService = Some t"
    by (auto simp: run_steps_append simp del: ctl_step.simps split: option.splits)
  from uncommitted_run [OF assms(3,1,2) u(1)] have r: "resync r0 (svcs @ [x]) epss u" and n: "uncommitted u" by simp_all
  from put_service_shape [OF r u(2)] obtain y p' where y: "svc_hand u = Some (Modified, y)"
    "t = u\<lparr>ctl := (ctl u)\<lparr>ct_serviceListConsumed := eq_ListConsumed (ct_services (ctl u)), ct_Proxier := p'\<rparr>, svc_hand := None\<rparr>"
    "pending_haproxy p' = (pending_haproxy (ct_Proxier (ctl u)) \<or> ab_IsSet (px_master p') \<and> IsServiceIPSet y \<and>
      eq_ListConsumed (ct_services (ctl u)) \<and> ct_endpointsListConsumed (ctl u))" by blast
  from r obtain handled ss es where h: "resync_at r0 (svcs @ [x]) epss u handled ss es" by (auto simp: resync_def)
  have "ss = []" using holds_empty [OF resync_atD(2) [OF h]] y(2) assms(6) by (simp add: idle_def)
  with resync_atD(5) [OF h] y(1) have "y = x" by (simp add: in_svc_hand_def)
  with y n assms(4) show ?thesis by (auto simp: uncommitted_def)
qed

end
