(* ===== verification/Transport.thy ===== *)
theory Transport
  imports Config "HOL-Library.Sublist"
begin

text \<open>
  \<open>pkg/client/transport\<close> (vendored): how the API client gets its connection. \<open>config.go\<close> is the configuration,
  \<open>transport.go\<close> turns it into TLS settings, \<open>cache.go\<close> keeps one HTTP transport per TLS settings, and
  \<open>round_trippers.go\<close> wraps it with the headers for authentication.

  Parameters: \<open>X509KeyPair\<close> of Go's TLS library, and the transports of Go's HTTP library as functions from a request
  to an answer (\<open>base\<close>). A certificate pool is represented by the PEM bytes it was made of. The wrappers for
  debugging only log and have no part in the model.
\<close>

section \<open>Configuration\<close>

record TLSConfig =
  tl_CAFile :: string
  tl_CertFile :: string
  tl_KeyFile :: string
  tl_Insecure :: bool
  tl_CAData :: string
  tl_CertData :: string
  tl_KeyData :: string

record HttpRequest =
  hq_Method :: string
  hq_URL :: string
  hq_Header :: "(string, string list) gomap"

type_synonym 'a RoundTripper = "HttpRequest \<Rightarrow> 'a"

record 'a TransportConfig =
  tc_UserAgent :: string
  tc_TLS :: TLSConfig
  tc_Username :: string
  tc_Password :: string
  tc_BearerToken :: string
  tc_Transport :: "'a RoundTripper option"
  tc_WrapTransport :: "('a RoundTripper \<Rightarrow> 'a RoundTripper) option"

definition HasCA :: "'a TransportConfig \<Rightarrow> bool" where
  "HasCA c \<longleftrightarrow> length (tl_CAData (tc_TLS c)) > 0 \<or> length (tl_CAFile (tc_TLS c)) > 0"

definition HasBasicAuth :: "'a TransportConfig \<Rightarrow> bool" where
  "HasBasicAuth c \<longleftrightarrow> length (tc_Username c) \<noteq> 0"

definition HasTokenAuth :: "'a TransportConfig \<Rightarrow> bool" where
  "HasTokenAuth c \<longleftrightarrow> length (tc_BearerToken c) \<noteq> 0"

definition HasCertAuth :: "'a TransportConfig \<Rightarrow> bool" where
  "HasCertAuth c \<longleftrightarrow> length (tl_CertData (tc_TLS c)) \<noteq> 0 \<or> length (tl_CertFile (tc_TLS c)) \<noteq> 0"

section \<open>TLS settings\<close>

definition dataFromSliceOrFile :: "os_env \<Rightarrow> machine \<Rightarrow> string \<Rightarrow> string \<Rightarrow> gerror + string" where
  "dataFromSliceOrFile E m bytes file =
     (if length bytes > 0 then Inr bytes
      else if length file > 0 then
        (case ReadFile E m file of Inl err \<Rightarrow> Inl err | Inr fileData \<Rightarrow> Inr fileData)
      else Inr [])"

definition loadTLSFiles :: "os_env \<Rightarrow> machine \<Rightarrow> 'a TransportConfig \<Rightarrow> gerror + 'a TransportConfig" where
  "loadTLSFiles E m c =
     (let t = tc_TLS c in
      case dataFromSliceOrFile E m (tl_CAData t) (tl_CAFile t) of
        Inl err \<Rightarrow> Inl err
      | Inr ca \<Rightarrow>
          (case dataFromSliceOrFile E m (tl_CertData t) (tl_CertFile t) of
             Inl err \<Rightarrow> Inl err
           | Inr cert \<Rightarrow>
               (case dataFromSliceOrFile E m (tl_KeyData t) (tl_KeyFile t) of
                  Inl err \<Rightarrow> Inl err
                | Inr key \<Rightarrow> Inr (c\<lparr>tc_TLS := t\<lparr>tl_CAData := ca, tl_CertData := cert, tl_KeyData := key\<rparr>\<rparr>))))"

record 'cert tls_Config =
  tx_MinVersion :: nat
  tx_InsecureSkipVerify :: bool
  tx_RootCAs :: "string option"
  tx_Certificates :: "'cert list"

definition rootCertPool :: "string \<Rightarrow> string option" where
  "rootCertPool caData = (if length caData = 0 then None else Some caData)"

definition err_insecure_ca :: gerror where
  "err_insecure_ca = Errorf ''specifying a root certificates file with the insecure flag is not allowed''"

definition TLSConfigFor ::
  "os_env \<Rightarrow> machine \<Rightarrow> (string \<Rightarrow> string \<Rightarrow> gerror + 'cert) \<Rightarrow> 'a TransportConfig \<Rightarrow> gerror + 'cert tls_Config option" where
  "TLSConfigFor E m X509KeyPair c =
     (if \<not> (HasCA c \<or> HasCertAuth c \<or> tl_Insecure (tc_TLS c)) then Inr None
      else if HasCA c \<and> tl_Insecure (tc_TLS c)
      then Inl err_insecure_ca
      else
        (case loadTLSFiles E m c of
           Inl err \<Rightarrow> Inl err
         | Inr c1 \<Rightarrow>
             (let tlsConfig = \<lparr>tx_MinVersion = 0x0301, tx_InsecureSkipVerify = tl_Insecure (tc_TLS c1),
                               tx_RootCAs = (if HasCA c1 then rootCertPool (tl_CAData (tc_TLS c1)) else None),
                               tx_Certificates = []\<rparr> in
              if HasCertAuth c1 then
                (case X509KeyPair (tl_CertData (tc_TLS c1)) (tl_KeyData (tc_TLS c1)) of
                   Inl err \<Rightarrow> Inl err
                 | Inr cert \<Rightarrow> Inr (Some (tlsConfig\<lparr>tx_Certificates := [cert]\<rparr>)))
              else Inr (Some tlsConfig))))"

section \<open>The cache of transports\<close>

datatype 'cert transport = DefaultTransport | TLSTransport "'cert tls_Config"

definition hex_lower :: "nat \<Rightarrow> char" where
  "hex_lower d = (if d < 10 then char_of (48 + d) else char_of (87 + d))"

text \<open>The verb \<open>%x\<close> on bytes.\<close>

definition hex_bytes :: "string \<Rightarrow> string" where
  "hex_bytes bs = concat (map (\<lambda>c. [hex_lower (of_char c div 16), hex_lower (of_char c mod 16)]) bs)"

definition key_text :: "TLSConfig \<Rightarrow> string" where
  "key_text t =
     (if tl_Insecure t then ''true'' else ''false'') @ ''/'' @ hex_bytes (tl_CAData t) @ ''/'' @
     hex_bytes (tl_CertData t) @ ''/'' @ hex_bytes (tl_KeyData t)"

text \<open>Also gives back the configuration, which \<open>tlsConfigKey\<close> loads in place.\<close>

definition tlsConfigKey :: "os_env \<Rightarrow> machine \<Rightarrow> 'a TransportConfig \<Rightarrow> gerror + 'a TransportConfig \<times> string" where
  "tlsConfigKey E m c = (case loadTLSFiles E m c of Inl err \<Rightarrow> Inl err | Inr c1 \<Rightarrow> Inr (c1, key_text (tc_TLS c1)))"

type_synonym 'cert tlsTransportCache = "(string, 'cert tls_Config) gomap"

definition tlsCache_get ::
  "os_env \<Rightarrow> machine \<Rightarrow> (string \<Rightarrow> string \<Rightarrow> gerror + 'cert) \<Rightarrow> 'cert tlsTransportCache \<Rightarrow> 'a TransportConfig
     \<Rightarrow> 'cert tlsTransportCache \<times> (gerror + 'cert transport)" where
  "tlsCache_get E m X509KeyPair transports config =
     (case tlsConfigKey E m config of
        Inl err \<Rightarrow> (transports, Inl err)
      | Inr (config1, key) \<Rightarrow>
          (case gm_get transports key of
             Some t \<Rightarrow> (transports, Inr (TLSTransport t))
           | None \<Rightarrow>
               (case TLSConfigFor E m X509KeyPair config1 of
                  Inl err \<Rightarrow> (transports, Inl err)
                | Inr None \<Rightarrow> (transports, Inr DefaultTransport)
                | Inr (Some tlsConfig) \<Rightarrow> (gm_set key tlsConfig transports, Inr (TLSTransport tlsConfig)))))"

section \<open>Round trippers\<close>

definition Header_Get :: "(string, string list) gomap \<Rightarrow> string \<Rightarrow> string" where
  "Header_Get h key = (case gm_get h key of Some (v # _) \<Rightarrow> v | _ \<Rightarrow> [])"

definition Header_Set :: "(string, string list) gomap \<Rightarrow> string \<Rightarrow> string \<Rightarrow> (string, string list) gomap" where
  "Header_Set h key v = gm_set key [v] h"

definition userAgent_RoundTrip :: "string \<Rightarrow> 'a RoundTripper \<Rightarrow> 'a RoundTripper" where
  "userAgent_RoundTrip agent rt req =
     (if length (Header_Get (hq_Header req) ''User-Agent'') \<noteq> 0 then rt req
      else rt (req\<lparr>hq_Header := Header_Set (hq_Header req) ''User-Agent'' agent\<rparr>))"

text \<open>Base64 with padding, as \<open>SetBasicAuth\<close> uses it.\<close>

definition b64_char :: "nat \<Rightarrow> char" where
  "b64_char n =
     (if n < 26 then char_of (65 + n) else if n < 52 then char_of (71 + n) else if n < 62 then char_of (n - 4)
      else if n = 62 then CHR ''+'' else CHR ''/'')"

fun base64 :: "string \<Rightarrow> string" where
  "base64 [] = []"
| "base64 [a] = (let n = of_char a * 16 in [b64_char (n div 64), b64_char (n mod 64)] @ ''=='')"
| "base64 [a, b] =
     (let n = of_char a * 1024 + of_char b * 4 in
      [b64_char (n div 4096), b64_char (n div 64 mod 64), b64_char (n mod 64)] @ ''='')"
| "base64 (a # b # c # cs) =
     (let n = of_char a * 65536 + of_char b * 256 + of_char c in
      [b64_char (n div 262144), b64_char (n div 4096 mod 64), b64_char (n div 64 mod 64), b64_char (n mod 64)] @ base64 cs)"

definition basic_credentials :: "string \<Rightarrow> string \<Rightarrow> string" where
  "basic_credentials username password = ''Basic '' @ base64 (username @ '':'' @ password)"

definition basicAuth_RoundTrip :: "string \<Rightarrow> string \<Rightarrow> 'a RoundTripper \<Rightarrow> 'a RoundTripper" where
  "basicAuth_RoundTrip username password rt req =
     (if length (Header_Get (hq_Header req) ''Authorization'') \<noteq> 0 then rt req
      else rt (req\<lparr>hq_Header := Header_Set (hq_Header req) ''Authorization'' (basic_credentials username password)\<rparr>))"

definition bearerAuth_RoundTrip :: "string \<Rightarrow> 'a RoundTripper \<Rightarrow> 'a RoundTripper" where
  "bearerAuth_RoundTrip bearer rt req =
     (if length (Header_Get (hq_Header req) ''Authorization'') \<noteq> 0 then rt req
      else rt (req\<lparr>hq_Header := Header_Set (hq_Header req) ''Authorization'' (''Bearer '' @ bearer)\<rparr>))"

definition HTTPWrappersForConfig :: "'a TransportConfig \<Rightarrow> 'a RoundTripper \<Rightarrow> gerror + 'a RoundTripper" where
  "HTTPWrappersForConfig config rt =
     (let rt1 = (case tc_WrapTransport config of Some wrap \<Rightarrow> wrap rt | None \<Rightarrow> rt);
          agent = (\<lambda>rt. if length (tc_UserAgent config) > 0 then userAgent_RoundTrip (tc_UserAgent config) rt else rt) in
      if HasBasicAuth config \<and> HasTokenAuth config
      then Inl (Errorf ''username/password or bearer token may be set, but not both'')
      else if HasTokenAuth config then Inr (agent (bearerAuth_RoundTrip (tc_BearerToken config) rt1))
      else if HasBasicAuth config then Inr (agent (basicAuth_RoundTrip (tc_Username config) (tc_Password config) rt1))
      else Inr (agent rt1))"

definition transport_New ::
  "os_env \<Rightarrow> machine \<Rightarrow> (string \<Rightarrow> string \<Rightarrow> gerror + 'cert) \<Rightarrow> ('cert transport \<Rightarrow> 'a RoundTripper) \<Rightarrow> 'cert tlsTransportCache
     \<Rightarrow> 'a TransportConfig \<Rightarrow> 'cert tlsTransportCache \<times> (gerror + 'a RoundTripper)" where
  "transport_New E m X509KeyPair base transports config =
     (if tc_Transport config \<noteq> None \<and> (HasCA config \<or> HasCertAuth config \<or> tl_Insecure (tc_TLS config))
      then (transports, Inl (Errorf ''using a custom transport with TLS certificate options or the insecure flag is not allowed''))
      else case tc_Transport config of
             Some rt \<Rightarrow> (transports, HTTPWrappersForConfig config rt)
           | None \<Rightarrow>
               (case tlsCache_get E m X509KeyPair transports config of
                  (transports1, Inl err) \<Rightarrow> (transports1, Inl err)
                | (transports1, Inr t) \<Rightarrow> (transports1, HTTPWrappersForConfig config (base t))))"

section \<open>The key determines the settings\<close>

lemma hex_lower_inj: "d < 16 \<Longrightarrow> e < 16 \<Longrightarrow> hex_lower d = hex_lower e \<longleftrightarrow> d = e"
  by (auto simp: hex_lower_def char_of_eq_iff take_bit_eq_mod dest!: arg_cong [of _ _ "of_char :: char \<Rightarrow> nat"] split: if_splits)

lemma hex_lower_no_slash: "d < 16 \<Longrightarrow> hex_lower d \<noteq> CHR ''/''"
  by (auto simp: hex_lower_def dest!: arg_cong [of _ _ "of_char :: char \<Rightarrow> nat"] split: if_splits)

lemma of_char_div_mod: "(of_char c :: nat) div 16 < 16" "(of_char c :: nat) mod 16 < 16"
proof -
  have "(of_char c :: nat) < 256" by (metis of_char_mod_256 mod_less_divisor zero_less_numeral)
  then show "(of_char c :: nat) div 16 < 16" by (intro less_mult_imp_div_less) simp
  show "(of_char c :: nat) mod 16 < 16" by simp
qed

lemma hex_bytes_simps [simp]: "hex_bytes [] = []"
  "hex_bytes (c # cs) = hex_lower (of_char c div 16) # hex_lower (of_char c mod 16) # hex_bytes cs"
  by (simp_all add: hex_bytes_def)

lemma hex_bytes_no_slash: "CHR ''/'' \<notin> set (hex_bytes bs)"
  by (induction bs) (simp_all add: hex_lower_no_slash [symmetric] of_char_div_mod)

lemma hex_bytes_inj: "hex_bytes bs = hex_bytes bs' \<longleftrightarrow> bs = bs'"
proof (induction bs arbitrary: bs')
  case Nil
  then show ?case by (cases bs') auto
next
  case (Cons c cs)
  have "(of_char c :: nat) div 16 = of_char d div 16 \<and> (of_char c :: nat) mod 16 = of_char d mod 16 \<longleftrightarrow> c = d" for d
    by (metis div_mult_mod_eq of_char_eq_iff)
  with Cons show ?case by (cases bs') (auto simp: hex_lower_inj of_char_div_mod)
qed

lemma key_text_inj: "key_text t = key_text t' \<longleftrightarrow>
    tl_Insecure t = tl_Insecure t' \<and> tl_CAData t = tl_CAData t' \<and> tl_CertData t = tl_CertData t' \<and> tl_KeyData t = tl_KeyData t'"
proof -
  have b: "CHR ''/'' \<notin> set (if x then ''true'' else ''false'')" for x by simp
  have e: "(if x then ''true'' else ''false'') = (if y then ''true'' else ''false'') \<longleftrightarrow> x = y" for x y by simp
  show ?thesis
    unfolding key_text_def append_Cons append_Nil
    by (simp only: append_sep_inj [OF b b] append_sep_inj [OF hex_bytes_no_slash hex_bytes_no_slash] e hex_bytes_inj)
qed

text \<open>A configuration whose files are loaded and not empty.\<close>

definition full :: "TLSConfig \<Rightarrow> bool" where
  "full t \<longleftrightarrow> (tl_CAFile t \<noteq> [] \<longrightarrow> tl_CAData t \<noteq> []) \<and> (tl_CertFile t \<noteq> [] \<longrightarrow> tl_CertData t \<noteq> []) \<and>
     (tl_KeyFile t \<noteq> [] \<longrightarrow> tl_KeyData t \<noteq> [])"

lemma load_full: "full (tc_TLS c) \<Longrightarrow> loadTLSFiles E m c = Inr c"
  by (cases c) (auto simp: full_def loadTLSFiles_def dataFromSliceOrFile_def Let_def)

text \<open>What the settings are in terms of the loaded bytes alone.\<close>

definition tls_settings ::
  "(string \<Rightarrow> string \<Rightarrow> gerror + 'cert) \<Rightarrow> bool \<Rightarrow> string \<Rightarrow> string \<Rightarrow> string \<Rightarrow> gerror + 'cert tls_Config option" where
  "tls_settings X509KeyPair insecure ca cert key =
     (if ca = [] \<and> cert = [] \<and> \<not> insecure then Inr None
      else if ca \<noteq> [] \<and> insecure then Inl err_insecure_ca
      else case (if cert = [] then Inr [] else map_sum id (\<lambda>c. [c]) (X509KeyPair cert key)) of
             Inl err \<Rightarrow> Inl err
           | Inr certs \<Rightarrow> Inr (Some \<lparr>tx_MinVersion = 0x0301, tx_InsecureSkipVerify = insecure,
               tx_RootCAs = (if ca = [] then None else Some ca), tx_Certificates = certs\<rparr>))"

lemma TLSConfigFor_full:
  assumes "full (tc_TLS c)"
  shows "TLSConfigFor E m X509KeyPair c =
    tls_settings X509KeyPair (tl_Insecure (tc_TLS c)) (tl_CAData (tc_TLS c)) (tl_CertData (tc_TLS c)) (tl_KeyData (tc_TLS c))"
proof -
  let ?t = "tc_TLS c"
  have h: "HasCA c = (tl_CAData ?t \<noteq> [])" "HasCertAuth c = (tl_CertData ?t \<noteq> [])"
    using assms by (auto simp: HasCA_def HasCertAuth_def full_def)
  show ?thesis
    by (cases "tl_CAData ?t = []"; cases "tl_CertData ?t = []"; cases "tl_Insecure ?t"; cases "X509KeyPair (tl_CertData ?t) (tl_KeyData ?t)")
      (simp_all add: TLSConfigFor_def load_full [OF assms] tls_settings_def h rootCertPool_def)
qed

text \<open>The answer a cache should give: the one that is computed afresh.\<close>

definition fresh_transport ::
  "os_env \<Rightarrow> machine \<Rightarrow> (string \<Rightarrow> string \<Rightarrow> gerror + 'cert) \<Rightarrow> 'a TransportConfig \<Rightarrow> gerror + 'cert transport" where
  "fresh_transport E m X509KeyPair config = snd (tlsCache_get E m X509KeyPair [] config)"

definition loads_full :: "os_env \<Rightarrow> machine \<Rightarrow> 'a TransportConfig \<Rightarrow> bool" where
  "loads_full E m c \<longleftrightarrow> (case loadTLSFiles E m c of Inl _ \<Rightarrow> True | Inr c1 \<Rightarrow> full (tc_TLS c1))"

definition cache_sound :: "(string \<Rightarrow> string \<Rightarrow> gerror + 'cert) \<Rightarrow> 'cert tlsTransportCache \<Rightarrow> bool" where
  "cache_sound X509KeyPair transports \<longleftrightarrow>
     (\<forall>key t. gm_get transports key = Some t \<longrightarrow> (\<exists>c. key_text c = key \<and>
        tls_settings X509KeyPair (tl_Insecure c) (tl_CAData c) (tl_CertData c) (tl_KeyData c) = Inr (Some t)))"

lemma cache_get_sound:
  assumes "cache_sound X509KeyPair transports" "loads_full E m config"
  shows "snd (tlsCache_get E m X509KeyPair transports config) = fresh_transport E m X509KeyPair config \<and>
    cache_sound X509KeyPair (fst (tlsCache_get E m X509KeyPair transports config))"
proof (cases "loadTLSFiles E m config")
  case (Inl err)
  with assms(1) show ?thesis by (simp add: tlsCache_get_def tlsConfigKey_def fresh_transport_def)
next
  case (Inr c1)
  let ?t = "tc_TLS c1"
  note s = TLSConfigFor_full [of c1 E m X509KeyPair]
  have f: "full ?t" using assms(2) Inr by (simp add: loads_full_def)
  show ?thesis
  proof (cases "gm_get transports (key_text ?t)")
    case (Some t)
    then obtain c where "key_text c = key_text ?t"
        "tls_settings X509KeyPair (tl_Insecure c) (tl_CAData c) (tl_CertData c) (tl_KeyData c) = Inr (Some t)"
      using assms(1) by (auto simp: cache_sound_def)
    then have "TLSConfigFor E m X509KeyPair c1 = Inr (Some t)" using s [OF f] by (simp add: key_text_inj)
    with Inr Some assms(1) show ?thesis by (simp add: tlsCache_get_def tlsConfigKey_def fresh_transport_def gm_get_def)
  next
    case None
    have "cache_sound X509KeyPair (gm_set (key_text ?t) t transports)" if "TLSConfigFor E m X509KeyPair c1 = Inr (Some t)" for t
      using assms(1) that s [OF f] by (auto simp: cache_sound_def gomap_simps)
    with Inr None assms(1) show ?thesis
      by (simp add: tlsCache_get_def tlsConfigKey_def fresh_transport_def gm_get_def split: sum.splits option.splits)
  qed
qed

text \<open>The transports handed out over a run of calls, each with the files of its moment.\<close>

fun cache_run ::
  "(string \<Rightarrow> string \<Rightarrow> gerror + 'cert) \<Rightarrow> 'cert tlsTransportCache \<Rightarrow> (os_env \<times> machine \<times> 'a TransportConfig) list
     \<Rightarrow> (gerror + 'cert transport) list" where
  "cache_run X509KeyPair transports [] = []"
| "cache_run X509KeyPair transports ((E, m, config) # calls) =
     (case tlsCache_get E m X509KeyPair transports config of
        (transports1, result) \<Rightarrow> result # cache_run X509KeyPair transports1 calls)"

section \<open>Properties\<close>

text \<open>C30: the cache of transports cannot be told from no cache, if no configured certificate or key file is
  empty when it is read: over any run of such calls, whatever the files hold otherwise at each of them, every caller
  gets the transport (or the error) that its own configuration asks for; no caller gets a transport with the trust or
  the certificate of another.\<close>

theorem tls_cache_transparent:
  assumes "list_all (\<lambda>(E, m, config). loads_full E m config) calls"
  shows "cache_run X509KeyPair [] calls = map (\<lambda>(E, m, config). fresh_transport E m X509KeyPair config) calls"
proof -
  have "list_all (\<lambda>(E, m, config). loads_full E m config) calls \<Longrightarrow> cache_sound X509KeyPair transports \<Longrightarrow>
      cache_run X509KeyPair transports calls = map (\<lambda>(E, m, config). fresh_transport E m X509KeyPair config) calls" for transports
  proof (induction calls arbitrary: transports)
    case (Cons call calls)
    obtain E m config where c: "call = (E, m, config)" by (cases call)
    from cache_get_sound [OF Cons.prems(2), of E m config] Cons.prems(1) Cons.IH c show ?case
      by (cases "tlsCache_get E m X509KeyPair transports config") auto
  qed simp
  moreover have "cache_sound X509KeyPair []" by (simp add: cache_sound_def gm_get_def)
  ultimately show ?thesis using assms by blast
qed

definition demo_transport :: "TLSConfig \<Rightarrow> string TransportConfig" where
  "demo_transport t = \<lparr>tc_UserAgent = ''agent'', tc_TLS = t, tc_Username = '''', tc_Password = '''', tc_BearerToken = ''secret'',
     tc_Transport = None, tc_WrapTransport = None\<rparr>"

definition no_TLS :: TLSConfig where
  "no_TLS = \<lparr>tl_CAFile = '''', tl_CertFile = '''', tl_KeyFile = '''', tl_Insecure = False, tl_CAData = '''', tl_CertData = '''', tl_KeyData = ''''\<rparr>"

definition ca_machine :: "string \<Rightarrow> machine" where
  "ca_machine ca = \<lparr>files = [''ca'' \<mapsto> ca], scripts_run = []\<rparr>"

theorem tls_cache_transparent_witness:
  "cache_run (\<lambda>_ _. Inr ()) []
     [(friendly_env, ca_machine ''A'', demo_transport (no_TLS\<lparr>tl_CAFile := ''ca''\<rparr>)),
      (friendly_env, ca_machine ''B'', demo_transport (no_TLS\<lparr>tl_CAFile := ''ca''\<rparr>)),
      (friendly_env, ca_machine ''A'', demo_transport no_TLS)] =
   [Inr (TLSTransport \<lparr>tx_MinVersion = 0x0301, tx_InsecureSkipVerify = False, tx_RootCAs = Some ''A'', tx_Certificates = []\<rparr>),
    Inr (TLSTransport \<lparr>tx_MinVersion = 0x0301, tx_InsecureSkipVerify = False, tx_RootCAs = Some ''B'', tx_Certificates = []\<rparr>),
    Inr DefaultTransport]"
  by (subst tls_cache_transparent)
    (simp_all add: loads_full_def loadTLSFiles_def dataFromSliceOrFile_def ReadFile_def demo_transport_def no_TLS_def ca_machine_def
      full_def fresh_transport_def tlsCache_get_def tlsConfigKey_def TLSConfigFor_def HasCA_def HasCertAuth_def rootCertPool_def Let_def gm_get_def)

text \<open>With an empty certificate file the cache shows: a root certificate file together with the insecure flag is an error, but
  not after a client without the file has put its transport into the cache; the second caller gets that one.\<close>

theorem empty_ca_file_slips_through:
  "let bad = (friendly_env, ca_machine '''', demo_transport (no_TLS\<lparr>tl_CAFile := ''ca'', tl_Insecure := True\<rparr>));
       good = (friendly_env, ca_machine '''', demo_transport (no_TLS\<lparr>tl_Insecure := True\<rparr>));
       skip = TLSTransport \<lparr>tx_MinVersion = 0x0301, tx_InsecureSkipVerify = True, tx_RootCAs = None, tx_Certificates = []\<rparr>
   in cache_run (\<lambda>_ _. Inr ()) [] [bad] = [Inl err_insecure_ca] \<and>
      cache_run (\<lambda>_ _. Inr ()) [] [good, bad] = [Inr skip, Inr skip]"
  by (simp add: loadTLSFiles_def dataFromSliceOrFile_def ReadFile_def demo_transport_def no_TLS_def ca_machine_def
      tlsCache_get_def tlsConfigKey_def TLSConfigFor_def HasCA_def HasCertAuth_def rootCertPool_def key_text_def hex_bytes_def Let_def
      gm_get_def gm_set_def)

definition sent_header :: "'a TransportConfig \<Rightarrow> (string, string list) gomap \<Rightarrow> (string, string list) gomap" where
  "sent_header c h =
     (let h1 = (if tc_UserAgent c \<noteq> [] \<and> Header_Get h ''User-Agent'' = [] then gm_set ''User-Agent'' [tc_UserAgent c] h else h) in
      if Header_Get h ''Authorization'' \<noteq> [] then h1
      else if tc_BearerToken c \<noteq> [] then gm_set ''Authorization'' [''Bearer '' @ tc_BearerToken c] h1
      else if tc_Username c \<noteq> [] then gm_set ''Authorization'' [basic_credentials (tc_Username c) (tc_Password c)] h1
      else h1)"

text \<open>What the API server sees of the credentials. A configuration with both a user name and a token is refused. Otherwise a
  request reaches the transport with the token, or else with the user name and password in Base64, unless it brings
  its own authorization, and with the user agent unless it brings its own; every other header, the method and
  the URL are passed on as they are.\<close>

theorem credentials_sent:
  "HTTPWrappersForConfig c rt =
     (if tc_Username c \<noteq> [] \<and> tc_BearerToken c \<noteq> []
      then Inl (Errorf ''username/password or bearer token may be set, but not both'')
      else Inr (\<lambda>req. (case tc_WrapTransport c of Some wrap \<Rightarrow> wrap rt | None \<Rightarrow> rt)
        (req\<lparr>hq_Header := sent_header c (hq_Header req)\<rparr>)))"
proof -
  define rt1 where "rt1 = (case tc_WrapTransport c of Some wrap \<Rightarrow> wrap rt | None \<Rightarrow> rt)"
  have same: "req\<lparr>hq_Header := hq_Header req\<rparr> = req" for req :: HttpRequest by simp
  have other: "Header_Get (gm_set ''User-Agent'' v h) ''Authorization'' = Header_Get h ''Authorization''" for v h
    by (simp add: Header_Get_def gomap_simps)
  show ?thesis
    unfolding HTTPWrappersForConfig_def Let_def rt1_def [symmetric] HasBasicAuth_def HasTokenAuth_def length_0_conv length_greater_0_conv
    by (auto simp: fun_eq_iff userAgent_RoundTrip_def basicAuth_RoundTrip_def bearerAuth_RoundTrip_def sent_header_def
        Header_Set_def other Let_def)
qed

end
