(* ===== verification/ClientConfig.thy ===== *)
theory ClientConfig
  imports Transport ApiClient Server
begin

text \<open>
  From the settings of the daemon to its API client: \<open>pkg/client/restclient\<close> (\<open>config.go\<close>, \<open>url_utils.go\<close>, \<open>transport.go\<close>) and
  \<open>pkg/client/unversioned/helper.go\<close> (vendored), with the clients of the other API groups that \<open>New\<close> creates too.

  Parameters, in the record \<open>world\<close>: parsing of URLs, the files, Go's TLS library and transports, the floating point arithmetic
  of the throttle, what the build put into the binary, the codecs, and the table of registered API groups (filled by
  the \<open>init\<close> functions of the API packages) with the preferred version of each group.
\<close>

section \<open>The configuration of a client\<close>

record ('a, 'c) RestConfig =
  cg_Host :: string
  cg_APIPath :: string
  cg_Prefix :: string
  cg_ContentType :: string
  cg_GroupVersion :: "GroupVersion option"
  cg_Codec :: "'c option"
  cg_Username :: string
  cg_Password :: string
  cg_BearerToken :: string
  cg_TLS :: TLSConfig
  cg_UserAgent :: string
  cg_Transport :: "'a RoundTripper option"
  cg_WrapTransport :: "('a RoundTripper \<Rightarrow> 'a RoundTripper) option"
  cg_QPS :: rat
  cg_Burst :: int

record ('a, 'c, 'cert) world =
  wd_url_Parse :: "string \<Rightarrow> gerror + URL"
  wd_os :: os_env
  wd_machine :: machine
  wd_X509KeyPair :: "string \<Rightarrow> string \<Rightarrow> gerror + 'cert"
  wd_base :: "'cert transport \<Rightarrow> 'a RoundTripper"
  wd_interval :: "rat \<Rightarrow> nat \<Rightarrow> int"
  wd_close :: "rat \<Rightarrow> Bucket \<Rightarrow> bool"
  wd_now :: gotime
  wd_args0 :: string
  wd_gitVersion :: string
  wd_gitCommit :: string
  wd_GOOS :: string
  wd_GOARCH :: string
  wd_LegacyCodec :: "GroupVersion \<Rightarrow> 'c"
  wd_UniversalDecoder :: 'c
  wd_groupMetaMap :: "(string, GroupVersion) gomap"

text \<open>\<open>path.Base\<close>.\<close>

definition path_Base :: "string \<Rightarrow> string" where
  "path_Base path =
     (if path = [] then ''.''
      else let p = rev (dropWhile (\<lambda>c. c = CHR ''/'') (rev path)); b = rev (takeWhile (\<lambda>c. c \<noteq> CHR ''/'') (rev p)) in
           if b = [] then ''/'' else b)"

definition DefaultKubernetesUserAgent :: "('a, 'c, 'cert) world \<Rightarrow> string" where
  "DefaultKubernetesUserAgent w =
     (let commit = (if length (wd_gitCommit w) > 7 then take 7 (wd_gitCommit w) else wd_gitCommit w);
          commit = (if length commit = 0 then ''unknown'' else commit);
          version = takeWhile (\<lambda>c. c \<noteq> CHR ''-'') (wd_gitVersion w) in
      path_Base (wd_args0 w) @ ''/'' @ version @ '' ('' @ wd_GOOS w @ ''/'' @ wd_GOARCH w @ '') kubernetes/'' @ commit)"

text \<open>\<open>restclient.SetKubernetesDefaults\<close>.\<close>

definition rest_SetKubernetesDefaults :: "('a, 'c, 'cert) world \<Rightarrow> ('a, 'c) RestConfig \<Rightarrow> ('a, 'c) RestConfig" where
  "rest_SetKubernetesDefaults w config =
     config\<lparr>cg_UserAgent := (if length (cg_UserAgent config) = 0 then DefaultKubernetesUserAgent w else cg_UserAgent config),
            cg_QPS := (if cg_QPS config = 0 then 5 else cg_QPS config),
            cg_Burst := (if cg_Burst config = 0 then 10 else cg_Burst config)\<rparr>"

definition registered_Group :: "(string, GroupVersion) gomap \<Rightarrow> string \<Rightarrow> gerror + GroupVersion" where
  "registered_Group groupMetaMap grp =
     (case gm_get groupMetaMap grp of
        None \<Rightarrow> Inl (Errorf (''group '' @ grp @ '' has not been registered''))
      | Some groupMeta \<Rightarrow> Inr groupMeta)"

definition IsRegistered :: "(string, GroupVersion) gomap \<Rightarrow> string \<Rightarrow> bool" where
  "IsRegistered groupMetaMap grp \<longleftrightarrow> gm_get groupMetaMap grp \<noteq> None"

definition legacyAPIPath :: string where
  "legacyAPIPath = ''/api''"

definition defaultAPIPath :: string where
  "defaultAPIPath = ''/apis''"

text \<open>\<open>unversioned.SetKubernetesDefaults\<close>; the name of the legacy group is empty.\<close>

definition SetKubernetesDefaults :: "('a, 'c, 'cert) world \<Rightarrow> ('a, 'c) RestConfig \<Rightarrow> gerror + ('a, 'c) RestConfig" where
  "SetKubernetesDefaults w config =
     (let config1 = (if cg_APIPath config = [] then config\<lparr>cg_APIPath := legacyAPIPath\<rparr> else config) in
      case registered_Group (wd_groupMetaMap w) '''' of
        Inl err \<Rightarrow> Inl err
      | Inr g \<Rightarrow>
          (let config2 = config1\<lparr>cg_GroupVersion := Some g\<rparr>;
               config3 = (if cg_Codec config2 = None then config2\<lparr>cg_Codec := Some (wd_LegacyCodec w g)\<rparr> else config2) in
           Inr (rest_SetKubernetesDefaults w config3)))"

section \<open>Where the client talks to\<close>

definition DefaultServerURL ::
  "(string \<Rightarrow> gerror + URL) \<Rightarrow> string \<Rightarrow> string \<Rightarrow> GroupVersion \<Rightarrow> bool \<Rightarrow> gerror + URL \<times> string" where
  "DefaultServerURL url_Parse host apiPath groupVersion defaultTLS =
     (if host = [] then Inl (Errorf ''host must be a URL or a host:port pair'')
      else
        (let versioned = path_Join [''/'', apiPath];
             versionedAPIPath =
               (if length (gv_Group groupVersion) > 0
                then path_Join [versioned, gv_Group groupVersion, gv_Version groupVersion]
                else path_Join [versioned, gv_Version groupVersion]) in
         case url_Parse host of
           Inl err \<Rightarrow> Inl err
         | Inr hostURL \<Rightarrow>
             if u_Scheme hostURL = [] then
               (case url_Parse ((if defaultTLS then ''https://'' else ''http://'') @ host) of
                  Inl err \<Rightarrow> Inl err
                | Inr hostURL \<Rightarrow>
                    if u_Path hostURL \<noteq> [] \<and> u_Path hostURL \<noteq> ''/''
                    then Inl (Errorf (''host must be a URL or a host:port pair: '' @ host))
                    else Inr (hostURL, versionedAPIPath))
             else Inr (hostURL, versionedAPIPath)))"

definition default_TLS :: "('a, 'c) RestConfig \<Rightarrow> bool" where
  "default_TLS config =
     (let t = cg_TLS config;
          hasCA = (length (tl_CAFile t) \<noteq> 0 \<or> length (tl_CAData t) \<noteq> 0);
          hasCert = (length (tl_CertFile t) \<noteq> 0 \<or> length (tl_CertData t) \<noteq> 0)
      in hasCA \<or> hasCert \<or> tl_Insecure t)"

definition defaultServerUrlFor :: "(string \<Rightarrow> gerror + URL) \<Rightarrow> ('a, 'c) RestConfig \<Rightarrow> gerror + URL \<times> string" where
  "defaultServerUrlFor url_Parse config =
     (let host = (if cg_Host config = [] then ''localhost'' else cg_Host config) in
      case cg_GroupVersion config of
        Some gv \<Rightarrow> DefaultServerURL url_Parse host (cg_APIPath config) gv (default_TLS config)
      | None \<Rightarrow> DefaultServerURL url_Parse host (cg_APIPath config) \<lparr>gv_Group = [], gv_Version = []\<rparr> (default_TLS config))"

definition IsConfigTransportTLS :: "(string \<Rightarrow> gerror + URL) \<Rightarrow> ('a, 'c) RestConfig \<Rightarrow> bool" where
  "IsConfigTransportTLS url_Parse config =
     (case defaultServerUrlFor url_Parse config of Inl err \<Rightarrow> False | Inr (baseURL, _) \<Rightarrow> u_Scheme baseURL = ''https'')"

definition transportConfig :: "('a, 'c) RestConfig \<Rightarrow> 'a TransportConfig" where
  "transportConfig c =
     \<lparr>tc_UserAgent = cg_UserAgent c, tc_TLS = cg_TLS c, tc_Username = cg_Username c, tc_Password = cg_Password c,
      tc_BearerToken = cg_BearerToken c, tc_Transport = cg_Transport c, tc_WrapTransport = cg_WrapTransport c\<rparr>"

section \<open>Creating clients\<close>

text \<open>A client with its throttle and its connection; the cache of transports goes through all of them.\<close>

record 'a connected =
  cn_client :: RESTClient
  cn_throttle :: "Bucket option"
  cn_http :: "'a RoundTripper"

definition connect ::
  "('a, 'c, 'cert) world \<Rightarrow> 'cert tlsTransportCache \<Rightarrow> ('a, 'c) RestConfig \<Rightarrow> GroupVersion option
     \<Rightarrow> 'cert tlsTransportCache \<times> 'a connected outcome" where
  "connect w cache config gv =
     (case defaultServerUrlFor (wd_url_Parse w) config of
        Inl err \<Rightarrow> (cache, Fail err)
      | Inr (baseURL, versionedAPIPath) \<Rightarrow>
          (case transport_New (wd_os w) (wd_machine w) (wd_X509KeyPair w) (wd_base w) cache (transportConfig config) of
             (cache1, Inl err) \<Rightarrow> (cache1, Fail err)
           | (cache1, Inr rt) \<Rightarrow>
               (cache1,
                case NewRESTClient baseURL versionedAPIPath (cg_ContentType config) gv (cg_QPS config > 0)
                       (wd_interval w (cg_QPS config)) (wd_close w (cg_QPS config)) (cg_Burst config) (wd_now w) of
                  Ok (c, throttle) \<Rightarrow> Ok \<lparr>cn_client = c, cn_throttle = throttle, cn_http = rt\<rparr>
                | Fail e \<Rightarrow> Fail e | Panic e \<Rightarrow> Panic e | Exit e \<Rightarrow> Exit e)))"

definition RESTClientFor ::
  "('a, 'c, 'cert) world \<Rightarrow> 'cert tlsTransportCache \<Rightarrow> ('a, 'c) RestConfig \<Rightarrow> 'cert tlsTransportCache \<times> 'a connected outcome" where
  "RESTClientFor w cache config =
     (if cg_GroupVersion config = None then (cache, Fail (Errorf ''GroupVersion is required when initializing a RESTClient''))
      else if cg_Codec config = None then (cache, Fail (Errorf ''Codec is required when initializing a RESTClient''))
      else connect w cache config (cg_GroupVersion config))"

text \<open>\<open>unversioned.SchemeGroupVersion\<close> is the empty group with an empty version.\<close>

definition UnversionedRESTClientFor ::
  "('a, 'c, 'cert) world \<Rightarrow> 'cert tlsTransportCache \<Rightarrow> ('a, 'c) RestConfig \<Rightarrow> 'cert tlsTransportCache \<times> 'a connected outcome" where
  "UnversionedRESTClientFor w cache config =
     (if cg_Codec config = None then (cache, Fail (Errorf ''Codec is required when initializing a RESTClient''))
      else connect w cache config
        (Some (case cg_GroupVersion config of None \<Rightarrow> \<lparr>gv_Group = [], gv_Version = []\<rparr> | Some gv \<Rightarrow> gv)))"

definition setDiscoveryDefaults :: "('a, 'c, 'cert) world \<Rightarrow> ('a, 'c) RestConfig \<Rightarrow> ('a, 'c) RestConfig" where
  "setDiscoveryDefaults w config =
     config\<lparr>cg_APIPath := [], cg_GroupVersion := None, cg_Codec := Some (wd_UniversalDecoder w),
            cg_UserAgent := (if length (cg_UserAgent config) = 0 then DefaultKubernetesUserAgent w else cg_UserAgent config)\<rparr>"

definition NewDiscoveryClientForConfig ::
  "('a, 'c, 'cert) world \<Rightarrow> 'cert tlsTransportCache \<Rightarrow> ('a, 'c) RestConfig \<Rightarrow> 'cert tlsTransportCache \<times> 'a connected outcome" where
  "NewDiscoveryClientForConfig w cache c = UnversionedRESTClientFor w cache (setDiscoveryDefaults w c)"

text \<open>\<open>setAutoscalingDefaults\<close>, \<open>setBatchDefaults\<close> and \<open>setExtensionsDefaults\<close> have the same text but for the group.\<close>

definition setGroupDefaults :: "('a, 'c, 'cert) world \<Rightarrow> string \<Rightarrow> ('a, 'c) RestConfig \<Rightarrow> gerror + ('a, 'c) RestConfig" where
  "setGroupDefaults w grp config =
     (case registered_Group (wd_groupMetaMap w) grp of
        Inl err \<Rightarrow> Inl err
      | Inr g \<Rightarrow>
          Inr (config\<lparr>cg_APIPath := defaultAPIPath,
            cg_UserAgent := (if cg_UserAgent config = [] then DefaultKubernetesUserAgent w else cg_UserAgent config),
            cg_GroupVersion := Some g, cg_Codec := Some (wd_LegacyCodec w g),
            cg_QPS := (if cg_QPS config = 0 then 5 else cg_QPS config),
            cg_Burst := (if cg_Burst config = 0 then 10 else cg_Burst config)\<rparr>))"

definition NewGroupClient ::
  "('a, 'c, 'cert) world \<Rightarrow> 'cert tlsTransportCache \<Rightarrow> string \<Rightarrow> ('a, 'c) RestConfig \<Rightarrow> 'cert tlsTransportCache \<times> 'a connected outcome" where
  "NewGroupClient w cache grp c =
     (case setGroupDefaults w grp c of Inl err \<Rightarrow> (cache, Fail err) | Inr config \<Rightarrow> RESTClientFor w cache config)"

record 'a Client =
  cl_RESTClient :: "'a connected"
  cl_groups :: "(string \<times> 'a connected option) list"
  cl_Discovery :: "'a connected"

text \<open>The optional clients of \<open>New\<close>, one after the other; a group that is not registered gets none.\<close>

fun group_clients ::
  "('a, 'c, 'cert) world \<Rightarrow> 'cert tlsTransportCache \<Rightarrow> ('a, 'c) RestConfig \<Rightarrow> string list
     \<Rightarrow> 'cert tlsTransportCache \<times> (string \<times> 'a connected option) list outcome" where
  "group_clients w cache c [] = (cache, Ok [])"
| "group_clients w cache c (grp # groups) =
     (case (if IsRegistered (wd_groupMetaMap w) grp
            then (case NewGroupClient w cache grp c of
                    (cache1, Ok client) \<Rightarrow> (cache1, Ok (Some client))
                  | (cache1, Fail e) \<Rightarrow> (cache1, Fail e) | (cache1, Panic e) \<Rightarrow> (cache1, Panic e) | (cache1, Exit e) \<Rightarrow> (cache1, Exit e))
            else (cache, Ok None)) of
        (cache1, Ok client) \<Rightarrow>
          (case group_clients w cache1 c groups of
             (cache2, Ok clients) \<Rightarrow> (cache2, Ok ((grp, client) # clients))
           | (cache2, failed) \<Rightarrow> (cache2, failed))
      | (cache1, Fail e) \<Rightarrow> (cache1, Fail e) | (cache1, Panic e) \<Rightarrow> (cache1, Panic e) | (cache1, Exit e) \<Rightarrow> (cache1, Exit e))"

definition kubeclient_New ::
  "('a, 'c, 'cert) world \<Rightarrow> 'cert tlsTransportCache \<Rightarrow> ('a, 'c) RestConfig \<Rightarrow> 'cert tlsTransportCache \<times> 'a Client outcome" where
  "kubeclient_New w cache c =
     (case SetKubernetesDefaults w c of
        Inl err \<Rightarrow> (cache, Fail err)
      | Inr config \<Rightarrow>
          (case RESTClientFor w cache config of
             (cache1, Ok client) \<Rightarrow>
               (case NewDiscoveryClientForConfig w cache1 c of
                  (cache2, Ok discoveryClient) \<Rightarrow>
                    (case group_clients w cache2 c [''autoscaling'', ''batch'', ''extensions''] of
                       (cache3, Ok clients) \<Rightarrow>
                         (cache3, Ok \<lparr>cl_RESTClient = client, cl_groups = clients, cl_Discovery = discoveryClient\<rparr>)
                     | (cache3, Fail e) \<Rightarrow> (cache3, Fail e) | (cache3, Panic e) \<Rightarrow> (cache3, Panic e) | (cache3, Exit e) \<Rightarrow> (cache3, Exit e))
                | (cache2, Fail e) \<Rightarrow> (cache2, Fail e) | (cache2, Panic e) \<Rightarrow> (cache2, Panic e) | (cache2, Exit e) \<Rightarrow> (cache2, Exit e))
           | (cache1, Fail e) \<Rightarrow> (cache1, Fail e) | (cache1, Panic e) \<Rightarrow> (cache1, Panic e) | (cache1, Exit e) \<Rightarrow> (cache1, Exit e)))"

text \<open>\<open>NewProxyServerDefault\<close> puts the flags \<open>--kube-api-qps\<close> and \<open>--kube-api-burst\<close> into the loaded configuration.\<close>

definition daemon_client ::
  "('a, 'c, 'cert) world \<Rightarrow> ('a, 'c) RestConfig \<Rightarrow> rat \<Rightarrow> int \<Rightarrow> 'a Client outcome" where
  "daemon_client w kubeconfig qps burst = snd (kubeclient_New w [] (kubeconfig\<lparr>cg_QPS := qps, cg_Burst := burst\<rparr>))"

section \<open>What the settings come to\<close>

abbreviation v1 :: GroupVersion where
  "v1 \<equiv> \<lparr>gv_Group = '''', gv_Version = ''v1''\<rparr>"

text \<open>The URL of the server depends on the host and the TLS settings only.\<close>

definition server_url :: "('a, 'c, 'cert) world \<Rightarrow> ('a, 'c) RestConfig \<Rightarrow> URL option" where
  "server_url w config = (case defaultServerUrlFor (wd_url_Parse w) config of Inl _ \<Rightarrow> None | Inr (u, _) \<Rightarrow> Some u)"

lemma server_url_same:
  assumes "cg_Host config' = cg_Host config" "cg_TLS config' = cg_TLS config"
  shows "server_url w config' = server_url w config"
proof -
  have "map_option fst (case DefaultServerURL P h a g t of Inl _ \<Rightarrow> None | Inr r \<Rightarrow> Some r) =
      map_option fst (case DefaultServerURL P h a' g' t of Inl _ \<Rightarrow> None | Inr r \<Rightarrow> Some r)" for P h a a' g g' t
    by (simp add: DefaultServerURL_def Let_def split: sum.splits)
  note url = this
  have *: "server_url w c = map_option fst (case DefaultServerURL (wd_url_Parse w) (if cg_Host c = [] then ''localhost'' else cg_Host c) (cg_APIPath c)
      (case cg_GroupVersion c of Some gv \<Rightarrow> gv | None \<Rightarrow> \<lparr>gv_Group = [], gv_Version = []\<rparr>) (default_TLS c) of Inl _ \<Rightarrow> None | Inr r \<Rightarrow> Some r)" for c
    by (cases "cg_GroupVersion c") (simp_all add: server_url_def defaultServerUrlFor_def Let_def split: sum.splits prod.splits)
  have tls: "default_TLS config' = default_TLS config" using assms(2) by (simp add: default_TLS_def)
  show ?thesis unfolding * assms(1) tls by (rule url)
qed

lemma versioned_path:
  assumes "cg_APIPath config = ''/api''" "cg_GroupVersion config = Some v1"
    and "defaultServerUrlFor P config = Inr (u, p)"
  shows "p = ''/api/v1''"
proof -
  have "path_Join [''/'', ''/api''] = ''/api''" "path_Join [''/api'', ''v1''] = ''/api/v1''" by code_simp+
  with assms show ?thesis by (auto simp: defaultServerUrlFor_def DefaultServerURL_def Let_def split: sum.splits if_splits)
qed

text \<open>The configuration that the client for the legacy group is made of.\<close>

definition legacy_config :: "('a, 'c, 'cert) world \<Rightarrow> ('a, 'c) RestConfig \<Rightarrow> rat \<Rightarrow> int \<Rightarrow> ('a, 'c) RestConfig" where
  "legacy_config w kubeconfig qps burst =
     kubeconfig\<lparr>cg_APIPath := ''/api'', cg_GroupVersion := Some v1,
       cg_Codec := (if cg_Codec kubeconfig = None then Some (wd_LegacyCodec w v1) else cg_Codec kubeconfig),
       cg_UserAgent := (if length (cg_UserAgent kubeconfig) = 0 then DefaultKubernetesUserAgent w else cg_UserAgent kubeconfig),
       cg_QPS := (if qps = 0 then 5 else qps), cg_Burst := (if burst = 0 then 10 else burst)\<rparr>"

lemma daemon_client_connects:
  assumes "daemon_client w kubeconfig qps burst = Ok client"
    and "gm_get (wd_groupMetaMap w) '''' = Some v1" "cg_APIPath kubeconfig = ''''"
  shows "snd (connect w [] (legacy_config w kubeconfig qps burst) (cg_GroupVersion (legacy_config w kubeconfig qps burst))) = Ok (cl_RESTClient client)"
proof -
  let ?c = "kubeconfig\<lparr>cg_QPS := qps, cg_Burst := burst\<rparr>" and ?l = "legacy_config w kubeconfig qps burst"
  have d: "SetKubernetesDefaults w ?c = Inr ?l"
    using assms(2,3) by (cases "cg_Codec kubeconfig") (simp_all add: SetKubernetesDefaults_def registered_Group_def
        rest_SetKubernetesDefaults_def legacy_config_def legacyAPIPath_def Let_def)
  obtain cache1 client1 where r: "RESTClientFor w [] ?l = (cache1, Ok client1)" "cl_RESTClient client = client1"
    using assms(1) d
    by (auto simp: daemon_client_def kubeclient_New_def simp del: group_clients.simps split: prod.splits outcome.splits)
  moreover have "cg_GroupVersion ?l \<noteq> None" "cg_Codec ?l \<noteq> None" by (simp_all add: legacy_config_def)
  ultimately show ?thesis by (simp add: RESTClientFor_def)
qed

lemma connected:
  assumes "snd (connect w cache config gv) = Ok cn" "cg_APIPath config = ''/api''" "cg_GroupVersion config = Some v1"
  shows "\<exists>u. server_url w config = Some u \<and>
    rc_base (cn_client cn) = u\<lparr>u_Path := (if suffix ''/'' (u_Path u) then u_Path u else u_Path u @ ''/''), u_RawQuery := []\<rparr> \<and>
    rc_versionedAPIPath (cn_client cn) = ''/api/v1'' \<and>
    (if cg_QPS config > 0
     then \<exists>b. cn_throttle cn = Some b \<and> NewTokenBucketRateLimiter (wd_interval w (cg_QPS config)) (wd_close w (cg_QPS config)) (wd_now w) (cg_Burst config) = Ok b
     else cn_throttle cn = None) \<and>
    (\<exists>t. snd (transport_New (wd_os w) (wd_machine w) (wd_X509KeyPair w) (wd_base w) cache (transportConfig config)) = Inr t \<and> cn_http cn = t)"
proof -
  obtain u p where u: "defaultServerUrlFor (wd_url_Parse w) config = Inr (u, p)"
    using assms(1) by (auto simp: connect_def split: sum.splits)
  obtain cache1 rt where rt: "transport_New (wd_os w) (wd_machine w) (wd_X509KeyPair w) (wd_base w) cache (transportConfig config) = (cache1, Inr rt)"
    using assms(1) u by (auto simp: connect_def split: prod.splits sum.splits)
  obtain c throttle where c: "NewRESTClient u p (cg_ContentType config) gv (cg_QPS config > 0)
      (wd_interval w (cg_QPS config)) (wd_close w (cg_QPS config)) (cg_Burst config) (wd_now w) = Ok (c, throttle)"
      "cn = \<lparr>cn_client = c, cn_throttle = throttle, cn_http = rt\<rparr>"
    using assms(1) u rt by (auto simp: connect_def split: outcome.splits)
  with u rt versioned_path [OF assms(2,3) u] show ?thesis
    by (auto simp: server_url_def NewRESTClient_def Let_def split: if_splits outcome.splits)
qed

lemma base_path:
  assumes "\<forall>s \<in> set bs. seg_ok s" "u_Path u = abs_path bs \<or> u_Path u = abs_path bs @ ''/'' \<or> u_Path u = '''' \<and> bs = []"
  shows "(if suffix ''/'' (u_Path u) then u_Path u else u_Path u @ ''/'') = abs_path bs \<or>
    (if suffix ''/'' (u_Path u) then u_Path u else u_Path u @ ''/'') = abs_path bs @ ''/''"
proof -
  have "suffix ''/'' (abs_path bs @ ''/'')" by (auto simp: suffix_def)
  with assms(2) show ?thesis by (auto simp: abs_path_def [of "[]"])
qed

section \<open>Properties\<close>

text \<open>C29: the daemon's client asks the right server for the right objects. When \<open>New\<close> accepts a configuration without an API path, the
  client's lists of services and endpoints go to the scheme and host of the given server, below its path at
  \<open>api/v1\<close>, and its watches to the same collections below \<open>watch\<close>, with exactly the given parameters.\<close>

theorem daemon_requests:
  assumes "daemon_client w kubeconfig qps burst = Ok client" "c = cn_client (cl_RESTClient client)"
    and "gm_get (wd_groupMetaMap w) '''' = Some \<lparr>gv_Group = '''', gv_Version = ''v1''\<rparr>" "cg_APIPath kubeconfig = ''''"
    and "server_url w kubeconfig = Some u" "\<forall>s \<in> set bs. seg_ok s"
    and "u_Path u = abs_path bs \<or> u_Path u = abs_path bs @ ''/'' \<or> u_Path u = '''' \<and> bs = []"
    and "resource \<in> {''services'', ''endpoints''}" "gm_wf params" "\<forall>(k, vs) \<in> set params. plain_key k \<and> vs \<noteq> []"
  shows "u_Scheme (rc_base c) = u_Scheme u \<and> u_Host (rc_base c) = u_Host u \<and>
    rq_err (list_request c resource [] Everything (Inr params)) = None \<and>
    request_path (list_request c resource [] Everything (Inr params)) = abs_path (bs @ [''api'', ''v1'', resource]) \<and>
    map_of (request_query ds (list_request c resource [] Everything (Inr params))) = map_of params \<and>
    rq_err (watch_request c resource [] Everything (Inr params)) = None \<and>
    request_path (watch_request c resource [] Everything (Inr params)) = abs_path (bs @ [''api'', ''v1'', ''watch'', resource]) \<and>
    map_of (request_query ds (watch_request c resource [] Everything (Inr params))) = map_of params"
proof -
  let ?l = "legacy_config w kubeconfig qps burst"
  have l: "cg_APIPath ?l = ''/api''" "cg_GroupVersion ?l = Some v1" "server_url w ?l = Some u"
    using server_url_same [of ?l kubeconfig w] assms(5) by (simp_all add: legacy_config_def)
  from connected [OF daemon_client_connects [OF assms(1,3,4)] l(1,2)] l(3)
  have c: "rc_base c = u\<lparr>u_Path := (if suffix ''/'' (u_Path u) then u_Path u else u_Path u @ ''/''), u_RawQuery := []\<rparr>"
    "rc_versionedAPIPath c = abs_path [''api'', ''v1'']"
    unfolding assms(2) by (auto simp: abs_path_def)
  have r: "seg_ok resource" "IsValidPathSegmentName resource" "Request.ToLower resource = resource"
  proof -
    have "Request.ToLower ''services'' = ''services''" "Request.ToLower ''endpoints'' = ''endpoints''" by code_simp+
    then show "seg_ok resource" "IsValidPathSegmentName resource" "Request.ToLower resource = resource"
      using assms(8) by (auto simp: seg_ok_def IsValidPathSegmentName_def NameMayNotBe_def NameMayNotContain_def sublist_single)
  qed
  have v: "\<forall>s \<in> set [''api'', ''v1'']. seg_ok s" by (simp add: seg_ok_def)
  have b: "u_Path (rc_base c) = abs_path bs \<or> u_Path (rc_base c) = abs_path bs @ ''/''"
    using base_path [OF assms(6,7)] by (simp add: c(1))
  from list_watch_requests [OF assms(6) v b c(2) r(1,2) assms(9,10), of ds] r(3) show ?thesis by (simp add: c(1))
qed

definition demo_world :: "((string, string list) gomap, unit, unit) world" where
  "demo_world = \<lparr>wd_url_Parse = (\<lambda>s. Inr \<lparr>u_Scheme = (if prefix ''https://'' s then ''https'' else ''http''), u_Host = ''api:8080'', u_Path = '''', u_RawQuery = ''''\<rparr>),
     wd_os = friendly_env, wd_machine = ca_machine '''', wd_X509KeyPair = (\<lambda>_ _. Inr ()), wd_base = (\<lambda>_ req. hq_Header req),
     wd_interval = (\<lambda>_ _. 200000000), wd_close = (\<lambda>_ _. True), wd_now = 0, wd_args0 = ''/bin/kube2haproxy'', wd_gitVersion = ''v1.2.0'',
     wd_gitCommit = '''', wd_GOOS = ''linux'', wd_GOARCH = ''amd64'', wd_LegacyCodec = (\<lambda>_. ()), wd_UniversalDecoder = (),
     wd_groupMetaMap = [('''', v1)]\<rparr>"

definition demo_kubeconfig :: "((string, string list) gomap, unit) RestConfig" where
  "demo_kubeconfig = \<lparr>cg_Host = ''http://api:8080'', cg_APIPath = '''', cg_Prefix = '''', cg_ContentType = '''', cg_GroupVersion = None,
     cg_Codec = None, cg_Username = '''', cg_Password = '''', cg_BearerToken = '''', cg_TLS = no_TLS, cg_UserAgent = '''', cg_Transport = None,
     cg_WrapTransport = None, cg_QPS = 0, cg_Burst = 0\<rparr>"

lemma demo_connect:
  assumes "cg_TLS config = no_TLS" "cg_Username config = ''''" "cg_Transport config = None" "cg_QPS config \<le> 0 \<or> cg_Burst config = 10"
  shows "\<exists>cn. connect demo_world [] config gv = ([], Ok cn)"
proof -
  let ?h = "if cg_Host config = [] then ''localhost'' else cg_Host config"
  let ?u = "\<lparr>u_Scheme = (if prefix ''https://'' ?h then ''https'' else ''http''), u_Host = ''api:8080'', u_Path = '''', u_RawQuery = ''''\<rparr>"
  have "\<exists>p. DefaultServerURL (wd_url_Parse demo_world) ?h a g t = Inr (?u, p)" for a g t
    by (simp add: DefaultServerURL_def demo_world_def Let_def)
  moreover have "\<exists>a g t. defaultServerUrlFor (wd_url_Parse demo_world) config = DefaultServerURL (wd_url_Parse demo_world) ?h a g t"
    unfolding defaultServerUrlFor_def Let_def by (cases "cg_GroupVersion config") auto
  ultimately obtain p where p: "defaultServerUrlFor (wd_url_Parse demo_world) config = Inr (?u, p)" by metis
  have "tlsCache_get E m X [] (transportConfig config) = ([], Inr DefaultTransport)" for E m and X :: "string \<Rightarrow> string \<Rightarrow> gerror + unit"
    using assms(1) by (simp add: tlsCache_get_def tlsConfigKey_def loadTLSFiles_def dataFromSliceOrFile_def TLSConfigFor_def HasCA_def
        HasCertAuth_def transportConfig_def no_TLS_def Let_def gm_get_def)
  moreover have "tc_Transport (transportConfig config) = None" "tc_Username (transportConfig config) = []"
    using assms(2,3) by (simp_all add: transportConfig_def)
  ultimately have "\<exists>rt. transport_New E m X base [] (transportConfig config) = ([], Inr rt)"
    for E m and X :: "string \<Rightarrow> string \<Rightarrow> gerror + unit" and base
    by (simp add: transport_New_def HTTPWrappersForConfig_def HasBasicAuth_def Let_def)
  then obtain rt where rt: "transport_New (wd_os demo_world) (wd_machine demo_world) (wd_X509KeyPair demo_world) (wd_base demo_world) [] (transportConfig config) = ([], Inr rt)"
    by blast
  have t: "\<exists>b. NewTokenBucketRateLimiter (wd_interval demo_world q) (wd_close demo_world q) (wd_now demo_world) 10 = Ok b" for q
    by (simp add: NewTokenBucketRateLimiter_def NewBucketWithRate_def rate_loop.simps NewBucketWithQuantum_def demo_world_def)
  have "\<exists>r. NewRESTClient ?u p ct gv (cg_QPS config > 0) (wd_interval demo_world (cg_QPS config)) (wd_close demo_world (cg_QPS config))
      (cg_Burst config) (wd_now demo_world) = Ok r" for ct
    using assms(4) t [of "cg_QPS config"] by (auto simp: NewRESTClient_def Let_def)
  then obtain c th where "NewRESTClient ?u p (cg_ContentType config) gv (cg_QPS config > 0) (wd_interval demo_world (cg_QPS config))
      (wd_close demo_world (cg_QPS config)) (cg_Burst config) (wd_now demo_world) = Ok (c, th)"
    by (metis surj_pair)
  with p rt show ?thesis by (simp add: connect_def)
qed

lemma demo_daemon_client: "\<exists>client. daemon_client demo_world demo_kubeconfig 0 0 = Ok client"
proof -
  let ?c = "demo_kubeconfig\<lparr>cg_QPS := 0, cg_Burst := 0\<rparr>"
  obtain config where d: "SetKubernetesDefaults demo_world ?c = Inr config" "cg_TLS config = no_TLS" "cg_Username config = ''''" "cg_Transport config = None"
    "cg_Burst config = 10" "cg_GroupVersion config \<noteq> None" "cg_Codec config \<noteq> None"
    by (simp add: SetKubernetesDefaults_def registered_Group_def rest_SetKubernetesDefaults_def demo_kubeconfig_def demo_world_def gm_get_def Let_def)
  then obtain cn where cn: "RESTClientFor demo_world [] config = ([], Ok cn)"
    using demo_connect [OF d(2-4)] by (auto simp: RESTClientFor_def)
  have "\<exists>dc. NewDiscoveryClientForConfig demo_world [] ?c = ([], Ok dc)"
    unfolding NewDiscoveryClientForConfig_def UnversionedRESTClientFor_def
    using demo_connect [of "setDiscoveryDefaults demo_world ?c"] by (simp add: setDiscoveryDefaults_def demo_kubeconfig_def)
  then obtain dc where dc: "NewDiscoveryClientForConfig demo_world [] ?c = ([], Ok dc)" by blast
  have "IsRegistered (wd_groupMetaMap demo_world) g \<longleftrightarrow> g = ''''" for g by (simp add: IsRegistered_def demo_world_def gm_get_def)
  then have "group_clients demo_world [] ?c [''autoscaling'', ''batch'', ''extensions''] =
      ([], Ok [(''autoscaling'', None), (''batch'', None), (''extensions'', None)])"
    by simp
  with d(1) cn dc show ?thesis by (simp add: daemon_client_def kubeclient_New_def del: group_clients.simps)
qed

lemma demo_world_simps: "gm_get (wd_groupMetaMap demo_world) '''' = Some v1" "cg_APIPath demo_kubeconfig = ''''"
  "server_url demo_world demo_kubeconfig = Some \<lparr>u_Scheme = ''http'', u_Host = ''api:8080'', u_Path = '''', u_RawQuery = ''''\<rparr>"
  by (simp_all add: demo_world_def demo_kubeconfig_def gm_get_def server_url_def defaultServerUrlFor_def DefaultServerURL_def Let_def)

theorem daemon_requests_witness:
  "\<exists>client. daemon_client demo_world demo_kubeconfig 0 0 = Ok client \<and>
    request_path (list_request (cn_client (cl_RESTClient client)) ''services'' [] Everything (Inr [(''resourceVersion'', [''0''])])) =
      ''/api/v1/services''"
proof -
  obtain client where c: "daemon_client demo_world demo_kubeconfig 0 0 = Ok client" using demo_daemon_client by blast
  have k: "plain_key ''resourceVersion''"
    by (simp add: plain_key_def LabelSelectorQueryParam_def FieldSelectorQueryParam_def specialParams_def)
  from daemon_requests [OF c refl demo_world_simps, of "[]" "''services''" "[(''resourceVersion'', [''0''])]"] k c show ?thesis
    by (simp add: abs_path_def)
qed

text \<open>The throttle of the API client. Of the flags \<open>--kube-api-qps\<close> and \<open>--kube-api-burst\<close>, a positive rate and a non-zero burst are
  taken as they are; a burst of zero means ten, and a rate of zero means five requests per second, although the
  comment of the setting says that zero is no limit. Only a negative rate is no limit.\<close>

theorem api_throttle_settings:
  assumes "daemon_client w kubeconfig qps burst = Ok client"
    and "gm_get (wd_groupMetaMap w) '''' = Some \<lparr>gv_Group = '''', gv_Version = ''v1''\<rparr>" "cg_APIPath kubeconfig = ''''"
  shows "(cn_throttle (cl_RESTClient client) = None \<longleftrightarrow> qps < 0) \<and>
    (qps \<ge> 0 \<longrightarrow> (let q = if qps = 0 then 5 else qps in
       NewTokenBucketRateLimiter (wd_interval w q) (wd_close w q) (wd_now w) (if burst = 0 then 10 else burst) =
         Ok (the (cn_throttle (cl_RESTClient client)))))"
proof -
  let ?l = "legacy_config w kubeconfig qps burst"
  have l: "cg_APIPath ?l = ''/api''" "cg_GroupVersion ?l = Some v1" "cg_QPS ?l = (if qps = 0 then 5 else qps)"
    "cg_Burst ?l = (if burst = 0 then 10 else burst)"
    by (simp_all add: legacy_config_def)
  from connected [OF daemon_client_connects [OF assms] l(1,2)] show ?thesis unfolding l by (auto simp: Let_def split: if_splits)
qed

theorem api_throttle_settings_witness:
  "\<exists>client. daemon_client demo_world demo_kubeconfig 0 0 = Ok client \<and> cn_throttle (cl_RESTClient client) \<noteq> None \<and>
    NewTokenBucketRateLimiter (wd_interval demo_world 5) (wd_close demo_world 5) 0 10 = Ok (the (cn_throttle (cl_RESTClient client)))"
proof -
  obtain client where c: "daemon_client demo_world demo_kubeconfig 0 0 = Ok client" using demo_daemon_client by blast
  have "wd_now demo_world = 0" by (simp add: demo_world_def)
  with api_throttle_settings [OF c demo_world_simps(1,2)] c show ?thesis by simp
qed

end
