(* ===== verification/Mergo.thy ===== *)
theory Mergo
  imports Prelude Complex_Main
begin

text \<open>
  \<open>github.com/imdario/mergo\<close> (vendored): merging two Go values of one type by reflection. The loader of kubeconfig files is
  built on it.

  A value as \<open>reflect\<close> sees it is a tree \<open>rval\<close>; \<open>RMap None\<close>, \<open>RPtr None\<close> and \<open>RIface None\<close> are nil. \<open>deepMerge\<close> returns the
  destination as it is after the call. Its first argument says whether the destination can be set: fields of an
  addressable struct and targets of pointers can, elements of maps and values in interfaces cannot. Destinations are
  trees, so no address is met twice and the table of visited addresses never stops the recursion. Where the two values are of different kinds, which Go's types exclude
  except behind interfaces, \<open>reflect\<close> panics.
\<close>

section \<open>Values under reflection\<close>

datatype 'f rval =
    RString string
  | RBytes string
  | RBool bool
  | RInt int
  | RFloat rat
  | RFunc "'f option"
  | ROpaque 'f
  | RStruct "'f rval list"
  | RMap "(string \<times> 'f rval) list option"
  | RPtr "'f rval option"
  | RIface "'f rval option"

text \<open>A function is not a kind that \<open>isEmptyValue\<close> knows, so even a nil function counts as not empty.\<close>

fun isEmptyValue :: "'f rval \<Rightarrow> bool" where
  "isEmptyValue (RString s) = (s = [])"
| "isEmptyValue (RBytes b) = (b = [])"
| "isEmptyValue (RBool b) = (\<not> b)"
| "isEmptyValue (RInt i) = (i = 0)"
| "isEmptyValue (RFloat x) = (x = 0)"
| "isEmptyValue (RMap m) = (m = None \<or> m = Some [])"
| "isEmptyValue (RPtr p) = (p = None)"
| "isEmptyValue (RIface p) = (p = None)"
| "isEmptyValue _ = False"

text \<open>Kinds other than structs, maps, pointers and interfaces: \<open>dst.Set(src)\<close> needs the same one on both sides.\<close>

fun same_kind :: "'f rval \<Rightarrow> 'f rval \<Rightarrow> bool" where
  "same_kind (RString _) (RString _) = True"
| "same_kind (RBytes _) (RBytes _) = True"
| "same_kind (RBool _) (RBool _) = True"
| "same_kind (RInt _) (RInt _) = True"
| "same_kind (RFloat _) (RFloat _) = True"
| "same_kind (RFunc _) (RFunc _) = True"
| "same_kind (ROpaque _) (ROpaque _) = True"
| "same_kind _ _ = False"

text \<open>\<open>reflect.TypeOf(v.Interface()).Kind()\<close>: whether the kind is a struct or a map; \<open>None\<close> when the type is nil.\<close>

fun aggregate_kind :: "'f rval \<Rightarrow> bool option" where
  "aggregate_kind (RIface None) = None"
| "aggregate_kind (RIface (Some v)) = aggregate_kind v"
| "aggregate_kind (RStruct fs) = Some True"
| "aggregate_kind (RMap m) = Some True"
| "aggregate_kind _ = Some False"

definition obind :: "'a outcome \<Rightarrow> ('a \<Rightarrow> 'b outcome) \<Rightarrow> 'b outcome" where
  "obind r f = (case r of Ok x \<Rightarrow> f x | Fail e \<Rightarrow> Fail e | Panic s \<Rightarrow> Panic s | Exit s \<Rightarrow> Exit s)"

lemma obind_simps [simp]:
  "obind (Ok x) f = f x" "obind (Fail e) f = Fail e" "obind (Panic s) f = Panic s" "obind (Exit s) f = Exit s"
  by (simp_all add: obind_def)

lemma obind_Ok [simp]: "obind r Ok = r"
  by (cases r) simp_all

lemma obind_eq_Ok: "obind r f = Ok y \<longleftrightarrow> (\<exists>x. r = Ok x \<and> f x = Ok y)"
  by (cases r) simp_all

lemma obind_cong [fundef_cong]: "r = r' \<Longrightarrow> (\<And>x. r' = Ok x \<Longrightarrow> f x = g x) \<Longrightarrow> obind r f = obind r' g"
  by (cases r') simp_all

lemma obind_assoc: "obind (obind r f) g = obind r (\<lambda>x. obind (f x) g)"
  by (cases r) simp_all

lemma map_outcome_obind: "map_outcome h (obind r f) = obind r (\<lambda>x. map_outcome h (f x))"
  by (cases r) simp_all

lemma obind_map_outcome: "obind (map_outcome h r) f = obind r (\<lambda>x. f (h x))"
  by (cases r) simp_all

section \<open>The recursive merge\<close>

abbreviation nil_type :: string where
  "nil_type \<equiv> ''invalid memory address or nil pointer dereference''"

abbreviation nil_map :: string where
  "nil_map \<equiv> ''assignment to entry in nil map''"

abbreviation bad_kind :: string where
  "bad_kind \<equiv> ''reflect: call of a method on a value of another kind''"

function (sequential) deepMerge :: "bool \<Rightarrow> 'f rval \<Rightarrow> 'f rval \<Rightarrow> 'f rval outcome"
  and merge_fields :: "bool \<Rightarrow> 'f rval list \<Rightarrow> 'f rval list \<Rightarrow> 'f rval list outcome"
  and merge_keys :: "(string \<times> 'f rval) list option \<Rightarrow> (string \<times> 'f rval) list \<Rightarrow> (string \<times> 'f rval) list option outcome" where
  "deepMerge can dst src =
     (case (dst, src) of
        (RStruct ds, RStruct ss) \<Rightarrow> map_outcome RStruct (merge_fields can ds ss)
      | (RStruct ds, _) \<Rightarrow> if ds = [] then Ok dst else Panic bad_kind
      | (RMap d, RMap s) \<Rightarrow> map_outcome RMap (merge_keys d (case s of None \<Rightarrow> [] | Some kvs \<Rightarrow> kvs))
      | (RMap d, _) \<Rightarrow> Panic bad_kind
      | (RPtr d, RPtr s) \<Rightarrow>
          (case s of
             None \<Rightarrow> Ok dst
           | Some sv \<Rightarrow>
               (case d of
                  None \<Rightarrow> Ok (if can then src else dst)
                | Some dv \<Rightarrow> map_outcome (\<lambda>v. RPtr (Some v)) (deepMerge True dv sv)))
      | (RPtr d, _) \<Rightarrow> Panic bad_kind
      | (RIface d, RIface s) \<Rightarrow>
          (case s of
             None \<Rightarrow> Ok dst
           | Some sv \<Rightarrow>
               (case d of
                  None \<Rightarrow> Ok (if can then src else dst)
                | Some dv \<Rightarrow> map_outcome (\<lambda>v. RIface (Some v)) (deepMerge False dv sv)))
      | (RIface d, _) \<Rightarrow> Panic bad_kind
      | _ \<Rightarrow>
          if can \<and> \<not> isEmptyValue src then (if same_kind dst src then Ok src else Panic bad_kind) else Ok dst)"
| "merge_fields can [] ss = Ok []"
| "merge_fields can (d # ds) [] = Panic bad_kind"
| "merge_fields can (d # ds) (s # ss) =
     obind (deepMerge can d s) (\<lambda>d'. obind (merge_fields can ds ss) (\<lambda>ds'. Ok (d' # ds')))"
| "merge_keys d [] = Ok d"
| "merge_keys d ((key, srcElement) # ss) =
     (case aggregate_kind srcElement of
        None \<Rightarrow> Panic nil_type
      | Some agg \<Rightarrow>
          (case d of
             None \<Rightarrow> Panic nil_map
           | Some m \<Rightarrow>
               (case gm_get m key of
                  None \<Rightarrow> merge_keys (Some (gm_set key srcElement m)) ss
                | Some dstElement \<Rightarrow>
                    if agg
                    then obind (deepMerge False dstElement srcElement) (\<lambda>e. merge_keys (Some (gm_set key e m)) ss)
                    else merge_keys d ss)))"
  by pat_completeness auto

termination
  by (relation "measure (\<lambda>x. case x of Inl (_, _, src) \<Rightarrow> 2 * size src
       | Inr (Inl (_, _, ss)) \<Rightarrow> Suc (2 * size_list size ss)
       | Inr (Inr (_, kvs)) \<Rightarrow> Suc (2 * size_list (size_prod (\<lambda>_. 0) size) kvs))") (auto split: option.splits)

declare deepMerge.simps [simp del]

lemma deepMerge_simps [simp]:
  "deepMerge can (RStruct ds) (RStruct ss) = map_outcome RStruct (merge_fields can ds ss)"
  "deepMerge can (RMap d) (RMap s) = map_outcome RMap (merge_keys d (case s of None \<Rightarrow> [] | Some kvs \<Rightarrow> kvs))"
  "deepMerge can (RPtr p) (RPtr None) = Ok (RPtr p)"
  "deepMerge can (RPtr None) (RPtr (Some sv)) = Ok (RPtr (if can then Some sv else None))"
  "deepMerge can (RPtr (Some dv)) (RPtr (Some sv)) = map_outcome (\<lambda>v. RPtr (Some v)) (deepMerge True dv sv)"
  "deepMerge can (RIface p) (RIface None) = Ok (RIface p)"
  "deepMerge can (RIface None) (RIface (Some sv)) = Ok (RIface (if can then Some sv else None))"
  "deepMerge can (RIface (Some dv)) (RIface (Some sv)) = map_outcome (\<lambda>v. RIface (Some v)) (deepMerge False dv sv)"
  "deepMerge can (RString x) (RString y) = Ok (RString (if can \<and> y \<noteq> [] then y else x))"
  "deepMerge can (RBytes x) (RBytes y) = Ok (RBytes (if can \<and> y \<noteq> [] then y else x))"
  "deepMerge can (RBool a) (RBool b) = Ok (RBool (a \<or> can \<and> b))"
  "deepMerge can (RInt i) (RInt j) = Ok (RInt (if can \<and> j \<noteq> 0 then j else i))"
  "deepMerge can (RFloat q) (RFloat r) = Ok (RFloat (if can \<and> r \<noteq> 0 then r else q))"
  "deepMerge can (RFunc f) (RFunc g) = Ok (RFunc (if can then g else f))"
  by (subst deepMerge.simps; auto)+

text \<open>\<open>Merge\<close> for two structs, or pointers to them: the destination is behind a pointer and can be set.\<close>

definition Merge :: "'f rval \<Rightarrow> 'f rval \<Rightarrow> 'f rval outcome" where
  "Merge dst src = deepMerge True dst src"

section \<open>Typed merges\<close>

text \<open>What the reflective merge does on the types that occur: the last value that is not empty wins, a flag stays set, and
  a key of a map keeps the value it got first.\<close>

definition merge_string :: "string \<Rightarrow> string \<Rightarrow> string" where
  "merge_string d s = (if s = [] then d else s)"

fun merge_map :: "('v \<Rightarrow> bool) \<Rightarrow> (string, 'v) gomap option \<Rightarrow> (string, 'v) gomap \<Rightarrow> (string, 'v) gomap option outcome" where
  "merge_map has_type d [] = Ok d"
| "merge_map has_type d ((key, v) # s) =
     (if \<not> has_type v then Panic nil_type
      else case d of
             None \<Rightarrow> Panic nil_map
           | Some m \<Rightarrow> merge_map has_type (Some (if gm_get m key = None then gm_set key v m else m)) s)"

text \<open>The entries of a map value; a nil map has none.\<close>

definition entries :: "(string, 'v) gomap option \<Rightarrow> (string, 'v) gomap" where
  "entries m = (case m of None \<Rightarrow> [] | Some kvs \<Rightarrow> kvs)"

lemma entries_simps [simp]: "entries None = []" "entries (Some m) = m"
  by (simp_all add: entries_def)

text \<open>A typed map as a tree. The elements are not structs or maps themselves.\<close>

definition enc_map :: "('v \<Rightarrow> 'f rval) \<Rightarrow> (string, 'v) gomap option \<Rightarrow> 'f rval" where
  "enc_map enc m = RMap (map_option (map (\<lambda>(k, v). (k, enc v))) m)"

lemma gm_get_enc: "gm_get (map (\<lambda>(k, v). (k, enc v)) m) key = map_option enc (gm_get m key)"
  by (induction m) (auto simp: gm_get_def)

lemma gm_set_enc: "gm_set key (enc v) (map (\<lambda>(k, v). (k, enc v)) m) = map (\<lambda>(k, v). (k, enc v)) (gm_set key v m)"
  by (induction m) (auto simp: gm_set_def)

lemma merge_keys_typed:
  assumes "\<And>v. aggregate_kind (enc v) = (if has_type v then Some False else None)"
  shows "merge_keys (map_option (map (\<lambda>(k, v). (k, enc v))) d) (map (\<lambda>(k, v). (k, enc v)) s) =
    map_outcome (map_option (map (\<lambda>(k, v). (k, enc v)))) (merge_map has_type d s)"
proof (induction s arbitrary: d)
  case (Cons kv s)
  obtain key v where kv: "kv = (key, v)" by (cases kv)
  show ?case
  proof (cases d)
    case (Some m)
    from Cons.IH [of "Some (gm_set key v m)"] Cons.IH [of "Some m"] show ?thesis
      by (cases "gm_get m key") (simp_all add: kv Some assms gm_get_enc gm_set_enc)
  qed (simp add: kv assms)
qed simp

lemma deepMerge_map:
  assumes "\<And>v. aggregate_kind (enc v) = (if has_type v then Some False else None)"
  shows "deepMerge can (enc_map enc d) (enc_map enc s) = map_outcome (enc_map enc) (merge_map has_type d (entries s))"
proof -
  have "(case map_option (map (\<lambda>(k, v). (k, enc v))) s of None \<Rightarrow> [] | Some kvs \<Rightarrow> kvs) = map (\<lambda>(k, v). (k, enc v)) (entries s)"
    by (cases s) simp_all
  then show ?thesis
    by (simp add: enc_map_def [abs_def] merge_keys_typed [where enc = enc and has_type = has_type, OF assms] outcome.map_comp comp_def)
qed

text \<open>Merging into a map that is there adds the missing keys; merging entries into a nil map panics.\<close>

lemma merge_map_Some:
  assumes "\<forall>(k, v) \<in> set s. has_type v"
  obtains m' where "merge_map has_type (Some m) s = Ok (Some m')" "map_of m' = map_of s ++ map_of m" "gm_wf m \<Longrightarrow> gm_wf m'"
  using assms
proof (induction s arbitrary: m thesis)
  case (Cons kv s)
  obtain key v where kv: "kv = (key, v)" by (cases kv)
  define m1 where "m1 = (if gm_get m key = None then gm_set key v m else m)"
  have m1: "map_of (kv # s) ++ map_of m = map_of s ++ map_of m1" "gm_wf m \<Longrightarrow> gm_wf m1"
    by (auto simp: kv m1_def gomap_simps map_add_def fun_eq_iff split: option.splits)
  from Cons.prems(2) have "\<forall>(k, v) \<in> set s. has_type v" by simp
  from Cons.IH [OF _ this, of m1] obtain m' where
    m': "merge_map has_type (Some m1) s = Ok (Some m')" "map_of m' = map_of s ++ map_of m1" "gm_wf m1 \<Longrightarrow> gm_wf m'" by blast
  show ?case
  proof (rule Cons.prems(1))
    show "merge_map has_type (Some m) (kv # s) = Ok (Some m')" using m'(1) Cons.prems(2) by (simp add: kv m1_def)
    show "map_of m' = map_of (kv # s) ++ map_of m" using m'(2) m1(1) by simp
    show "gm_wf m'" if "gm_wf m" using m'(3) m1(2) that by simp
  qed
qed simp

lemma merge_map_nil: "merge_map has_type None s = (case s of [] \<Rightarrow> Ok None | (_, v) # _ \<Rightarrow> Panic (if has_type v then nil_map else nil_type))"
  by (cases s) auto

fun merge_all :: "('s \<Rightarrow> 's \<Rightarrow> 's outcome) \<Rightarrow> 's \<Rightarrow> 's list \<Rightarrow> 's outcome" where
  "merge_all merge d [] = Ok d"
| "merge_all merge d (s # ss) = obind (merge d s) (\<lambda>d'. merge_all merge d' ss)"

text \<open>What a typed merge owes to the reflective one: on the sources for which it is meant it computes the same result, and
  nothing of a value is lost in its tree.\<close>

locale mergeable =
  fixes enc :: "'s \<Rightarrow> 'f rval"
    and merge :: "'s \<Rightarrow> 's \<Rightarrow> 's outcome"
    and plain :: "'s \<Rightarrow> bool"
  assumes simulates: "plain s \<Longrightarrow> Merge (enc d) (enc s) = map_outcome enc (merge d s)"
    and distinguishes: "enc a = enc b \<Longrightarrow> a = b"
begin

lemma determined: "plain s \<Longrightarrow> Merge (enc d) (enc s) = Ok (enc r) \<longleftrightarrow> merge d s = Ok r"
  by (cases "merge d s") (auto simp: simulates dest: distinguishes)

lemma all_simulates:
  "\<forall>s \<in> set ss. plain s \<Longrightarrow> merge_all Merge (enc d) (map enc ss) = map_outcome enc (merge_all merge d ss)"
proof (induction ss arbitrary: d)
  case (Cons s ss)
  then show ?case by (cases "merge d s") (simp_all add: simulates)
qed simp

end

end
