(* ===== verification/Kubeconfig.thy ===== *)
theory Kubeconfig
  imports Mergo Request Config
begin

text \<open>
  Kubeconfig files: the types of \<open>clientcmd/api\<close>, the conversion of the file format (\<open>clientcmd/api/v1\<close>), and the loader
  \<open>clientcmd/loader.go\<close> with its rules for several files (vendored).

  Parameters, in the record \<open>cmd_env\<close>: what \<open>os.Stat\<close> says beside the files of the machine, the environment variables and the
  working directory, and the decoder from YAML or JSON bytes to the structs of the file format. An extension is held
  as a \<open>runtime.Unknown\<close> with its JSON text, or is nil.
\<close>

section \<open>Types\<close>

type_synonym extensions = "(string, string option) gomap option"

record Cluster =
  cu_LocationOfOrigin :: string
  cu_Server :: string
  cu_APIVersion :: string
  cu_InsecureSkipTLSVerify :: bool
  cu_CertificateAuthority :: string
  cu_CertificateAuthorityData :: string
  cu_Extensions :: extensions

record AuthInfo =
  ai_LocationOfOrigin :: string
  ai_ClientCertificate :: string
  ai_ClientCertificateData :: string
  ai_ClientKey :: string
  ai_ClientKeyData :: string
  ai_Token :: string
  ai_Username :: string
  ai_Password :: string
  ai_Extensions :: extensions

record Context =
  cx_LocationOfOrigin :: string
  cx_Cluster :: string
  cx_AuthInfo :: string
  cx_Namespace :: string
  cx_Extensions :: extensions

record Preferences =
  pf_Colors :: bool
  pf_Extensions :: extensions

record KubeConfig =
  kc_Kind :: string
  kc_APIVersion :: string
  kc_Preferences :: Preferences
  kc_Clusters :: "(string, Cluster) gomap option"
  kc_AuthInfos :: "(string, AuthInfo) gomap option"
  kc_Contexts :: "(string, Context) gomap option"
  kc_CurrentContext :: string
  kc_Extensions :: extensions

text \<open>The zero values of the structs, and those with maps that are made.\<close>

definition zero_Cluster :: Cluster where
  "zero_Cluster = \<lparr>cu_LocationOfOrigin = [], cu_Server = [], cu_APIVersion = [], cu_InsecureSkipTLSVerify = False,
     cu_CertificateAuthority = [], cu_CertificateAuthorityData = [], cu_Extensions = None\<rparr>"

definition zero_AuthInfo :: AuthInfo where
  "zero_AuthInfo = \<lparr>ai_LocationOfOrigin = [], ai_ClientCertificate = [], ai_ClientCertificateData = [], ai_ClientKey = [],
     ai_ClientKeyData = [], ai_Token = [], ai_Username = [], ai_Password = [], ai_Extensions = None\<rparr>"

definition zero_Context :: Context where
  "zero_Context = \<lparr>cx_LocationOfOrigin = [], cx_Cluster = [], cx_AuthInfo = [], cx_Namespace = [], cx_Extensions = None\<rparr>"

definition NewCluster :: Cluster where
  "NewCluster = zero_Cluster\<lparr>cu_Extensions := Some []\<rparr>"

definition NewAuthInfo :: AuthInfo where
  "NewAuthInfo = zero_AuthInfo\<lparr>ai_Extensions := Some []\<rparr>"

definition NewContext :: Context where
  "NewContext = zero_Context\<lparr>cx_Extensions := Some []\<rparr>"

definition NewPreferences :: Preferences where
  "NewPreferences = \<lparr>pf_Colors = False, pf_Extensions = Some []\<rparr>"

definition NewConfig :: KubeConfig where
  "NewConfig = \<lparr>kc_Kind = [], kc_APIVersion = [], kc_Preferences = NewPreferences, kc_Clusters = Some [], kc_AuthInfos = Some [],
     kc_Contexts = Some [], kc_CurrentContext = [], kc_Extensions = Some []\<rparr>"

definition IsConfigEmpty :: "KubeConfig \<Rightarrow> bool" where
  "IsConfigEmpty config \<longleftrightarrow>
     length (entries (kc_AuthInfos config)) = 0 \<and> length (entries (kc_Clusters config)) = 0 \<and> length (entries (kc_Contexts config)) = 0 \<and>
     length (kc_CurrentContext config) = 0 \<and>
     length (entries (pf_Extensions (kc_Preferences config))) = 0 \<and> \<not> pf_Colors (kc_Preferences config) \<and>
     length (entries (kc_Extensions config)) = 0"

section \<open>The structs as trees, and their merges\<close>

text \<open>A function value has no place in these structs, so the type of opaque values is open.\<close>

definition enc_object :: "string option \<Rightarrow> 'f rval" where
  "enc_object v = RIface (map_option (\<lambda>raw. RPtr (Some (RStruct [RStruct [RString [], RString []], RBytes raw]))) v)"

definition enc_extensions :: "extensions \<Rightarrow> 'f rval" where
  "enc_extensions = enc_map enc_object"

definition merge_extensions :: "extensions \<Rightarrow> extensions \<Rightarrow> extensions outcome" where
  "merge_extensions d s = merge_map (\<lambda>v. v \<noteq> None) d (entries s)"

definition enc_Cluster :: "Cluster \<Rightarrow> 'f rval" where
  "enc_Cluster c = RStruct [RString (cu_LocationOfOrigin c), RString (cu_Server c), RString (cu_APIVersion c),
     RBool (cu_InsecureSkipTLSVerify c), RString (cu_CertificateAuthority c), RBytes (cu_CertificateAuthorityData c),
     enc_extensions (cu_Extensions c)]"

definition merge_Cluster :: "Cluster \<Rightarrow> Cluster \<Rightarrow> Cluster outcome" where
  "merge_Cluster d s =
     obind (merge_extensions (cu_Extensions d) (cu_Extensions s)) (\<lambda>x. Ok
       \<lparr>cu_LocationOfOrigin = merge_string (cu_LocationOfOrigin d) (cu_LocationOfOrigin s),
        cu_Server = merge_string (cu_Server d) (cu_Server s),
        cu_APIVersion = merge_string (cu_APIVersion d) (cu_APIVersion s),
        cu_InsecureSkipTLSVerify = (cu_InsecureSkipTLSVerify d \<or> cu_InsecureSkipTLSVerify s),
        cu_CertificateAuthority = merge_string (cu_CertificateAuthority d) (cu_CertificateAuthority s),
        cu_CertificateAuthorityData = merge_string (cu_CertificateAuthorityData d) (cu_CertificateAuthorityData s),
        cu_Extensions = x\<rparr>)"

definition enc_AuthInfo :: "AuthInfo \<Rightarrow> 'f rval" where
  "enc_AuthInfo a = RStruct [RString (ai_LocationOfOrigin a), RString (ai_ClientCertificate a), RBytes (ai_ClientCertificateData a),
     RString (ai_ClientKey a), RBytes (ai_ClientKeyData a), RString (ai_Token a), RString (ai_Username a), RString (ai_Password a),
     enc_extensions (ai_Extensions a)]"

definition merge_AuthInfo :: "AuthInfo \<Rightarrow> AuthInfo \<Rightarrow> AuthInfo outcome" where
  "merge_AuthInfo d s =
     obind (merge_extensions (ai_Extensions d) (ai_Extensions s)) (\<lambda>x. Ok
       \<lparr>ai_LocationOfOrigin = merge_string (ai_LocationOfOrigin d) (ai_LocationOfOrigin s),
        ai_ClientCertificate = merge_string (ai_ClientCertificate d) (ai_ClientCertificate s),
        ai_ClientCertificateData = merge_string (ai_ClientCertificateData d) (ai_ClientCertificateData s),
        ai_ClientKey = merge_string (ai_ClientKey d) (ai_ClientKey s),
        ai_ClientKeyData = merge_string (ai_ClientKeyData d) (ai_ClientKeyData s),
        ai_Token = merge_string (ai_Token d) (ai_Token s),
        ai_Username = merge_string (ai_Username d) (ai_Username s),
        ai_Password = merge_string (ai_Password d) (ai_Password s),
        ai_Extensions = x\<rparr>)"

definition enc_Context :: "Context \<Rightarrow> 'f rval" where
  "enc_Context c = RStruct [RString (cx_LocationOfOrigin c), RString (cx_Cluster c), RString (cx_AuthInfo c), RString (cx_Namespace c),
     enc_extensions (cx_Extensions c)]"

definition merge_Context :: "Context \<Rightarrow> Context \<Rightarrow> Context outcome" where
  "merge_Context d s =
     obind (merge_extensions (cx_Extensions d) (cx_Extensions s)) (\<lambda>x. Ok
       \<lparr>cx_LocationOfOrigin = merge_string (cx_LocationOfOrigin d) (cx_LocationOfOrigin s),
        cx_Cluster = merge_string (cx_Cluster d) (cx_Cluster s),
        cx_AuthInfo = merge_string (cx_AuthInfo d) (cx_AuthInfo s),
        cx_Namespace = merge_string (cx_Namespace d) (cx_Namespace s),
        cx_Extensions = x\<rparr>)"

definition enc_KubeConfig :: "KubeConfig \<Rightarrow> 'f rval" where
  "enc_KubeConfig c = RStruct [RString (kc_Kind c), RString (kc_APIVersion c),
     RStruct [RBool (pf_Colors (kc_Preferences c)), enc_extensions (pf_Extensions (kc_Preferences c))],
     enc_map (\<lambda>v. RPtr (Some (enc_Cluster v))) (kc_Clusters c),
     enc_map (\<lambda>v. RPtr (Some (enc_AuthInfo v))) (kc_AuthInfos c),
     enc_map (\<lambda>v. RPtr (Some (enc_Context v))) (kc_Contexts c),
     RString (kc_CurrentContext c), enc_extensions (kc_Extensions c)]"

definition merge_KubeConfig :: "KubeConfig \<Rightarrow> KubeConfig \<Rightarrow> KubeConfig outcome" where
  "merge_KubeConfig d s =
     obind (merge_extensions (pf_Extensions (kc_Preferences d)) (pf_Extensions (kc_Preferences s))) (\<lambda>px.
     obind (merge_map (\<lambda>_. True) (kc_Clusters d) (entries (kc_Clusters s))) (\<lambda>cs.
     obind (merge_map (\<lambda>_. True) (kc_AuthInfos d) (entries (kc_AuthInfos s))) (\<lambda>as.
     obind (merge_map (\<lambda>_. True) (kc_Contexts d) (entries (kc_Contexts s))) (\<lambda>xs.
     obind (merge_extensions (kc_Extensions d) (kc_Extensions s)) (\<lambda>x. Ok
       \<lparr>kc_Kind = merge_string (kc_Kind d) (kc_Kind s),
        kc_APIVersion = merge_string (kc_APIVersion d) (kc_APIVersion s),
        kc_Preferences = \<lparr>pf_Colors = (pf_Colors (kc_Preferences d) \<or> pf_Colors (kc_Preferences s)), pf_Extensions = px\<rparr>,
        kc_Clusters = cs, kc_AuthInfos = as, kc_Contexts = xs,
        kc_CurrentContext = merge_string (kc_CurrentContext d) (kc_CurrentContext s),
        kc_Extensions = x\<rparr>)))))"

lemma enc_object_kind: "aggregate_kind (enc_object v :: 'f rval) = (if v \<noteq> None then Some False else None)"
  by (cases v) (simp_all add: enc_object_def)

lemma deepMerge_extensions:
  "deepMerge can (enc_extensions d :: 'f rval) (enc_extensions s) = map_outcome enc_extensions (merge_extensions d s)"
  unfolding enc_extensions_def merge_extensions_def by (rule deepMerge_map) (rule enc_object_kind)

lemma deepMerge_pointers:
  "deepMerge can (enc_map (\<lambda>v. RPtr (Some (enc v))) d :: 'f rval) (enc_map (\<lambda>v. RPtr (Some (enc v))) s) =
    map_outcome (enc_map (\<lambda>v. RPtr (Some (enc v)))) (merge_map (\<lambda>_. True) d (entries s))"
  by (rule deepMerge_map) simp

lemma enc_map_inj: "inj enc \<Longrightarrow> enc_map enc a = (enc_map enc b :: 'f rval) \<longleftrightarrow> a = b"
proof -
  assume "inj enc"
  then have "inj (\<lambda>(k :: string, v). (k, enc v))" by (auto simp: inj_def)
  then have "inj (map_option (map (\<lambda>(k :: string, v). (k, enc v))))" by (intro option.inj_map list.inj_map)
  then show ?thesis by (auto simp: enc_map_def inj_eq)
qed

lemma enc_extensions_inj [simp]: "enc_extensions a = (enc_extensions b :: 'f rval) \<longleftrightarrow> a = b"
proof -
  have "enc_object v = (enc_object v' :: 'f rval) \<Longrightarrow> v = v'" for v v'
    by (cases v; cases v') (simp_all add: enc_object_def)
  then have "inj (enc_object :: _ \<Rightarrow> 'f rval)" by (auto simp: inj_def)
  then show ?thesis by (simp add: enc_extensions_def enc_map_inj)
qed

lemma enc_structs_inj:
  "enc_Cluster a = (enc_Cluster b :: 'f rval) \<longleftrightarrow> a = b" "enc_AuthInfo u = (enc_AuthInfo v :: 'f rval) \<longleftrightarrow> u = v"
  "enc_Context x = (enc_Context y :: 'f rval) \<longleftrightarrow> x = y"
  by (auto simp: enc_Cluster_def enc_AuthInfo_def enc_Context_def)

lemma enc_pointers_inj [simp]:
  "enc_map (\<lambda>v. RPtr (Some (enc_Cluster v))) a = (enc_map (\<lambda>v. RPtr (Some (enc_Cluster v))) b :: 'f rval) \<longleftrightarrow> a = b"
  "enc_map (\<lambda>v. RPtr (Some (enc_AuthInfo v))) c = (enc_map (\<lambda>v. RPtr (Some (enc_AuthInfo v))) d :: 'f rval) \<longleftrightarrow> c = d"
  "enc_map (\<lambda>v. RPtr (Some (enc_Context v))) e = (enc_map (\<lambda>v. RPtr (Some (enc_Context v))) f :: 'f rval) \<longleftrightarrow> e = f"
  by (rule enc_map_inj; auto simp: inj_def enc_structs_inj)+

lemmas merge_steps = Merge_def deepMerge_extensions deepMerge_pointers map_outcome_obind obind_map_outcome merge_string_def

text \<open>The typed merges of the four structs are the reflective merge.\<close>

interpretation mcluster: mergeable enc_Cluster merge_Cluster "\<lambda>_. True"
proof
  show "Merge (enc_Cluster d) (enc_Cluster s) = map_outcome enc_Cluster (merge_Cluster d s)" for d s :: Cluster
    by (cases "merge_extensions (cu_Extensions d) (cu_Extensions s)") (simp_all add: enc_Cluster_def merge_Cluster_def merge_steps)
qed (simp add: enc_structs_inj)

interpretation mauth: mergeable enc_AuthInfo merge_AuthInfo "\<lambda>_. True"
proof
  show "Merge (enc_AuthInfo d) (enc_AuthInfo s) = map_outcome enc_AuthInfo (merge_AuthInfo d s)" for d s :: AuthInfo
    by (cases "merge_extensions (ai_Extensions d) (ai_Extensions s)") (simp_all add: enc_AuthInfo_def merge_AuthInfo_def merge_steps)
qed (simp add: enc_structs_inj)

interpretation mcontext: mergeable enc_Context merge_Context "\<lambda>_. True"
proof
  show "Merge (enc_Context d) (enc_Context s) = map_outcome enc_Context (merge_Context d s)" for d s :: Context
    by (cases "merge_extensions (cx_Extensions d) (cx_Extensions s)") (simp_all add: enc_Context_def merge_Context_def merge_steps)
qed (simp add: enc_structs_inj)

interpretation mconfig: mergeable enc_KubeConfig merge_KubeConfig "\<lambda>_. True"
proof
  show "Merge (enc_KubeConfig d) (enc_KubeConfig s) = map_outcome enc_KubeConfig (merge_KubeConfig d s)" for d s :: KubeConfig
    by (simp add: enc_KubeConfig_def merge_KubeConfig_def merge_steps obind_assoc)
  show "a = b" if "enc_KubeConfig a = (enc_KubeConfig b :: 'b rval)" for a b
    using that by (simp add: enc_KubeConfig_def)
qed

section \<open>The file format\<close>

text \<open>Extensions come as a list of names with JSON texts; an empty text or \<open>null\<close> becomes a nil object.\<close>

type_synonym v1_extensions = "(string \<times> string) list"

record V1Cluster =
  vc_Server :: string
  vc_APIVersion :: string
  vc_InsecureSkipTLSVerify :: bool
  vc_CertificateAuthority :: string
  vc_CertificateAuthorityData :: string
  vc_Extensions :: v1_extensions

record V1AuthInfo =
  va_ClientCertificate :: string
  va_ClientCertificateData :: string
  va_ClientKey :: string
  va_ClientKeyData :: string
  va_Token :: string
  va_Username :: string
  va_Password :: string
  va_Extensions :: v1_extensions

record V1Context =
  vx_Cluster :: string
  vx_AuthInfo :: string
  vx_Namespace :: string
  vx_Extensions :: v1_extensions

record V1Config =
  vk_Colors :: bool
  vk_PrefExtensions :: v1_extensions
  vk_Clusters :: "(string \<times> V1Cluster) list"
  vk_AuthInfos :: "(string \<times> V1AuthInfo) list"
  vk_Contexts :: "(string \<times> V1Context) list"
  vk_CurrentContext :: string
  vk_Extensions :: v1_extensions

definition convert_RawExtension :: "string \<Rightarrow> string option" where
  "convert_RawExtension raw = (if length raw = 0 \<or> length raw = 4 \<and> raw = ''null'' then None else Some raw)"

text \<open>A list of named things into a map: a later thing of the same name replaces an earlier one.\<close>

definition convert_named :: "('a \<Rightarrow> 'b) \<Rightarrow> (string \<times> 'a) list \<Rightarrow> (string, 'b) gomap \<Rightarrow> (string, 'b) gomap" where
  "convert_named conv named out = foldl (\<lambda>m (name, x). gm_set name (conv x) m) out named"

definition convert_extensions :: "v1_extensions \<Rightarrow> extensions" where
  "convert_extensions named = Some (convert_named convert_RawExtension named [])"

definition convert_Cluster :: "V1Cluster \<Rightarrow> Cluster" where
  "convert_Cluster c = NewCluster\<lparr>cu_Server := vc_Server c, cu_APIVersion := vc_APIVersion c,
     cu_InsecureSkipTLSVerify := vc_InsecureSkipTLSVerify c, cu_CertificateAuthority := vc_CertificateAuthority c,
     cu_CertificateAuthorityData := vc_CertificateAuthorityData c, cu_Extensions := convert_extensions (vc_Extensions c)\<rparr>"

definition convert_AuthInfo :: "V1AuthInfo \<Rightarrow> AuthInfo" where
  "convert_AuthInfo a = NewAuthInfo\<lparr>ai_ClientCertificate := va_ClientCertificate a, ai_ClientCertificateData := va_ClientCertificateData a,
     ai_ClientKey := va_ClientKey a, ai_ClientKeyData := va_ClientKeyData a, ai_Token := va_Token a, ai_Username := va_Username a,
     ai_Password := va_Password a, ai_Extensions := convert_extensions (va_Extensions a)\<rparr>"

definition convert_Context :: "V1Context \<Rightarrow> Context" where
  "convert_Context x = NewContext\<lparr>cx_Cluster := vx_Cluster x, cx_AuthInfo := vx_AuthInfo x, cx_Namespace := vx_Namespace x,
     cx_Extensions := convert_extensions (vx_Extensions x)\<rparr>"

text \<open>The kind and the version of the file are not copied.\<close>

definition convert_Config :: "V1Config \<Rightarrow> KubeConfig" where
  "convert_Config c = NewConfig\<lparr>kc_CurrentContext := vk_CurrentContext c,
     kc_Preferences := \<lparr>pf_Colors = vk_Colors c, pf_Extensions = convert_extensions (vk_PrefExtensions c)\<rparr>,
     kc_Clusters := Some (convert_named convert_Cluster (vk_Clusters c) []),
     kc_AuthInfos := Some (convert_named convert_AuthInfo (vk_AuthInfos c) []),
     kc_Contexts := Some (convert_named convert_Context (vk_Contexts c) []),
     kc_Extensions := convert_extensions (vk_Extensions c)\<rparr>"

section \<open>Errors and the system\<close>

text \<open>The errors of the package. \<open>NotExist\<close> is an error for which \<open>os.IsNotExist\<close> holds.\<close>

datatype cmd_error =
    ErrNoContext
  | ErrEmptyConfig
  | ErrEmptyCluster
  | errContextNotFound string
  | errConfigurationInvalid "cmd_error list"
  | Aggregate "cmd_error list"
  | NotExist string
  | SysError string
  | Message string
  | LoadError string cmd_error
  | DecodeError gerror

datatype stat_result = StatFile | StatDir | StatNotExist | StatFails

record cmd_env =
  ce_is_dir :: "string \<Rightarrow> bool"
  ce_stat_fails :: "string \<Rightarrow> bool"
  ce_Getenv :: "string \<Rightarrow> string"
  ce_Getwd :: "gerror + string"
  ce_Decode :: "string \<Rightarrow> gerror + V1Config"

definition os_Stat :: "cmd_env \<Rightarrow> machine \<Rightarrow> string \<Rightarrow> stat_result" where
  "os_Stat e m path =
     (if ce_stat_fails e path then StatFails
      else if ce_is_dir e path then StatDir
      else if files m path \<noteq> None then StatFile else StatNotExist)"

definition read_file :: "os_env \<Rightarrow> cmd_env \<Rightarrow> machine \<Rightarrow> string \<Rightarrow> cmd_error + string" where
  "read_file E e m path =
     (case os_Stat e m path of
        StatNotExist \<Rightarrow> Inl (NotExist path)
      | StatFile \<Rightarrow> (case ReadFile E m path of Inl err \<Rightarrow> Inl (SysError path) | Inr bs \<Rightarrow> Inr bs)
      | _ \<Rightarrow> Inl (SysError path))"

definition filepath_IsAbs :: "string \<Rightarrow> bool" where
  "filepath_IsAbs path \<longleftrightarrow> path \<noteq> [] \<and> hd path = CHR ''/''"

definition filepath_Dir :: "string \<Rightarrow> string" where
  "filepath_Dir path = path_Clean (rev (dropWhile (\<lambda>c. c \<noteq> CHR ''/'') (rev path)))"

definition filepath_Abs :: "cmd_env \<Rightarrow> string \<Rightarrow> gerror + string" where
  "filepath_Abs e path =
     (if filepath_IsAbs path then Inr (path_Clean path)
      else case ce_Getwd e of Inl err \<Rightarrow> Inl err | Inr wd \<Rightarrow> Inr (path_Join [wd, path]))"

section \<open>The loader\<close>

record LoadingRules =
  lr_ExplicitPath :: string
  lr_Precedence :: "string list"
  lr_MigrationRules :: "(string, string) gomap option"
  lr_DoNotResolvePaths :: bool

text \<open>\<open>path.Join(os.Getenv("HOME"), ...)\<close>.\<close>

definition RecommendedHomeFile :: "cmd_env \<Rightarrow> string" where
  "RecommendedHomeFile e = path_Join [ce_Getenv e ''HOME'', ''.kube'', ''config'']"

definition OldRecommendedHomeFile :: "cmd_env \<Rightarrow> string" where
  "OldRecommendedHomeFile e = path_Join [ce_Getenv e ''HOME'', ''/.kube/.kubeconfig'']"

definition NewDefaultClientConfigLoadingRules :: "cmd_env \<Rightarrow> LoadingRules" where
  "NewDefaultClientConfigLoadingRules e =
     (let envVarFiles = ce_Getenv e ''KUBECONFIG'';
          home = RecommendedHomeFile e;
          chain = (if length envVarFiles \<noteq> 0 then strings_Split (CHR '':'') envVarFiles else [home]);
          migrationRules = (if length envVarFiles \<noteq> 0 then [] else [(home, OldRecommendedHomeFile e)]) in
      \<lparr>lr_ExplicitPath = [], lr_Precedence = chain, lr_MigrationRules = Some migrationRules, lr_DoNotResolvePaths = False\<rparr>)"

fun migrate_each :: "os_env \<Rightarrow> cmd_env \<Rightarrow> machine \<Rightarrow> (string, string) gomap \<Rightarrow> machine \<times> cmd_error option" where
  "migrate_each E e m [] = (m, None)"
| "migrate_each E e m ((destination, source) # rules) =
     (case os_Stat e m destination of
        StatFails \<Rightarrow> (m, Some (SysError destination))
      | StatNotExist \<Rightarrow>
          (case os_Stat e m source of
             StatNotExist \<Rightarrow> migrate_each E e m rules
           | StatFails \<Rightarrow> (m, Some (SysError source))
           | StatDir \<Rightarrow> (m, Some (Message ''cannot migrate because it is a directory''))
           | StatFile \<Rightarrow>
               (case ReadFile E m source of
                  Inl err \<Rightarrow> (m, Some (SysError source))
                | Inr content \<Rightarrow>
                    (case WriteFile E m destination content of
                       (m1, Some err) \<Rightarrow> (m1, Some (SysError destination))
                     | (m1, None) \<Rightarrow> migrate_each E e m1 rules)))
      | _ \<Rightarrow> migrate_each E e m rules)"

definition Migrate :: "os_env \<Rightarrow> cmd_env \<Rightarrow> machine \<Rightarrow> LoadingRules \<Rightarrow> machine \<times> cmd_error option" where
  "Migrate E e m rules = (case lr_MigrationRules rules of None \<Rightarrow> (m, None) | Some migration \<Rightarrow> migrate_each E e m migration)"

definition Load_bytes :: "cmd_env \<Rightarrow> string \<Rightarrow> cmd_error + KubeConfig" where
  "Load_bytes e bs =
     (if length bs = 0 then Inr NewConfig
      else case ce_Decode e bs of Inl err \<Rightarrow> Inl (DecodeError err) | Inr decoded \<Rightarrow> Inr (convert_Config decoded))"

definition set_origin :: "('v \<Rightarrow> 'v) \<Rightarrow> (string, 'v) gomap option \<Rightarrow> (string, 'v) gomap option" where
  "set_origin f m = Some (map (\<lambda>(key, obj). (key, f obj)) (entries m))"

definition LoadFromFile :: "os_env \<Rightarrow> cmd_env \<Rightarrow> machine \<Rightarrow> string \<Rightarrow> cmd_error + KubeConfig" where
  "LoadFromFile E e m filename =
     (case read_file E e m filename of
        Inl err \<Rightarrow> Inl err
      | Inr kubeconfigBytes \<Rightarrow>
          (case Load_bytes e kubeconfigBytes of
             Inl err \<Rightarrow> Inl err
           | Inr config \<Rightarrow>
               Inr (config\<lparr>kc_AuthInfos := set_origin (\<lambda>a. a\<lparr>ai_LocationOfOrigin := filename\<rparr>) (kc_AuthInfos config),
                           kc_Clusters := set_origin (\<lambda>c. c\<lparr>cu_LocationOfOrigin := filename\<rparr>) (kc_Clusters config),
                           kc_Contexts := set_origin (\<lambda>x. x\<lparr>cx_LocationOfOrigin := filename\<rparr>) (kc_Contexts config)\<rparr>)))"

fun load_files :: "os_env \<Rightarrow> cmd_env \<Rightarrow> machine \<Rightarrow> string list \<Rightarrow> KubeConfig list \<times> cmd_error list" where
  "load_files E e m [] = ([], [])"
| "load_files E e m (filename # filenames) =
     (let (kubeconfigs, errlist) = load_files E e m filenames in
      if length filename = 0 then (kubeconfigs, errlist)
      else case LoadFromFile E e m filename of
             Inl (NotExist path) \<Rightarrow> (kubeconfigs, errlist)
           | Inl err \<Rightarrow> (kubeconfigs, LoadError filename err # errlist)
           | Inr config \<Rightarrow> (config # kubeconfigs, errlist))"

text \<open>The three merges of \<open>Load\<close>: all files in order for the maps, in reverse order for the other values, and the second
  result on top of the first.\<close>

definition merge_files :: "KubeConfig list \<Rightarrow> KubeConfig outcome" where
  "merge_files kubeconfigs =
     obind (merge_all merge_KubeConfig NewConfig kubeconfigs) (\<lambda>mapConfig.
     obind (merge_all merge_KubeConfig NewConfig (rev kubeconfigs)) (\<lambda>nonMapConfig.
     merge_all merge_KubeConfig NewConfig [mapConfig, nonMapConfig]))"

definition ResolvePath :: "string \<Rightarrow> string \<Rightarrow> string" where
  "ResolvePath ref base = (if length ref > 0 \<and> \<not> filepath_IsAbs ref then path_Join [base, ref] else ref)"

fun resolve_each :: "('v \<Rightarrow> cmd_error + 'v) \<Rightarrow> (string, 'v) gomap \<Rightarrow> cmd_error + (string, 'v) gomap" where
  "resolve_each f [] = Inr []"
| "resolve_each f ((key, x) # m) =
     (case f x of
        Inl err \<Rightarrow> Inl err
      | Inr y \<Rightarrow> (case resolve_each f m of Inl err \<Rightarrow> Inl err | Inr m' \<Rightarrow> Inr ((key, y) # m')))"

lemma entries_resolved:
  "resolve_each f (entries m) = Inr xs \<Longrightarrow> entries (map_option (\<lambda>_. xs) m) = xs"
  by (cases m) (simp_all add: entries_def)

definition origin_dir :: "cmd_env \<Rightarrow> string \<Rightarrow> cmd_error + string" where
  "origin_dir e origin =
     (case filepath_Abs e (filepath_Dir origin) of
        Inl err \<Rightarrow> Inl (Message ''Could not determine the absolute path of config file'')
      | Inr base \<Rightarrow> Inr base)"

definition resolve_Cluster :: "cmd_env \<Rightarrow> Cluster \<Rightarrow> cmd_error + Cluster" where
  "resolve_Cluster e cluster =
     (if length (cu_LocationOfOrigin cluster) = 0 then Inr cluster
      else case origin_dir e (cu_LocationOfOrigin cluster) of
             Inl err \<Rightarrow> Inl err
           | Inr base \<Rightarrow> Inr (cluster\<lparr>cu_CertificateAuthority := ResolvePath (cu_CertificateAuthority cluster) base\<rparr>))"

definition resolve_AuthInfo :: "cmd_env \<Rightarrow> AuthInfo \<Rightarrow> cmd_error + AuthInfo" where
  "resolve_AuthInfo e authInfo =
     (if length (ai_LocationOfOrigin authInfo) = 0 then Inr authInfo
      else case origin_dir e (ai_LocationOfOrigin authInfo) of
             Inl err \<Rightarrow> Inl err
           | Inr base \<Rightarrow> Inr (authInfo\<lparr>ai_ClientCertificate := ResolvePath (ai_ClientCertificate authInfo) base,
                                    ai_ClientKey := ResolvePath (ai_ClientKey authInfo) base\<rparr>))"

definition ResolveLocalPaths :: "cmd_env \<Rightarrow> KubeConfig \<Rightarrow> cmd_error + KubeConfig" where
  "ResolveLocalPaths e config =
     (case resolve_each (resolve_Cluster e) (entries (kc_Clusters config)) of
        Inl err \<Rightarrow> Inl err
      | Inr clusters \<Rightarrow>
          (case resolve_each (resolve_AuthInfo e) (entries (kc_AuthInfos config)) of
             Inl err \<Rightarrow> Inl err
           | Inr authInfos \<Rightarrow> Inr (config\<lparr>kc_Clusters := map_option (\<lambda>_. clusters) (kc_Clusters config),
                                          kc_AuthInfos := map_option (\<lambda>_. authInfos) (kc_AuthInfos config)\<rparr>)))"

definition Load :: "os_env \<Rightarrow> cmd_env \<Rightarrow> machine \<Rightarrow> LoadingRules \<Rightarrow> machine \<times> (cmd_error + KubeConfig) outcome" where
  "Load E e m rules =
     (case Migrate E e m rules of
        (m1, Some err) \<Rightarrow> (m1, Ok (Inl err))
      | (m1, None) \<Rightarrow>
          (m1,
           if length (lr_ExplicitPath rules) > 0 \<and> os_Stat e m1 (lr_ExplicitPath rules) = StatNotExist
           then Ok (Inl (NotExist (lr_ExplicitPath rules)))
           else
             (let kubeConfigFiles = (if length (lr_ExplicitPath rules) > 0 then [lr_ExplicitPath rules] else lr_Precedence rules);
                  (kubeconfigs, errlist) = load_files E e m1 kubeConfigFiles in
              obind (merge_files kubeconfigs) (\<lambda>config. Ok
                (case (if \<not> lr_DoNotResolvePaths rules then ResolveLocalPaths e config else Inr config) of
                   Inl err \<Rightarrow> Inl (Aggregate (errlist @ [err]))
                 | Inr config \<Rightarrow> if errlist \<noteq> [] then Inl (Aggregate errlist) else Inr config)))))"

section \<open>Reducing and embedding\<close>

text \<open>\<open>clientcmd/api/helpers.go\<close>.\<close>

definition kept :: "(string, 'v) gomap option \<Rightarrow> string \<Rightarrow> string \<Rightarrow> cmd_error + (string, 'v) gomap" where
  "kept m name what =
     (if length name > 0
      then (case gm_get (entries m) name of
              None \<Rightarrow> Inl (Message (''cannot locate '' @ what @ '' '' @ name))
            | Some x \<Rightarrow> Inr [(name, x)])
      else Inr [])"

definition MinifyConfig :: "KubeConfig \<Rightarrow> cmd_error + KubeConfig" where
  "MinifyConfig config =
     (if length (kc_CurrentContext config) = 0 then Inl (Message ''current-context must exist in order to minify'')
      else case gm_get (entries (kc_Contexts config)) (kc_CurrentContext config) of
             None \<Rightarrow> Inl (Message (''cannot locate context '' @ kc_CurrentContext config))
           | Some currContext \<Rightarrow>
               (case kept (kc_Clusters config) (cx_Cluster currContext) ''cluster'' of
                  Inl err \<Rightarrow> Inl err
                | Inr newClusters \<Rightarrow>
                    (case kept (kc_AuthInfos config) (cx_AuthInfo currContext) ''user'' of
                       Inl err \<Rightarrow> Inl err
                     | Inr newAuthInfos \<Rightarrow>
                         Inr (config\<lparr>kc_AuthInfos := Some newAuthInfos, kc_Clusters := Some newClusters,
                                     kc_Contexts := Some [(kc_CurrentContext config, currContext)]\<rparr>))))"

definition redact :: "string \<Rightarrow> string \<Rightarrow> string" where
  "redact redactedBytes bs = (if length bs > 0 then redactedBytes else bs)"

definition ShortenConfig :: "string \<Rightarrow> KubeConfig \<Rightarrow> KubeConfig" where
  "ShortenConfig redactedBytes config =
     config\<lparr>kc_AuthInfos := map_option (map (\<lambda>(key, a). (key, a\<lparr>ai_ClientKeyData := redact redactedBytes (ai_ClientKeyData a),
                ai_ClientCertificateData := redact redactedBytes (ai_ClientCertificateData a)\<rparr>))) (kc_AuthInfos config),
            kc_Clusters := map_option (map (\<lambda>(key, c). (key, c\<lparr>cu_CertificateAuthorityData := redact redactedBytes (cu_CertificateAuthorityData c)\<rparr>)))
                (kc_Clusters config)\<rparr>"

definition MakeAbs :: "cmd_env \<Rightarrow> string \<Rightarrow> string \<Rightarrow> cmd_error + string" where
  "MakeAbs e path base =
     (if filepath_IsAbs path then Inr path
      else if length base = 0 then (case ce_Getwd e of Inl err \<Rightarrow> Inl (SysError ''getwd'') | Inr cwd \<Rightarrow> Inr (path_Join [cwd, path]))
      else Inr (path_Join [base, path]))"

text \<open>Gives back the path, emptied, and the contents. The callers give up at the first error, and the half-flattened configuration they leave behind is not modelled.\<close>

definition FlattenContent :: "os_env \<Rightarrow> cmd_env \<Rightarrow> machine \<Rightarrow> string \<Rightarrow> string \<Rightarrow> string \<Rightarrow> cmd_error + string \<times> string" where
  "FlattenContent E e m path contents baseDir =
     (if length path \<noteq> 0 then
        (if length contents > 0 then Inl (Message ''cannot have values for both path and contents'')
         else case read_file E e m (ResolvePath path baseDir) of Inl err \<Rightarrow> Inl err | Inr bs \<Rightarrow> Inr ([], bs))
      else Inr (path, contents))"

definition flatten_AuthInfo :: "os_env \<Rightarrow> cmd_env \<Rightarrow> machine \<Rightarrow> AuthInfo \<Rightarrow> cmd_error + AuthInfo" where
  "flatten_AuthInfo E e m authInfo =
     (case MakeAbs e (filepath_Dir (ai_LocationOfOrigin authInfo)) [] of
        Inl err \<Rightarrow> Inl err
      | Inr baseDir \<Rightarrow>
          (case FlattenContent E e m (ai_ClientCertificate authInfo) (ai_ClientCertificateData authInfo) baseDir of
             Inl err \<Rightarrow> Inl err
           | Inr (certificate, certificateData) \<Rightarrow>
               (case FlattenContent E e m (ai_ClientKey authInfo) (ai_ClientKeyData authInfo) baseDir of
                  Inl err \<Rightarrow> Inl err
                | Inr (key, keyData) \<Rightarrow>
                    Inr (authInfo\<lparr>ai_ClientCertificate := certificate, ai_ClientCertificateData := certificateData,
                                  ai_ClientKey := key, ai_ClientKeyData := keyData\<rparr>))))"

definition flatten_Cluster :: "os_env \<Rightarrow> cmd_env \<Rightarrow> machine \<Rightarrow> Cluster \<Rightarrow> cmd_error + Cluster" where
  "flatten_Cluster E e m cluster =
     (case MakeAbs e (filepath_Dir (cu_LocationOfOrigin cluster)) [] of
        Inl err \<Rightarrow> Inl err
      | Inr baseDir \<Rightarrow>
          (case FlattenContent E e m (cu_CertificateAuthority cluster) (cu_CertificateAuthorityData cluster) baseDir of
             Inl err \<Rightarrow> Inl err
           | Inr (ca, caData) \<Rightarrow> Inr (cluster\<lparr>cu_CertificateAuthority := ca, cu_CertificateAuthorityData := caData\<rparr>)))"

definition FlattenConfig :: "os_env \<Rightarrow> cmd_env \<Rightarrow> machine \<Rightarrow> KubeConfig \<Rightarrow> cmd_error + KubeConfig" where
  "FlattenConfig E e m config =
     (case resolve_each (flatten_AuthInfo E e m) (entries (kc_AuthInfos config)) of
        Inl err \<Rightarrow> Inl err
      | Inr authInfos \<Rightarrow>
          (case resolve_each (flatten_Cluster E e m) (entries (kc_Clusters config)) of
             Inl err \<Rightarrow> Inl err
           | Inr clusters \<Rightarrow> Inr (config\<lparr>kc_AuthInfos := map_option (\<lambda>_. authInfos) (kc_AuthInfos config),
                                       kc_Clusters := map_option (\<lambda>_. clusters) (kc_Clusters config)\<rparr>)))"

end
