(* ===== verification/KubeconfigLaws.thy ===== *)
theory KubeconfigLaws
  imports Kubeconfig
begin

text \<open>
  What the loader of kubeconfig files promises: the typed merges are the reflective merge of \<open>mergo\<close>, the first file decides
  among several, and loaded configurations hold absolute paths. \<open>made_config\<close> is the invariant of the configurations that are
  merged: every map is made, and no extension of the file itself is nil.
\<close>

text \<open>C27: the four structs of a kubeconfig are merged field by field as the typed merges say: \<open>mergo.Merge\<close>, run by reflection on their
  trees, gives the tree of the typed result, and panics exactly where the typed merge does.\<close>

theorem typed_merges_are_reflective:
  "(Merge (enc_Cluster c) (enc_Cluster c') :: 'f rval outcome) = map_outcome enc_Cluster (merge_Cluster c c') \<and>
   (Merge (enc_AuthInfo a) (enc_AuthInfo a') :: 'f rval outcome) = map_outcome enc_AuthInfo (merge_AuthInfo a a') \<and>
   (Merge (enc_Context x) (enc_Context x') :: 'f rval outcome) = map_outcome enc_Context (merge_Context x x') \<and>
   (Merge (enc_KubeConfig k) (enc_KubeConfig k') :: 'f rval outcome) = map_outcome enc_KubeConfig (merge_KubeConfig k k')"
  by (simp add: mcluster.simulates mauth.simulates mcontext.simulates mconfig.simulates)

section \<open>What several files come to\<close>

text \<open>Configurations as they come out of the conversion, apart from nil extensions: every map is made.\<close>

definition made_map :: "('v \<Rightarrow> bool) \<Rightarrow> (string, 'v) gomap option \<Rightarrow> bool" where
  "made_map has_type m \<longleftrightarrow> m \<noteq> None \<and> gm_wf (entries m) \<and> (\<forall>(k, v) \<in> set (entries m). has_type v)"

definition made_config :: "KubeConfig \<Rightarrow> bool" where
  "made_config c \<longleftrightarrow> made_map (\<lambda>_. True) (kc_Clusters c) \<and> made_map (\<lambda>_. True) (kc_AuthInfos c) \<and> made_map (\<lambda>_. True) (kc_Contexts c) \<and>
     made_map (\<lambda>v. v \<noteq> None) (kc_Extensions c) \<and> made_map (\<lambda>v. v \<noteq> None) (pf_Extensions (kc_Preferences c))"

definition map_fields_of :: "KubeConfig list \<Rightarrow> (string \<rightharpoonup> Cluster) \<times> (string \<rightharpoonup> AuthInfo) \<times> (string \<rightharpoonup> Context) \<times>
    (string \<rightharpoonup> string option) \<times> (string \<rightharpoonup> string option)" where
  "map_fields_of cs =
     (map_of (concat (map (entries \<circ> kc_Clusters) cs)), map_of (concat (map (entries \<circ> kc_AuthInfos) cs)),
      map_of (concat (map (entries \<circ> kc_Contexts) cs)), map_of (concat (map (entries \<circ> kc_Extensions) cs)),
      map_of (concat (map (entries \<circ> (\<lambda>c. pf_Extensions (kc_Preferences c))) cs)))"

definition first_set :: "string list \<Rightarrow> string" where
  "first_set ss = (case filter (\<lambda>s. s \<noteq> []) ss of [] \<Rightarrow> [] | s # _ \<Rightarrow> s)"

lemma merge_map_made:
  assumes "made_map ty d" "made_map ty s"
  obtains r where "merge_map ty d (entries s) = Ok r" "made_map ty r" "map_of (entries r) = map_of (entries d @ entries s)"
proof -
  from assms(1) obtain m where d: "d = Some m" "gm_wf m" "\<forall>(k, v) \<in> set m. ty v" by (auto simp: made_map_def)
  from assms(2) have s: "\<forall>(k, v) \<in> set (entries s). ty v" by (simp add: made_map_def)
  from merge_map_Some [OF s] obtain m' where
    m': "merge_map ty (Some m) (entries s) = Ok (Some m')" "map_of m' = map_of (entries s) ++ map_of m" "gm_wf m \<Longrightarrow> gm_wf m'" by metis
  have "ty v" if "(k, v) \<in> set m'" for k v
  proof -
    from that m'(3) d(2) have "map_of m' k = Some v" by simp
    with m'(2) have "map_of m k = Some v \<or> map_of (entries s) k = Some v" by (auto simp: map_add_Some_iff)
    with d(3) s show ?thesis by (auto dest!: map_of_SomeD)
  qed
  with m' d show ?thesis by (intro that [of "Some m'"]) (auto simp: made_map_def)
qed

lemma map_of_append_cong: "map_of a = map_of a' \<Longrightarrow> map_of b = map_of b' \<Longrightarrow> map_of (a @ b) = map_of (a' @ b')"
  by simp

lemma merge_made:
  assumes "made_config d" "made_config s"
  obtains r where "merge_KubeConfig d s = Ok r" "made_config r" "map_fields_of [r] = map_fields_of [d, s]"
    "kc_CurrentContext r = merge_string (kc_CurrentContext d) (kc_CurrentContext s)"
    "pf_Colors (kc_Preferences r) \<longleftrightarrow> pf_Colors (kc_Preferences d) \<or> pf_Colors (kc_Preferences s)"
proof -
  note made = made_config_def [of d, THEN iffD1, OF assms(1)] made_config_def [of s, THEN iffD1, OF assms(2)]
  obtain cs where cs: "merge_map (\<lambda>_. True) (kc_Clusters d) (entries (kc_Clusters s)) = Ok cs" "made_map (\<lambda>_. True) cs"
    "map_of (entries cs) = map_of (entries (kc_Clusters d) @ entries (kc_Clusters s))" using merge_map_made made by metis
  obtain as where as: "merge_map (\<lambda>_. True) (kc_AuthInfos d) (entries (kc_AuthInfos s)) = Ok as" "made_map (\<lambda>_. True) as"
    "map_of (entries as) = map_of (entries (kc_AuthInfos d) @ entries (kc_AuthInfos s))" using merge_map_made made by metis
  obtain xs where xs: "merge_map (\<lambda>_. True) (kc_Contexts d) (entries (kc_Contexts s)) = Ok xs" "made_map (\<lambda>_. True) xs"
    "map_of (entries xs) = map_of (entries (kc_Contexts d) @ entries (kc_Contexts s))" using merge_map_made made by metis
  obtain x where x: "merge_map (\<lambda>v. v \<noteq> None) (kc_Extensions d) (entries (kc_Extensions s)) = Ok x" "made_map (\<lambda>v. v \<noteq> None) x"
    "map_of (entries x) = map_of (entries (kc_Extensions d) @ entries (kc_Extensions s))" using merge_map_made made by metis
  obtain px where px: "merge_map (\<lambda>v. v \<noteq> None) (pf_Extensions (kc_Preferences d)) (entries (pf_Extensions (kc_Preferences s))) = Ok px"
    "made_map (\<lambda>v. v \<noteq> None) px"
    "map_of (entries px) = map_of (entries (pf_Extensions (kc_Preferences d)) @ entries (pf_Extensions (kc_Preferences s)))"
    using merge_map_made made by metis
  show ?thesis
    by (rule that [OF _ _ _ _ _], simp add: merge_KubeConfig_def merge_extensions_def cs(1) as(1) xs(1) x(1) px(1))
      (use cs as xs x px in \<open>auto simp: made_config_def map_fields_of_def simp del: map_of_append\<close>)
qed

lemma map_fields_of_Cons:
  "map_fields_of [r] = map_fields_of [d, s] \<Longrightarrow> map_fields_of (r # cs) = map_fields_of (d # s # cs)"
  by (simp add: map_fields_of_def)

lemma merge_all_made:
  assumes "made_config d" "\<forall>c \<in> set cs. made_config c"
  obtains r where "merge_all merge_KubeConfig d cs = Ok r" "made_config r" "map_fields_of [r] = map_fields_of (d # cs)"
    "kc_CurrentContext r = foldl merge_string (kc_CurrentContext d) (map kc_CurrentContext cs)"
  using assms
proof (induction cs arbitrary: d thesis)
  case (Cons s cs)
  then have "made_config s" by simp
  obtain r where r: "merge_KubeConfig d s = Ok r" "made_config r" "map_fields_of [r] = map_fields_of [d, s]"
    "kc_CurrentContext r = merge_string (kc_CurrentContext d) (kc_CurrentContext s)"
    "pf_Colors (kc_Preferences r) \<longleftrightarrow> pf_Colors (kc_Preferences d) \<or> pf_Colors (kc_Preferences s)"
    by (rule merge_made [OF Cons.prems(2) \<open>made_config s\<close>])
  from Cons.prems(3) have cs: "\<forall>c \<in> set cs. made_config c" by simp
  obtain r' where r': "merge_all merge_KubeConfig r cs = Ok r'" "made_config r'"
    "map_fields_of [r'] = map_fields_of (r # cs)"
    "kc_CurrentContext r' = foldl merge_string (kc_CurrentContext r) (map kc_CurrentContext cs)"
    by (rule Cons.IH [OF _ r(2) cs])
  show ?case
  proof (rule Cons.prems(1))
    show "merge_all merge_KubeConfig d (s # cs) = Ok r'" using r(1) r'(1) by simp
    show "map_fields_of [r'] = map_fields_of (d # s # cs)" using r'(3) map_fields_of_Cons [OF r(3)] by simp
    show "kc_CurrentContext r' = foldl merge_string (kc_CurrentContext d) (map kc_CurrentContext (s # cs))"
      using r(4) r'(4) by simp
  qed (rule r'(2))
qed simp

lemma made_NewConfig [simp]: "made_config NewConfig"
  by (simp add: made_config_def made_map_def NewConfig_def NewPreferences_def)

lemma map_fields_NewConfig [simp]: "map_fields_of (NewConfig # cs) = map_fields_of cs"
  by (simp add: map_fields_of_def NewConfig_def NewPreferences_def)

lemma NewConfig_context [simp]: "kc_CurrentContext NewConfig = []"
  by (simp add: NewConfig_def)

text \<open>Merging strings one after the other keeps the last that is set; in reverse order, the first.\<close>

lemma foldl_merge_string: "foldl merge_string d ss = merge_string d (first_set (rev ss))"
  by (induction ss rule: rev_induct) (auto simp: merge_string_def first_set_def)

lemma first_set_simps [simp]: "first_set [] = []" "first_set (s # ss) = (if s = [] then first_set ss else s)"
  by (simp_all add: first_set_def)

lemma first_set_empty: "first_set ss = [] \<longleftrightarrow> (\<forall>s \<in> set ss. s = [])"
  by (induction ss) auto

lemma first_set_rev_empty: "first_set (rev ss) = [] \<longleftrightarrow> first_set ss = []"
  by (simp add: first_set_empty)

lemma map_add_dom_subset: "dom g \<subseteq> dom f \<Longrightarrow> g ++ f = f"
  by (auto simp: map_add_def fun_eq_iff split: option.splits)

lemma map_of_concat_rev: "map_of (concat (map f cs) @ concat (map f (rev cs))) = map_of (concat (map f cs))"
proof -
  have "dom (map_of (concat (map f (rev cs)))) = dom (map_of (concat (map f cs)))"
    by (simp add: dom_map_of_conv_image_fst)
  then show ?thesis by (simp add: map_add_dom_subset)
qed

lemma merge_files_made:
  assumes "\<forall>c \<in> set cs. made_config c"
  obtains config where "merge_files cs = Ok config" "made_config config" "map_fields_of [config] = map_fields_of cs"
    "kc_CurrentContext config = first_set (map kc_CurrentContext cs)"
proof -
  note merged = merge_all_made [OF made_NewConfig, unfolded map_fields_NewConfig NewConfig_context foldl_merge_string]
  obtain mc where mc: "merge_all merge_KubeConfig NewConfig cs = Ok mc" "made_config mc" "map_fields_of [mc] = map_fields_of cs"
    "kc_CurrentContext mc = merge_string [] (first_set (rev (map kc_CurrentContext cs)))"
    by (rule merged [OF assms])
  from assms have rev: "\<forall>c \<in> set (rev cs). made_config c" by simp
  obtain nc where nc: "merge_all merge_KubeConfig NewConfig (rev cs) = Ok nc" "made_config nc" "map_fields_of [nc] = map_fields_of (rev cs)"
    "kc_CurrentContext nc = merge_string [] (first_set (rev (map kc_CurrentContext (rev cs))))"
    by (rule merged [OF rev])
  have both: "\<forall>c \<in> set [mc, nc]. made_config c" using mc(2) nc(2) by simp
  obtain config where config:
    "merge_all merge_KubeConfig NewConfig [mc, nc] = Ok config" "made_config config" "map_fields_of [config] = map_fields_of [mc, nc]"
    "kc_CurrentContext config = merge_string [] (first_set (rev (map kc_CurrentContext [mc, nc])))"
    by (rule merged [OF both])
  have "map_fields_of [mc, nc] = map_fields_of (cs @ rev cs)" using mc(3) nc(3) by (simp add: map_fields_of_def)
  also have "\<dots> = map_fields_of cs" unfolding map_fields_of_def map_append concat_append map_of_concat_rev ..
  finally have fields: "map_fields_of [config] = map_fields_of cs" using config(3) by simp
  have "kc_CurrentContext config = first_set (map kc_CurrentContext cs)"
    using config(4) mc(4) nc(4) first_set_rev_empty [of "map kc_CurrentContext cs"] by (auto simp: merge_string_def rev_map)
  with config fields mc(1) nc(1) show ?thesis by (intro that [of config]) (simp_all add: merge_files_def)
qed

section \<open>What a loaded configuration is\<close>

lemma convert_named_wf: "gm_wf out \<Longrightarrow> gm_wf (convert_named conv named out)"
  by (induction named arbitrary: out) (auto simp: convert_named_def)

lemma convert_named_values: "set (convert_named conv named out) \<subseteq> set out \<union> (\<lambda>(k, v). (k, conv v)) ` set named"
proof (induction named arbitrary: out)
  case (Cons kv named)
  obtain k v where kv: "kv = (k, v)" by (cases kv)
  have "set (gm_set k (conv v) out) \<subseteq> insert (k, conv v) (set out)" for out
    by (induction out) (auto simp: gm_set_def)
  with Cons.IH [of "gm_set k (conv v) out"] show ?case by (fastforce simp: convert_named_def kv)
qed (simp add: convert_named_def)

text \<open>No extension of the file itself is missing its text.\<close>

definition extensions_given :: "v1_extensions \<Rightarrow> bool" where
  "extensions_given named \<longleftrightarrow> (\<forall>(name, raw) \<in> set named. raw \<noteq> [] \<and> raw \<noteq> ''null'')"

lemma made_convert_extensions: "extensions_given named \<Longrightarrow> made_map (\<lambda>v. v \<noteq> None) (convert_extensions named)"
proof -
  assume given: "extensions_given named"
  have "v \<noteq> None" if in_map: "(k, v) \<in> set (convert_named convert_RawExtension named [])" for k v
  proof -
    from in_map convert_named_values [of convert_RawExtension named "[]"]
    have "(k, v) \<in> (\<lambda>(k, v). (k, convert_RawExtension v)) ` set named" by (auto dest: subsetD)
    then obtain raw where "(k, raw) \<in> set named" "v = convert_RawExtension raw" by auto
    with given show ?thesis by (simp add: extensions_given_def convert_RawExtension_def case_prod_beta) (metis fst_conv snd_conv)
  qed
  then show ?thesis using convert_named_wf [of "[]" convert_RawExtension named]
    by (auto simp: made_map_def convert_extensions_def simp del: not_None_eq)
qed

lemma made_convert_named: "made_map (\<lambda>_. True) (Some (convert_named conv named []))"
  by (simp add: made_map_def convert_named_wf)

lemma made_convert_Config:
  "extensions_given (vk_Extensions c) \<Longrightarrow> extensions_given (vk_PrefExtensions c) \<Longrightarrow> made_config (convert_Config c)"
  by (simp add: made_config_def convert_Config_def made_convert_named made_convert_extensions del: not_None_eq)

lemma made_set_origin: "made_map (\<lambda>_. True) m \<Longrightarrow> made_map (\<lambda>_. True) (set_origin f m)"
  by (auto simp: made_map_def set_origin_def comp_def case_prod_beta)

text \<open>Files that can be merged: they decode, and their own extensions and those of their preferences have a text.\<close>

definition decodable :: "cmd_env \<Rightarrow> string \<Rightarrow> bool" where
  "decodable e bs \<longleftrightarrow> bs = [] \<or>
     (case ce_Decode e bs of Inl _ \<Rightarrow> False | Inr c \<Rightarrow> extensions_given (vk_Extensions c) \<and> extensions_given (vk_PrefExtensions c))"

lemma LoadFromFile_made:
  assumes "read_file E e m filename = Inr bs" "decodable e bs"
  obtains c where "LoadFromFile E e m filename = Inr c" "made_config c"
proof -
  from assms(2) obtain c where c: "Load_bytes e bs = Inr c" "made_config c"
    by (cases "bs = []") (auto simp: decodable_def Load_bytes_def made_convert_Config split: sum.splits)
  show ?thesis
    by (rule that [unfolded LoadFromFile_def assms(1) sum.case(2) c(1), OF refl]) (use c(2) in \<open>simp add: made_config_def made_set_origin\<close>)
qed

lemma resolve_each_Inr:
  "resolve_each f m = Inr m' \<longleftrightarrow> map fst m' = map fst m \<and> list_all2 (\<lambda>(_, x) (_, y). f x = Inr y) m m'"
proof (induction m arbitrary: m')
  case (Cons kv m)
  obtain k x where kv: "kv = (k, x)" by (cases kv)
  show ?case
  proof (cases m')
    case Nil
    then show ?thesis by (simp add: kv split: sum.splits)
  next
    case (Cons a as)
    obtain k' y where a: "a = (k', y)" by (cases a)
    show ?thesis using Cons.IH [of as] by (auto simp: kv Cons a split: sum.splits)
  qed
qed auto

lemma resolve_each_lookup:
  assumes "resolve_each f m = Inr m'"
  shows "map_of m' k = (case map_of m k of None \<Rightarrow> None | Some x \<Rightarrow> (case f x of Inl _ \<Rightarrow> None | Inr y \<Rightarrow> Some y))"
  using assms
proof (induction m arbitrary: m')
  case (Cons kv m)
  then show ?case by (cases kv) (auto split: sum.splits)
qed simp

lemma resolve_each_ok: "\<forall>x. \<exists>y. f x = Inr y \<Longrightarrow> \<exists>m'. resolve_each f m = Inr m'"
proof (induction m)
  case (Cons kv m)
  obtain k x where kv: "kv = (k, x)" by (cases kv)
  from Cons obtain y m' where "f x = Inr y" "resolve_each f m = Inr m'" by metis
  then show ?case by (simp add: kv)
qed simp

lemma resolve_total:
  assumes "ce_Getwd e = Inr wd"
  shows "\<exists>y. resolve_Cluster e c = Inr y" "\<exists>y. resolve_AuthInfo e a = Inr y"
  using assms by (auto simp: resolve_Cluster_def resolve_AuthInfo_def origin_dir_def filepath_Abs_def split: sum.splits)


lemma load_files_ok:
  assumes "\<forall>f \<in> set filenames. f \<noteq> [] \<longrightarrow> (\<exists>bs. read_file E e m f = Inr bs \<and> decodable e bs) \<or> read_file E e m f = Inl (NotExist f)"
  obtains cs where "load_files E e m filenames = (cs, [])" "\<forall>c \<in> set cs. made_config c"
  using assms
proof (induction filenames arbitrary: thesis)
  case (Cons f filenames)
  then obtain cs where cs: "load_files E e m filenames = (cs, [])" "\<forall>c \<in> set cs. made_config c" by auto
  consider "f = []" | bs where "f \<noteq> []" "read_file E e m f = Inr bs" "decodable e bs" | "f \<noteq> []" "read_file E e m f = Inl (NotExist f)"
    using Cons.prems(2) by auto
  then show ?case
  proof cases
    case 2
    from LoadFromFile_made [OF 2(2,3)] obtain c where "LoadFromFile E e m f = Inr c" "made_config c" by blast
    with cs 2(1) show ?thesis by (intro Cons.prems(1) [of "c # cs"]) auto
  next
    case 3
    then have "LoadFromFile E e m f = Inl (NotExist f)" by (simp add: LoadFromFile_def)
    with cs 3(1) show ?thesis by (intro Cons.prems(1) [of cs]) auto
  qed (use cs Cons.prems(1) in auto)
qed simp

lemma ResolveLocalPaths_ok:
  assumes "ce_Getwd e = Inr wd"
  obtains config' where "ResolveLocalPaths e config = Inr config'" "kc_Contexts config' = kc_Contexts config"
    "kc_CurrentContext config' = kc_CurrentContext config"
    "\<forall>k. map_of (entries (kc_Clusters config')) k = (case map_of (entries (kc_Clusters config)) k of None \<Rightarrow> None
        | Some c \<Rightarrow> (case resolve_Cluster e c of Inl _ \<Rightarrow> None | Inr c' \<Rightarrow> Some c'))"
    "\<forall>k. map_of (entries (kc_AuthInfos config')) k = (case map_of (entries (kc_AuthInfos config)) k of None \<Rightarrow> None
        | Some a \<Rightarrow> (case resolve_AuthInfo e a of Inl _ \<Rightarrow> None | Inr a' \<Rightarrow> Some a'))"
proof -
  from resolve_each_ok resolve_total [OF assms]
  obtain cs as where "resolve_each (resolve_Cluster e) (entries (kc_Clusters config)) = Inr cs"
    "resolve_each (resolve_AuthInfo e) (entries (kc_AuthInfos config)) = Inr as" by metis
  then show ?thesis
    by (intro that [of "config\<lparr>kc_Clusters := map_option (\<lambda>_. cs) (kc_Clusters config), kc_AuthInfos := map_option (\<lambda>_. as) (kc_AuthInfos config)\<rparr>"])
      (simp_all add: ResolveLocalPaths_def entries_resolved resolve_each_lookup)
qed

text \<open>C25: loading several kubeconfig files (no explicit path, nothing to migrate that fails, relative paths to
  be resolved). When every file of the list is missing, or can be read and decoded and its own extensions have a text,
  and the working directory is known, loading succeeds. The first file that names a context, a cluster or a user
  decides it alone; what later files say under the same name is not looked at. The current context is that of the
  first file which sets one. Clusters and users have their file references resolved against the directory of their
  file.\<close>

theorem Load_first_file_wins:
  assumes "lr_ExplicitPath rules = []" "Migrate E e m rules = (m1, None)" "\<not> lr_DoNotResolvePaths rules" "ce_Getwd e = Inr wd"
    and "\<forall>f \<in> set (lr_Precedence rules). f \<noteq> [] \<longrightarrow>
      (\<exists>bs. read_file E e m1 f = Inr bs \<and> decodable e bs) \<or> read_file E e m1 f = Inl (NotExist f)"
  shows "\<exists>cs config. load_files E e m1 (lr_Precedence rules) = (cs, []) \<and> Load E e m rules = (m1, Ok (Inr config)) \<and>
    kc_CurrentContext config = first_set (map kc_CurrentContext cs) \<and>
    (\<forall>name. map_of (entries (kc_Contexts config)) name = map_of (concat (map (entries \<circ> kc_Contexts) cs)) name \<and>
      map_of (entries (kc_Clusters config)) name = (case map_of (concat (map (entries \<circ> kc_Clusters) cs)) name of None \<Rightarrow> None
        | Some c \<Rightarrow> (case resolve_Cluster e c of Inl _ \<Rightarrow> None | Inr c' \<Rightarrow> Some c')) \<and>
      map_of (entries (kc_AuthInfos config)) name = (case map_of (concat (map (entries \<circ> kc_AuthInfos) cs)) name of None \<Rightarrow> None
        | Some a \<Rightarrow> (case resolve_AuthInfo e a of Inl _ \<Rightarrow> None | Inr a' \<Rightarrow> Some a')))"
proof -
  obtain cs where cs: "load_files E e m1 (lr_Precedence rules) = (cs, [])" "\<forall>c \<in> set cs. made_config c"
    by (rule load_files_ok [OF assms(5)])
  obtain merged where merged: "merge_files cs = Ok merged" "made_config merged" "map_fields_of [merged] = map_fields_of cs"
    "kc_CurrentContext merged = first_set (map kc_CurrentContext cs)"
    by (rule merge_files_made [OF cs(2)])
  from merged(3) have fields: "map_of (entries (kc_Clusters merged)) = map_of (concat (map (entries \<circ> kc_Clusters) cs))"
    "map_of (entries (kc_AuthInfos merged)) = map_of (concat (map (entries \<circ> kc_AuthInfos) cs))"
    "map_of (entries (kc_Contexts merged)) = map_of (concat (map (entries \<circ> kc_Contexts) cs))"
    by (simp_all add: map_fields_of_def)
  obtain config where config: "ResolveLocalPaths e merged = Inr config" "kc_Contexts config = kc_Contexts merged"
    "kc_CurrentContext config = kc_CurrentContext merged"
    "\<forall>k. map_of (entries (kc_Clusters config)) k = (case map_of (entries (kc_Clusters merged)) k of None \<Rightarrow> None
        | Some c \<Rightarrow> (case resolve_Cluster e c of Inl _ \<Rightarrow> None | Inr c' \<Rightarrow> Some c'))"
    "\<forall>k. map_of (entries (kc_AuthInfos config)) k = (case map_of (entries (kc_AuthInfos merged)) k of None \<Rightarrow> None
        | Some a \<Rightarrow> (case resolve_AuthInfo e a of Inl _ \<Rightarrow> None | Inr a' \<Rightarrow> Some a'))"
    by (rule ResolveLocalPaths_ok [OF assms(4), of merged])
  have "Load E e m rules = (m1, Ok (Inr config))"
    using assms(1-3) cs(1) merged(1) config(1) by (simp add: Load_def)
  then show ?thesis
    by (intro exI [of _ cs] exI [of _ config] conjI allI) (simp_all add: cs(1) config merged(4) fields)
qed

text \<open>Two files that both know a cluster and each set a current context.\<close>

definition demo_v1 :: "string \<Rightarrow> V1Config" where
  "demo_v1 server = \<lparr>vk_Colors = False, vk_PrefExtensions = [],
     vk_Clusters = [(''c'', \<lparr>vc_Server = server, vc_APIVersion = [], vc_InsecureSkipTLSVerify = False, vc_CertificateAuthority = ''ca'',
       vc_CertificateAuthorityData = [], vc_Extensions = []\<rparr>)],
     vk_AuthInfos = [(''u'', \<lparr>va_ClientCertificate = [], va_ClientCertificateData = [], va_ClientKey = [], va_ClientKeyData = [],
       va_Token = ''t'', va_Username = [], va_Password = [], va_Extensions = []\<rparr>)],
     vk_Contexts = [(server, \<lparr>vx_Cluster = ''c'', vx_AuthInfo = ''u'', vx_Namespace = [], vx_Extensions = []\<rparr>)],
     vk_CurrentContext = server, vk_Extensions = []\<rparr>"

definition demo_cmd_env :: cmd_env where
  "demo_cmd_env = \<lparr>ce_is_dir = (\<lambda>_. False), ce_stat_fails = (\<lambda>_. False), ce_Getenv = (\<lambda>_. []), ce_Getwd = Inr ''/'', ce_Decode = (\<lambda>bs. Inr (demo_v1 bs))\<rparr>"

definition demo_cmd_os :: os_env where
  "demo_cmd_os = \<lparr>os_can_open = (\<lambda>_. True), os_write = (\<lambda>_. WriteOk), os_can_rename = (\<lambda>_ _. True), os_script = (\<lambda>_. None)\<rparr>"

definition demo_cmd_files :: machine where
  "demo_cmd_files = \<lparr>files = [''/k/a'' \<mapsto> ''red'', ''/k/b'' \<mapsto> ''blue'', ''/k/ca'' \<mapsto> ''pem'', ''/k/s'' \<mapsto> ''https://api''], scripts_run = []\<rparr>"

theorem Load_first_file_wins_witness:
  "\<exists>config. Load demo_cmd_os demo_cmd_env demo_cmd_files
      \<lparr>lr_ExplicitPath = [], lr_Precedence = [''/k/none'', ''/k/a'', ''/k/b''], lr_MigrationRules = None, lr_DoNotResolvePaths = False\<rparr> =
        (demo_cmd_files, Ok (Inr config)) \<and> kc_CurrentContext config = ''red''"
proof -
  let ?rules = "\<lparr>lr_ExplicitPath = [], lr_Precedence = [''/k/none'', ''/k/a'', ''/k/b''], lr_MigrationRules = None, lr_DoNotResolvePaths = False\<rparr> :: LoadingRules"
  have reads: "read_file demo_cmd_os demo_cmd_env demo_cmd_files ''/k/none'' = Inl (NotExist ''/k/none'')"
    "read_file demo_cmd_os demo_cmd_env demo_cmd_files ''/k/a'' = Inr ''red''"
    "read_file demo_cmd_os demo_cmd_env demo_cmd_files ''/k/b'' = Inr ''blue''"
    by (simp_all add: read_file_def os_Stat_def demo_cmd_env_def demo_cmd_os_def demo_cmd_files_def ReadFile_def)
  have decode: "decodable demo_cmd_env bs" for bs
    by (simp add: decodable_def demo_cmd_env_def demo_v1_def extensions_given_def)
  have wd: "ce_Getwd demo_cmd_env = Inr ''/''" by (simp add: demo_cmd_env_def)
  have "\<forall>f \<in> set (lr_Precedence ?rules). f \<noteq> [] \<longrightarrow>
      (\<exists>bs. read_file demo_cmd_os demo_cmd_env demo_cmd_files f = Inr bs \<and> decodable demo_cmd_env bs) \<or>
      read_file demo_cmd_os demo_cmd_env demo_cmd_files f = Inl (NotExist f)"
    by (simp add: reads decode)
  from Load_first_file_wins [OF _ _ _ wd this] obtain cs config where
    c: "load_files demo_cmd_os demo_cmd_env demo_cmd_files (lr_Precedence ?rules) = (cs, [])"
    "Load demo_cmd_os demo_cmd_env demo_cmd_files ?rules = (demo_cmd_files, Ok (Inr config))"
    "kc_CurrentContext config = first_set (map kc_CurrentContext cs)"
    by (auto simp: Migrate_def)
  have loads: "\<exists>c. LoadFromFile demo_cmd_os demo_cmd_env demo_cmd_files f = Inr c \<and> kc_CurrentContext c = bs"
    if "read_file demo_cmd_os demo_cmd_env demo_cmd_files f = Inr bs" "bs \<noteq> []" for f bs
    using that by (simp add: LoadFromFile_def Load_bytes_def demo_cmd_env_def convert_Config_def demo_v1_def)
  from loads [OF reads(2)] obtain ca where ca: "LoadFromFile demo_cmd_os demo_cmd_env demo_cmd_files ''/k/a'' = Inr ca" "kc_CurrentContext ca = ''red''" by auto
  from loads [OF reads(3)] obtain cb where cb: "LoadFromFile demo_cmd_os demo_cmd_env demo_cmd_files ''/k/b'' = Inr cb" by auto
  have none: "LoadFromFile demo_cmd_os demo_cmd_env demo_cmd_files ''/k/none'' = Inl (NotExist ''/k/none'')" by (simp add: LoadFromFile_def reads)
  from c(1) have "cs = [ca, cb]" by (simp add: ca(1) cb none)
  with c(2,3) ca(2) show ?thesis by auto
qed
text \<open>Every cluster and every user of a loaded configuration remembers its file.\<close>

definition has_origin :: "KubeConfig \<Rightarrow> bool" where
  "has_origin c \<longleftrightarrow> (\<forall>(_, x) \<in> set (entries (kc_Clusters c)). cu_LocationOfOrigin x \<noteq> []) \<and>
     (\<forall>(_, a) \<in> set (entries (kc_AuthInfos c)). ai_LocationOfOrigin a \<noteq> [])"

lemma gm_set_subset: "set (gm_set k v m) \<subseteq> insert (k, v) (set m)"
  by (induction m) (auto simp: gm_set_def)

lemma merge_map_subset: "merge_map ty d s = Ok r \<Longrightarrow> set (entries r) \<subseteq> set (entries d) \<union> set s"
proof (induction s arbitrary: d)
  case (Cons kv s)
  obtain k v where kv: "kv = (k, v)" by (cases kv)
  from Cons.prems obtain m where d: "d = Some m" "ty v" by (auto simp: kv split: if_splits option.splits)
  with Cons.prems have "merge_map ty (Some (if gm_get m k = None then gm_set k v m else m)) s = Ok r" by (simp add: kv)
  from Cons.IH [OF this] show ?case using gm_set_subset [of k v m] by (auto simp: d kv split: if_splits)
qed simp

lemma merge_origin: "merge_KubeConfig d s = Ok r \<Longrightarrow> has_origin d \<Longrightarrow> has_origin s \<Longrightarrow> has_origin r"
  by (fastforce simp: merge_KubeConfig_def obind_eq_Ok has_origin_def dest!: merge_map_subset)

lemma merge_all_origin:
  "merge_all merge_KubeConfig d cs = Ok r \<Longrightarrow> has_origin d \<Longrightarrow> \<forall>c \<in> set cs. has_origin c \<Longrightarrow> has_origin r"
  by (induction cs arbitrary: d) (auto simp: obind_eq_Ok intro: merge_origin)

lemma NewConfig_origin [simp]: "has_origin NewConfig"
  by (simp add: has_origin_def NewConfig_def)

lemma merge_files_origin:
  assumes "merge_files cs = Ok r" "\<forall>c \<in> set cs. has_origin c"
  shows "has_origin r"
proof -
  from assms(1) obtain mc nc where m: "merge_all merge_KubeConfig NewConfig cs = Ok mc" "merge_all merge_KubeConfig NewConfig (rev cs) = Ok nc"
    "merge_all merge_KubeConfig NewConfig [mc, nc] = Ok r"
    unfolding merge_files_def obind_eq_Ok by blast
  have "has_origin mc" by (rule merge_all_origin [OF m(1) NewConfig_origin assms(2)])
  moreover have "has_origin nc" by (rule merge_all_origin [OF m(2) NewConfig_origin]) (use assms(2) in simp)
  ultimately show ?thesis by (intro merge_all_origin [OF m(3) NewConfig_origin]) simp
qed

lemma load_files_origin: "load_files E e m fs = (cs, errs) \<Longrightarrow> \<forall>c \<in> set cs. has_origin c"
proof (induction fs arbitrary: cs errs)
  case (Cons f fs)
  obtain cs' errs' where ih: "load_files E e m fs = (cs', errs')" by (cases "load_files E e m fs")
  have "has_origin c" if "LoadFromFile E e m f = Inr c" "f \<noteq> []" for c
    using that by (auto simp: LoadFromFile_def has_origin_def set_origin_def split: sum.splits)
  with Cons ih show ?case by (auto split: if_splits sum.splits cmd_error.splits)
qed simp

lemma path_Join_IsAbs: "filepath_IsAbs base \<Longrightarrow> filepath_IsAbs (path_Join [base, ref])"
  by (cases base) (auto simp: filepath_IsAbs_def path_Join_def path_Clean_def Let_def)

lemma path_Clean_IsAbs: "filepath_IsAbs p \<Longrightarrow> filepath_IsAbs (path_Clean p)"
  by (auto simp: filepath_IsAbs_def path_Clean_def Let_def)

lemma origin_dir_IsAbs: "origin_dir e p = Inr base \<Longrightarrow> ce_Getwd e = Inr wd \<Longrightarrow> filepath_IsAbs wd \<Longrightarrow> filepath_IsAbs base"
  by (auto simp: origin_dir_def filepath_Abs_def path_Join_IsAbs path_Clean_IsAbs split: sum.splits if_splits)

lemma ResolvePath_IsAbs: "filepath_IsAbs base \<Longrightarrow> ResolvePath p base = [] \<or> filepath_IsAbs (ResolvePath p base)"
  by (auto simp: ResolvePath_def path_Join_IsAbs)

lemma resolve_each_in: "resolve_each f m = Inr m' \<Longrightarrow> (k, y) \<in> set m' \<Longrightarrow> \<exists>x. (k, x) \<in> set m \<and> f x = Inr y"
proof (induction m arbitrary: m')
  case (Cons kx m)
  obtain k' x' where kx: "kx = (k', x')" by (cases kx)
  from Cons.prems(1) obtain y' m1 where "f x' = Inr y'" "resolve_each f m = Inr m1" "m' = (k', y') # m1"
    by (auto simp: kx split: sum.splits)
  with Cons.IH [of m1] Cons.prems(2) show ?case by (auto simp: kx)
qed simp

text \<open>C26: a configuration that was loaded, with its paths resolved, names its certificates and keys by absolute
  paths only, whatever the files say and wherever they are, if the working directory is an absolute path.\<close>

theorem Load_paths_absolute:
  assumes "Load E e m rules = (m', Ok (Inr config))" "\<not> lr_DoNotResolvePaths rules" "ce_Getwd e = Inr wd" "filepath_IsAbs wd"
  shows "(\<forall>(name, c) \<in> set (entries (kc_Clusters config)). cu_CertificateAuthority c = [] \<or> filepath_IsAbs (cu_CertificateAuthority c)) \<and>
    (\<forall>(name, a) \<in> set (entries (kc_AuthInfos config)).
      (ai_ClientCertificate a = [] \<or> filepath_IsAbs (ai_ClientCertificate a)) \<and> (ai_ClientKey a = [] \<or> filepath_IsAbs (ai_ClientKey a)))"
proof -
  from assms(1,2) obtain m1 files cs errs merged where
    l: "load_files E e m1 files = (cs, errs)" "merge_files cs = Ok merged" "ResolveLocalPaths e merged = Inr config"
    by (auto simp: Load_def Let_def obind_eq_Ok simp del: load_files.simps split: prod.splits option.splits if_splits sum.splits)
  from merge_files_origin [OF l(2) load_files_origin [OF l(1)]] have origin: "has_origin merged" .
  have cluster: "cu_CertificateAuthority c = [] \<or> filepath_IsAbs (cu_CertificateAuthority c)"
    if "resolve_Cluster e x = Inr c" "cu_LocationOfOrigin x \<noteq> []" for x c
  proof -
    from that obtain base where "origin_dir e (cu_LocationOfOrigin x) = Inr base" by (auto simp: resolve_Cluster_def split: sum.splits)
    moreover from this have "filepath_IsAbs base" by (rule origin_dir_IsAbs [OF _ assms(3,4)])
    ultimately show ?thesis using that ResolvePath_IsAbs [of base "cu_CertificateAuthority x"] by (auto simp: resolve_Cluster_def)
  qed
  have user: "(ai_ClientCertificate a = [] \<or> filepath_IsAbs (ai_ClientCertificate a)) \<and> (ai_ClientKey a = [] \<or> filepath_IsAbs (ai_ClientKey a))"
    if "resolve_AuthInfo e x = Inr a" "ai_LocationOfOrigin x \<noteq> []" for x a
  proof -
    from that obtain base where "origin_dir e (ai_LocationOfOrigin x) = Inr base" by (auto simp: resolve_AuthInfo_def split: sum.splits)
    moreover from this have "filepath_IsAbs base" by (rule origin_dir_IsAbs [OF _ assms(3,4)])
    ultimately show ?thesis
      using that ResolvePath_IsAbs [of base "ai_ClientCertificate x"] ResolvePath_IsAbs [of base "ai_ClientKey x"]
      by (auto simp: resolve_AuthInfo_def)
  qed
  from l(3) obtain cs' as' where r: "resolve_each (resolve_Cluster e) (entries (kc_Clusters merged)) = Inr cs'" "entries (kc_Clusters config) = cs'"
    "resolve_each (resolve_AuthInfo e) (entries (kc_AuthInfos merged)) = Inr as'" "entries (kc_AuthInfos config) = as'"
    by (auto simp: ResolveLocalPaths_def entries_resolved split: sum.split_asm)
  have "cu_CertificateAuthority c = [] \<or> filepath_IsAbs (cu_CertificateAuthority c)" if "(name, c) \<in> set cs'" for name c
    using resolve_each_in [OF r(1) that] origin cluster [of _ c] by (fastforce simp: has_origin_def)
  moreover have "(ai_ClientCertificate a = [] \<or> filepath_IsAbs (ai_ClientCertificate a)) \<and> (ai_ClientKey a = [] \<or> filepath_IsAbs (ai_ClientKey a))"
    if "(name, a) \<in> set as'" for name a
    using resolve_each_in [OF r(3) that] origin user [of _ a] by (fastforce simp: has_origin_def)
  ultimately show ?thesis by (auto simp: r)
qed

definition demo_rules :: LoadingRules where
  "demo_rules = \<lparr>lr_ExplicitPath = ''/k/a'', lr_Precedence = [], lr_MigrationRules = None, lr_DoNotResolvePaths = False\<rparr>"

lemma demo_Load:
  "case snd (Load demo_cmd_os demo_cmd_env demo_cmd_files demo_rules) of
     Ok (Inr config) \<Rightarrow> map (cu_CertificateAuthority \<circ> snd) (entries (kc_Clusters config)) = [''/k/ca'']
   | _ \<Rightarrow> False"
  by code_simp

theorem Load_paths_absolute_witness:
  "\<exists>m' config. Load demo_cmd_os demo_cmd_env demo_cmd_files demo_rules = (m', Ok (Inr config)) \<and>
     (\<exists>(name, c) \<in> set (entries (kc_Clusters config)). cu_CertificateAuthority c = ''/k/ca'' \<and> filepath_IsAbs (cu_CertificateAuthority c))"
proof -
  obtain m' config where l: "Load demo_cmd_os demo_cmd_env demo_cmd_files demo_rules = (m', Ok (Inr config))"
    "map (cu_CertificateAuthority \<circ> snd) (entries (kc_Clusters config)) = [''/k/ca'']"
    using demo_Load by (cases "Load demo_cmd_os demo_cmd_env demo_cmd_files demo_rules") (auto split: outcome.splits sum.splits)
  from l(2) obtain name c where c: "entries (kc_Clusters config) = [(name, c)]" "cu_CertificateAuthority c = ''/k/ca''"
    by (auto simp: map_eq_Cons_conv)
  have "filepath_IsAbs ''/''" by (simp add: filepath_IsAbs_def)
  with Load_paths_absolute [OF l(1), of "''/''"] have "filepath_IsAbs (cu_CertificateAuthority c)"
    by (simp add: c demo_rules_def demo_cmd_env_def)
  with l(1) c show ?thesis by auto
qed

text \<open>A flattened configuration names no files; what it names a file for, it holds itself.\<close>

lemma FlattenContent_path: "FlattenContent E e m p x b = Inr (p', x') \<Longrightarrow> p' = []"
  by (auto simp: FlattenContent_def split: if_splits sum.split_asm)

lemma flatten_AuthInfo_paths:
  "flatten_AuthInfo E e m a = Inr a' \<Longrightarrow> ai_ClientCertificate a' = [] \<and> ai_ClientKey a' = []"
  by (auto simp: flatten_AuthInfo_def split: sum.split_asm prod.split_asm dest!: FlattenContent_path)

lemma flatten_Cluster_path: "flatten_Cluster E e m c = Inr c' \<Longrightarrow> cu_CertificateAuthority c' = []"
  by (auto simp: flatten_Cluster_def split: sum.split_asm prod.split_asm dest!: FlattenContent_path)

theorem FlattenConfig_self_contained:
  assumes "FlattenConfig E e m config = Inr config'"
  shows "(\<forall>(name, a) \<in> set (entries (kc_AuthInfos config')). ai_ClientCertificate a = [] \<and> ai_ClientKey a = []) \<and>
    (\<forall>(name, c) \<in> set (entries (kc_Clusters config')). cu_CertificateAuthority c = [])"
proof -
  from assms obtain as cs where r: "resolve_each (flatten_AuthInfo E e m) (entries (kc_AuthInfos config)) = Inr as" "entries (kc_AuthInfos config') = as"
    "resolve_each (flatten_Cluster E e m) (entries (kc_Clusters config)) = Inr cs" "entries (kc_Clusters config') = cs"
    by (auto simp: FlattenConfig_def entries_resolved split: sum.split_asm)
  show ?thesis
    by (auto simp: r dest!: resolve_each_in [OF r(1)] resolve_each_in [OF r(3)] flatten_AuthInfo_paths flatten_Cluster_path)
qed

text \<open>Migration never overwrites: a file that is there before is there afterwards, with the same contents, whatever goes wrong.\<close>

lemma WriteFile_elsewhere: "path \<noteq> dest \<Longrightarrow> WriteFile E m dest bs = (m', r) \<Longrightarrow> files m' path = files m path"
  by (auto simp: WriteFile_def split: write_result.split_asm)

lemma migrate_each_keeps_files:
  "migrate_each E e m rules = (m', r) \<Longrightarrow> files m path = Some content \<Longrightarrow> \<not> ce_stat_fails e path \<Longrightarrow> \<not> ce_is_dir e path \<Longrightarrow>
    files m' path = Some content"
proof (induction E e m rules rule: migrate_each.induct)
  case (2 E e m d s rules)
  show ?case
  proof (cases "os_Stat e m d")
    case StatNotExist
    then have "path \<noteq> d" using "2.prems" by (auto simp: os_Stat_def)
    then show ?thesis using 2 StatNotExist
      by (auto split: stat_result.split_asm sum.split_asm prod.split_asm option.split_asm dest: WriteFile_elsewhere)
  qed (use 2 in \<open>simp_all\<close>)
qed simp

theorem Migrate_keeps_files:
  assumes "Migrate E e m rules = (m', r)" "files m path = Some content" "\<not> ce_stat_fails e path" "\<not> ce_is_dir e path"
  shows "files m' path = Some content"
  using assms by (auto simp: Migrate_def split: option.split_asm dest: migrate_each_keeps_files)

end
