(* ===== verification/ClientCmd.thy ===== *)
theory ClientCmd
  imports KubeconfigLaws ClientConfig Cli
begin

text \<open>
  \<open>pkg/client/unversioned/clientcmd\<close> (vendored): from kubeconfig files, environment and flags to the configuration of an API client.
  \<open>validation.go\<close> checks a configuration, \<open>client_config.go\<close> picks the cluster and the user of one context and merges defaults and
  overrides over them, \<open>merged_client_builder.go\<close> loads the files when they are first needed and falls back to the service account of a
  pod (\<open>InClusterConfig\<close> of \<open>restclient/config.go\<close>). \<open>daemon_ClientConfig\<close> is the function that \<open>NewProxyServerDefault\<close> takes as an argument.

  Parameters, beside those of \<open>Kubeconfig\<close> and \<open>ClientConfig\<close>: \<open>url.ParseRequestURI\<close> with \<open>URL.String\<close>, the reading of PEM certificates, and the
  words that a user types at a prompt. The texts of errors are shortened to what tells them apart.
\<close>

section \<open>Validation\<close>

text \<open>\<open>newErrConfigurationInvalid\<close>: no errors are no error.\<close>

definition newErrConfigurationInvalid :: "cmd_error list \<Rightarrow> cmd_error option" where
  "newErrConfigurationInvalid errs = (if length errs = 0 then None else Some (errConfigurationInvalid errs))"

definition IsContextNotFound :: "(cmd_error \<Rightarrow> string) \<Rightarrow> cmd_error option \<Rightarrow> bool" where
  "IsContextNotFound err_text err =
     (case err of
        None \<Rightarrow> False
      | Some (errContextNotFound _) \<Rightarrow> True
      | Some ErrNoContext \<Rightarrow> True
      | Some e \<Rightarrow> sublist ''context was not found for specified context'' (err_text e))"

definition IsEmptyConfig :: "cmd_error \<Rightarrow> bool" where
  "IsEmptyConfig err = (case err of errConfigurationInvalid t \<Rightarrow> length t = 1 \<and> hd t = ErrEmptyConfig | e \<Rightarrow> e = ErrEmptyConfig)"

definition IsConfigurationInvalid :: "(cmd_error \<Rightarrow> string) \<Rightarrow> cmd_error option \<Rightarrow> bool" where
  "IsConfigurationInvalid err_text err =
     (case err of
        Some (errContextNotFound _) \<Rightarrow> True
      | Some (errConfigurationInvalid _) \<Rightarrow> True
      | _ \<Rightarrow> IsContextNotFound err_text err)"

definition os_Open :: "os_env \<Rightarrow> cmd_env \<Rightarrow> machine \<Rightarrow> string \<Rightarrow> bool" where
  "os_Open E e m path \<longleftrightarrow> \<not> ce_stat_fails e path \<and> os_can_open E path \<and> (ce_is_dir e path \<or> files m path \<noteq> None)"

definition validateClusterInfo :: "os_env \<Rightarrow> cmd_env \<Rightarrow> machine \<Rightarrow> string \<Rightarrow> Cluster \<Rightarrow> cmd_error list" where
  "validateClusterInfo E e m clusterName clusterInfo =
     (if clusterInfo = zero_Cluster then [ErrEmptyCluster]
      else
        (if length (cu_Server clusterInfo) = 0
         then (if length clusterName = 0 then [Message ''default cluster has no server defined'']
               else [Message (''no server found for cluster '' @ clusterName)])
         else []) @
        (if length (cu_CertificateAuthority clusterInfo) \<noteq> 0 \<and> length (cu_CertificateAuthorityData clusterInfo) \<noteq> 0
         then [Message (''certificate-authority-data and certificate-authority are both specified for '' @ clusterName)] else []) @
        (if length (cu_CertificateAuthority clusterInfo) \<noteq> 0 \<and> \<not> os_Open E e m (cu_CertificateAuthority clusterInfo)
         then [Message (''unable to read certificate-authority '' @ cu_CertificateAuthority clusterInfo @ '' for '' @ clusterName)] else []))"

definition auth_methods :: "AuthInfo \<Rightarrow> string list" where
  "auth_methods authInfo =
     (if length (ai_Token authInfo) \<noteq> 0 then [''token''] else []) @
     (if length (ai_Username authInfo) \<noteq> 0 \<or> length (ai_Password authInfo) \<noteq> 0 then [''basicAuth''] else [])"

definition validateAuthInfo :: "os_env \<Rightarrow> cmd_env \<Rightarrow> machine \<Rightarrow> string \<Rightarrow> AuthInfo \<Rightarrow> cmd_error list" where
  "validateAuthInfo E e m authInfoName authInfo =
     (if length (ai_ClientCertificate authInfo) \<noteq> 0 \<or> length (ai_ClientCertificateData authInfo) \<noteq> 0
      then
        (if length (ai_ClientCertificate authInfo) \<noteq> 0 \<and> length (ai_ClientCertificateData authInfo) \<noteq> 0
         then [Message (''client-cert-data and client-cert are both specified for '' @ authInfoName)] else []) @
        (if length (ai_ClientKey authInfo) \<noteq> 0 \<and> length (ai_ClientKeyData authInfo) \<noteq> 0
         then [Message (''client-key-data and client-key are both specified for '' @ authInfoName)] else []) @
        (if length (ai_ClientKey authInfo) = 0 \<and> length (ai_ClientKeyData authInfo) = 0
         then [Message (''client-key-data or client-key must be specified for '' @ authInfoName)] else []) @
        (if length (ai_ClientCertificate authInfo) \<noteq> 0 \<and> \<not> os_Open E e m (ai_ClientCertificate authInfo)
         then [Message (''unable to read client-cert '' @ ai_ClientCertificate authInfo @ '' for '' @ authInfoName)] else []) @
        (if length (ai_ClientKey authInfo) \<noteq> 0 \<and> \<not> os_Open E e m (ai_ClientKey authInfo)
         then [Message (''unable to read client-key '' @ ai_ClientKey authInfo @ '' for '' @ authInfoName)] else [])
      else []) @
     (if length (auth_methods authInfo) > 1
      then [Message (''more than one authentication method found for '' @ authInfoName)] else [])"

definition DNS952LabelMaxLength :: nat where
  "DNS952LabelMaxLength = 24"

text \<open>The regular expression \<open>[a-z]([-a-z0-9]*[a-z0-9])?\<close> for the whole text.\<close>

definition lower_letter :: "char \<Rightarrow> bool" where
  "lower_letter c \<longleftrightarrow> (let v = of_char c :: nat in 97 \<le> v \<and> v \<le> 122)"

definition digit_char :: "char \<Rightarrow> bool" where
  "digit_char c \<longleftrightarrow> (let v = of_char c :: nat in 48 \<le> v \<and> v \<le> 57)"

definition dns952LabelRegexp :: "string \<Rightarrow> bool" where
  "dns952LabelRegexp value \<longleftrightarrow> value \<noteq> [] \<and> lower_letter (hd value) \<and>
     list_all (\<lambda>c. lower_letter c \<or> digit_char c \<or> c = CHR ''-'') value \<and> (lower_letter (last value) \<or> digit_char (last value))"

definition IsDNS952Label :: "string \<Rightarrow> bool" where
  "IsDNS952Label value \<longleftrightarrow> length value \<le> DNS952LabelMaxLength \<and> dns952LabelRegexp value"

definition validateContext :: "string \<Rightarrow> Context \<Rightarrow> KubeConfig \<Rightarrow> cmd_error list" where
  "validateContext contextName ctx config =
     (if length (cx_AuthInfo ctx) = 0 then [Message (''user was not specified for context '' @ contextName)]
      else if gm_get (entries (kc_AuthInfos config)) (cx_AuthInfo ctx) = None
      then [Message (''user '' @ cx_AuthInfo ctx @ '' was not found for context '' @ contextName)] else []) @
     (if length (cx_Cluster ctx) = 0 then [Message (''cluster was not specified for context '' @ contextName)]
      else if gm_get (entries (kc_Clusters config)) (cx_Cluster ctx) = None
      then [Message (''cluster '' @ cx_Cluster ctx @ '' was not found for context '' @ contextName)] else []) @
     (if length (cx_Namespace ctx) \<noteq> 0 \<and> \<not> IsDNS952Label (cx_Namespace ctx)
      then [Message (''namespace '' @ cx_Namespace ctx @ '' for context '' @ contextName @ '' does not conform to the kubernetes DNS952 rules'')] else [])"

definition Validate :: "os_env \<Rightarrow> cmd_env \<Rightarrow> machine \<Rightarrow> KubeConfig \<Rightarrow> cmd_error option" where
  "Validate E e m config =
     (if IsConfigEmpty config then newErrConfigurationInvalid [ErrEmptyConfig]
      else newErrConfigurationInvalid
        ((if length (kc_CurrentContext config) \<noteq> 0 \<and> gm_get (entries (kc_Contexts config)) (kc_CurrentContext config) = None
          then [errContextNotFound (kc_CurrentContext config)] else []) @
         concat (map (\<lambda>(contextName, ctx). validateContext contextName ctx config) (entries (kc_Contexts config))) @
         concat (map (\<lambda>(authInfoName, authInfo). validateAuthInfo E e m authInfoName authInfo) (entries (kc_AuthInfos config))) @
         concat (map (\<lambda>(clusterName, clusterInfo). validateClusterInfo E e m clusterName clusterInfo) (entries (kc_Clusters config)))))"

text \<open>The function of the package, not the method of the same name: it reads the user and the cluster of the context through the
  maps of pointers without asking whether they are there.\<close>

definition ConfirmUsable :: "os_env \<Rightarrow> cmd_env \<Rightarrow> machine \<Rightarrow> KubeConfig \<Rightarrow> string \<Rightarrow> cmd_error option outcome" where
  "ConfirmUsable E e m config passedContextName =
     (if IsConfigEmpty config then Ok (newErrConfigurationInvalid [ErrEmptyConfig])
      else
        (let contextName = (if length passedContextName \<noteq> 0 then passedContextName else kc_CurrentContext config) in
         if length contextName = 0 then Ok (Some ErrNoContext)
         else case gm_get (entries (kc_Contexts config)) contextName of
                None \<Rightarrow> Ok (newErrConfigurationInvalid [errContextNotFound contextName])
              | Some ctx \<Rightarrow>
                  (case (gm_get (entries (kc_AuthInfos config)) (cx_AuthInfo ctx), gm_get (entries (kc_Clusters config)) (cx_Cluster ctx)) of
                     (Some authInfo, Some cluster) \<Rightarrow>
                       Ok (newErrConfigurationInvalid
                         (validateContext contextName ctx config @ validateAuthInfo E e m (cx_AuthInfo ctx) authInfo @
                          validateClusterInfo E e m (cx_Cluster ctx) cluster))
                   | _ \<Rightarrow> Panic nil_type)))"

section \<open>Merging client configurations\<close>

text \<open>Values whose inside \<open>mergo\<close> does not see here.\<close>

datatype ('a, 'c) opaque =
    TransportO "'a RoundTripper"
  | WrapO "'a RoundTripper \<Rightarrow> 'a RoundTripper"
  | CodecO 'c

definition zero_RestConfig :: "('a, 'c) RestConfig" where
  "zero_RestConfig = \<lparr>cg_Host = [], cg_APIPath = [], cg_Prefix = [], cg_ContentType = [], cg_GroupVersion = None, cg_Codec = None,
     cg_Username = [], cg_Password = [], cg_BearerToken = [], cg_TLS = no_TLS, cg_UserAgent = [], cg_Transport = None,
     cg_WrapTransport = None, cg_QPS = 0, cg_Burst = 0\<rparr>"

definition enc_RestConfig :: "('a, 'c) RestConfig \<Rightarrow> ('a, 'c) opaque rval" where
  "enc_RestConfig c = RStruct [RString (cg_Host c), RString (cg_APIPath c), RString (cg_Prefix c),
     RStruct [RString (cg_ContentType c),
       RPtr (map_option (\<lambda>gv. RStruct [RString (gv_Group gv), RString (gv_Version gv)]) (cg_GroupVersion c)),
       RIface (map_option (\<lambda>x. ROpaque (CodecO x)) (cg_Codec c))],
     RString (cg_Username c), RString (cg_Password c), RString (cg_BearerToken c),
     RStruct [RString (tl_CertFile (cg_TLS c)), RString (tl_KeyFile (cg_TLS c)), RString (tl_CAFile (cg_TLS c)),
       RBytes (tl_CertData (cg_TLS c)), RBytes (tl_KeyData (cg_TLS c)), RBytes (tl_CAData (cg_TLS c))],
     RBool (tl_Insecure (cg_TLS c)), RString (cg_UserAgent c),
     RIface (map_option (\<lambda>x. ROpaque (TransportO x)) (cg_Transport c)),
     RFunc (map_option WrapO (cg_WrapTransport c)), RFloat (cg_QPS c), RInt (cg_Burst c)]"

text \<open>For sources without codec and transport. The function for wrapping transports is taken from the source even when it is nil.\<close>

definition merge_RestConfig :: "('a, 'c) RestConfig \<Rightarrow> ('a, 'c) RestConfig \<Rightarrow> ('a, 'c) RestConfig" where
  "merge_RestConfig d s =
     \<lparr>cg_Host = merge_string (cg_Host d) (cg_Host s),
      cg_APIPath = merge_string (cg_APIPath d) (cg_APIPath s),
      cg_Prefix = merge_string (cg_Prefix d) (cg_Prefix s),
      cg_ContentType = merge_string (cg_ContentType d) (cg_ContentType s),
      cg_GroupVersion =
        (case (cg_GroupVersion d, cg_GroupVersion s) of
           (gd, None) \<Rightarrow> gd
         | (None, gs) \<Rightarrow> gs
         | (Some gd, Some gs) \<Rightarrow> Some \<lparr>gv_Group = merge_string (gv_Group gd) (gv_Group gs), gv_Version = merge_string (gv_Version gd) (gv_Version gs)\<rparr>),
      cg_Codec = cg_Codec d,
      cg_Username = merge_string (cg_Username d) (cg_Username s),
      cg_Password = merge_string (cg_Password d) (cg_Password s),
      cg_BearerToken = merge_string (cg_BearerToken d) (cg_BearerToken s),
      cg_TLS =
        \<lparr>tl_CAFile = merge_string (tl_CAFile (cg_TLS d)) (tl_CAFile (cg_TLS s)),
         tl_CertFile = merge_string (tl_CertFile (cg_TLS d)) (tl_CertFile (cg_TLS s)),
         tl_KeyFile = merge_string (tl_KeyFile (cg_TLS d)) (tl_KeyFile (cg_TLS s)),
         tl_Insecure = (tl_Insecure (cg_TLS d) \<or> tl_Insecure (cg_TLS s)),
         tl_CAData = merge_string (tl_CAData (cg_TLS d)) (tl_CAData (cg_TLS s)),
         tl_CertData = merge_string (tl_CertData (cg_TLS d)) (tl_CertData (cg_TLS s)),
         tl_KeyData = merge_string (tl_KeyData (cg_TLS d)) (tl_KeyData (cg_TLS s))\<rparr>,
      cg_UserAgent = merge_string (cg_UserAgent d) (cg_UserAgent s),
      cg_Transport = cg_Transport d,
      cg_WrapTransport = cg_WrapTransport s,
      cg_QPS = (if cg_QPS s = 0 then cg_QPS d else cg_QPS s),
      cg_Burst = (if cg_Burst s = 0 then cg_Burst d else cg_Burst s)\<rparr>"

definition no_interfaces :: "('a, 'c) RestConfig \<Rightarrow> bool" where
  "no_interfaces s \<longleftrightarrow> cg_Codec s = None \<and> cg_Transport s = None"

interpretation mrest: mergeable enc_RestConfig "\<lambda>d s. Ok (merge_RestConfig d s)" no_interfaces
proof
  fix d s :: "('a, 'c) RestConfig"
  assume "no_interfaces s"
  then show "Merge (enc_RestConfig d) (enc_RestConfig s) = map_outcome enc_RestConfig (Ok (merge_RestConfig d s))"
    by (cases "cg_GroupVersion d"; cases "cg_GroupVersion s")
      (simp_all add: enc_RestConfig_def merge_RestConfig_def no_interfaces_def Merge_def merge_string_def)
next
  have ptr: "map_option (\<lambda>gv. RStruct [RString (gv_Group gv), RString (gv_Version gv)]) x =
      (map_option (\<lambda>gv. RStruct [RString (gv_Group gv), RString (gv_Version gv)]) y :: ('a, 'c) opaque rval option) \<Longrightarrow> x = y"
    for x y :: "GroupVersion option"
    by (cases x; cases y) auto
  have inj: "inj (\<lambda>x. ROpaque (CodecO x) :: ('a, 'c) opaque rval)" "inj (\<lambda>x. ROpaque (TransportO x) :: ('a, 'c) opaque rval)" "inj (WrapO :: _ \<Rightarrow> ('a, 'c) opaque)"
    by (auto simp: inj_def)
  fix a b :: "('a, 'c) RestConfig"
  assume "enc_RestConfig a = enc_RestConfig b"
  then show "a = b"
    using ptr inj [THEN option.inj_map, THEN injD] by (auto simp: enc_RestConfig_def intro!: RestConfig.equality TLSConfig.equality)
qed

section \<open>A configuration for one cluster and one user\<close>

record ConfigOverrides =
  ov_AuthInfo :: AuthInfo
  ov_ClusterInfo :: Cluster
  ov_Context :: Context
  ov_CurrentContext :: string

definition zero_ConfigOverrides :: ConfigOverrides where
  "zero_ConfigOverrides = \<lparr>ov_AuthInfo = zero_AuthInfo, ov_ClusterInfo = zero_Cluster, ov_Context = zero_Context, ov_CurrentContext = []\<rparr>"

text \<open>\<open>dc_fallbackReader\<close>: nil, or a reader with the two words that \<open>Prompt\<close> scans from it.\<close>

record DirectClientConfig =
  dc_config :: KubeConfig
  dc_contextName :: string
  dc_overrides :: ConfigOverrides
  dc_fallbackReader :: "(string \<times> string) option"

definition NewDefaultClientConfig :: "KubeConfig \<Rightarrow> ConfigOverrides \<Rightarrow> DirectClientConfig" where
  "NewDefaultClientConfig config overrides =
     \<lparr>dc_config = config, dc_contextName = kc_CurrentContext config, dc_overrides = overrides, dc_fallbackReader = None\<rparr>"

definition NewNonInteractiveClientConfig :: "KubeConfig \<Rightarrow> string \<Rightarrow> ConfigOverrides \<Rightarrow> DirectClientConfig" where
  "NewNonInteractiveClientConfig config contextName overrides =
     \<lparr>dc_config = config, dc_contextName = contextName, dc_overrides = overrides, dc_fallbackReader = None\<rparr>"

definition NewInteractiveClientConfig :: "KubeConfig \<Rightarrow> string \<Rightarrow> ConfigOverrides \<Rightarrow> string \<times> string \<Rightarrow> DirectClientConfig" where
  "NewInteractiveClientConfig config contextName overrides fallbackReader =
     \<lparr>dc_config = config, dc_contextName = contextName, dc_overrides = overrides, dc_fallbackReader = Some fallbackReader\<rparr>"

definition DefaultClientConfig :: DirectClientConfig where
  "DefaultClientConfig = \<lparr>dc_config = NewConfig, dc_contextName = [], dc_overrides = zero_ConfigOverrides, dc_fallbackReader = None\<rparr>"

definition DefaultCluster :: Cluster where
  "DefaultCluster = zero_Cluster\<lparr>cu_Server := ''http://localhost:8080''\<rparr>"

definition EnvVarCluster :: "cmd_env \<Rightarrow> Cluster" where
  "EnvVarCluster e = zero_Cluster\<lparr>cu_Server := ce_Getenv e ''KUBERNETES_MASTER''\<rparr>"

definition getContextName :: "DirectClientConfig \<Rightarrow> string" where
  "getContextName config =
     (if length (ov_CurrentContext (dc_overrides config)) \<noteq> 0 then ov_CurrentContext (dc_overrides config)
      else if length (dc_contextName config) \<noteq> 0 then dc_contextName config
      else kc_CurrentContext (dc_config config))"

text \<open>The structs that are merged into start as zero values, with nil maps of extensions. The sources of a merge in order: those
  that exist.\<close>

definition found :: "'v option \<Rightarrow> 'v list" where
  "found v = (case v of None \<Rightarrow> [] | Some x \<Rightarrow> [x])"

definition getContext :: "DirectClientConfig \<Rightarrow> Context outcome" where
  "getContext config =
     merge_all merge_Context zero_Context
       (found (gm_get (entries (kc_Contexts (dc_config config))) (getContextName config)) @ [ov_Context (dc_overrides config)])"

definition getAuthInfoName :: "DirectClientConfig \<Rightarrow> string outcome" where
  "getAuthInfoName config =
     (if length (cx_AuthInfo (ov_Context (dc_overrides config))) \<noteq> 0 then Ok (cx_AuthInfo (ov_Context (dc_overrides config)))
      else obind (getContext config) (\<lambda>ctx. Ok (cx_AuthInfo ctx)))"

definition getClusterName :: "DirectClientConfig \<Rightarrow> string outcome" where
  "getClusterName config =
     (if length (cx_Cluster (ov_Context (dc_overrides config))) \<noteq> 0 then Ok (cx_Cluster (ov_Context (dc_overrides config)))
      else obind (getContext config) (\<lambda>ctx. Ok (cx_Cluster ctx)))"

definition getAuthInfo :: "DirectClientConfig \<Rightarrow> AuthInfo outcome" where
  "getAuthInfo config =
     obind (getAuthInfoName config) (\<lambda>authInfoName.
     merge_all merge_AuthInfo zero_AuthInfo
       (found (gm_get (entries (kc_AuthInfos (dc_config config))) authInfoName) @ [ov_AuthInfo (dc_overrides config)]))"

definition getCluster :: "cmd_env \<Rightarrow> DirectClientConfig \<Rightarrow> Cluster outcome" where
  "getCluster e config =
     obind (getClusterName config) (\<lambda>clusterInfoName.
     merge_all merge_Cluster zero_Cluster
       ([DefaultCluster, EnvVarCluster e] @ found (gm_get (entries (kc_Clusters (dc_config config))) clusterInfoName) @
        [ov_ClusterInfo (dc_overrides config)]))"

definition Direct_ConfirmUsable :: "os_env \<Rightarrow> cmd_env \<Rightarrow> machine \<Rightarrow> DirectClientConfig \<Rightarrow> cmd_error option outcome" where
  "Direct_ConfirmUsable E e m config =
     obind (getAuthInfoName config) (\<lambda>authInfoName.
     obind (getAuthInfo config) (\<lambda>authInfo.
     obind (getClusterName config) (\<lambda>clusterName.
     obind (getCluster e config) (\<lambda>cluster.
       (let validationErrors = validateAuthInfo E e m authInfoName authInfo @ validateClusterInfo E e m clusterName cluster in
        Ok (if validationErrors = [ErrEmptyCluster] then newErrConfigurationInvalid [ErrEmptyConfig]
            else newErrConfigurationInvalid validationErrors))))))"

definition canIdentifyUser :: "('a, 'c) RestConfig \<Rightarrow> bool" where
  "canIdentifyUser config \<longleftrightarrow> length (cg_Username config) > 0 \<or>
     (length (tl_CertFile (cg_TLS config)) > 0 \<or> length (tl_CertData (cg_TLS config)) > 0) \<or>
     length (cg_BearerToken config) > 0"

text \<open>\<open>makeUserIdentificationConfig\<close> of what \<open>Prompt\<close> returns: a user name and a password.\<close>

definition promptedConfig :: "string \<times> string \<Rightarrow> ('a, 'c) RestConfig" where
  "promptedConfig words = zero_RestConfig\<lparr>cg_Username := fst words, cg_Password := snd words\<rparr>"

definition getUserIdentificationPartialConfig :: "AuthInfo \<Rightarrow> (string \<times> string) option \<Rightarrow> ('a, 'c) RestConfig" where
  "getUserIdentificationPartialConfig configAuthInfo fallbackReader =
     (let c0 = zero_RestConfig;
          c1 = (if length (ai_Token configAuthInfo) > 0 then c0\<lparr>cg_BearerToken := ai_Token configAuthInfo\<rparr> else c0);
          c2 = (if length (ai_ClientCertificate configAuthInfo) > 0 \<or> length (ai_ClientCertificateData configAuthInfo) > 0
                then c1\<lparr>cg_TLS := (cg_TLS c1)\<lparr>tl_CertFile := ai_ClientCertificate configAuthInfo, tl_CertData := ai_ClientCertificateData configAuthInfo,
                                             tl_KeyFile := ai_ClientKey configAuthInfo, tl_KeyData := ai_ClientKeyData configAuthInfo\<rparr>\<rparr>
                else c1);
          c3 = (if length (ai_Username configAuthInfo) > 0 \<or> length (ai_Password configAuthInfo) > 0
                then c2\<lparr>cg_Username := ai_Username configAuthInfo, cg_Password := ai_Password configAuthInfo\<rparr> else c2) in
      case fallbackReader of
        Some words \<Rightarrow> if \<not> canIdentifyUser c3 then merge_RestConfig (merge_RestConfig zero_RestConfig (promptedConfig words)) c3 else c3
      | None \<Rightarrow> c3)"

definition getServerIdentificationPartialConfig :: "Cluster \<Rightarrow> ('a, 'c) RestConfig" where
  "getServerIdentificationPartialConfig configClusterInfo =
     merge_RestConfig zero_RestConfig
       (zero_RestConfig\<lparr>cg_TLS := no_TLS\<lparr>tl_CAFile := cu_CertificateAuthority configClusterInfo,
          tl_CAData := cu_CertificateAuthorityData configClusterInfo, tl_Insecure := cu_InsecureSkipTLSVerify configClusterInfo\<rparr>\<rparr>)"

text \<open>A parsed request URI with the parts that are looked at or erased; the rest of it stays inside \<open>uri_other\<close>.\<close>

record 'u ParsedURI =
  uri_Opaque :: string
  uri_Path :: string
  uri_RawQuery :: string
  uri_Fragment :: string
  uri_other :: 'u

text \<open>Parameters: \<open>url.ParseRequestURI\<close>, \<open>URL.String\<close>, and whether \<open>CertsFromPEM\<close> finds certificates.\<close>

record 'u uri_lib =
  ul_ParseRequestURI :: "string \<Rightarrow> gerror + 'u ParsedURI"
  ul_String :: "'u ParsedURI \<Rightarrow> string"
  ul_CertsFromPEM :: "string \<Rightarrow> bool"

definition client_host :: "'u uri_lib \<Rightarrow> string \<Rightarrow> string" where
  "client_host L url =
     (case ul_ParseRequestURI L url of
        Inr u \<Rightarrow> if uri_Opaque u = [] \<and> length (uri_Path u) > 1 then ul_String L (u\<lparr>uri_RawQuery := [], uri_Fragment := []\<rparr>) else url
      | Inl err \<Rightarrow> url)"

definition Direct_ClientConfig ::
  "('a, 'c, 'cert) world \<Rightarrow> cmd_env \<Rightarrow> 'u uri_lib \<Rightarrow> machine \<Rightarrow> DirectClientConfig \<Rightarrow> (cmd_error + ('a, 'c) RestConfig) outcome" where
  "Direct_ClientConfig w e L m config =
     obind (Direct_ConfirmUsable (wd_os w) e m config) (\<lambda>err.
       case err of
         Some err \<Rightarrow> Ok (Inl err)
       | None \<Rightarrow>
           obind (getAuthInfo config) (\<lambda>configAuthInfo.
           obind (getCluster e config) (\<lambda>configClusterInfo.
             (let clientConfig = zero_RestConfig\<lparr>cg_Host := client_host L (cu_Server configClusterInfo)\<rparr> in
              Ok (Inr
                (if IsConfigTransportTLS (wd_url_Parse w) clientConfig
                 then merge_RestConfig
                        (merge_RestConfig clientConfig (getUserIdentificationPartialConfig configAuthInfo (dc_fallbackReader config)))
                        (getServerIdentificationPartialConfig configClusterInfo)
                 else clientConfig))))))"

definition Direct_Namespace :: "os_env \<Rightarrow> cmd_env \<Rightarrow> machine \<Rightarrow> DirectClientConfig \<Rightarrow> (cmd_error + string \<times> bool) outcome" where
  "Direct_Namespace E e m config =
     obind (Direct_ConfirmUsable E e m config) (\<lambda>err.
       case err of
         Some err \<Rightarrow> Ok (Inl err)
       | None \<Rightarrow>
           obind (getContext config) (\<lambda>configContext. Ok (Inr
             (if length (cx_Namespace configContext) = 0 then (''default'', False)
              else (cx_Namespace configContext, cx_Namespace (ov_Context (dc_overrides config)) \<noteq> [])))))"

section \<open>Inside a cluster\<close>

abbreviation serviceaccount :: "string \<Rightarrow> string" where
  "serviceaccount key \<equiv> ''/var/run/secrets/kubernetes.io/serviceaccount/'' @ key"

definition CertPoolFromFile :: "os_env \<Rightarrow> cmd_env \<Rightarrow> 'u uri_lib \<Rightarrow> machine \<Rightarrow> string \<Rightarrow> bool" where
  "CertPoolFromFile E e L m filename =
     (filename \<noteq> [] \<and> (case read_file E e m filename of Inl err \<Rightarrow> False | Inr pemBlock \<Rightarrow> ul_CertsFromPEM L pemBlock))"

definition InClusterConfig :: "os_env \<Rightarrow> cmd_env \<Rightarrow> 'u uri_lib \<Rightarrow> machine \<Rightarrow> cmd_error + ('a, 'c) RestConfig" where
  "InClusterConfig E e L m =
     (let host = ce_Getenv e ''KUBERNETES_SERVICE_HOST''; port = ce_Getenv e ''KUBERNETES_SERVICE_PORT'' in
      if length host = 0 \<or> length port = 0
      then Inl (Message ''unable to load in-cluster configuration, KUBERNETES_SERVICE_HOST and KUBERNETES_SERVICE_PORT must be defined'')
      else case read_file E e m (serviceaccount ''token'') of
             Inl err \<Rightarrow> Inl err
           | Inr token \<Rightarrow>
               Inr (zero_RestConfig\<lparr>cg_Host := ''https://'' @ JoinHostPort host port, cg_BearerToken := token,
                 cg_TLS := no_TLS\<lparr>tl_CAFile := (if CertPoolFromFile E e L m (serviceaccount ''ca.crt'') then serviceaccount ''ca.crt'' else [])\<rparr>\<rparr>))"

definition inCluster_Possible :: "cmd_env \<Rightarrow> machine \<Rightarrow> bool" where
  "inCluster_Possible e m \<longleftrightarrow> ce_Getenv e ''KUBERNETES_SERVICE_HOST'' \<noteq> [] \<and> ce_Getenv e ''KUBERNETES_SERVICE_PORT'' \<noteq> [] \<and>
     os_Stat e m (serviceaccount ''token'') = StatFile"

text \<open>\<open>strings.TrimSpace\<close> on ASCII.\<close>

definition space_char :: "char \<Rightarrow> bool" where
  "space_char c \<longleftrightarrow> (let v = of_char c :: nat in v = 32 \<or> 9 \<le> v \<and> v \<le> 13)"

definition TrimSpace :: "string \<Rightarrow> string" where
  "TrimSpace s = rev (dropWhile space_char (rev (dropWhile space_char s)))"

definition inCluster_Namespace :: "os_env \<Rightarrow> cmd_env \<Rightarrow> machine \<Rightarrow> string" where
  "inCluster_Namespace E e m =
     (if ce_Getenv e ''POD_NAMESPACE'' \<noteq> [] then ce_Getenv e ''POD_NAMESPACE''
      else case read_file E e m (serviceaccount ''namespace'') of
             Inr ns \<Rightarrow> if length (TrimSpace ns) > 0 then TrimSpace ns else ''default''
           | Inl err \<Rightarrow> ''default'')"

section \<open>Deferred loading\<close>

record DeferredLoadingClientConfig =
  df_loadingRules :: LoadingRules
  df_overrides :: ConfigOverrides
  df_fallbackReader :: "(string \<times> string) option"
  df_clientConfig :: "DirectClientConfig option"

definition NewNonInteractiveDeferredLoadingClientConfig :: "LoadingRules \<Rightarrow> ConfigOverrides \<Rightarrow> DeferredLoadingClientConfig" where
  "NewNonInteractiveDeferredLoadingClientConfig loadingRules overrides =
     \<lparr>df_loadingRules = loadingRules, df_overrides = overrides, df_fallbackReader = None, df_clientConfig = None\<rparr>"

definition NewInteractiveDeferredLoadingClientConfig ::
  "LoadingRules \<Rightarrow> ConfigOverrides \<Rightarrow> string \<times> string \<Rightarrow> DeferredLoadingClientConfig" where
  "NewInteractiveDeferredLoadingClientConfig loadingRules overrides fallbackReader =
     \<lparr>df_loadingRules = loadingRules, df_overrides = overrides, df_fallbackReader = Some fallbackReader, df_clientConfig = None\<rparr>"

text \<open>The lock makes this one step; the second test of the field under the lock sees the same value as the first.\<close>

definition createClientConfig ::
  "os_env \<Rightarrow> cmd_env \<Rightarrow> machine \<Rightarrow> DeferredLoadingClientConfig
     \<Rightarrow> machine \<times> (DeferredLoadingClientConfig \<times> (cmd_error + DirectClientConfig)) outcome" where
  "createClientConfig E e m config =
     (case df_clientConfig config of
        Some clientConfig \<Rightarrow> (m, Ok (config, Inr clientConfig))
      | None \<Rightarrow>
          (case Load E e m (df_loadingRules config) of
             (m1, r) \<Rightarrow>
               (m1, obind r (\<lambda>loaded. Ok
                  (case loaded of
                     Inl err \<Rightarrow> (config, Inl err)
                   | Inr mergedConfig \<Rightarrow>
                       (let mergedClientConfig =
                          (case df_fallbackReader config of
                             Some reader \<Rightarrow> NewInteractiveClientConfig mergedConfig (ov_CurrentContext (df_overrides config)) (df_overrides config) reader
                           | None \<Rightarrow> NewNonInteractiveClientConfig mergedConfig (ov_CurrentContext (df_overrides config)) (df_overrides config)) in
                        (config\<lparr>df_clientConfig := Some mergedClientConfig\<rparr>, Inr mergedClientConfig)))))))"

text \<open>\<open>reflect.DeepEqual\<close> of two configurations: functions are equal only when both are nil.\<close>

definition DeepEqual_RestConfig :: "('a, 'c) RestConfig \<Rightarrow> ('a, 'c) RestConfig \<Rightarrow> bool" where
  "DeepEqual_RestConfig a b \<longleftrightarrow> a = b \<and> cg_WrapTransport a = None"

definition Deferred_ClientConfig ::
  "('a, 'c, 'cert) world \<Rightarrow> cmd_env \<Rightarrow> 'u uri_lib \<Rightarrow> machine \<Rightarrow> DeferredLoadingClientConfig
     \<Rightarrow> machine \<times> (DeferredLoadingClientConfig \<times> (cmd_error + ('a, 'c) RestConfig)) outcome" where
  "Deferred_ClientConfig w e L m config =
     (case createClientConfig (wd_os w) e m config of
        (m1, r) \<Rightarrow>
          (m1, obind r (\<lambda>(config1, created).
             case created of
               Inl err \<Rightarrow> Ok (config1, Inl err)
             | Inr mergedClientConfig \<Rightarrow>
                 obind (Direct_ClientConfig w e L m1 mergedClientConfig) (\<lambda>merged.
                   case merged of
                     Inl err \<Rightarrow> Ok (config1, Inl err)
                   | Inr mergedConfig \<Rightarrow>
                       obind (Direct_ClientConfig w e L m1 DefaultClientConfig) (\<lambda>default_result. Ok
                         (config1,
                          case default_result of
                            Inr defaultConfig \<Rightarrow>
                              if inCluster_Possible e m1 \<and> DeepEqual_RestConfig mergedConfig defaultConfig
                              then InClusterConfig (wd_os w) e L m1 else Inr mergedConfig
                          | Inl err \<Rightarrow> Inr mergedConfig))))))"

definition Deferred_Namespace ::
  "os_env \<Rightarrow> cmd_env \<Rightarrow> machine \<Rightarrow> DeferredLoadingClientConfig
     \<Rightarrow> machine \<times> (DeferredLoadingClientConfig \<times> (cmd_error + string \<times> bool)) outcome" where
  "Deferred_Namespace E e m config =
     (case createClientConfig E e m config of
        (m1, r) \<Rightarrow>
          (m1, obind r (\<lambda>(config1, created).
             case created of
               Inl err \<Rightarrow> Ok (config1, Inl err)
             | Inr mergedKubeConfig \<Rightarrow> obind (Direct_Namespace E e m1 mergedKubeConfig) (\<lambda>n. Ok (config1, n)))))"

text \<open>What \<open>NewProxyServerDefault\<close> and \<open>BuildConfigFromFlags\<close> ask for: a path to a kubeconfig and a server to use instead.\<close>

definition flags_ClientConfig ::
  "('a, 'c, 'cert) world \<Rightarrow> cmd_env \<Rightarrow> 'u uri_lib \<Rightarrow> machine \<Rightarrow> string \<Rightarrow> string
     \<Rightarrow> machine \<times> (DeferredLoadingClientConfig \<times> (cmd_error + ('a, 'c) RestConfig)) outcome" where
  "flags_ClientConfig w e L m kubeconfigPath masterUrl =
     Deferred_ClientConfig w e L m
       (NewNonInteractiveDeferredLoadingClientConfig
          \<lparr>lr_ExplicitPath = kubeconfigPath, lr_Precedence = [], lr_MigrationRules = None, lr_DoNotResolvePaths = False\<rparr>
          (zero_ConfigOverrides\<lparr>ov_ClusterInfo := zero_Cluster\<lparr>cu_Server := masterUrl\<rparr>\<rparr>))"

definition BuildConfigFromFlags ::
  "('a, 'c, 'cert) world \<Rightarrow> cmd_env \<Rightarrow> 'u uri_lib \<Rightarrow> machine \<Rightarrow> string \<Rightarrow> string \<Rightarrow> (cmd_error + ('a, 'c) RestConfig) outcome" where
  "BuildConfigFromFlags w e L m masterUrl kubeconfigPath =
     (let loaded = map_outcome snd (snd (flags_ClientConfig w e L m kubeconfigPath masterUrl)) in
      if kubeconfigPath = [] \<and> masterUrl = []
      then (case InClusterConfig (wd_os w) e L m of Inr kubeconfig \<Rightarrow> Ok (Inr kubeconfig) | Inl err \<Rightarrow> loaded)
      else loaded)"

text \<open>As the daemon sees it: an error becomes the error of \<open>NewProxyServerDefault\<close>, whose text is not modelled.\<close>

definition daemon_ClientConfig ::
  "('a, 'c, 'cert) world \<Rightarrow> cmd_env \<Rightarrow> 'u uri_lib \<Rightarrow> string \<Rightarrow> string \<Rightarrow> ('a, 'c) RestConfig outcome" where
  "daemon_ClientConfig w e L kubeconfig master =
     obind (snd (flags_ClientConfig w e L (wd_machine w) kubeconfig master)) (\<lambda>(_, r).
       case r of Inl err \<Rightarrow> Fail (Errorf ''invalid configuration'') | Inr config \<Rightarrow> Ok config)"

section \<open>What the flags of the daemon select\<close>

text \<open>The configuration behind the flags: a kubeconfig, and a server that replaces the one of its cluster.\<close>

definition flag_overrides :: "string \<Rightarrow> ConfigOverrides" where
  "flag_overrides master = zero_ConfigOverrides\<lparr>ov_ClusterInfo := zero_Cluster\<lparr>cu_Server := master\<rparr>\<rparr>"

definition flag_config :: "KubeConfig \<Rightarrow> string \<Rightarrow> DirectClientConfig" where
  "flag_config k master = NewNonInteractiveClientConfig k [] (flag_overrides master)"

definition chosen_context :: "KubeConfig \<Rightarrow> Context" where
  "chosen_context k = (case gm_get (entries (kc_Contexts k)) (kc_CurrentContext k) of None \<Rightarrow> zero_Context | Some x \<Rightarrow> x)"

definition chosen_user :: "KubeConfig \<Rightarrow> AuthInfo" where
  "chosen_user k = (case gm_get (entries (kc_AuthInfos k)) (cx_AuthInfo (chosen_context k)) of None \<Rightarrow> zero_AuthInfo | Some a \<Rightarrow> a)"

definition chosen_cluster :: "KubeConfig \<Rightarrow> Cluster" where
  "chosen_cluster k = (case gm_get (entries (kc_Clusters k)) (cx_Cluster (chosen_context k)) of None \<Rightarrow> zero_Cluster | Some c \<Rightarrow> c)"

definition chosen_server :: "cmd_env \<Rightarrow> KubeConfig \<Rightarrow> string \<Rightarrow> string" where
  "chosen_server e k master = first_set [master, cu_Server (chosen_cluster k), ce_Getenv e ''KUBERNETES_MASTER'', ''http://localhost:8080'']"

text \<open>No extension on the parts that are used.\<close>

definition plain_choice :: "KubeConfig \<Rightarrow> bool" where
  "plain_choice k \<longleftrightarrow> entries (cx_Extensions (chosen_context k)) = [] \<and> entries (ai_Extensions (chosen_user k)) = [] \<and>
     entries (cu_Extensions (chosen_cluster k)) = []"

lemmas zero_defs = zero_Context_def zero_AuthInfo_def zero_Cluster_def zero_ConfigOverrides_def flag_overrides_def flag_config_def
  NewNonInteractiveClientConfig_def

lemma merge_extensions_empty [simp]: "entries s = [] \<Longrightarrow> merge_extensions d s = Ok d"
  by (simp add: merge_extensions_def)

lemma entries_some: "entries x \<noteq> [] \<Longrightarrow> \<exists>s. merge_extensions None x = Panic s"
  by (cases x) (auto simp: merge_extensions_def merge_map_nil neq_Nil_conv)

lemma getContextName_flag [simp]: "getContextName (flag_config k master) = kc_CurrentContext k"
  by (simp add: getContextName_def zero_defs)

lemma merge_Context_zero:
  "merge_Context zero_Context x = obind (merge_extensions None (cx_Extensions x)) (\<lambda>y. Ok (x\<lparr>cx_Extensions := y\<rparr>))"
  "merge_Context x zero_Context = Ok x"
  by (cases x; simp add: merge_Context_def zero_Context_def merge_string_def)+

lemma merge_AuthInfo_zero:
  "merge_AuthInfo zero_AuthInfo a = obind (merge_extensions None (ai_Extensions a)) (\<lambda>y. Ok (a\<lparr>ai_Extensions := y\<rparr>))"
  "merge_AuthInfo a zero_AuthInfo = Ok a"
  by (cases a; simp add: merge_AuthInfo_def zero_AuthInfo_def merge_string_def)+

lemma zero_no_extensions [simp]:
  "cx_Extensions zero_Context = None" "ai_Extensions zero_AuthInfo = None" "cu_Extensions zero_Cluster = None"
  "zero_Context\<lparr>cx_Extensions := None\<rparr> = zero_Context" "zero_AuthInfo\<lparr>ai_Extensions := None\<rparr> = zero_AuthInfo"
  by (simp_all add: zero_defs)

lemma flag_config_parts [simp]:
  "ov_Context (dc_overrides (flag_config k master)) = zero_Context" "ov_AuthInfo (dc_overrides (flag_config k master)) = zero_AuthInfo"
  "ov_ClusterInfo (dc_overrides (flag_config k master)) = zero_Cluster\<lparr>cu_Server := master\<rparr>"
  "dc_config (flag_config k master) = k" "dc_fallbackReader (flag_config k master) = None"
  by (simp_all add: zero_defs)

lemma getContext_flag:
  "getContext (flag_config k master) =
     obind (merge_extensions None (cx_Extensions (chosen_context k))) (\<lambda>y. Ok (chosen_context k \<lparr>cx_Extensions := y\<rparr>))"
  by (cases "gm_get (entries (kc_Contexts k)) (kc_CurrentContext k)")
    (simp_all add: getContext_def chosen_context_def found_def merge_Context_zero obind_assoc)

lemma getContext_plain: "plain_choice k \<Longrightarrow> getContext (flag_config k master) = Ok (chosen_context k \<lparr>cx_Extensions := None\<rparr>)"
  by (simp add: getContext_flag plain_choice_def)

lemma names_flag:
  "getAuthInfoName (flag_config k master) = obind (getContext (flag_config k master)) (\<lambda>x. Ok (cx_AuthInfo x))"
  "getClusterName (flag_config k master) = obind (getContext (flag_config k master)) (\<lambda>x. Ok (cx_Cluster x))"
  by (simp_all add: getAuthInfoName_def getClusterName_def zero_defs)

lemma getAuthInfo_flag:
  "getAuthInfo (flag_config k master) =
     obind (getContext (flag_config k master)) (\<lambda>x.
     obind (merge_extensions None (ai_Extensions (chosen_user k))) (\<lambda>y. Ok (chosen_user k \<lparr>ai_Extensions := y\<rparr>)))"
  by (cases "gm_get (entries (kc_AuthInfos k)) (cx_AuthInfo (chosen_context k))")
    (simp_all add: getAuthInfo_def names_flag getContext_flag chosen_user_def found_def merge_AuthInfo_zero obind_assoc)

lemma getAuthInfo_plain: "plain_choice k \<Longrightarrow> getAuthInfo (flag_config k master) = Ok (chosen_user k \<lparr>ai_Extensions := None\<rparr>)"
  by (simp add: getAuthInfo_flag getContext_plain) (simp add: plain_choice_def)

lemma getCluster_flag:
  "getCluster e (flag_config k master) =
     obind (getContext (flag_config k master)) (\<lambda>x.
     obind (merge_extensions None (cu_Extensions (chosen_cluster k))) (\<lambda>y.
     Ok (chosen_cluster k \<lparr>cu_Server := chosen_server e k master, cu_Extensions := y\<rparr>)))"
  by (cases "gm_get (entries (kc_Clusters k)) (cx_Cluster (chosen_context k))"; cases "chosen_cluster k")
    (simp_all add: getCluster_def names_flag getContext_flag chosen_cluster_def chosen_server_def found_def obind_assoc
      merge_Cluster_def DefaultCluster_def EnvVarCluster_def zero_Cluster_def merge_string_def cong: obind_cong)

lemma getCluster_plain:
  "plain_choice k \<Longrightarrow> getCluster e (flag_config k master) =
    Ok (chosen_cluster k \<lparr>cu_Server := chosen_server e k master, cu_Extensions := None\<rparr>)"
  by (simp add: getCluster_flag getContext_plain) (simp add: plain_choice_def)

lemma chosen_server_set [simp]: "chosen_server e k master \<noteq> []"
  by (simp add: chosen_server_def)

text \<open>The errors of the chosen parts, and the configuration they give: the host alone, or with the identities of user and server when
  the host is reached by TLS.\<close>

definition choice_errors :: "os_env \<Rightarrow> cmd_env \<Rightarrow> machine \<Rightarrow> KubeConfig \<Rightarrow> string \<Rightarrow> cmd_error list" where
  "choice_errors E e m k master =
     validateAuthInfo E e m (cx_AuthInfo (chosen_context k)) (chosen_user k) @
     validateClusterInfo E e m (cx_Cluster (chosen_context k))
       (chosen_cluster k \<lparr>cu_Server := chosen_server e k master, cu_Extensions := None\<rparr>)"

definition has_cert :: "AuthInfo \<Rightarrow> bool" where
  "has_cert a \<longleftrightarrow> ai_ClientCertificate a \<noteq> [] \<or> ai_ClientCertificateData a \<noteq> []"

definition with_identity :: "AuthInfo \<Rightarrow> Cluster \<Rightarrow> ('a, 'c) RestConfig \<Rightarrow> ('a, 'c) RestConfig" where
  "with_identity a c config = config\<lparr>cg_BearerToken := ai_Token a, cg_Username := ai_Username a, cg_Password := ai_Password a,
     cg_TLS := \<lparr>tl_CAFile = cu_CertificateAuthority c, tl_CertFile = ai_ClientCertificate a,
       tl_KeyFile = (if has_cert a then ai_ClientKey a else []), tl_Insecure = cu_InsecureSkipTLSVerify c,
       tl_CAData = cu_CertificateAuthorityData c, tl_CertData = ai_ClientCertificateData a,
       tl_KeyData = (if has_cert a then ai_ClientKeyData a else [])\<rparr>\<rparr>"

definition host_only :: "string \<Rightarrow> ('a, 'c) RestConfig" where
  "host_only host = zero_RestConfig\<lparr>cg_Host := host\<rparr>"

definition chosen_config ::
  "(string \<Rightarrow> gerror + URL) \<Rightarrow> cmd_env \<Rightarrow> 'u uri_lib \<Rightarrow> KubeConfig \<Rightarrow> string \<Rightarrow> ('a, 'c) RestConfig" where
  "chosen_config url_Parse e L k master =
     (let config = host_only (client_host L (chosen_server e k master)) in
      if IsConfigTransportTLS url_Parse config then with_identity (chosen_user k) (chosen_cluster k) config else config)"

lemma validate_extensions [simp]:
  "validateAuthInfo E e m n (a\<lparr>ai_Extensions := x\<rparr>) = validateAuthInfo E e m n a"
  by (simp add: validateAuthInfo_def auth_methods_def)

lemma no_empty_cluster: "cu_Server c \<noteq> [] \<Longrightarrow> ErrEmptyCluster \<notin> set (validateClusterInfo E e m n c)"
  by (auto simp: validateClusterInfo_def zero_Cluster_def)

lemma no_empty_user: "ErrEmptyCluster \<notin> set (validateAuthInfo E e m n a)"
  by (simp add: validateAuthInfo_def)

lemma merged_identity:
  "merge_RestConfig (merge_RestConfig (host_only h) (getUserIdentificationPartialConfig (a\<lparr>ai_Extensions := x\<rparr>) None))
     (getServerIdentificationPartialConfig (c\<lparr>cu_Server := s, cu_Extensions := y\<rparr>)) = with_identity a c (host_only h)"
  by (cases a; cases c)
    (simp add: merge_RestConfig_def getUserIdentificationPartialConfig_def getServerIdentificationPartialConfig_def with_identity_def
      host_only_def zero_RestConfig_def no_TLS_def has_cert_def merge_string_def Let_def)

lemma Direct_flag:
  assumes "plain_choice k"
  shows "Direct_ClientConfig w e L m (flag_config k master) =
    Ok (if choice_errors (wd_os w) e m k master = [] then Inr (chosen_config (wd_url_Parse w) e L k master)
        else Inl (errConfigurationInvalid (choice_errors (wd_os w) e m k master)))"
proof -
  have "ErrEmptyCluster \<notin> set (choice_errors (wd_os w) e m k master)"
    by (simp add: choice_errors_def no_empty_user no_empty_cluster)
  then have "choice_errors (wd_os w) e m k master \<noteq> [ErrEmptyCluster]" by auto
  with assms show ?thesis
    by (simp add: Direct_ClientConfig_def Direct_ConfirmUsable_def names_flag getContext_plain getAuthInfo_plain getCluster_plain
        choice_errors_def newErrConfigurationInvalid_def chosen_config_def host_only_def [symmetric] merged_identity Let_def)
qed

definition default_server_config :: "cmd_env \<Rightarrow> 'u uri_lib \<Rightarrow> ('a, 'c) RestConfig" where
  "default_server_config e L = host_only (client_host L (first_set [ce_Getenv e ''KUBERNETES_MASTER'', ''http://localhost:8080'']))"

definition flag_rules :: "string \<Rightarrow> LoadingRules" where
  "flag_rules path = \<lparr>lr_ExplicitPath = path, lr_Precedence = [], lr_MigrationRules = None, lr_DoNotResolvePaths = False\<rparr>"

lemma default_flag: "DefaultClientConfig = flag_config NewConfig []"
  by (simp add: DefaultClientConfig_def zero_defs)

lemma NewConfig_choice:
  "chosen_context NewConfig = zero_Context" "chosen_user NewConfig = zero_AuthInfo" "chosen_cluster NewConfig = zero_Cluster" "plain_choice NewConfig"
  by (simp_all add: chosen_context_def chosen_user_def chosen_cluster_def plain_choice_def NewConfig_def gm_get_def zero_defs)

lemma zero_choice:
  assumes "chosen_user k = zero_AuthInfo" "chosen_cluster k = zero_Cluster"
  shows "choice_errors E e m k master = []" "(chosen_config P e L k master :: ('a, 'c) RestConfig) = host_only (client_host L (chosen_server e k master))"
proof -
  have "with_identity zero_AuthInfo zero_Cluster (host_only h) = (host_only h :: ('a, 'c) RestConfig)" for h
    by (simp add: with_identity_def host_only_def zero_RestConfig_def zero_AuthInfo_def zero_Cluster_def no_TLS_def)
  then show "(chosen_config P e L k master :: ('a, 'c) RestConfig) = host_only (client_host L (chosen_server e k master))"
    by (simp add: chosen_config_def assms Let_def)
  show "choice_errors E e m k master = []"
    using chosen_server_set [of e k master]
    by (simp add: choice_errors_def assms validateAuthInfo_def auth_methods_def validateClusterInfo_def zero_AuthInfo_def zero_Cluster_def)
qed

lemma default_direct: "Direct_ClientConfig w e L m DefaultClientConfig = Ok (Inr (default_server_config e L))"
  by (simp add: default_flag Direct_flag NewConfig_choice zero_choice)
    (simp add: default_server_config_def chosen_server_def NewConfig_choice zero_defs)

lemma chosen_config_unwrapped: "cg_WrapTransport (chosen_config P e L k master) = None"
  by (simp add: chosen_config_def with_identity_def host_only_def zero_RestConfig_def Let_def)

lemma flags_ClientConfig_unfold:
  "flags_ClientConfig w e L m path master =
     Deferred_ClientConfig w e L m (NewNonInteractiveDeferredLoadingClientConfig (flag_rules path) (flag_overrides master))"
  by (simp add: flags_ClientConfig_def flag_rules_def flag_overrides_def)

lemma flags_loaded:
  assumes "Load (wd_os w) e m (flag_rules path) = (m1, Ok (Inr k))"
  shows "map_outcome snd (snd (flags_ClientConfig w e L m path master)) =
    obind (Direct_ClientConfig w e L m1 (flag_config k master)) (\<lambda>r. Ok
      (case r of
         Inl err \<Rightarrow> Inl err
       | Inr config \<Rightarrow>
           if inCluster_Possible e m1 \<and> config = default_server_config e L \<and> cg_WrapTransport config = None
           then InClusterConfig (wd_os w) e L m1 else Inr config))"
proof -
  have fc: "NewNonInteractiveClientConfig k (ov_CurrentContext (flag_overrides master)) (flag_overrides master) = flag_config k master"
    by (simp add: zero_defs)
  show ?thesis
    using assms
    by (cases "Direct_ClientConfig w e L m1 (flag_config k master)")
      (auto simp: flags_ClientConfig_unfold Deferred_ClientConfig_def createClientConfig_def
        NewNonInteractiveDeferredLoadingClientConfig_def fc default_direct DeepEqual_RestConfig_def Let_def split: sum.splits)
qed

lemma Load_no_path: "Load E e m (flag_rules '''') = (m, Ok (Inr NewConfig))"
proof -
  have "merge_files [] = Ok NewConfig"
    by (simp add: merge_files_def merge_KubeConfig_def NewConfig_def NewPreferences_def merge_string_def)
  then show ?thesis
    by (simp add: Load_def Migrate_def flag_rules_def ResolveLocalPaths_def) (simp add: NewConfig_def)
qed

text \<open>C23: from the two flags to the configuration of the client. When the kubeconfig loads and the parts that its current context names have
  no extensions, the result is an error exactly when the chosen user or cluster does not validate. Otherwise the server
  is the one of the flag, or else of the cluster, of \<open>KUBERNETES_MASTER\<close>, or the local one, and the identities are taken over only
  when that server is reached by TLS. The configuration of the service account replaces the result when the process is in a pod and the
  result is the one that no kubeconfig and no flag would give.\<close>

theorem flags_choose:
  fixes w :: "('a, 'c, 'cert) world"
  assumes "Load (wd_os w) e m (flag_rules path) = (m1, Ok (Inr k))" "plain_choice k"
  shows "map_outcome snd (snd (flags_ClientConfig w e L m path master)) =
    Ok (if choice_errors (wd_os w) e m1 k master \<noteq> [] then Inl (errConfigurationInvalid (choice_errors (wd_os w) e m1 k master))
        else if inCluster_Possible e m1 \<and> chosen_config (wd_url_Parse w) e L k master = (default_server_config e L :: ('a, 'c) RestConfig)
        then InClusterConfig (wd_os w) e L m1
        else Inr (chosen_config (wd_url_Parse w) e L k master))"
  by (simp add: flags_loaded [OF assms(1)] Direct_flag [OF assms(2)] chosen_config_unwrapped)

text \<open>A kubeconfig whose current context does not exist is not refused: the daemon goes on, without any credentials, to the server of
  the flag, of \<open>KUBERNETES_MASTER\<close>, or on the local host.\<close>

theorem dangling_context_is_accepted:
  assumes "gm_get (entries (kc_Contexts k)) (kc_CurrentContext k) = None" "gm_get (entries (kc_Clusters k)) '''' = None"
    "gm_get (entries (kc_AuthInfos k)) '''' = None"
  shows "Direct_ClientConfig w e L m (flag_config k master) =
    Ok (Inr (host_only (client_host L (first_set [master, ce_Getenv e ''KUBERNETES_MASTER'', ''http://localhost:8080'']))))"
proof -
  have c: "chosen_context k = zero_Context" "chosen_user k = zero_AuthInfo" "chosen_cluster k = zero_Cluster"
    using assms by (simp_all add: chosen_context_def chosen_user_def chosen_cluster_def) (simp_all add: zero_Context_def)
  then have "plain_choice k" by (simp add: plain_choice_def)
  moreover have "chosen_server e k master = first_set [master, ce_Getenv e ''KUBERNETES_MASTER'', ''http://localhost:8080'']"
    by (simp add: chosen_server_def c) (simp add: zero_Cluster_def)
  ultimately show ?thesis by (simp only: Direct_flag zero_choice [OF c(2,3)] simp_thms if_True)
qed

lemma Direct_not_plain:
  assumes "\<not> plain_choice k"
  shows "\<exists>s. Direct_ClientConfig w e L m (flag_config k master) = Panic s"
proof -
  from assms consider "entries (cx_Extensions (chosen_context k)) \<noteq> []"
    | "entries (cx_Extensions (chosen_context k)) = []" "entries (ai_Extensions (chosen_user k)) \<noteq> []"
    | "entries (cx_Extensions (chosen_context k)) = []" "entries (ai_Extensions (chosen_user k)) = []" "entries (cu_Extensions (chosen_cluster k)) \<noteq> []"
    by (auto simp: plain_choice_def)
  then show ?thesis
    by cases (auto dest!: entries_some simp: Direct_ClientConfig_def Direct_ConfirmUsable_def names_flag getContext_flag getAuthInfo_flag getCluster_flag)
qed

text \<open>C36: the program stops with a panic when, and only when, the context, the user or the cluster in use carries an extension, for the merge
  assigns to a map that is nil; extensions of the file itself and of unused entries do no harm.\<close>

theorem extensions_panic:
  "(\<exists>s. Direct_ClientConfig w e L m (flag_config k master) = Panic s) \<longleftrightarrow> \<not> plain_choice k"
  using Direct_not_plain by (cases "plain_choice k") (auto simp: Direct_flag)

text \<open>Inside a pod, asking for the local server by flag has no effect: the client goes to the API server of the cluster.\<close>

theorem local_master_is_replaced:
  assumes "inCluster_Possible e m" "ce_Getenv e ''KUBERNETES_MASTER'' = ''''"
  shows "map_outcome snd (snd (flags_ClientConfig w e L m '''' ''http://localhost:8080'')) = Ok (InClusterConfig (wd_os w) e L m)"
proof -
  note z = zero_choice [OF NewConfig_choice(2,3)]
  have d: "(chosen_config (wd_url_Parse w) e L NewConfig ''http://localhost:8080'' :: ('a, 'b) RestConfig) = default_server_config e L"
    by (simp add: z(2) default_server_config_def chosen_server_def assms(2))
  have "cg_WrapTransport (default_server_config e L :: ('a, 'b) RestConfig) = None" by (simp add: d [symmetric] chosen_config_unwrapped)
  then show ?thesis by (simp add: flags_loaded [OF Load_no_path] Direct_flag [OF NewConfig_choice(4)] z(1) d assms(1))
qed

text \<open>A kubeconfig that is asked for by flag has to exist.\<close>

theorem missing_kubeconfig_is_an_error:
  assumes "path \<noteq> []" "os_Stat e m path = StatNotExist"
  shows "map_outcome snd (snd (flags_ClientConfig w e L m path master)) = Ok (Inl (NotExist path))"
  using assms
  by (simp add: flags_ClientConfig_unfold Deferred_ClientConfig_def createClientConfig_def NewNonInteractiveDeferredLoadingClientConfig_def
      Load_def Migrate_def flag_rules_def)

text \<open>A deferred configuration reads the files once: after a first success it answers from what it has loaded, whatever happens to
  the files.\<close>

theorem deferred_loads_once:
  assumes "createClientConfig E e m config = (m1, Ok (config1, Inr direct))"
  shows "createClientConfig E' e' m' config1 = (m', Ok (config1, Inr direct))"
proof -
  have "df_clientConfig config1 = Some direct"
    using assms
    by (cases "Load E e m (df_loadingRules config)"; cases "snd (Load E e m (df_loadingRules config))")
      (auto simp: createClientConfig_def Let_def split: option.split_asm sum.split_asm)
  then show ?thesis by (simp add: createClientConfig_def)
qed

text \<open>The function \<open>ConfirmUsable\<close> of the package cannot report a context with an unknown user or cluster, although the check of the
  context has just found it out: it panics.\<close>

theorem ConfirmUsable_panics:
  assumes "\<not> IsConfigEmpty config" "contextName \<noteq> []" "gm_get (entries (kc_Contexts config)) contextName = Some ctx"
    and "gm_get (entries (kc_AuthInfos config)) (cx_AuthInfo ctx) = None \<or> gm_get (entries (kc_Clusters config)) (cx_Cluster ctx) = None"
  shows "ConfirmUsable E e m config contextName = Panic nil_type \<and> validateContext contextName ctx config \<noteq> []"
  using assms by (auto simp: ConfirmUsable_def validateContext_def Let_def split: option.splits)

text \<open>Minifying a configuration, as is done to ship it as a secret, does not change the client it gives, as long as no user
  and no cluster is listed under the empty name.\<close>

lemma MinifyConfig_choice:
  assumes "MinifyConfig k = Inr k'" "gm_get (entries (kc_AuthInfos k)) [] = None" "gm_get (entries (kc_Clusters k)) [] = None"
  shows "chosen_context k' = chosen_context k \<and> chosen_user k' = chosen_user k \<and> chosen_cluster k' = chosen_cluster k"
  using assms
  by (auto simp: MinifyConfig_def kept_def chosen_context_def chosen_user_def chosen_cluster_def gm_get_def
      split: if_split_asm option.split_asm sum.split_asm)

theorem MinifyConfig_same_client:
  assumes "MinifyConfig k = Inr k'" "gm_get (entries (kc_AuthInfos k)) [] = None" "gm_get (entries (kc_Clusters k)) [] = None"
  shows "Direct_ClientConfig w e L m (flag_config k' master) = Direct_ClientConfig w e L m (flag_config k master)"
proof -
  note same = MinifyConfig_choice [OF assms]
  have "chosen_server e k' master = chosen_server e k master" by (simp add: chosen_server_def same)
  with same have parts: "getContext (flag_config k' master) = getContext (flag_config k master)"
    "getAuthInfo (flag_config k' master) = getAuthInfo (flag_config k master)"
    "getCluster e (flag_config k' master) = getCluster e (flag_config k master)"
    by (simp_all add: getContext_flag getAuthInfo_flag getCluster_flag)
  show ?thesis unfolding Direct_ClientConfig_def Direct_ConfirmUsable_def names_flag parts flag_config_parts ..
qed

section \<open>Credentials and TLS\<close>

lemma daemon_config_cases:
  assumes "daemon_ClientConfig w e L path master = Ok kc"
  shows "(\<exists>m1. InClusterConfig (wd_os w) e L m1 = Inr kc) \<or> (\<exists>k. kc = chosen_config (wd_url_Parse w) e L k master)"
proof -
  have "daemon_ClientConfig w e L path master =
      obind (map_outcome snd (snd (flags_ClientConfig w e L (wd_machine w) path master)))
        (\<lambda>r. case r of Inl err \<Rightarrow> Fail (Errorf ''invalid configuration'') | Inr config \<Rightarrow> Ok config)"
    by (cases "snd (flags_ClientConfig w e L (wd_machine w) path master)") (simp_all add: daemon_ClientConfig_def case_prod_beta)
  with assms have r: "map_outcome snd (snd (flags_ClientConfig w e L (wd_machine w) path master)) = Ok (Inr kc)"
    by (cases "map_outcome snd (snd (flags_ClientConfig w e L (wd_machine w) path master))") (auto split: sum.split_asm)
  then obtain m1 k where l: "Load (wd_os w) e (wd_machine w) (flag_rules path) = (m1, Ok (Inr k))"
    by (cases "Load (wd_os w) e (wd_machine w) (flag_rules path)"; cases "snd (Load (wd_os w) e (wd_machine w) (flag_rules path))")
      (auto simp: flags_ClientConfig_unfold Deferred_ClientConfig_def createClientConfig_def
        NewNonInteractiveDeferredLoadingClientConfig_def split: sum.split_asm)
  have "plain_choice k"
  proof (rule ccontr)
    assume "\<not> plain_choice k"
    from Direct_not_plain [OF this] obtain s where "Direct_ClientConfig w e L m1 (flag_config k master) = Panic s" by blast
    with r show False by (simp add: flags_loaded [OF l])
  qed
  with r show ?thesis by (auto simp: flags_loaded [OF l] Direct_flag split: if_split_asm)
qed

text \<open>What \<open>url.Parse\<close> promises here: a text that begins with one of the two schemes parses to a URL with that scheme.\<close>

definition parses_schemes :: "(string \<Rightarrow> gerror + URL) \<Rightarrow> bool" where
  "parses_schemes url_Parse \<longleftrightarrow>
     (\<forall>h u. (url_Parse (''http://'' @ h) = Inr u \<longrightarrow> u_Scheme u = ''http'') \<and> (url_Parse (''https://'' @ h) = Inr u \<longrightarrow> u_Scheme u = ''https''))"

lemma in_cluster_https:
  assumes "InClusterConfig E e L m = Inr kc" "parses_schemes (wd_url_Parse w)" "server_url w kc = Some u"
  shows "u_Scheme u = ''https''"
proof -
  from assms(1) obtain h where h: "cg_Host kc = ''https://'' @ h" "cg_GroupVersion kc = None"
    by (auto simp: InClusterConfig_def zero_RestConfig_def Let_def split: if_splits sum.splits)
  with assms(2,3) show ?thesis
    by (auto simp: server_url_def defaultServerUrlFor_def DefaultServerURL_def parses_schemes_def Let_def split: sum.splits if_splits)
qed

lemma TLS_https:
  assumes "IsConfigTransportTLS (wd_url_Parse w) (host_only h)" "parses_schemes (wd_url_Parse w)"
    and "cg_Host kc = h" "cg_GroupVersion kc = None" "server_url w kc = Some u"
  shows "u_Scheme u = ''https''"
proof -
  let ?h = "if h = [] then ''localhost'' else h"
  obtain v where v: "wd_url_Parse w ?h = Inr v" "u_Scheme v = ''https''"
    using assms(1,2)
    by (auto simp: IsConfigTransportTLS_def defaultServerUrlFor_def DefaultServerURL_def parses_schemes_def host_only_def zero_RestConfig_def
        default_TLS_def no_TLS_def Let_def split: sum.splits if_splits)
  with assms(3-5) show ?thesis
    by (auto simp: server_url_def defaultServerUrlFor_def DefaultServerURL_def Let_def split: sum.splits if_splits)
qed

lemma host_only_transport:
  assumes "tc_Username c = []" "tc_BearerToken c = []" "tc_TLS c = no_TLS" "tc_Transport c = None" "tc_WrapTransport c = None"
    and "snd (transport_New E m X base [] c) = Inr rt"
  shows "\<exists>h. rt req = base DefaultTransport (req\<lparr>hq_Header := h\<rparr>) \<and> Transport.Header_Get h ''Authorization'' = Transport.Header_Get (hq_Header req) ''Authorization''"
proof -
  from assms have "snd (tlsCache_get E m X [] c) = Inr DefaultTransport"
    by (simp add: tlsCache_get_def tlsConfigKey_def loadTLSFiles_def dataFromSliceOrFile_def no_TLS_def TLSConfigFor_def HasCA_def
        HasCertAuth_def gm_get_def Let_def)
  with assms have "rt = (if tc_UserAgent c \<noteq> [] then userAgent_RoundTrip (tc_UserAgent c) (base DefaultTransport) else base DefaultTransport)"
    by (cases "tlsCache_get E m X [] c") (auto simp: transport_New_def HTTPWrappersForConfig_def HasBasicAuth_def HasTokenAuth_def Let_def)
  moreover have "\<exists>h. base DefaultTransport req = base DefaultTransport (req\<lparr>hq_Header := h\<rparr>) \<and>
      Transport.Header_Get h ''Authorization'' = Transport.Header_Get (hq_Header req) ''Authorization''"
    by (rule exI [of _ "hq_Header req"]) simp
  moreover have "Transport.Header_Get (Header_Set h ''User-Agent'' v) ''Authorization'' = Transport.Header_Get h ''Authorization''" for h v
    by (simp add: Transport.Header_Get_def Header_Set_def gomap_simps)
  ultimately show ?thesis by (auto simp: userAgent_RoundTrip_def)
qed

lemma client_credentials:
  fixes w :: "('a, 'c, 'cert) world"
  assumes "daemon_ClientConfig w e L path master = Ok kubeconfig" "daemon_client w kubeconfig qps burst = Ok client"
    and "gm_get (wd_groupMetaMap w) '''' = Some \<lparr>gv_Group = '''', gv_Version = ''v1''\<rparr>" "parses_schemes (wd_url_Parse w)"
    and "u_Scheme (rc_base (cn_client (cl_RESTClient client))) \<noteq> ''https''"
  shows "\<exists>h. cn_http (cl_RESTClient client) req = wd_base w DefaultTransport (req\<lparr>hq_Header := h\<rparr>) \<and>
    Transport.Header_Get h ''Authorization'' = Transport.Header_Get (hq_Header req) ''Authorization''"
proof -
  let ?l = "legacy_config w kubeconfig qps burst"
  note cases = daemon_config_cases [OF assms(1)]
  have zero: "cg_APIPath kubeconfig = []" "cg_GroupVersion kubeconfig = None" "cg_Transport kubeconfig = None" "cg_WrapTransport kubeconfig = None"
    using cases by (auto simp: InClusterConfig_def chosen_config_def with_identity_def host_only_def zero_RestConfig_def Let_def split: if_splits sum.splits)
  have l: "cg_APIPath ?l = ''/api''" "cg_GroupVersion ?l = Some v1" by (simp_all add: legacy_config_def)
  from connected [OF daemon_client_connects [OF assms(2,3) zero(1)] l] obtain u t where
    u: "server_url w ?l = Some u" "u_Scheme (rc_base (cn_client (cl_RESTClient client))) = u_Scheme u" and
    t: "snd (transport_New (wd_os w) (wd_machine w) (wd_X509KeyPair w) (wd_base w) [] (transportConfig ?l)) = Inr t"
      "cn_http (cl_RESTClient client) = t" by auto
  have su: "server_url w kubeconfig = Some u" using u(1) server_url_same [of ?l kubeconfig w] by (simp add: legacy_config_def)
  from cases consider m1 where "InClusterConfig (wd_os w) e L m1 = Inr kubeconfig"
    | k where "kubeconfig = chosen_config (wd_url_Parse w) e L k master" by blast
  then show ?thesis
  proof cases
    case 1
    from in_cluster_https [OF this assms(4) su] assms(5) u(2) show ?thesis by simp
  next
    case 2
    define h where "h = client_host L (chosen_server e k master)"
    show ?thesis
    proof (cases "IsConfigTransportTLS (wd_url_Parse w) (host_only h :: ('a, 'c) RestConfig)")
      case True
      have "cg_Host kubeconfig = h" by (simp add: 2 chosen_config_def h_def [symmetric] with_identity_def host_only_def Let_def)
      from TLS_https [OF True assms(4) this zero(2) su] assms(5) u(2) show ?thesis by simp
    next
      case False
      then have "kubeconfig = host_only h" by (simp add: 2 chosen_config_def h_def [symmetric] Let_def)
      with t show ?thesis
        by (auto intro!: host_only_transport [of "transportConfig ?l"]
            simp: transportConfig_def legacy_config_def host_only_def zero_RestConfig_def)
    qed
  qed
qed

lemma NewProxyServerDefault_client:
  assumes "NewProxyServerDefault load new E m N k config = Ok sv"
  obtains kubeconfig where "load (cf_Kubeconfig config) (cf_Master config) = Ok kubeconfig"
    "new kubeconfig (cf_KubeAPIQPS config) (cf_KubeAPIBurst config) = Ok (sv_Client sv)"
  using assms by (auto simp: NewProxyServerDefault_def NewProxyServer_def Let_def split: outcome.split_asm sum.split_asm)

text \<open>C24: no credentials without TLS. Whatever kubeconfig and flags the daemon is started with, if the client of the server it builds ends up with a server that is
  not reached by HTTPS, then every request leaves by the plain transport, without a client certificate, and with no other
  authorization than the request itself carries.\<close>

theorem credentials_only_over_TLS:
  assumes "NewProxyServerDefault (daemon_ClientConfig w e L) (daemon_client w) E m N k config = Ok sv"
    and "gm_get (wd_groupMetaMap w) '''' = Some \<lparr>gv_Group = '''', gv_Version = ''v1''\<rparr>" "parses_schemes (wd_url_Parse w)"
    and "u_Scheme (rc_base (cn_client (cl_RESTClient (sv_Client sv)))) \<noteq> ''https''"
  shows "\<exists>h. cn_http (cl_RESTClient (sv_Client sv)) req = wd_base w DefaultTransport (req\<lparr>hq_Header := h\<rparr>) \<and>
    Transport.Header_Get h ''Authorization'' = Transport.Header_Get (hq_Header req) ''Authorization''"
  using NewProxyServerDefault_client [OF assms(1)] client_credentials [OF _ _ assms(2,3,4)] by metis

section \<open>Examples\<close>

definition demo_uri :: "unit uri_lib" where
  "demo_uri = \<lparr>ul_ParseRequestURI = (\<lambda>_. Inl (Errorf ''invalid URI'')), ul_String = (\<lambda>_. []), ul_CertsFromPEM = (\<lambda>_. True)\<rparr>"

lemma demo_uri_host [simp]: "client_host demo_uri s = s"
  by (simp add: client_host_def demo_uri_def)

lemma demo_not_in_cluster: "\<not> inCluster_Possible demo_cmd_env m"
  by (simp add: inCluster_Possible_def demo_cmd_env_def)

text \<open>The file \<open>/k/s\<close> names a server with HTTPS, a user with a token and a certificate authority beside the file.\<close>

definition demo_loaded :: KubeConfig where
  "demo_loaded = NewConfig\<lparr>
     kc_Clusters := Some [(''c'', NewCluster\<lparr>cu_LocationOfOrigin := ''/k/s'', cu_Server := ''https://api'', cu_CertificateAuthority := ''/k/ca''\<rparr>)],
     kc_AuthInfos := Some [(''u'', NewAuthInfo\<lparr>ai_LocationOfOrigin := ''/k/s'', ai_Token := ''t''\<rparr>)],
     kc_Contexts := Some [(''https://api'', NewContext\<lparr>cx_LocationOfOrigin := ''/k/s'', cx_Cluster := ''c'', cx_AuthInfo := ''u''\<rparr>)],
     kc_CurrentContext := ''https://api''\<rparr>"

lemma demo_loads: "Load demo_cmd_os demo_cmd_env demo_cmd_files (flag_rules ''/k/s'') = (demo_cmd_files, Ok (Inr demo_loaded))"
proof -
  have "snd (Load demo_cmd_os demo_cmd_env demo_cmd_files (flag_rules ''/k/s'')) = Ok (Inr demo_loaded)" by code_simp
  moreover have "fst (Load demo_cmd_os demo_cmd_env demo_cmd_files (flag_rules ''/k/s'')) = demo_cmd_files"
    by (simp add: Load_def Migrate_def flag_rules_def)
  ultimately show ?thesis by (metis prod.collapse)
qed

lemma demo_choice:
  "plain_choice demo_loaded" "choice_errors demo_cmd_os demo_cmd_env demo_cmd_files demo_loaded '''' = []"
  "chosen_server demo_cmd_env demo_loaded '''' = ''https://api''"
  by code_simp+

theorem flags_choose_witness:
  "map_outcome snd (snd (flags_ClientConfig (demo_world\<lparr>wd_os := demo_cmd_os\<rparr>) demo_cmd_env demo_uri demo_cmd_files ''/k/s'' '''')) =
     Ok (Inr (zero_RestConfig\<lparr>cg_Host := ''https://api'', cg_BearerToken := ''t'', cg_TLS := no_TLS\<lparr>tl_CAFile := ''/k/ca''\<rparr>\<rparr>))"
proof -
  have tls: "IsConfigTransportTLS (wd_url_Parse demo_world) (host_only ''https://api'')"
    by (simp add: IsConfigTransportTLS_def defaultServerUrlFor_def DefaultServerURL_def host_only_def zero_RestConfig_def demo_world_def Let_def)
  have "chosen_user demo_loaded = NewAuthInfo\<lparr>ai_LocationOfOrigin := ''/k/s'', ai_Token := ''t''\<rparr>"
    "chosen_cluster demo_loaded = NewCluster\<lparr>cu_LocationOfOrigin := ''/k/s'', cu_Server := ''https://api'', cu_CertificateAuthority := ''/k/ca''\<rparr>"
    by code_simp+
  then have "chosen_config (wd_url_Parse demo_world) demo_cmd_env demo_uri demo_loaded '''' =
      zero_RestConfig\<lparr>cg_Host := ''https://api'', cg_BearerToken := ''t'', cg_TLS := no_TLS\<lparr>tl_CAFile := ''/k/ca''\<rparr>\<rparr>"
    by (simp add: chosen_config_def demo_choice(3) tls Let_def)
      (simp add: with_identity_def host_only_def zero_RestConfig_def no_TLS_def NewAuthInfo_def NewCluster_def zero_AuthInfo_def zero_Cluster_def has_cert_def)
  then show ?thesis
    using flags_choose [of "demo_world\<lparr>wd_os := demo_cmd_os\<rparr>" demo_cmd_env demo_cmd_files "''/k/s''" demo_cmd_files demo_loaded demo_uri "''''"] demo_loads demo_choice
    by (simp add: demo_not_in_cluster)
qed

theorem dangling_context_is_accepted_witness:
  "Direct_ClientConfig demo_world demo_cmd_env demo_uri demo_cmd_files (flag_config (demo_loaded\<lparr>kc_CurrentContext := ''gone''\<rparr>) '''') =
     Ok (Inr (host_only ''http://localhost:8080''))"
  using dangling_context_is_accepted [of "demo_loaded\<lparr>kc_CurrentContext := ''gone''\<rparr>" demo_world demo_cmd_env demo_uri demo_cmd_files "''''"]
  by (simp add: demo_loaded_def NewConfig_def gm_get_def) (simp add: demo_cmd_env_def)

lemma demo_daemon_config: "daemon_ClientConfig demo_world demo_cmd_env demo_uri '''' ''http://api:8080'' = Ok demo_kubeconfig"
proof -
  note z = zero_choice [OF NewConfig_choice(2,3)]
  have k: "demo_kubeconfig = host_only ''http://api:8080''" by (simp add: demo_kubeconfig_def host_only_def zero_RestConfig_def)
  have "map_outcome snd (snd (flags_ClientConfig demo_world demo_cmd_env demo_uri (wd_machine demo_world) '''' ''http://api:8080'')) = Ok (Inr demo_kubeconfig)"
    by (simp add: flags_loaded [OF Load_no_path] Direct_flag [OF NewConfig_choice(4)] z demo_not_in_cluster k chosen_server_def)
  then show ?thesis
    by (cases "snd (flags_ClientConfig demo_world demo_cmd_env demo_uri (wd_machine demo_world) '''' ''http://api:8080'')")
      (auto simp: daemon_ClientConfig_def case_prod_beta)
qed

abbreviation demo_flags :: ProxyServerConfig where
  "demo_flags \<equiv> NewProxyServerConfig\<lparr>cf_Master := ''http://api:8080'', cf_KubeAPIQPS := 0, cf_KubeAPIBurst := 0\<rparr>"

abbreviation demo_start :: "(string, string list) gomap Client ProxyServer outcome" where
  "demo_start \<equiv> NewProxyServerDefault (daemon_ClientConfig demo_world demo_cmd_env demo_uri) (daemon_client demo_world) friendly_env
     \<lparr>files = (\<lambda>_. Some ''''), scripts_run = []\<rparr> (h_netlink demo_host) [] demo_flags"

theorem credentials_only_over_TLS_witness:
  "\<exists>sv. demo_start = Ok sv \<and>
    (\<exists>h. cn_http (cl_RESTClient (sv_Client sv)) \<lparr>hq_Method = ''GET'', hq_URL = ''/'', hq_Header = []\<rparr> = h \<and>
       Transport.Header_Get h ''Authorization'' = '''')"
proof -
  obtain client where c: "daemon_client demo_world demo_kubeconfig 0 0 = Ok client" using demo_daemon_client by blast
  have flags: "cf_Kubeconfig demo_flags = ''''" "cf_Master demo_flags = ''http://api:8080''" "cf_KubeAPIQPS demo_flags = 0" "cf_KubeAPIBurst demo_flags = 0"
    by (simp_all add: NewProxyServerConfig_def)
  obtain sv where sv: "demo_start = Ok sv" "sv_Client sv = client"
    unfolding NewProxyServerDefault_def flags demo_daemon_config outcome.case c
    by (simp add: NewProxyServer_def NewProxier_def ipaddr_New_def FlagUp_def demo_host_def
        keepalived_NewInstance_def haproxy_NewInstance_def NewConfigurer_def canReadFile_def Let_def)
  have p: "parses_schemes (wd_url_Parse demo_world)" by (auto simp: parses_schemes_def demo_world_def)
  have l: "cg_APIPath (legacy_config demo_world demo_kubeconfig 0 0) = ''/api''" "cg_GroupVersion (legacy_config demo_world demo_kubeconfig 0 0) = Some v1"
    by (simp_all add: legacy_config_def)
  have "server_url demo_world (legacy_config demo_world demo_kubeconfig 0 0) = server_url demo_world demo_kubeconfig"
    by (rule server_url_same) (simp_all add: legacy_config_def)
  with connected [OF daemon_client_connects [OF c demo_world_simps(1,2)] l]
  have "u_Scheme (rc_base (cn_client (cl_RESTClient client))) = ''http''" by (auto simp: demo_world_simps(3))
  then have s: "u_Scheme (rc_base (cn_client (cl_RESTClient (sv_Client sv)))) \<noteq> ''https''" by (simp add: sv(2))
  from credentials_only_over_TLS [OF sv(1) demo_world_simps(1) p s, of "\<lparr>hq_Method = ''GET'', hq_URL = ''/'', hq_Header = []\<rparr>"] sv(1)
  show ?thesis by (auto simp: Transport.Header_Get_def gm_get_def demo_world_def)
qed

end
