(* ===== verification/CrashSafe.thy ===== *)
theory CrashSafe
  imports Config
begin

text \<open>
  \<open>WriteConfig\<close> of \<open>util/config/configurer.go\<close> as a state machine over its system calls, for what a crash in the middle leaves
  behind. The definitions of \<open>Config\<close> treat a call as one step with a possibly short write; here every byte count of a write is a state
  of its own. \<open>WriteConfig_stops_at_a_step\<close> connects the two: each result of the former is a state of the latter.
\<close>

section \<open>Replacing a file, one system call after the other\<close>

text \<open>\<open>InBackup old n\<close>: the old contents are read and \<open>n\<close> bytes of them are in the backup file. \<open>InTmp n\<close>: \<open>n\<close> bytes of the new contents
  are in the temporary file. A process that is killed, or whose calls fail, stops in one of these stages.\<close>

datatype stage = Idle | InBackup string nat | InTmp nat | Done

definition put :: "string \<Rightarrow> string \<Rightarrow> machine \<Rightarrow> machine" where
  "put path content m = m\<lparr>files := (files m)(path \<mapsto> content)\<rparr>"

lemma put_simps [simp]:
  "files (put p x m) = (files m)(p \<mapsto> x)" "scripts_run (put p x m) = scripts_run m" "put p y (put p x m) = put p y m"
  by (simp_all add: put_def)

inductive write_step :: "Configurer \<Rightarrow> string \<Rightarrow> machine \<times> stage \<Rightarrow> machine \<times> stage \<Rightarrow> bool" for c :: Configurer and bs :: string where
  open_backup: "files m (configFilePath c) = Some old \<Longrightarrow> write_step c bs (m, Idle) (put (backup_path c) [] m, InBackup old 0)"
| write_backup: "n < n' \<Longrightarrow> n' \<le> length old \<Longrightarrow>
    write_step c bs (m, InBackup old n) (put (backup_path c) (take n' old) m, InBackup old n')"
| open_tmp: "n = length old \<Longrightarrow> write_step c bs (m, InBackup old n) (put (tmp_path c) [] m, InTmp 0)"
| write_tmp: "n < n' \<Longrightarrow> n' \<le> length bs \<Longrightarrow> write_step c bs (m, InTmp n) (put (tmp_path c) (take n' bs) m, InTmp n')"
| rename_tmp: "n = length bs \<Longrightarrow> files m (tmp_path c) = Some content \<Longrightarrow>
    write_step c bs (m, InTmp n) (m\<lparr>files := (files m)(tmp_path c := None, configFilePath c \<mapsto> content)\<rparr>, Done)"

inductive_cases write_step_cases: "write_step c bs (m, st) (m', st')"

definition stage_inv :: "Configurer \<Rightarrow> string \<Rightarrow> machine \<Rightarrow> machine \<times> stage \<Rightarrow> bool" where
  "stage_inv c bs m0 s \<longleftrightarrow>
     (let m = fst s in
      scripts_run m = scripts_run m0 \<and>
      (\<forall>path. path \<notin> {configFilePath c, backup_path c, tmp_path c} \<longrightarrow> files m path = files m0 path) \<and>
      (case snd s of
         Idle \<Rightarrow> m = m0
       | InBackup old n \<Rightarrow> n \<le> length old \<and> files m0 (configFilePath c) = Some old \<and> files m (configFilePath c) = Some old \<and>
           files m (backup_path c) = Some (take n old)
       | InTmp n \<Rightarrow> n \<le> length bs \<and> files m (configFilePath c) = files m0 (configFilePath c) \<and>
           files m (backup_path c) = files m0 (configFilePath c) \<and> files m (tmp_path c) = Some (take n bs)
       | Done \<Rightarrow> files m (configFilePath c) = Some bs \<and> files m (backup_path c) = files m0 (configFilePath c) \<and> files m (tmp_path c) = None))"

lemma write_step_inv: "write_step c bs s t \<Longrightarrow> stage_inv c bs m0 s \<Longrightarrow> stage_inv c bs m0 t"
proof (induction rule: write_step.induct)
  case (rename_tmp n m content)
  then show ?case by (simp add: stage_inv_def Let_def)
qed (auto simp: stage_inv_def Let_def)

lemma write_steps_inv: "(write_step c bs)\<^sup>*\<^sup>* (m, Idle) s \<Longrightarrow> stage_inv c bs m s"
  by (induction rule: rtranclp_induct) (auto simp: stage_inv_def [of _ _ _ "(m, Idle)"] intro: write_step_inv)

text \<open>Every end of the atomic \<open>WriteConfig\<close>, with failing and short writes, is a state of these steps.\<close>

lemma backup_steps:
  assumes "files m (configFilePath c) = Some old" "n \<le> length old"
  shows "(write_step c bs)\<^sup>*\<^sup>* (m, Idle) (put (backup_path c) (take n old) m, InBackup old n)"
proof -
  have start: "(write_step c bs)\<^sup>*\<^sup>* (m, Idle) (put (backup_path c) [] m, InBackup old 0)"
    by (rule r_into_rtranclp) (rule open_backup [OF assms(1)])
  show ?thesis
  proof (cases "n = 0")
    case False
    with write_backup [of 0 n old c bs "put (backup_path c) [] m"] assms(2) start show ?thesis
      by (auto intro: rtranclp.rtrancl_into_rtrancl)
  qed (use start in simp)
qed

lemma tmp_steps:
  assumes "files m (configFilePath c) = Some old" "n \<le> length bs"
  shows "(write_step c bs)\<^sup>*\<^sup>* (m, Idle) (put (tmp_path c) (take n bs) (put (backup_path c) old m), InTmp n)"
proof -
  let ?m = "put (backup_path c) old m"
  have start: "(write_step c bs)\<^sup>*\<^sup>* (m, Idle) (put (tmp_path c) [] ?m, InTmp 0)"
    using backup_steps [OF assms(1), of "length old" bs] open_tmp [of "length old" old c bs ?m] by (auto intro: rtranclp.rtrancl_into_rtrancl)
  show ?thesis
  proof (cases "n = 0")
    case False
    with write_tmp [of 0 n bs c "put (tmp_path c) [] ?m"] assms(2) start show ?thesis by (auto intro: rtranclp.rtrancl_into_rtrancl)
  qed (use start in simp)
qed

lemma rename_steps:
  assumes "files m (configFilePath c) = Some old"
  shows "(write_step c bs)\<^sup>*\<^sup>* (m, Idle)
    (m\<lparr>files := (files m)(backup_path c \<mapsto> old, tmp_path c := None, configFilePath c \<mapsto> bs)\<rparr>, Done)"
proof -
  define m1 where "m1 = put (tmp_path c) bs (put (backup_path c) old m)"
  define m2 where "m2 = m1\<lparr>files := (files m1)(tmp_path c := None, configFilePath c \<mapsto> bs)\<rparr>"
  have "(write_step c bs)\<^sup>*\<^sup>* (m, Idle) (m1, InTmp (length bs))"
    using tmp_steps [OF assms, of "length bs" bs] by (simp add: m1_def)
  moreover have "write_step c bs (m1, InTmp (length bs)) (m2, Done)" unfolding m2_def by (rule rename_tmp) (simp_all add: m1_def)
  ultimately have "(write_step c bs)\<^sup>*\<^sup>* (m, Idle) (m2, Done)" by (rule rtranclp.rtrancl_into_rtrancl)
  moreover have "m2 = m\<lparr>files := (files m)(backup_path c \<mapsto> old, tmp_path c := None, configFilePath c \<mapsto> bs)\<rparr>"
    by (simp add: m2_def m1_def put_def fun_upd_twist)
  ultimately show ?thesis by simp
qed

theorem WriteConfig_stops_at_a_step:
  "\<exists>st. (write_step c bs)\<^sup>*\<^sup>* (m, Idle) (fst (WriteConfig E m c bs), st) \<and> (st = Done \<longleftrightarrow> snd (WriteConfig E m c bs) = Ok ())"
proof (cases "files m (configFilePath c)")
  case None
  then show ?thesis by (intro exI [of _ Idle]) (simp add: WriteConfig_def createConfigBackup_def ReadFile_def)
next
  case (Some old)
  note backup = backup_steps [OF Some] and tmp = tmp_steps [OF Some]
  show ?thesis
  proof (cases "os_can_open E (configFilePath c)")
    case False
    then show ?thesis by (intro exI [of _ Idle]) (simp add: WriteConfig_def createConfigBackup_def ReadFile_def Some)
  next
    case True
    have take_min: "take (min n (length xs)) xs = take n xs" for n and xs :: string by (metis min_def nat_le_linear take_all)
    consider "os_write E (backup_path c) = OpenFails" | n where "os_write E (backup_path c) = ShortWrite n"
      | "os_write E (backup_path c) = WriteOk" by (cases "os_write E (backup_path c)") auto
    then show ?thesis
    proof cases
      case 1
      then show ?thesis by (intro exI [of _ Idle]) (simp add: WriteConfig_def createConfigBackup_def ReadFile_def WriteFile_def Some True)
    next
      case 2
      from backup [of "min n (length old)" bs] 2 show ?thesis
        by (intro exI [of _ "InBackup old (min n (length old))"])
          (simp add: WriteConfig_def createConfigBackup_def ReadFile_def WriteFile_def Some True take_min put_def)
    next
      case 3
      note full = backup [of "length old" bs]
      consider "os_write E (tmp_path c) = OpenFails" | n where "os_write E (tmp_path c) = ShortWrite n"
        | "os_write E (tmp_path c) = WriteOk" "\<not> os_can_rename E (tmp_path c) (configFilePath c)"
        | "os_write E (tmp_path c) = WriteOk" "os_can_rename E (tmp_path c) (configFilePath c)"
        by (cases "os_write E (tmp_path c)") auto
      then show ?thesis
      proof cases
        case 1
        with full 3 show ?thesis
          by (intro exI [of _ "InBackup old (length old)"])
            (simp add: WriteConfig_def createConfigBackup_def ReadFile_def WriteFile_def Some True put_def)
      next
        case 2
        from tmp [of "min n (length bs)" bs] 2 3 show ?thesis
          by (intro exI [of _ "InTmp (min n (length bs))"])
            (simp add: WriteConfig_def createConfigBackup_def ReadFile_def WriteFile_def Some True take_min put_def)
      next
        case 31: 3
        from tmp [of "length bs" bs] 31 3 show ?thesis
          by (intro exI [of _ "InTmp (length bs)"])
            (simp add: WriteConfig_def createConfigBackup_def file_ops Some True put_def)
      next
        case 4
        from rename_steps [OF Some, of bs] 4 3 show ?thesis
          by (intro exI [of _ Done])
            (simp add: WriteConfig_def createConfigBackup_def file_ops Some True put_def fun_upd_twist)
      qed
    qed
  qed
qed

text \<open>Several writes one after the other, each of which may stop anywhere.\<close>

inductive cut_writes :: "Configurer \<Rightarrow> machine \<Rightarrow> string list \<Rightarrow> machine \<Rightarrow> bool" for c :: Configurer where
  cut_none: "cut_writes c m [] m"
| cut_more: "(write_step c bs)\<^sup>*\<^sup>* (m, Idle) (m1, st) \<Longrightarrow> cut_writes c m1 bss m2 \<Longrightarrow> cut_writes c m (bs # bss) m2"

lemma stage_inv_config:
  "stage_inv c bs m0 (m, st) \<Longrightarrow> files m (configFilePath c) = (if st = Done then Some bs else files m0 (configFilePath c))"
  by (cases st) (simp_all add: stage_inv_def)

text \<open>C17: a crash never leaves a damaged configuration. Wherever the writes of a configuration file are cut off, byte for byte, and however
  many are begun after each other, the file holds its first contents or the whole of one of the contents written. When a write is cut off
  after its backup is complete, the backup holds what the file held before, and no other file is touched.\<close>

theorem crash_leaves_a_whole_file:
  assumes "cut_writes c m bss m1" "(write_step c bs)\<^sup>*\<^sup>* (m1, Idle) (m2, st)"
  shows "files m2 (configFilePath c) \<in> insert (files m (configFilePath c)) (Some ` set (bss @ [bs])) \<and>
    ((\<exists>n. st = InTmp n) \<or> st = Done \<longrightarrow> files m2 (backup_path c) = files m1 (configFilePath c)) \<and>
    (\<forall>path. path \<notin> {configFilePath c, backup_path c, tmp_path c} \<longrightarrow> files m2 path = files m path)"
proof -
  have before: "files m1 (configFilePath c) \<in> insert (files m (configFilePath c)) (Some ` set bss) \<and>
      (\<forall>path. path \<notin> {configFilePath c, backup_path c, tmp_path c} \<longrightarrow> files m1 path = files m path)"
    using assms(1)
  proof (induction rule: cut_writes.induct)
    case (cut_more bs m m1 st bss m2)
    from write_steps_inv [OF cut_more(1)] have inv: "stage_inv c bs m (m1, st)" .
    from inv have "\<forall>path. path \<notin> {configFilePath c, backup_path c, tmp_path c} \<longrightarrow> files m1 path = files m path"
      by (simp add: stage_inv_def Let_def)
    with cut_more.IH stage_inv_config [OF inv] show ?case by (auto split: if_split_asm)
  qed simp
  have inv: "stage_inv c bs m1 (m2, st)" by (rule write_steps_inv [OF assms(2)])
  show ?thesis
  proof (intro conjI)
    show "files m2 (configFilePath c) \<in> insert (files m (configFilePath c)) (Some ` set (bss @ [bs]))"
      using conjunct1 [OF before] by (simp add: stage_inv_config [OF inv]) blast
    show "(\<exists>n. st = InTmp n) \<or> st = Done \<longrightarrow> files m2 (backup_path c) = files m1 (configFilePath c)"
      using inv by (cases st) (simp_all add: stage_inv_def)
    from inv have "\<forall>path. path \<notin> {configFilePath c, backup_path c, tmp_path c} \<longrightarrow> files m2 path = files m1 path"
      by (simp add: stage_inv_def Let_def)
    with conjunct2 [OF before]
    show "\<forall>path. path \<notin> {configFilePath c, backup_path c, tmp_path c} \<longrightarrow> files m2 path = files m path" by simp
  qed
qed

theorem crash_leaves_a_whole_file_witness:
  "let c = \<lparr>configFilePath = ''h''\<rparr>; m = \<lparr>files = [''h'' \<mapsto> ''old''], scripts_run = []\<rparr>;
       m2 = put (tmp_path c) ''ne'' (put (backup_path c) ''old'' m)
   in (write_step c ''new'')\<^sup>*\<^sup>* (m, Idle) (m2, InTmp 2) \<and> files m2 ''h'' = Some ''old'' \<and> files m2 ''h.bak'' = Some ''old''"
proof -
  let ?c = "\<lparr>configFilePath = ''h''\<rparr>" and ?m = "\<lparr>files = [''h'' \<mapsto> ''old''], scripts_run = []\<rparr>"
  let ?m2 = "put (tmp_path ?c) ''ne'' (put (backup_path ?c) ''old'' ?m)"
  have steps: "(write_step ?c ''new'')\<^sup>*\<^sup>* (?m, Idle) (?m2, InTmp 2)" using tmp_steps [of ?m ?c "''old''" 2 "''new''"] by simp
  from crash_leaves_a_whole_file [OF cut_none steps] have "files ?m2 (backup_path ?c) = Some ''old''" by simp
  with steps show ?thesis by (simp add: Let_def)
qed

end
