(* ===== verification/Spec2Isabelle.thy ===== *)
theory Spec2Isabelle
  imports Prelude Store EventQueue EventQueueSync Backoff Fifo RateLimiter Abool Types Config IpAddr Template
    Proxier RouteSpec Routing MapOrder Commit Controller Resync Server Reflector Indexer Strconv Selector Bucket UrlBackoff
    Request ApiClient StreamWatch Wait Pflag Healthz Cli TextTemplate Shipped Daemon Transport ClientConfig ClientCmd CrashSafe
begin

text \<open>
  kube2haproxy: a daemon that keeps HAProxy and Keepalived in step with the services and endpoints of a
  Kubernetes cluster.

  \<^bold>\<open>The program.\<close> \<open>main.go\<close> reads the flags and builds the server of \<open>app/\<close>. Two reflectors list and watch services and
  endpoints through the vendored API client and feed two event queues (\<open>util/cache/eventqueue.go\<close>, over the
  vendored \<open>pkg/client/cache\<close> store). Two goroutines of the controller
  (\<open>proxy/controller/controller.go\<close>) pop events and hand them to the proxier (\<open>proxy/template/proxier.go\<close>), which
  keeps a table of virtual IPs and a route table and asks for commits. A commit is a rate limited function
  (\<open>util/ratelimiter\<close>, over \<open>util/flowcontrol\<close> and the vendored FIFO) that renders a template
  (\<open>util/template\<close>) with the tables and the addresses of the device (\<open>util/ipaddr\<close>), replaces the configuration
  file (\<open>util/config\<close>) and runs a reload script (\<open>util/haproxy\<close>, \<open>util/keepalived\<close>). Only a MASTER
  (\<open>util/abool\<close>) commits; Keepalived switches the state with signals.

  \<^bold>\<open>The theories of the daemon.\<close>
  \<^item> \<open>Prelude\<close>: errors and outcomes (error, panic, end of the process), Go maps as association lists,
    reachable states and the locale \<open>invariant_system\<close>.
  \<^item> \<open>EventQueue\<close>, \<open>EventQueueSync\<close>: the queue with its two matrices; what a consumer knows after popping
    everything, proved in \<open>kstore_laws\<close> and \<open>fresh_kstore\<close>, interpreted as \<open>sync\<close>. The system of \<open>EventQueueSync\<close> allows all
    that the watch protocol allows; an add over a queued deletion panics there as in the code, and the producer has then crashed until
    the next list.
  \<^item> \<open>Backoff\<close>, \<open>Fifo\<close>, \<open>RateLimiter\<close>: 64-bit durations, the one-slot queue (locale \<open>single_slot\<close>, interpreted as
    \<open>slot\<close>), and the system of requests and iterations (\<open>rls\<close>), which records every run of the handler, also those that panic.
  \<^item> \<open>Abool\<close> (locale \<open>flag\<close>), \<open>Types\<close>, \<open>Config\<close> (locale \<open>reloadable\<close>, interpreted for both instances), \<open>CrashSafe\<close> (the
    replacement of a file cut off at any byte, and that every run of \<open>WriteConfig\<close> is such a cut), \<open>IpAddr\<close>, \<open>Template\<close>.
  \<^item> \<open>Proxier\<close>: state, handlers and helpers. \<open>RouteSpec\<close>: the abstract tables, and for each handler the lemma that
    it implements them, keeps the invariant \<open>px_ready\<close> and queues the right commits. \<open>Routing\<close>: sequences of
    events and convergence (locale \<open>router\<close>, interpreted as \<open>px\<close>). \<open>MapOrder\<close>: the handlers that loop over maps once more, with the order
    of each visit as an argument. \<open>Commit\<close>: rendering, reloading, MASTER.
  \<^item> \<open>Controller\<close>: the critical sections of the two goroutines and their interleaving \<open>ctl_step\<close>. \<open>Resync\<close>: the
    invariant and the measure of a re-list. \<open>Daemon\<close>: the goroutine of the HAProxy commits beside them (\<open>daemon_step\<close>), in the
    single steps of \<open>handleOne\<close> and of the commit (popping the request, testing the backoff, reading the template, reading the
    addresses, rendering under the lock, installing), and the invariant that links the configuration file to the route table. \<open>Server\<close>: options,
    construction, signals. \<open>Cli\<close>: \<open>main\<close> from the command line to the server, and the HTTP endpoints of \<open>Run\<close>.
  \<^item> \<open>TextTemplate\<close>: lexing, parsing and executing the part of Go's \<open>text/template\<close> that the templates use. \<open>Shipped\<close>: the texts of
    \<open>templates/\<close>, and the configurations they render to.

  \<^bold>\<open>The theories of the vendored packages on its path.\<close>
  \<^item> \<open>Store\<close>: \<open>threadSafeMap\<close>, \<open>cache\<close> and the key functions; locale \<open>kstore_laws\<close>, interpreted as \<open>cs\<close>. \<open>Indexer\<close>: the same store
    with indices, and sets of strings (locale \<open>string_sets\<close>, interpreted as \<open>ss\<close>).
  \<^item> \<open>Reflector\<close>: the list and watch loop that feeds an event queue. \<open>StreamWatch\<close>: the goroutine that decodes a watch, as a step
    relation. \<open>Wait\<close>: the loops that goroutines run in.
  \<^item> \<open>Strconv\<close>, \<open>Selector\<close>, \<open>Request\<close>, \<open>ApiClient\<close>: numbers as text, field selectors, building and sending requests of the API
    client, and what they come down to. \<open>UrlBackoff\<close>: its backoff (locale \<open>backoff_manager\<close>, interpreted as \<open>nb\<close> and \<open>ub\<close>).
    \<open>Bucket\<close>: its throttle. \<open>Transport\<close>: TLS settings, the cache of transports and the headers with credentials. \<open>ClientConfig\<close>: from
    the loaded configuration and the flags to the client.
  \<^item> \<open>Mergo\<close>: the reflective merge of structs on a datatype of reflected values, and what it means for typed records (locale \<open>mergeable\<close>,
    interpreted for the structs of a kubeconfig and for the configuration of the client). \<open>Kubeconfig\<close>: the kubeconfig format, loading,
    merging and embedding of files (\<open>pkg/client/unversioned/clientcmd/loader.go\<close> and \<open>api/\<close>). \<open>KubeconfigLaws\<close>: what
    loading promises. \<open>ClientCmd\<close>: validation, the choice of context, user and cluster, the in-cluster configuration, deferred loading, and
    what the flags of the daemon select.
  \<^item> \<open>Pflag\<close>: flag sets and the command line parser. \<open>Healthz\<close>: health checks and the request router.

  \<^bold>\<open>Conventions.\<close> A method that holds a lock from entry to exit is one step. \<open>None\<close> is a call that blocks; panics,
  errors and \<open>glog.Fatalf\<close> are values of \<open>outcome\<close>. Go leaves the order of \<open>range\<close> over a map open: an association
  list fixes one order, the refinement lemmas speak of \<open>map_of\<close>, which does not see it, and \<open>MapOrder\<close> shows that the handlers of the proxier
  come to the same result in every order. Time is an argument.
  Log calls are left out. No fuel is used: every loop is structural or has its measure, and waiting is \<open>None\<close>.

  \<^bold>\<open>What is shown.\<close> C1 to C4 in this theory span the queues, the controller, the proxier, the commits and the template: after a re-list
  any schedule of the goroutines ends, leaves the routes exact, and brings HAProxy's file to the rendering of the route table. C5
  to C8 and C35 are the proxier's contract, C9 to C11 the event queue's, C12 and C13 the reflector's, C14 and C15 the rate
  limiter's, C16 to C18 and C20 the commits' (C17 under crashes), C19 that of the shipped templates, C21 the gating of commits by the lists, C22
  the way from the command line to the server, C28 the indices of the store. C23 to C27 are the contract of the kubeconfig: which server and identity the
  flags select, that credentials are only used over TLS, which file decides what, where its references point, and that the typed merges
  are the reflective ones. C29, C30 and C32 to C34 are the contract of the API client (it talks to
  the configured server with the configured trust, its requests end, go where they should and are throttled as
  configured), C31 that of a watch stream. C36 to C40 pin down behaviour at the edges: which kubeconfigs panic, and what a re-list, a headless
  service at the end of a list, a promotion or a broken template does. Further theorems that are not numbered cover the remaining operations
  (updates and deletions of services, reloading, construction, signals, flag spellings, endpoints, selectors, waiting
  loops, backoff windows, credentials in headers, stopped watches, full buckets, missing contexts, minified and flattened kubeconfigs).

  \<^bold>\<open>Parameters.\<close> The operating system (\<open>os_env\<close>), netlink (\<open>netlink\<close>), the template engine (\<open>engine\<close>, which \<open>text_template\<close>
  instantiates for the shipped templates), the HTTP transport, the parsing and printing of URLs and media types (\<open>lib\<close>, \<open>world\<close>), X509,
  the codec of API objects, the YAML decoder and the environment (\<open>cmd_env\<close>), floating point and duration texts (\<open>conv\<close>) and the API
  server are arguments. The goroutines that run during the sleep of \<open>SetMaster\<close> are functions.

  \<^bold>\<open>Not modelled.\<close> HTTP and JSON themselves, the conversion of API objects (generated code), request bodies and streams (the daemon
  only reads), writing kubeconfig files, logging, usage texts of flags, and the shell scripts. Of the commits only those of
  HAProxy are interleaved with the controller in \<open>Daemon\<close>, and the addresses of the device do not change during such a run.
  The other vendored packages are not called by the daemon.
\<close>

section \<open>The whole path from a list to the routes\<close>

definition relisted ::
  "ProxyController \<Rightarrow> APIService list \<Rightarrow> string \<Rightarrow> APIEndpoints list \<Rightarrow> string \<Rightarrow> ctl_sys" where
  "relisted c svcs rv epss rv' =
     \<lparr>ctl = c\<lparr>ct_services := fst (eq_Replace (cache_store ServiceKey) (ct_services c) svcs rv),
              ct_endpoints := fst (eq_Replace (cache_store EndpointsKey) (ct_endpoints c) epss rv')\<rparr>,
      svc_hand = None, eps_hand = None\<rparr>"

text \<open>A controller whose queues were built by \<open>New\<close> and whose proxier is ready.\<close>

definition lawful :: "ProxyController \<Rightarrow> bool" where
  "lawful c \<longleftrightarrow> px_ready (ct_Proxier c) \<and> cache_invar (eq_store (ct_services c)) \<and> eq_keyFn (ct_services c) = ServiceKey \<and>
     cache_invar (eq_store (ct_endpoints c)) \<and> eq_keyFn (ct_endpoints c) = EndpointsKey"

definition distinct_keys :: "'o KeyFunc \<Rightarrow> 'o list \<Rightarrow> bool" where
  "distinct_keys keyFn objs \<longleftrightarrow> (case obj_keys keyFn objs of Some ks \<Rightarrow> distinct ks | None \<Rightarrow> False)"

lemma relisted_resync:
  assumes "lawful c" "distinct_keys ServiceKey svcs" "distinct_keys EndpointsKey epss"
  shows "resync (routes_of (ct_Proxier c)) svcs epss (relisted c svcs rv epss rv')"
proof (rule resyncI [of _ svcs epss "[]"])
  show "holds ServiceKey (ct_services (ctl (relisted c svcs rv epss rv'))) svcs"
    using assms holds_replace [of "ct_services c" ServiceKey svcs]
    by (auto simp: relisted_def lawful_def distinct_keys_def split: option.splits)
  show "holds EndpointsKey (ct_endpoints (ctl (relisted c svcs rv epss rv'))) epss"
    using assms holds_replace [of "ct_endpoints c" EndpointsKey epss]
    by (auto simp: relisted_def lawful_def distinct_keys_def split: option.splits)
qed (use assms(1) in \<open>simp_all add: relisted_def lawful_def in_svc_hand_def in_eps_hand_def\<close>)

lemma controller_New_lawful: "px_ready p \<Longrightarrow> lawful (controller_New p)"
  by (simp add: lawful_def controller_New_def NewEventQueue_def NewStore_invar)

lemma resync_serves:
  assumes "lawful c" "distinct_keys ServiceKey svcs" "distinct_keys EndpointsKey epss"
    and "list_all (\<lambda>s. wf_event (SvcEvent Modified s)) svcs" "list_all (\<lambda>e. wf_event (EpsEvent Modified e)) epss"
    and "resync (routes_of (ct_Proxier c)) svcs epss t" "idle t"
    and "s \<in> set svcs" "e \<in> set epss" "routed_port s pt" "eps_Namespace e = svc_Namespace s" "eps_Name e = svc_Name s"
  shows "gm_get (px_routeTable (ct_Proxier (ctl t))) (svc_key s pt) = Some (wanted_unit s pt e)"
proof -
  have "names_ok (routes_of (ct_Proxier c))"
    using assms(1) by (simp add: lawful_def px.ready_names)
  moreover have "distinct (map (\<lambda>s. (svc_Namespace s, svc_Name s)) svcs)" "distinct (map (\<lambda>e. (eps_Namespace e, eps_Name e)) epss)"
    using assms(2,3) keys_names ekeys_names by (auto simp: distinct_keys_def split: option.splits)
  ultimately have "routes_of (ct_Proxier (ctl t)) (svc_key s pt) = Some (wanted_unit s pt e)"
    using assms(4-12) by (intro resync_routes) (auto simp: list_all_iff)
  then show ?thesis by (simp add: routes_of_def gm_get_def)
qed

text \<open>C3: end to end. Whatever state a ready daemon is in, when both reflectors deliver a fresh list with
  distinct keys and colon-free names, and the two goroutines of the controller then work off the queues, in any
  interleaving, the following ports are routed with the address and port of their service and exactly its ready
  endpoints: the ports, not UDP and with distinct colon-free names, of the listed services that have a cluster IP and
  endpoints of the same name in the list.\<close>

theorem relist_heals:
  assumes "lawful c" "distinct_keys ServiceKey svcs" "distinct_keys EndpointsKey epss"
    and "list_all (\<lambda>s. wf_event (SvcEvent Modified s)) svcs" "list_all (\<lambda>e. wf_event (EpsEvent Modified e)) epss"
    and "run_steps ctl_step (relisted c svcs rv epss rv') ls = Some t" "idle t"
    and "s \<in> set svcs" "e \<in> set epss" "routed_port s pt" "eps_Namespace e = svc_Namespace s" "eps_Name e = svc_Name s"
  shows "gm_get (px_routeTable (ct_Proxier (ctl t))) (svc_key s pt) =
    Some \<lparr>su_Name = svc_key s pt, su_ServiceInfo = service_of s pt,
          su_Endpoints = ready_endpoints (eps_Subsets e) (sp_Name pt)\<rparr>"
  using resync_serves [OF assms(1-5) conjunct1 [OF resync_run [OF relisted_resync [OF assms(1-3)] assms(6)]] assms(7-12)]
  by (simp add: wanted_unit_def)

lemma demo_relist:
  "lawful (controller_New demo_proxier)" "distinct_keys ServiceKey [demo_service]" "distinct_keys EndpointsKey [demo_endpoints]"
  "wf_event (SvcEvent Modified demo_service)" "wf_event (EpsEvent Modified demo_endpoints)"
  "routed_port demo_service \<lparr>sp_Name = ''http'', sp_Protocol = ''TCP'', sp_Port = 80\<rparr>"
  using controller_New_lawful [OF demo_ready]
  by (simp_all add: distinct_keys_def ServiceKey_def EndpointsKey_def MetaNamespaceKeyFunc_def demo_service_def
      demo_endpoints_def wf_event_def colon_free_def routed_port_def ProtocolUDP_def IsServiceIPSet_def)

theorem relist_heals_witness:
  "\<exists>ls t. run_steps ctl_step (relisted (controller_New demo_proxier) [demo_service] ''7'' [demo_endpoints] ''8'') ls = Some t \<and>
    idle t \<and> map_option su_Endpoints (gm_get (px_routeTable (ct_Proxier (ctl t))) ''default:web:http'') =
      Some [\<lparr>e_IP = ''172.16.0.1'', e_Port = 8080\<rparr>, \<lparr>e_IP = ''172.16.0.2'', e_Port = 8080\<rparr>]"
proof -
  obtain ls t where t: "run_steps ctl_step (relisted (controller_New demo_proxier) [demo_service] ''7'' [demo_endpoints] ''8'') ls = Some t" "idle t"
    using resync_finishes [OF relisted_resync [OF demo_relist(1-3)]] by blast
  let ?pt = "\<lparr>sp_Name = ''http'', sp_Protocol = ''TCP'', sp_Port = 80\<rparr>"
  have e: "svc_key demo_service ?pt = ''default:web:http''"
    "ready_endpoints (eps_Subsets demo_endpoints) ''http'' =
      [\<lparr>e_IP = ''172.16.0.1'', e_Port = 8080\<rparr>, \<lparr>e_IP = ''172.16.0.2'', e_Port = 8080\<rparr>]"
    "eps_Namespace demo_endpoints = svc_Namespace demo_service" "eps_Name demo_endpoints = svc_Name demo_service"
    by (simp_all add: demo_service_def demo_endpoints_def ServicePortName_String_def ready_endpoints_def)
  from relist_heals [OF demo_relist(1-3) _ _ t, of demo_service demo_endpoints ?pt] demo_relist(4-6) e t show ?thesis
    by (intro exI [of _ ls] exI [of _ t]) simp
qed

text \<open>C4: the work after a re-list ends. No schedule of the two goroutines takes more than two steps per listed
  object, no step ever blocks while there is work left, and every partial schedule can be completed until both
  queues are empty and nothing is in hand.\<close>

theorem relist_terminates:
  assumes "lawful c" "distinct_keys ServiceKey svcs" "distinct_keys EndpointsKey epss"
    and "run_steps ctl_step (relisted c svcs rv epss rv') ls = Some t"
  shows "length ls \<le> 2 * (length svcs + length epss) \<and>
    (\<not> idle t \<longrightarrow> (\<exists>l u. ctl_step t l = Some u)) \<and>
    (\<exists>ls' u. run_steps ctl_step t ls' = Some u \<and> idle u)"
proof -
  note inv = relisted_resync [OF assms(1-3)]
  let ?s = "relisted c svcs rv epss rv'"
  have hs: "holds ServiceKey (ct_services (ctl ?s)) svcs" "holds EndpointsKey (ct_endpoints (ctl ?s)) epss"
    using assms(1-3) holds_replace [of "ct_services c" ServiceKey svcs] holds_replace [of "ct_endpoints c" EndpointsKey epss]
    by (auto simp: relisted_def lawful_def distinct_keys_def split: option.splits)
  have "todo ?s = 2 * (length svcs + length epss)"
    using holds_queue [OF hs(1)] holds_queue [OF hs(2)]
    by (simp add: todo_def in_svc_hand_def in_eps_hand_def relisted_def)
  with resync_run [OF inv assms(4)] resync_progress resync_finishes show ?thesis by fastforce
qed

theorem relist_terminates_witness:
  "\<exists>ls u. run_steps ctl_step (relisted (controller_New demo_proxier) [demo_service] ''7'' [demo_endpoints] ''8'') ls = Some u \<and> idle u"
  using relist_terminates [OF demo_relist(1-3), of "''7''" "''8''" "[]"] by simp

section \<open>The whole path from a list to HAProxy\<close>

definition listed_daemon ::
  "ProxyController \<Rightarrow> APIService list \<Rightarrow> string \<Rightarrow> APIEndpoints list \<Rightarrow> string \<Rightarrow> machine \<Rightarrow> daemon" where
  "listed_daemon c svcs rv epss rv' m = \<lparr>dm_sys = relisted c svcs rv epss rv', dm_machine = m, dm_stage = Waiting\<rparr>"

lemma listed_daemon_inv:
  assumes "lawful c" "distinct_keys ServiceKey svcs" "distinct_keys EndpointsKey epss" "svcs \<noteq> []" "epss \<noteq> []"
    and "ab_IsSet (px_master (ct_Proxier c))" "serves H k ips (ct_Proxier c) m"
  shows "daemon_inv H k ips (routes_of (ct_Proxier c)) svcs epss (listed_daemon c svcs rv epss rv' m)"
proof -
  let ?s = "relisted c svcs rv epss rv'"
  note r = relisted_resync [OF assms(1-3), of rv rv']
  have hs: "holds ServiceKey (ct_services (ctl ?s)) svcs" "holds EndpointsKey (ct_endpoints (ctl ?s)) epss"
    using assms(1-3) holds_replace [of "ct_services c" ServiceKey svcs] holds_replace [of "ct_endpoints c" EndpointsKey epss]
    by (auto simp: relisted_def lawful_def distinct_keys_def split: option.splits)
  then have "eq_queue (ct_services (ctl ?s)) \<noteq> []" "eq_queue (ct_endpoints (ctl ?s)) \<noteq> []"
    using holds_empty assms(4,5) by blast+
  then have "lists_marked svcs epss ?s" "\<not> idle ?s" by (simp_all add: lists_marked_def idle_def)
  with r assms(6,7) show ?thesis by (simp add: daemon_inv_def listed_daemon_def relisted_def)
qed

text \<open>A host with the shipped template, and a device with the address of the service.\<close>

definition shipped_host :: "Addr list host" where
  "shipped_host = demo_host\<lparr>h_route_engine := text_template data_val\<rparr>"

definition bound_addrs :: "Addr list" where
  "bound_addrs = [\<lparr>ad_IP = IPv4 10 0 0 1, ad_MaskOnes = 32\<rparr>]"

lemma shipped_host_serves:
  "serves shipped_host bound_addrs [(''10.0.0.1'', True)] (ct_Proxier (controller_New demo_proxier)) (demo_machine haproxy_cfg_template)"
proof -
  have "ip_String (IPv4 10 0 0 1) = ''10.0.0.1''" by code_simp
  then have "GetAddrs (h_netlink shipped_host) bound_addrs (px_ip demo_proxier) = Inr [(''10.0.0.1'', True)]"
    by (simp add: GetAddrs_def shipped_host_def demo_host_def bound_addrs_def gm_set_def)
  then show ?thesis
    by (simp add: serves_def lets_through_def shipped_host_def demo_host_def demo_machine_def demo_proxier_def controller_New_def
        cfg_path_def ReadFile_def)
qed

lemma demo_listed: "list_all IsServiceIPSet [demo_service]" "ab_IsSet (px_master (ct_Proxier (controller_New demo_proxier)))"
  by (simp_all add: demo_service_def IsServiceIPSet_def controller_New_def demo_proxier_def)



text \<open>C2: the daemon catches up. The proxier is MASTER, the host lets commits through, the template is the
  shipped one, and the two fresh lists have distinct keys, are not empty, and hold only services with a cluster IP.
  However the three goroutines have been scheduled since then, and whatever the time, they can go on until nothing is
  left to do, and HAProxy's file is then the rendering of the route table: no state is reached in which HAProxy can no
  longer be brought up to date.\<close>

theorem daemon_catches_up:
  assumes "lawful c" "distinct_keys ServiceKey svcs" "distinct_keys EndpointsKey epss" "svcs \<noteq> []" "epss \<noteq> []"
    and "list_all IsServiceIPSet svcs" "ab_IsSet (px_master (ct_Proxier c))" "serves H k ips (ct_Proxier c) m"
    and "run_steps (daemon_step H k) (listed_daemon c svcs rv epss rv' m) ls = Some d"
  shows "\<exists>ls' d'. run_steps (daemon_step H k) d ls' = Some d' \<and> list_all (late now) ls' \<and> quiet d' \<and>
    files (dm_machine d') (cfg_path (dm_px d')) = Some (cfg_text ips (dm_px d'))"
proof -
  note inv = daemon_inv_run [OF assms(4-6) listed_daemon_inv [OF assms(1-5,7,8)] assms(9)]
  from catches_up [OF inv assms(4-6), of now] obtain ls' d' where r: "run_steps (daemon_step H k) d ls' = Some d'" "quiet d'" "list_all (late now) ls'"
    by blast
  with quiet_in_sync [OF daemon_inv_run [OF assms(4-6) inv r(1)] r(2)] show ?thesis by blast
qed

theorem daemon_catches_up_witness:
  "\<exists>ls d. run_steps (daemon_step shipped_host bound_addrs)
      (listed_daemon (controller_New demo_proxier) [demo_service] ''7'' [demo_endpoints] ''8'' (demo_machine haproxy_cfg_template)) ls = Some d \<and>
    list_all (late 1000) ls \<and> quiet d"
  using daemon_catches_up [OF demo_relist(1-3) _ _ demo_listed shipped_host_serves, where rv = "''7''" and rv' = "''8''" and ls = "[]" and now = 1000]
  by auto




end
